(* ===== verification/Prelude.thy ===== *)
theory Prelude
  imports Complex_Main "HOL-Library.AList" "HOL-Library.Char_ord" "HOL-Library.List_Lexorder"
    "HOL-Library.Product_Lexorder" "HOL-Library.Word" "HOL-Library.Multiset"
begin

text \<open>
  Shared ground of the development: machine integers, the framework's error variants,
  hash maps as association lists, in-place updates of the first matching element, decimal
  printing, and two locales on state machines that several components instantiate.

  Strings are byte lists (type string), so equality, length and the lexicographic order are
  those of Rust's UTF-8 strings.
\<close>

section \<open>Collections of facts\<close>

named_theorems hmap_simps \<open>lookups and key sets of hash maps after an operation\<close>
named_theorems machine_intros \<open>preservation lemmas of the components' invariants\<close>

section \<open>Machine integers\<close>

type_synonym u32 = "32 word"
type_synonym u64 = "64 word"

definition sat_inc :: "'a::len word \<Rightarrow> 'a word" where
  "sat_inc w = (if w = - 1 then w else w + 1)"

lemma unat_minus_one: "unat (- 1 :: 'a::len word) = 2 ^ LENGTH('a) - 1"
  by (simp add: unsigned_minus_1_eq_mask mask_eq_exp_minus_1)

lemma unat_sat_inc: "unat (sat_inc (w :: 'a::len word)) = min (unat w + 1) (2 ^ LENGTH('a) - 1)"
proof (cases "w = - 1")
  case True
  then show ?thesis by (simp add: sat_inc_def unat_minus_one)
next
  case False
  then have "unat w \<noteq> 2 ^ LENGTH('a) - 1"
    by (metis unat_minus_one word_unat_eq_iff)
  then have "unat w + 1 < 2 ^ LENGTH('a)"
    using unsigned_less [of w, where 'a = nat] by linarith
  with False show ?thesis by (simp add: sat_inc_def unat_word_ariths)
qed

lemma sat_inc_ge: "w \<le> sat_inc w"
proof -
  have "unat w < 2 ^ LENGTH('a)" by (rule unsigned_less)
  then have "unat w \<le> 2 ^ LENGTH('a) - 1" by linarith
  then show ?thesis unfolding word_le_nat_alt unat_sat_inc by simp
qed

section \<open>Errors\<close>

text \<open>
  The variants of the framework's error type. An error value is a pair of the variant and
  the error site with the arguments of its message; the message text itself is not modelled.
\<close>

datatype error_kind = Io | Json | Config | Registry | Hook | Session | Path
  | Validation | NotFound | Unsupported | Lock

type_synonym ('e, 'a) result = "error_kind \<times> 'e + 'a"

fun bind_result :: "('e + 'a) \<Rightarrow> ('a \<Rightarrow> 'e + 'b) \<Rightarrow> 'e + 'b" where
  "bind_result (Inl e) f = Inl e"
| "bind_result (Inr a) f = f a"

lemma bind_result_Inr_iff:
  "bind_result r f = Inr b \<longleftrightarrow> (\<exists>a. r = Inr a \<and> f a = Inr b)"
  by (cases r) auto

lemma bind_result_Inl_iff:
  "bind_result r f = Inl e \<longleftrightarrow> r = Inl e \<or> (\<exists>a. r = Inr a \<and> f a = Inl e)"
  by (cases r) auto

section \<open>Hash maps\<close>

text \<open>
  A hash map is an association list with distinct keys. The position of an entry is the
  position at which an iteration over the map meets it; no operation promises anything
  about it, so a theorem about every such list covers every iteration order.
\<close>

type_synonym ('k, 'v) hmap = "('k \<times> 'v) list"

abbreviation hget :: "('k, 'v) hmap \<Rightarrow> 'k \<Rightarrow> 'v option" where
  "hget \<equiv> map_of"

abbreviation hput :: "'k \<Rightarrow> 'v \<Rightarrow> ('k, 'v) hmap \<Rightarrow> ('k, 'v) hmap" where
  "hput \<equiv> AList.update"

abbreviation hdel :: "'k \<Rightarrow> ('k, 'v) hmap \<Rightarrow> ('k, 'v) hmap" where
  "hdel \<equiv> AList.delete"

abbreviation hkeys :: "('k, 'v) hmap \<Rightarrow> 'k list" where
  "hkeys m \<equiv> map fst m"

abbreviation hvals :: "('k, 'v) hmap \<Rightarrow> 'v list" where
  "hvals m \<equiv> map snd m"

definition hretain :: "('k \<Rightarrow> 'v \<Rightarrow> bool) \<Rightarrow> ('k, 'v) hmap \<Rightarrow> ('k, 'v) hmap" where
  "hretain P m = filter (\<lambda>(k, v). P k v) m"

definition hmodify :: "'k \<Rightarrow> ('v \<Rightarrow> 'v) \<Rightarrow> ('k, 'v) hmap \<Rightarrow> ('k, 'v) hmap" where
  "hmodify k f m = map (\<lambda>(k', v). (k', if k' = k then f v else v)) m"

definition hmap_ok :: "('k, 'v) hmap \<Rightarrow> bool" where
  "hmap_ok m \<longleftrightarrow> distinct (hkeys m)"

definition hcollect :: "('k \<times> 'v) list \<Rightarrow> ('k, 'v) hmap" where
  "hcollect kvs = foldl (\<lambda>m (k, v). hput k v m) [] kvs"

lemma hmap_ok_Nil [simp, intro]: "hmap_ok []"
  by (simp add: hmap_ok_def)

lemma hput_ok [machine_intros]: "hmap_ok m \<Longrightarrow> hmap_ok (hput k v m)"
  by (simp add: hmap_ok_def distinct_update)

lemma hdel_ok [machine_intros]: "hmap_ok m \<Longrightarrow> hmap_ok (hdel k m)"
  by (simp add: hmap_ok_def distinct_delete)

lemma hkeys_hretain: "hkeys (hretain P m) = map fst (filter (\<lambda>(k, v). P k v) m)"
  by (simp add: hretain_def)

lemma hretain_ok [machine_intros]: "hmap_ok m \<Longrightarrow> hmap_ok (hretain P m)"
  by (simp add: hmap_ok_def hretain_def distinct_map_filter)

lemma hkeys_hmodify [simp]: "hkeys (hmodify k f m) = hkeys m"
  by (induction m) (auto simp: hmodify_def)

lemma hmodify_ok [machine_intros]: "hmap_ok m \<Longrightarrow> hmap_ok (hmodify k f m)"
  by (simp add: hmap_ok_def)

lemma hget_hput [hmap_simps]: "hget (hput k v m) = (hget m)(k \<mapsto> v)"
  by (rule update_conv')

lemma hget_hdel [hmap_simps]: "hget (hdel k m) = (hget m)(k := None)"
  by (rule delete_conv')

lemma hget_hmodify [hmap_simps]:
  "hget (hmodify k f m) k' = (if k' = k then map_option f (hget m k') else hget m k')"
  by (induction m) (auto simp: hmodify_def)

lemma hget_hretain [hmap_simps]:
  assumes "hmap_ok m"
  shows "hget (hretain P m) k = (case hget m k of Some v \<Rightarrow> if P k v then Some v else None | None \<Rightarrow> None)"
  using assms
proof (induction m)
  case Nil
  then show ?case by (simp add: hretain_def)
next
  case (Cons kv m)
  obtain k' v where kv: "kv = (k', v)" by force
  from Cons.prems have fresh: "hget m k' = None"
    by (auto simp: hmap_ok_def kv map_of_eq_None_iff)
  from Cons.prems have ok: "hmap_ok m" by (simp add: hmap_ok_def)
  show ?case using Cons.IH [OF ok] fresh
    by (auto simp: kv hretain_def split: option.splits)
qed

lemma hget_Some_in: "hget m k = Some v \<Longrightarrow> (k, v) \<in> set m"
  by (rule map_of_SomeD)

lemma in_hget_Some: "hmap_ok m \<Longrightarrow> (k, v) \<in> set m \<Longrightarrow> hget m k = Some v"
  by (simp add: hmap_ok_def)

lemma hget_iff_in: "hmap_ok m \<Longrightarrow> hget m k = Some v \<longleftrightarrow> (k, v) \<in> set m"
  using hget_Some_in in_hget_Some by fast

lemma set_hvals: "hmap_ok m \<Longrightarrow> v \<in> set (hvals m) \<longleftrightarrow> (\<exists>k. hget m k = Some v)"
  by (force simp: hget_iff_in)

lemma hget_None_iff: "hget m k = None \<longleftrightarrow> k \<notin> set (hkeys m)"
  by (simp add: map_of_eq_None_iff)

lemma hput_length: "length (hput k v m) = (if k \<in> set (hkeys m) then length m else Suc (length m))"
  by (induction m) auto

lemma hcollect_step:
  "foldl (\<lambda>m (k, v). hput k v m) m0 (kvs @ [(k, v)]) = hput k v (foldl (\<lambda>m (k, v). hput k v m) m0 kvs)"
  by simp

lemma hcollect_snoc [hmap_simps]: "hcollect (kvs @ [(k, v)]) = hput k v (hcollect kvs)"
  by (simp add: hcollect_def)

lemma hcollect_ok [machine_intros, simp]: "hmap_ok (hcollect kvs)"
proof (induction kvs rule: rev_induct)
  case Nil
  then show ?case by (simp add: hcollect_def)
next
  case (snoc kv kvs)
  then show ?case by (cases kv) (simp add: hcollect_snoc hput_ok)
qed

text \<open>Collecting pairs keeps the last value of a key.\<close>

lemma hget_hcollect: "hget (hcollect kvs) = hget (rev kvs)"
proof (induction kvs rule: rev_induct)
  case Nil
  then show ?case by (simp add: hcollect_def)
next
  case (snoc kv kvs)
  then show ?case by (cases kv) (simp add: hmap_simps fun_eq_iff)
qed

lemma hget_hcollect_distinct: "distinct (map fst kvs) \<Longrightarrow> hget (hcollect kvs) = hget kvs"
  unfolding hget_hcollect by (subst map_of_inject_set) (simp_all flip: rev_map)

text \<open>Two association lists of the same map are permutations of each other.\<close>

lemma hmap_same_set:
  assumes "hmap_ok m" "hmap_ok m'" "hget m = hget m'"
  shows "set m = set m'"
  using assms by (simp add: hmap_ok_def map_of_inject_set)

lemma hmap_perm:
  assumes "hmap_ok m" "hmap_ok m'" "hget m = hget m'"
  shows "mset m = mset m'"
  using hmap_same_set [OF assms] assms(1,2)
  by (simp add: hmap_ok_def distinct_map set_eq_iff_mset_eq_distinct)

text \<open>
  The laws a client of a hash map relies on, and what follows from them: writes to
  different keys commute, a deleted key can be written again, reading back what was
  written. The model's association lists provide them.
\<close>

locale map_interface =
  fixes get :: "'m \<Rightarrow> 'k \<Rightarrow> 'v option"
    and put :: "'k \<Rightarrow> 'v \<Rightarrow> 'm \<Rightarrow> 'm"
    and del :: "'k \<Rightarrow> 'm \<Rightarrow> 'm"
    and ok :: "'m \<Rightarrow> bool"
  assumes get_put: "get (put k v m) = (get m)(k \<mapsto> v)"
    and get_del: "get (del k m) = (get m)(k := None)"
    and ok_put: "ok m \<Longrightarrow> ok (put k v m)"
    and ok_del: "ok m \<Longrightarrow> ok (del k m)"
begin

lemma get_put_same: "get (put k v m) k = Some v"
  by (simp add: get_put)

lemma get_put_commute: "k \<noteq> k' \<Longrightarrow> get (put k v (put k' v' m)) = get (put k' v' (put k v m))"
  by (simp add: get_put fun_upd_twist)

lemma get_put_del: "get (put k v (del k m)) = get (put k v m)"
  by (simp add: get_put get_del)

lemma get_del_put: "get m k = None \<Longrightarrow> get (del k (put k v m)) = get m"
  by (simp add: get_put get_del fun_upd_idem)

lemma put_foldl_ok: "ok m \<Longrightarrow> ok (foldl (\<lambda>m (k, v). put k v m) m kvs)"
  by (induction kvs arbitrary: m) (auto simp: ok_put split: prod.splits)

lemma del_foldr_get: "get (foldr del ks m) k = (if k \<in> set ks then None else get m k)"
  by (induction ks) (auto simp: get_del)

lemma del_foldr_ok: "ok m \<Longrightarrow> ok (foldr del ks m)"
  by (induction ks) (auto simp: ok_del)

end

interpretation hm: map_interface hget hput hdel hmap_ok
  by unfold_locales (simp_all add: hmap_simps machine_intros)

section \<open>In-place update of the first match\<close>

text \<open>The effect of \<^verbatim>\<open>iter_mut().find(p)\<close> followed by writes through the reference.\<close>

fun update_first :: "('a \<Rightarrow> bool) \<Rightarrow> ('a \<Rightarrow> 'a) \<Rightarrow> 'a list \<Rightarrow> 'a list" where
  "update_first p f [] = []"
| "update_first p f (x # xs) = (if p x then f x # xs else x # update_first p f xs)"

lemma length_update_first [simp]: "length (update_first p f xs) = length xs"
  by (induction xs) auto

lemma map_update_first: "(\<And>x. p x \<Longrightarrow> g (f x) = g x) \<Longrightarrow> map g (update_first p f xs) = map g xs"
  by (induction xs) auto

lemma update_first_none: "(\<And>x. x \<in> set xs \<Longrightarrow> \<not> p x) \<Longrightarrow> update_first p f xs = xs"
  by (induction xs) auto

text \<open>With distinct keys the first match is the only one, and the update is a map.\<close>

lemma update_first_map:
  "distinct (map key xs) \<Longrightarrow>
   update_first (\<lambda>x. key x = k) f xs = map (\<lambda>x. if key x = k then f x else x) xs"
proof (induction xs)
  case Nil
  then show ?case by simp
next
  case (Cons x xs)
  have "map (\<lambda>x. if key x = k then f x else x) xs = xs" if "key x = k"
    using Cons.prems that by (intro map_idI) (force simp: image_iff)
  with Cons show ?case by auto
qed

lemma set_update_first:
  "y \<in> set (update_first p f xs) \<Longrightarrow> y \<in> set xs \<or> (\<exists>x \<in> set xs. p x \<and> y = f x)"
  by (induction xs) (auto split: if_splits)

lemma find_key_in:
  "distinct (map key xs) \<Longrightarrow> x \<in> set xs \<Longrightarrow> find (\<lambda>y. key y = key x) xs = Some x"
  by (induction xs) (auto simp: rev_image_eqI)

lemma find_SomeD: "find p xs = Some x \<Longrightarrow> x \<in> set xs \<and> p x"
  by (auto simp: find_Some_iff)

text \<open>\<^verbatim>\<open>Option::or_else\<close>: the first value, else the second.\<close>

definition or_else :: "'a option \<Rightarrow> 'a option \<Rightarrow> 'a option" where
  "or_else a b = (case a of None \<Rightarrow> b | Some _ \<Rightarrow> a)"

text \<open>The effect of \<^verbatim>\<open>iter().find_map(f)\<close>, and of a loop that returns at its first error.\<close>

fun first_some :: "('a \<Rightarrow> 'b option) \<Rightarrow> 'a list \<Rightarrow> 'b option" where
  "first_some f [] = None"
| "first_some f (x # xs) = (case f x of Some y \<Rightarrow> Some y | None \<Rightarrow> first_some f xs)"

lemma first_some_None: "first_some f xs = None \<longleftrightarrow> (\<forall>x \<in> set xs. f x = None)"
  by (induction xs) (auto split: option.splits)

lemma first_some_SomeD: "first_some f xs = Some y \<Longrightarrow> \<exists>x \<in> set xs. f x = Some y"
  by (induction xs) (auto split: option.splits)

lemma find_map_key: "find P (map f xs) = map_option f (find (P \<circ> f) xs)"
  by (induction xs) auto

section \<open>Decimal printing\<close>

definition digit :: "nat \<Rightarrow> char" where
  "digit n = char_of (48 + n)"

fun show_nat :: "nat \<Rightarrow> string" where
  "show_nat n = (if n < 10 then [digit n] else show_nat (n div 10) @ [digit (n mod 10)])"

declare show_nat.simps [simp del]

section \<open>Machines\<close>

text \<open>
  A machine whose steps keep an invariant keeps it along every run; a machine whose final
  states only step to themselves never leaves them. Both are instantiated by the
  components' step relations.
\<close>

locale invariant_machine =
  fixes step :: "'s \<Rightarrow> 's \<Rightarrow> bool" and inv :: "'s \<Rightarrow> bool"
  assumes step_inv: "inv s \<Longrightarrow> step s t \<Longrightarrow> inv t"
begin

lemma run_inv: "step\<^sup>*\<^sup>* s t \<Longrightarrow> inv s \<Longrightarrow> inv t"
  by (induction rule: rtranclp_induct) (auto intro: step_inv)

end

locale absorbing_machine =
  fixes step :: "'s \<Rightarrow> 's \<Rightarrow> bool" and final :: "'s \<Rightarrow> bool"
  assumes final_step: "final s \<Longrightarrow> step s t \<Longrightarrow> t = s"
begin

lemma run_final: "step\<^sup>*\<^sup>* s t \<Longrightarrow> final s \<Longrightarrow> t = s"
  by (induction rule: rtranclp_induct) (auto dest: final_step)

lemma no_two_finals: "step\<^sup>*\<^sup>* s t \<Longrightarrow> step\<^sup>*\<^sup>* s u \<Longrightarrow> final s \<Longrightarrow> t = u"
  by (metis run_final)

end

end
