(* ===== verification/Float64.thy ===== *)
theory Float64
  imports Prelude "HOL-Library.Log_Nat"
begin

text \<open>
  Rust's \<^verbatim>\<open>f64\<close>: IEEE 754 binary64 with round-to-nearest, ties to even. A finite value is the
  rational it denotes, so the two zeros are one value; nothing in the modelled code tells
  them apart. The unspecified-precision function \<^verbatim>\<open>powi\<close> is a parameter wherever it is used.
\<close>

section \<open>Values and rounding\<close>

datatype f64 = Fin rat | PInf | NInf | NaN

definition pow2 :: "int \<Rightarrow> rat" where
  "pow2 k = (if 0 \<le> k then 2 ^ nat k else 1 / 2 ^ nat (- k))"

text \<open>The exponent of the leading binary digit of a positive rational.\<close>

definition lead_exp :: "rat \<Rightarrow> int" where
  "lead_exp x =
     (case quotient_of x of (p, q) \<Rightarrow>
        (let e = int (floorlog 2 (nat p)) - int (floorlog 2 (nat q))
         in if pow2 e \<le> x then e else e - 1))"

definition round_half_even :: "rat \<Rightarrow> int" where
  "round_half_even x =
     (let f = \<lfloor>x\<rfloor>; d = x - of_int f
      in if d < 1 / 2 then f else if d > 1 / 2 then f + 1 else if even f then f else f + 1)"

definition round_f64 :: "rat \<Rightarrow> f64" where
  "round_f64 x =
     (if x = 0 then Fin 0
      else (let a = \<bar>x\<bar>;
                e = max (lead_exp a - 52) (- 1074);
                r = of_int (round_half_even (a / pow2 e)) * pow2 e
            in if r \<ge> pow2 1024 then (if x > 0 then PInf else NInf)
               else Fin (if x > 0 then r else - r)))"

section \<open>Operations\<close>

fun f64_neg :: "f64 \<Rightarrow> f64" where
  "f64_neg (Fin x) = Fin (- x)"
| "f64_neg PInf = NInf"
| "f64_neg NInf = PInf"
| "f64_neg NaN = NaN"

fun f64_add :: "f64 \<Rightarrow> f64 \<Rightarrow> f64" where
  "f64_add (Fin x) (Fin y) = round_f64 (x + y)"
| "f64_add NaN _ = NaN"
| "f64_add _ NaN = NaN"
| "f64_add PInf NInf = NaN"
| "f64_add NInf PInf = NaN"
| "f64_add PInf _ = PInf"
| "f64_add _ PInf = PInf"
| "f64_add NInf _ = NInf"
| "f64_add _ NInf = NInf"

definition f64_sub :: "f64 \<Rightarrow> f64 \<Rightarrow> f64" where
  "f64_sub x y = f64_add x (f64_neg y)"

fun f64_sign :: "f64 \<Rightarrow> int" where
  "f64_sign (Fin x) = (if x > 0 then 1 else if x < 0 then - 1 else 0)"
| "f64_sign PInf = 1"
| "f64_sign NInf = - 1"
| "f64_sign NaN = 0"

fun f64_mul :: "f64 \<Rightarrow> f64 \<Rightarrow> f64" where
  "f64_mul (Fin x) (Fin y) = round_f64 (x * y)"
| "f64_mul NaN _ = NaN"
| "f64_mul _ NaN = NaN"
| "f64_mul x y =
     (let s = f64_sign x * f64_sign y in if s > 0 then PInf else if s < 0 then NInf else NaN)"

text \<open>Division by a nonzero finite value, the only division the modelled code performs.\<close>

fun f64_div_pos :: "f64 \<Rightarrow> rat \<Rightarrow> f64" where
  "f64_div_pos (Fin x) d = round_f64 (x / d)"
| "f64_div_pos PInf d = (if d > 0 then PInf else NInf)"
| "f64_div_pos NInf d = (if d > 0 then NInf else PInf)"
| "f64_div_pos NaN d = NaN"

fun f64_abs :: "f64 \<Rightarrow> f64" where
  "f64_abs (Fin x) = Fin \<bar>x\<bar>"
| "f64_abs PInf = PInf"
| "f64_abs NInf = PInf"
| "f64_abs NaN = NaN"

fun f64_less :: "f64 \<Rightarrow> f64 \<Rightarrow> bool" where
  "f64_less (Fin x) (Fin y) = (x < y)"
| "f64_less NaN _ = False"
| "f64_less _ NaN = False"
| "f64_less x PInf = (x \<noteq> PInf)"
| "f64_less NInf y = (y \<noteq> NInf)"
| "f64_less _ _ = False"

definition f64_le :: "f64 \<Rightarrow> f64 \<Rightarrow> bool" where
  "f64_le x y \<longleftrightarrow> f64_less x y \<or> (x = y \<and> x \<noteq> NaN)"

text \<open>\<^verbatim>\<open>f64::EPSILON\<close>, the gap between 1 and the next value.\<close>

definition f64_epsilon :: f64 where
  "f64_epsilon = Fin (pow2 (- 52))"

text \<open>The casts \<^verbatim>\<open>as f64\<close> of an integer and \<^verbatim>\<open>as u64\<close> (saturating, NaN to 0).\<close>

definition f64_of_int :: "int \<Rightarrow> f64" where
  "f64_of_int n = round_f64 (of_int n)"

fun f64_to_u64 :: "f64 \<Rightarrow> u64" where
  "f64_to_u64 NaN = 0"
| "f64_to_u64 NInf = 0"
| "f64_to_u64 PInf = - 1"
| "f64_to_u64 (Fin x) =
     (if x \<le> 0 then 0 else if 2 ^ 64 \<le> x then - 1 else word_of_int \<lfloor>x\<rfloor>)"

section \<open>Exactness on integers up to 2 to the 53\<close>

lemma pow2_pos: "0 < pow2 k"
  by (simp add: pow2_def)

lemma lead_exp_nat:
  assumes "0 < n" "n \<le> 2 ^ 53"
  shows "lead_exp (of_nat n) \<le> 53 \<and> (lead_exp (of_nat n) = 53 \<longrightarrow> n = 2 ^ 53) \<and> 0 \<le> lead_exp (of_nat n)"
proof -
  define b where "b = floorlog 2 n"
  have b: "2 ^ (b - 1) \<le> n" "n < 2 ^ b"
    using floorlog_bounds [of n 2] assms(1) by (auto simp: b_def)
  have b0: "0 < b" using b(2) assms(1) by (cases b) auto
  have q: "quotient_of (of_nat n :: rat) = (int n, 1)"
    using quotient_of_int [of "int n"] by (simp add: of_rat_of_int_eq)
  have one: "floorlog 2 (Suc 0) = 1" by (simp add: floorlog_def)
  have lt: "(of_nat n :: rat) < 2 ^ b"
    using b(2) by (metis of_nat_less_iff of_nat_numeral of_nat_power)
  have e: "lead_exp (of_nat n) = int b - 1"
    using lt b0 b(1) by (simp add: lead_exp_def q one Let_def pow2_def nat_diff_distrib flip: b_def)
  have "2 ^ (b - 1) \<le> (2::nat) ^ 53" using b(1) assms(2) by linarith
  then have "b - 1 \<le> 53" using power_le_imp_le_exp [of "2::nat" "b - 1" 53] by simp
  moreover have "b - 1 = 53 \<Longrightarrow> n = 2 ^ 53" using b(1) assms(2) by auto
  ultimately show ?thesis using e b0 by (auto simp: of_nat_diff)
qed

lemma round_half_even_int: "round_half_even (of_int n) = n"
  by (simp add: round_half_even_def)

lemma round_f64_nat:
  assumes "0 < n" "n \<le> 2 ^ 53"
  shows "round_f64 (of_nat n) = Fin (of_nat n)"
proof -
  define e where "e = max (lead_exp (of_nat n) - 52) (- 1074)"
  note le = lead_exp_nat [OF assms]
  have "of_int (round_half_even (of_nat n / pow2 e)) * pow2 e = (of_nat n :: rat)"
  proof (cases "lead_exp (of_nat n) = 53")
    case True
    then have "e = 1" "n = 2 ^ 53" using le by (auto simp: e_def)
    then have "of_nat n / pow2 e = of_int (2 ^ 52)" by (simp add: pow2_def)
    with \<open>e = 1\<close> \<open>n = 2 ^ 53\<close> show ?thesis
      by (simp only: round_half_even_int) (simp add: pow2_def)
  next
    case False
    then have "e \<le> 0" using le by (auto simp: e_def)
    then have "of_nat n / pow2 e = of_int (int n * 2 ^ nat (- e))"
      by (auto simp: pow2_def)
    then show ?thesis
      by (metis nonzero_eq_divide_eq round_half_even_int pow2_pos less_irrefl)
  qed
  moreover have "(of_nat n :: rat) < pow2 1024"
  proof -
    have "(of_nat n :: rat) \<le> of_nat (2 ^ 53)" using assms(2) by (simp only: of_nat_le_iff)
    also have "\<dots> < pow2 1024" by (simp add: pow2_def power_strict_increasing_iff [of 2 53 1024])
    finally show ?thesis .
  qed
  ultimately show ?thesis
    using assms(1) by (simp add: round_f64_def Let_def not_le flip: e_def)
qed

lemma round_f64_neg: "round_f64 (- x) = f64_neg (round_f64 x)"
  by (auto simp: round_f64_def Let_def)

theorem f64_of_int_exact: "\<bar>n\<bar> \<le> 2 ^ 53 \<Longrightarrow> f64_of_int n = Fin (of_int n)"
proof -
  assume n: "\<bar>n\<bar> \<le> 2 ^ 53"
  have pos: "f64_of_int m = Fin (of_int m)" if "0 < m" "m \<le> 2 ^ 53" for m
    using round_f64_nat [of "nat m"] that by (simp add: f64_of_int_def)
  consider "n = 0" | "0 < n" | "n < 0" by linarith
  then show ?thesis
  proof cases
    case 1
    then show ?thesis by (simp add: f64_of_int_def round_f64_def)
  next
    case 2
    then show ?thesis using n pos by simp
  next
    case 3
    have "f64_of_int n = f64_neg (f64_of_int (- n))"
      by (simp add: f64_of_int_def round_f64_neg [symmetric])
    then show ?thesis using 3 n pos [of "- n"] by simp
  qed
qed

end
