(* ===== verification/Json.thy ===== *)
theory Json
  imports Float64
begin

text \<open>
  JSON values as the program handles them: the constructors of serde_json's \<^verbatim>\<open>Value\<close>, which
  the source matches on, and the accessors it calls. Objects are kept as key-sorted
  association lists (serde_json's default map is ordered by key), so equality of two values
  is equality of the datatype.
\<close>

datatype json_num = NPos nat | NNeg int | NFloat f64

datatype json = JNull | JBool bool | JNum json_num | JStr string
  | JArr "json list" | JObj "(string \<times> json) list"

fun num_as_f64 :: "json_num \<Rightarrow> f64" where
  "num_as_f64 (NPos n) = f64_of_int (int n)"
| "num_as_f64 (NNeg i) = f64_of_int i"
| "num_as_f64 (NFloat x) = x"

fun as_f64 :: "json \<Rightarrow> f64 option" where
  "as_f64 (JNum n) = Some (num_as_f64 n)"
| "as_f64 _ = None"

fun as_u64 :: "json \<Rightarrow> nat option" where
  "as_u64 (JNum (NPos n)) = Some n"
| "as_u64 _ = None"

fun as_str :: "json \<Rightarrow> string option" where
  "as_str (JStr s) = Some s"
| "as_str _ = None"

fun as_bool :: "json \<Rightarrow> bool option" where
  "as_bool (JBool b) = Some b"
| "as_bool _ = None"

fun as_array :: "json \<Rightarrow> json list option" where
  "as_array (JArr xs) = Some xs"
| "as_array _ = None"

fun as_object :: "json \<Rightarrow> (string \<times> json) list option" where
  "as_object (JObj m) = Some m"
| "as_object _ = None"

text \<open>\<^verbatim>\<open>Value::get\<close> with a string key: the member of an object, nothing of any other value.\<close>

fun jget :: "json \<Rightarrow> string \<Rightarrow> json option" where
  "jget (JObj m) k = map_of m k"
| "jget _ k = None"

text \<open>\<^verbatim>\<open>v.get(k).and_then(f)\<close>, the accessor chain used throughout.\<close>

definition jget_with :: "(json \<Rightarrow> 'a option) \<Rightarrow> json \<Rightarrow> string \<Rightarrow> 'a option" where
  "jget_with f v k = Option.bind (jget v k) f"

lemma jget_with_simps [simp]:
  "jget_with f (JObj m) k = Option.bind (map_of m k) f"
  "jget_with f JNull k = None"
  "jget_with f (JStr s) k = None"
  by (simp_all add: jget_with_def)

definition jopt :: "('a \<Rightarrow> json) \<Rightarrow> 'a option \<Rightarrow> json" where
  "jopt f ov = (case ov of None \<Rightarrow> JNull | Some a \<Rightarrow> f a)"

text \<open>Writing a member of an object: in place if it is there, else at its place in key order.\<close>

fun jput :: "string \<Rightarrow> json \<Rightarrow> (string \<times> json) list \<Rightarrow> (string \<times> json) list" where
  "jput k v [] = [(k, v)]"
| "jput k v ((k', v') # m) =
     (if k = k' then (k, v) # m else if k < k' then (k, v) # (k', v') # m else (k', v') # jput k v m)"

lemma map_of_jput: "map_of (jput k v m) = (map_of m)(k \<mapsto> v)"
  by (induction m) (auto simp: fun_eq_iff)

lemma jput_keys: "set (map fst (jput k v m)) = insert k (set (map fst m))"
proof (induction m)
  case (Cons kv m)
  then show ?case by (cases kv) (simp add: insert_commute)
qed simp

lemma jput_sorted: "sorted_wrt (<) (map fst m) \<Longrightarrow> sorted_wrt (<) (map fst (jput k v m))"
proof (induction m)
  case (Cons kv m)
  obtain k' v' where kv: "kv = (k', v')" by force
  have "\<forall>x \<in> set (map fst m). k' < x" using Cons.prems by (simp add: kv)
  then have "\<forall>x \<in> set (map fst (jput k v m)). k' < x" if "k' < k"
    using that unfolding jput_keys by simp
  moreover have "sorted_wrt (<) (map fst (jput k v m))" using Cons by simp
  moreover have "\<forall>x \<in> set (map fst m). k < x" if "k < k'"
    using that \<open>\<forall>x \<in> set (map fst m). k' < x\<close> less_trans by blast
  ultimately show ?case using Cons.prems by (cases k k' rule: linorder_cases) (auto simp: kv)
qed simp

definition jnat :: "nat \<Rightarrow> json" where
  "jnat n = JNum (NPos n)"

lemma json_kinds_disjoint:
  "as_str v = Some s \<Longrightarrow> as_f64 v = None \<and> as_bool v = None \<and> as_array v = None"
  by (cases v) auto

end
