(* ===== verification/Task_Output.thy ===== *)
theory Task_Output
  imports Json
begin

text \<open>
  The structured output a task leaves behind (\<^verbatim>\<open>TASK_OUTPUT.json\<close>, core-state's
  \<^verbatim>\<open>task_output.rs\<close>): its types, constructors, status changes and its serialised form, which
  the chain scheduler's conditions look into.
\<close>

section \<open>Types\<close>

datatype task_output_status = TO_Running | TO_Completed | TO_Failed

record consumed_input =
  source_task_id :: string
  source_output_path :: string
  consumed_fields :: "string list"
  consumed_at :: "string option"

record aggregates_ref =
  parent_chain_id :: "string option"
  parent_loop_id :: "string option"
  chain_index :: "u64 option"

record output_metadata =
  om_started_at :: "string option"
  om_ended_at :: "string option"
  duration_ms :: "u64 option"

record evidence_summary =
  total_commands :: u64
  successful_commands :: u64
  total_changed_files :: u64

record output_data =
  changed_files :: "string list"
  commands_run :: "string list"
  verification_status :: string
  summary :: string
  od_evidence_summary :: evidence_summary

record task_output =
  to_schema_version :: string
  to_task_id :: string
  to_title :: "string option"
  to_status :: task_output_status
  producer :: string
  outputs :: output_data
  consumed_inputs :: "consumed_input list"
  aggregates :: "aggregates_ref option"
  metadata :: output_metadata

section \<open>Constructors and status changes\<close>

definition TASK_OUTPUT_SCHEMA_VERSION :: string where
  "TASK_OUTPUT_SCHEMA_VERSION = ''task-output-v1''"

definition evidence_summary_default :: evidence_summary where
  "evidence_summary_default =
     \<lparr>total_commands = 0, successful_commands = 0, total_changed_files = 0\<rparr>"

definition output_data_default :: output_data where
  "output_data_default =
     \<lparr>changed_files = [], commands_run = [], verification_status = [], summary = [],
      od_evidence_summary = evidence_summary_default\<rparr>"

definition output_metadata_default :: output_metadata where
  "output_metadata_default = \<lparr>om_started_at = None, om_ended_at = None, duration_ms = None\<rparr>"

definition task_output_new :: "string \<Rightarrow> task_output" where
  "task_output_new tid =
     \<lparr>to_schema_version = TASK_OUTPUT_SCHEMA_VERSION, to_task_id = tid, to_title = None,
      to_status = TO_Running, producer = [], outputs = output_data_default,
      consumed_inputs = [], aggregates = None, metadata = output_metadata_default\<rparr>"

definition task_output_with_title :: "string \<Rightarrow> string \<Rightarrow> task_output" where
  "task_output_with_title tid t = (task_output_new tid)\<lparr>to_title := Some t\<rparr>"

definition mark_completed :: "output_data \<Rightarrow> task_output \<Rightarrow> task_output" where
  "mark_completed d t = t\<lparr>to_status := TO_Completed, outputs := d\<rparr>"

definition mark_failed :: "task_output \<Rightarrow> task_output" where
  "mark_failed t = t\<lparr>to_status := TO_Failed\<rparr>"

section \<open>Serialised form\<close>

text \<open>
  The derived serialisation: one member per field, under the field's name, keys in the
  map's order. The status is written in snake case. Integers are unsigned JSON numbers.
\<close>

fun output_status_str :: "task_output_status \<Rightarrow> string" where
  "output_status_str TO_Running = ''running''"
| "output_status_str TO_Completed = ''completed''"
| "output_status_str TO_Failed = ''failed''"

definition ju64 :: "u64 \<Rightarrow> json" where
  "ju64 w = JNum (NPos (unat w))"

definition jstrs :: "string list \<Rightarrow> json" where
  "jstrs ss = JArr (map JStr ss)"

definition evidence_summary_json :: "evidence_summary \<Rightarrow> json" where
  "evidence_summary_json e = JObj
     [(''successful_commands'', ju64 (successful_commands e)),
      (''total_changed_files'', ju64 (total_changed_files e)),
      (''total_commands'', ju64 (total_commands e))]"

definition output_data_json :: "output_data \<Rightarrow> json" where
  "output_data_json d = JObj
     [(''changed_files'', jstrs (changed_files d)),
      (''commands_run'', jstrs (commands_run d)),
      (''evidence_summary'', evidence_summary_json (od_evidence_summary d)),
      (''summary'', JStr (summary d)),
      (''verification_status'', JStr (verification_status d))]"

definition consumed_input_json :: "consumed_input \<Rightarrow> json" where
  "consumed_input_json c = JObj
     [(''consumed_at'', jopt JStr (consumed_at c)),
      (''consumed_fields'', jstrs (consumed_fields c)),
      (''source_output_path'', JStr (source_output_path c)),
      (''source_task_id'', JStr (source_task_id c))]"

definition aggregates_ref_json :: "aggregates_ref \<Rightarrow> json" where
  "aggregates_ref_json a = JObj
     [(''chain_index'', jopt ju64 (chain_index a)),
      (''parent_chain_id'', jopt JStr (parent_chain_id a)),
      (''parent_loop_id'', jopt JStr (parent_loop_id a))]"

definition output_metadata_json :: "output_metadata \<Rightarrow> json" where
  "output_metadata_json m = JObj
     [(''duration_ms'', jopt ju64 (duration_ms m)),
      (''ended_at'', jopt JStr (om_ended_at m)),
      (''started_at'', jopt JStr (om_started_at m))]"

definition task_output_json :: "task_output \<Rightarrow> json" where
  "task_output_json t = JObj
     [(''aggregates'', jopt aggregates_ref_json (aggregates t)),
      (''consumed_inputs'', JArr (map consumed_input_json (consumed_inputs t))),
      (''metadata'', output_metadata_json (metadata t)),
      (''outputs'', output_data_json (outputs t)),
      (''producer'', JStr (producer t)),
      (''schema_version'', JStr (to_schema_version t)),
      (''status'', JStr (output_status_str (to_status t))),
      (''task_id'', JStr (to_task_id t)),
      (''title'', jopt JStr (to_title t))]"

lemma mark_completed_simps [simp]:
  "to_status (mark_completed d t) = TO_Completed" "outputs (mark_completed d t) = d"
  "to_task_id (mark_completed d t) = to_task_id t"
  by (simp_all add: mark_completed_def)

lemma mark_failed_simps [simp]:
  "to_status (mark_failed t) = TO_Failed" "outputs (mark_failed t) = outputs t"
  by (simp_all add: mark_failed_def)

end
