(* ===== verification/Chain_Types.thy ===== *)
theory Chain_Types
  imports Task_Output
begin

text \<open>
  The data of the chain engine (\<^verbatim>\<open>core/chain-engine/src/types.rs\<close>): task statuses, conditions,
  retry policies, tasks and the chain, their constructors and defaults, lookup and in-place
  update of a task by id, and the backoff computation.
\<close>

section \<open>Enumerations\<close>

datatype chain_mode = Linear | Dag

datatype task_status = Pending | Running | Completed | Failed | Blocked | Skipped | RetryScheduled

definition is_terminal :: "task_status \<Rightarrow> bool" where
  "is_terminal s \<longleftrightarrow> s \<in> {Completed, Failed, Skipped, Blocked}"

fun status_str :: "task_status \<Rightarrow> string" where
  "status_str Pending = ''pending''"
| "status_str Running = ''running''"
| "status_str Completed = ''completed''"
| "status_str Failed = ''failed''"
| "status_str Blocked = ''blocked''"
| "status_str Skipped = ''skipped''"
| "status_str RetryScheduled = ''retry_scheduled''"

datatype failure_strategy = PauseDag | AbortDag | Continue

datatype condition_type = OutputField | Status | Expression

datatype condition_operator = Eq | Ne | Gte | Lte | Gt | Lt | In | NotIn

section \<open>Structures\<close>

record dag_condition =
  source :: string
  cond_type :: condition_type
  cond_field :: "string option"
  cond_operator :: condition_operator
  cond_value :: json

record timeout_group_spec =
  group_id :: string
  max_seconds :: u64

record retry_policy =
  max_attempts :: u32
  backoff_base_ms :: u64
  backoff_multiplier :: f64
  max_backoff_ms :: "u64 option"

record dag_task_entry =
  task_id :: string
  title :: "string option"
  depends_on :: "string list"
  task_round :: "u32 option"
  condition :: "dag_condition option"
  parallel_group :: "string option"
  timeout_group :: "timeout_group_spec option"
  retry :: "retry_policy option"
  status :: task_status
  attempt :: u32
  started_at :: "string option"
  completed_at :: "string option"
  task_error :: "string option"
  backoff_until :: "string option"
  caused_skips :: "string list"

record global_dag_config =
  max_concurrent_tasks :: u32
  default_retry :: "retry_policy option"
  on_any_failure :: failure_strategy

record chain_dag_root =
  schema_version :: string
  chain_id :: string
  mode :: chain_mode
  tasks :: "dag_task_entry list"
  global_config :: global_dag_config
  paused :: bool

section \<open>Constructors and defaults\<close>

definition CHAIN_DAG_SCHEMA_VERSION :: string where
  "CHAIN_DAG_SCHEMA_VERSION = ''chain-dag-v1''"

definition dag_task_new :: "string \<Rightarrow> dag_task_entry" where
  "dag_task_new tid =
     \<lparr>task_id = tid, title = None, depends_on = [], task_round = None, condition = None,
      parallel_group = None, timeout_group = None, retry = None, status = Pending,
      attempt = 0, started_at = None, completed_at = None, task_error = None,
      backoff_until = None, caused_skips = []\<rparr>"

definition dag_task_with_title :: "string \<Rightarrow> string \<Rightarrow> dag_task_entry" where
  "dag_task_with_title tid t = (dag_task_new tid)\<lparr>title := Some t\<rparr>"

definition global_dag_config_default :: global_dag_config where
  "global_dag_config_default =
     \<lparr>max_concurrent_tasks = 4, default_retry = None, on_any_failure = PauseDag\<rparr>"

definition chain_dag_root_new :: "string \<Rightarrow> dag_task_entry list \<Rightarrow> chain_dag_root" where
  "chain_dag_root_new cid ts =
     \<lparr>schema_version = CHAIN_DAG_SCHEMA_VERSION, chain_id = cid, mode = Dag, tasks = ts,
      global_config = global_dag_config_default, paused = False\<rparr>"

section \<open>Access to tasks\<close>

text \<open>
  \<^verbatim>\<open>task_by_id\<close> finds the first task of that id. A write through \<^verbatim>\<open>task_by_id_mut\<close> replaces that
  task and leaves the list alone if there is none.
\<close>

definition task_by_id :: "chain_dag_root \<Rightarrow> string \<Rightarrow> dag_task_entry option" where
  "task_by_id r tid = find (\<lambda>t. task_id t = tid) (tasks r)"

definition task_by_id_mut ::
  "string \<Rightarrow> (dag_task_entry \<Rightarrow> dag_task_entry) \<Rightarrow> chain_dag_root \<Rightarrow> chain_dag_root" where
  "task_by_id_mut tid f r = r\<lparr>tasks := update_first (\<lambda>t. task_id t = tid) f (tasks r)\<rparr>"

definition task_ids :: "chain_dag_root \<Rightarrow> string list" where
  "task_ids r = map task_id (tasks r)"

text \<open>The counts per status, a hash map from the status text.\<close>

definition status_counts :: "chain_dag_root \<Rightarrow> (string, nat) hmap" where
  "status_counts r =
     foldl (\<lambda>m t. let k = status_str (status t) in
              hput k ((case hget m k of None \<Rightarrow> 0 | Some n \<Rightarrow> n) + 1) m) [] (tasks r)"

section \<open>Backoff\<close>

text \<open>
  The delay before retry number \<^term>\<open>a\<close> (1-based), with \<^verbatim>\<open>powi\<close> as the parameter \<open>powi_f\<close>. The exponent is
  \<^verbatim>\<open>(attempt - 1) as i32\<close>: 32-bit subtraction, then read as signed.
\<close>

definition backoff_ms :: "(f64 \<Rightarrow> int \<Rightarrow> f64) \<Rightarrow> retry_policy \<Rightarrow> u32 \<Rightarrow> u64" where
  "backoff_ms powi_f p a =
     (let base = f64_of_int (uint (backoff_base_ms p));
          raw = f64_to_u64 (f64_mul base (powi_f (backoff_multiplier p) (sint (a - 1))))
      in case max_backoff_ms p of Some mx \<Rightarrow> min raw mx | None \<Rightarrow> raw)"

section \<open>Facts\<close>

lemma is_terminal_simps [simp]:
  "is_terminal Completed" "is_terminal Failed" "is_terminal Skipped" "is_terminal Blocked"
  "\<not> is_terminal Pending" "\<not> is_terminal Running" "\<not> is_terminal RetryScheduled"
  by (simp_all add: is_terminal_def)

lemma status_str_inj: "status_str s = status_str s' \<longleftrightarrow> s = s'"
  by (cases s; cases s') simp_all

lemma task_by_id_SomeD: "task_by_id r tid = Some t \<Longrightarrow> t \<in> set (tasks r) \<and> task_id t = tid"
  by (auto simp: task_by_id_def dest: find_SomeD)

lemma task_ids_update [simp]:
  "(\<And>t. task_id (f t) = task_id t) \<Longrightarrow> task_ids (task_by_id_mut tid f r) = task_ids r"
  by (simp add: task_ids_def task_by_id_mut_def map_update_first)

lemma task_by_id_mut_frame [simp]:
  "mode (task_by_id_mut tid f r) = mode r" "paused (task_by_id_mut tid f r) = paused r"
  "global_config (task_by_id_mut tid f r) = global_config r"
  "chain_id (task_by_id_mut tid f r) = chain_id r"
  "length (tasks (task_by_id_mut tid f r)) = length (tasks r)"
  by (simp_all add: task_by_id_mut_def)

lemma backoff_ms_capped: "max_backoff_ms p = Some mx \<Longrightarrow> backoff_ms powi_f p a \<le> mx"
  by (simp add: backoff_ms_def Let_def)

end
