(* ===== verification/Chain_Scheduler.thy ===== *)
theory Chain_Scheduler
  imports Chain_Types
begin

text \<open>
  The chain scheduler (\<^verbatim>\<open>core/chain-engine/src/scheduler.rs\<close>): expiry of backoffs, the
  dependency and condition gates, comparison of JSON values, the count of running tasks, the
  round-robin selection under the global and per-group caps, and the transition of the
  selected tasks to running.

  The environment enters as arguments: the current time as an instant in nanoseconds, the
  RFC 3339 parser of the chrono crate, the timestamp text each started task receives, the
  task outputs read from disk, and the order in which an iteration over the hash map of
  groups meets its keys.
\<close>

section \<open>Backoff expiry\<close>

definition expire_backoff :: "(string \<Rightarrow> int option) \<Rightarrow> int \<Rightarrow> dag_task_entry \<Rightarrow> dag_task_entry" where
  "expire_backoff parse_rfc3339 now t =
     (if status t = RetryScheduled
      then (case backoff_until t of
              None \<Rightarrow> t
            | Some b \<Rightarrow> (case parse_rfc3339 b of
                          None \<Rightarrow> t
                        | Some deadline \<Rightarrow>
                            if now \<ge> deadline then t\<lparr>status := Pending, backoff_until := None\<rparr> else t))
      else t)"

definition handle_expired_backoffs ::
  "(string \<Rightarrow> int option) \<Rightarrow> int \<Rightarrow> chain_dag_root \<Rightarrow> chain_dag_root" where
  "handle_expired_backoffs parse_rfc3339 now r = r\<lparr>tasks := map (expire_backoff parse_rfc3339 now) (tasks r)\<rparr>"

section \<open>Dependency gate\<close>

text \<open>Later entries of the same id overwrite earlier ones when the map is collected.\<close>

definition status_map :: "dag_task_entry list \<Rightarrow> (string, task_status) hmap" where
  "status_map ts = hcollect (map (\<lambda>t. (task_id t, status t)) ts)"

definition dependencies_met_cached :: "dag_task_entry \<Rightarrow> (string, task_status) hmap \<Rightarrow> bool" where
  "dependencies_met_cached t sm =
     (depends_on t = [] \<or>
      list_all (\<lambda>d. case hget sm d of
                      Some s \<Rightarrow> s = Completed \<or> s = Skipped
                    | None \<Rightarrow> False) (depends_on t))"

definition dependencies_met :: "dag_task_entry \<Rightarrow> dag_task_entry list \<Rightarrow> bool" where
  "dependencies_met t all_tasks =
     (depends_on t = [] \<or>
      (let m = hcollect (map (\<lambda>t. (task_id t, status t)) all_tasks)
       in list_all (\<lambda>d. case hget m d of
                          Some Completed \<Rightarrow> True
                        | Some Skipped \<Rightarrow> True
                        | Some _ \<Rightarrow> False
                        | None \<Rightarrow> False) (depends_on t)))"

section \<open>Condition gate\<close>

fun split_on :: "char \<Rightarrow> string \<Rightarrow> string list" where
  "split_on c [] = [[]]"
| "split_on c (x # xs) =
     (if x = c then [] # split_on c xs
      else (case split_on c xs of [] \<Rightarrow> [[x]] | p # ps \<Rightarrow> (x # p) # ps))"

fun resolve_json_path :: "json \<Rightarrow> string list \<Rightarrow> json option" where
  "resolve_json_path v [] = Some v"
| "resolve_json_path (JObj m) (p # ps) =
     (case map_of m p of None \<Rightarrow> None | Some v \<Rightarrow> resolve_json_path v ps)"
| "resolve_json_path _ (p # ps) = None"

text \<open>The \<^verbatim>\<open>Eq\<close> arm: strings, then numbers within the epsilon, then booleans, then equality.\<close>

definition values_eq :: "json \<Rightarrow> json \<Rightarrow> bool" where
  "values_eq a e =
     (case (as_str a, as_str e) of
        (Some x, Some y) \<Rightarrow> x = y
      | _ \<Rightarrow> (case (as_f64 a, as_f64 e) of
               (Some x, Some y) \<Rightarrow> f64_less (f64_abs (f64_sub x y)) f64_epsilon
             | _ \<Rightarrow> (case (as_bool a, as_bool e) of
                      (Some x, Some y) \<Rightarrow> x = y
                    | _ \<Rightarrow> a = e)))"

definition num_cmp :: "(f64 \<Rightarrow> f64 \<Rightarrow> bool) \<Rightarrow> json \<Rightarrow> json \<Rightarrow> bool" where
  "num_cmp f a e = (case (as_f64 a, as_f64 e) of (Some x, Some y) \<Rightarrow> f x y | _ \<Rightarrow> False)"

fun compare_values :: "json \<Rightarrow> json \<Rightarrow> condition_operator \<Rightarrow> bool" where
  "compare_values a e Eq = values_eq a e"
| "compare_values a e Ne = (\<not> values_eq a e)"
| "compare_values a e Gt = num_cmp (\<lambda>x y. f64_less y x) a e"
| "compare_values a e Gte = num_cmp (\<lambda>x y. f64_le y x) a e"
| "compare_values a e Lt = num_cmp f64_less a e"
| "compare_values a e Lte = num_cmp f64_le a e"
| "compare_values a e In =
     (case as_array e of Some arr \<Rightarrow> list_ex (\<lambda>v. values_eq a v) arr | None \<Rightarrow> False)"
| "compare_values a e NotIn =
     (case as_array e of Some arr \<Rightarrow> \<not> list_ex (\<lambda>v. values_eq a v) arr | None \<Rightarrow> True)"

definition default_condition_field :: string where
  "default_condition_field = ''outputs.verification_status''"

definition resolve_field :: "task_output \<Rightarrow> dag_condition \<Rightarrow> json option" where
  "resolve_field out c =
     (case cond_type c of
        Status \<Rightarrow> Some (JStr (output_status_str (to_status out)))
      | OutputField \<Rightarrow>
          (let field = (case cond_field c of Some f \<Rightarrow> f | None \<Rightarrow> default_condition_field)
           in resolve_json_path (task_output_json out) (split_on (CHR ''.'') field))
      | Expression \<Rightarrow> None)"

definition evaluate_condition :: "dag_task_entry \<Rightarrow> (string, task_output) hmap \<Rightarrow> bool" where
  "evaluate_condition t outs =
     (case condition t of
        None \<Rightarrow> True
      | Some c \<Rightarrow>
          (case hget outs (source c) of
             None \<Rightarrow> False
           | Some out \<Rightarrow>
               (case resolve_field out c of
                  None \<Rightarrow> False
                | Some actual \<Rightarrow> compare_values actual (cond_value c) (cond_operator c))))"

definition condition_met ::
  "dag_task_entry \<Rightarrow> (string, task_status) hmap \<Rightarrow> (string, task_output) hmap \<Rightarrow> bool" where
  "condition_met t sm outs =
     (case condition t of
        None \<Rightarrow> True
      | Some c \<Rightarrow>
          (case cond_type c of
             Status \<Rightarrow>
               (case hget sm (source c) of
                  None \<Rightarrow> False
                | Some s \<Rightarrow> compare_values (JStr (status_str s)) (cond_value c) (cond_operator c))
           | _ \<Rightarrow> evaluate_condition t outs))"

text \<open>
  The outputs the conditions need: for each condition source, unless the chain has a task of
  that id which is not terminal, the output file if it can be read.
\<close>

definition load_condition_task_outputs ::
  "(string \<Rightarrow> ('e, task_output option) result) \<Rightarrow> chain_dag_root \<Rightarrow> (string, task_output) hmap" where
  "load_condition_task_outputs read_task_output r =
     foldl (\<lambda>outs src.
        if hget outs src \<noteq> None then outs
        else (case task_by_id r src of
                Some st \<Rightarrow>
                  if \<not> is_terminal (status st) then outs
                  else (case read_task_output src of Inr (Some out) \<Rightarrow> hput src out outs | _ \<Rightarrow> outs)
              | None \<Rightarrow>
                  (case read_task_output src of Inr (Some out) \<Rightarrow> hput src out outs | _ \<Rightarrow> outs)))
       [] (remdups (map source (List.map_filter condition (tasks r))))"

section \<open>Counting\<close>

definition count_running :: "dag_task_entry list \<Rightarrow> nat \<times> (string, nat) hmap" where
  "count_running ts =
     foldl (\<lambda>(g, m) t.
        if status t = Running
        then (g + 1, case parallel_group t of
                       None \<Rightarrow> m
                     | Some pg \<Rightarrow> hput pg ((case hget m pg of None \<Rightarrow> 0 | Some n \<Rightarrow> n) + 1) m)
        else (g, m)) (0, []) ts"

definition is_chain_complete :: "chain_dag_root \<Rightarrow> bool" where
  "is_chain_complete r = list_all (\<lambda>t. is_terminal (status t)) (tasks r)"

text \<open>The least round among the tasks that are not terminal; no round counts as round 1.\<close>

definition round_of :: "dag_task_entry \<Rightarrow> u32" where
  "round_of t = (case task_round t of None \<Rightarrow> 1 | Some r \<Rightarrow> r)"

definition min_non_terminal_round :: "dag_task_entry list \<Rightarrow> u32 option" where
  "min_non_terminal_round ts =
     (case map round_of (filter (\<lambda>t. \<not> is_terminal (status t)) ts) of
        [] \<Rightarrow> None
      | r # rs \<Rightarrow> Some (foldl min r rs))"

definition round_blocked :: "u32 option \<Rightarrow> dag_task_entry \<Rightarrow> bool" where
  "round_blocked min_r t =
     (case task_round t of
        None \<Rightarrow> False
      | Some r \<Rightarrow> r > 1 \<and> (case min_r of None \<Rightarrow> False | Some m \<Rightarrow> m < r))"

section \<open>Selection\<close>

definition task_eligible ::
  "(string, task_status) hmap \<Rightarrow> (string, task_output) hmap \<Rightarrow> u32 option \<Rightarrow> dag_task_entry \<Rightarrow> bool" where
  "task_eligible sm outs min_r t =
     (\<not> (status t \<noteq> Pending \<and> status t \<noteq> RetryScheduled) \<and> dependencies_met_cached t sm \<and>
      condition_met t sm outs \<and> \<not> round_blocked min_r t)"

definition push_group ::
  "(string option, string list) hmap \<Rightarrow> dag_task_entry \<Rightarrow> (string option, string list) hmap" where
  "push_group m t =
     hput (parallel_group t)
       ((case hget m (parallel_group t) of None \<Rightarrow> [] | Some l \<Rightarrow> l) @ [task_id t]) m"

definition eligible_by_group :: "dag_task_entry list \<Rightarrow> (string option, string list) hmap" where
  "eligible_by_group ts = foldl push_group [] ts"

record rr_cfg =
  rc_cap :: nat
  rc_group_cap :: nat
  rc_global_running :: nat
  rc_group_running :: "(string, nat) hmap"
  rc_group_of :: "string \<Rightarrow> string option"

record rr_state =
  rr_ready :: "string list"
  rr_queues :: "(string option, string list) hmap"
  rr_added :: bool

definition at_capacity :: "rr_cfg \<Rightarrow> rr_state \<Rightarrow> bool" where
  "at_capacity c s = (rc_global_running c + length (rr_ready s) \<ge> rc_cap c)"

definition group_at_cap :: "rr_cfg \<Rightarrow> rr_state \<Rightarrow> string option \<Rightarrow> bool" where
  "group_at_cap c s gk =
     (case gk of
        None \<Rightarrow> False
      | Some g \<Rightarrow>
          (case hget (rc_group_running c) g of None \<Rightarrow> 0 | Some n \<Rightarrow> n) +
          length (filter (\<lambda>t. rc_group_of c t = gk) (rr_ready s)) \<ge> rc_group_cap c)"

text \<open>
  One pass over the groups: stop at capacity, skip empty queues and groups at their cap,
  otherwise take the queue's first task. The keys are the map's own, so the lookup the
  source unwraps always succeeds; the branch for a foreign key is never taken.
\<close>

definition rr_take :: "string option \<Rightarrow> string \<Rightarrow> string list \<Rightarrow> rr_state \<Rightarrow> rr_state" where
  "rr_take gk tid rest s =
     s\<lparr>rr_ready := rr_ready s @ [tid], rr_queues := hput gk rest (rr_queues s), rr_added := True\<rparr>"

fun rr_pass :: "rr_cfg \<Rightarrow> string option list \<Rightarrow> rr_state \<Rightarrow> rr_state" where
  "rr_pass c [] s = s"
| "rr_pass c (gk # gks) s =
     (if at_capacity c s then s
      else (case hget (rr_queues s) gk of
              None \<Rightarrow> rr_pass c gks s
            | Some [] \<Rightarrow> rr_pass c gks s
            | Some (tid # rest) \<Rightarrow>
                if group_at_cap c s gk then rr_pass c gks s
                else rr_pass c gks (rr_take gk tid rest s)))"

definition queued :: "rr_state \<Rightarrow> nat" where
  "queued s = sum_list (map length (hvals (rr_queues s)))"

text \<open>What every permitted take keeps, a pass keeps.\<close>

lemma rr_pass_induct:
  assumes take: "\<And>s gk tid rest. P s \<Longrightarrow> \<not> at_capacity c s \<Longrightarrow> hget (rr_queues s) gk = Some (tid # rest) \<Longrightarrow>
      \<not> group_at_cap c s gk \<Longrightarrow> P (rr_take gk tid rest s)"
    and start: "P s"
  shows "P (rr_pass c gks s)"
  using start
proof (induction gks arbitrary: s)
  case Nil
  then show ?case by simp
next
  case (Cons gk gks)
  then show ?case using take [OF Cons.prems, of gk]
    by (auto split: option.splits list.splits)
qed

lemma queued_hput:
  "hget m gk = Some (tid # rest) \<Longrightarrow>
   Suc (sum_list (map length (hvals (hput gk rest m)))) = sum_list (map length (hvals m))"
  by (induction m) (auto split: if_splits)

lemma queued_take: "hget (rr_queues s) gk = Some (tid # rest) \<Longrightarrow> Suc (queued (rr_take gk tid rest s)) = queued s"
  using queued_hput by (simp add: queued_def rr_take_def)

lemma rr_pass_queued:
  "queued (rr_pass c gks s) \<le> queued s \<and>
   (rr_added (rr_pass c gks s) \<longrightarrow> rr_added s \<or> queued (rr_pass c gks s) < queued s)"
  by (rule rr_pass_induct [where P = "\<lambda>s'. queued s' \<le> queued s \<and> (rr_added s' \<longrightarrow> rr_added s \<or> queued s' < queued s)"])
    (auto dest!: queued_take)

function rr_loop :: "rr_cfg \<Rightarrow> string option list \<Rightarrow> rr_state \<Rightarrow> rr_state" where
  "rr_loop c gks s =
     (let s' = rr_pass c gks (s\<lparr>rr_added := False\<rparr>)
      in if \<not> rr_added s' \<or> at_capacity c s' then s' else rr_loop c gks s')"
  by pat_completeness auto
termination
proof (relation "measure (\<lambda>(c, gks, s). queued s)", goal_cases)
  case 1
  then show ?case by simp
next
  case (2 c gks s s')
  then show ?case
    using rr_pass_queued [of c gks "s\<lparr>rr_added := False\<rparr>"] by (auto simp: queued_def)
qed

declare rr_loop.simps [simp del]

section \<open>The scheduler's step\<close>

definition start_task :: "(string \<Rightarrow> string) \<Rightarrow> string \<Rightarrow> chain_dag_root \<Rightarrow> chain_dag_root" where
  "start_task iso_at tid =
     task_by_id_mut tid (\<lambda>t. t\<lparr>status := Running, attempt := sat_inc (attempt t),
                              started_at := Some (iso_at tid)\<rparr>)"

definition rr_cfg_of :: "chain_dag_root \<Rightarrow> rr_cfg" where
  "rr_cfg_of r =
     (let cap = unat (max_concurrent_tasks (global_config r)); (g, m) = count_running (tasks r)
      in \<lparr>rc_cap = cap, rc_group_cap = (cap + 1) div 2, rc_global_running = g, rc_group_running = m,
          rc_group_of = (\<lambda>tid. Option.bind (task_by_id r tid) parallel_group)\<rparr>)"

definition eligible_tasks :: "(string, task_output) hmap \<Rightarrow> chain_dag_root \<Rightarrow> dag_task_entry list" where
  "eligible_tasks outs r =
     filter (task_eligible (status_map (tasks r)) outs (min_non_terminal_round (tasks r))) (tasks r)"

definition select_ready ::
  "(string option list \<Rightarrow> string option list) \<Rightarrow> (string, task_output) hmap \<Rightarrow> chain_dag_root \<Rightarrow> string list" where
  "select_ready key_order outs r =
     (let q = eligible_by_group (eligible_tasks outs r)
      in rr_ready (rr_loop (rr_cfg_of r) (key_order (hkeys q))
                     \<lparr>rr_ready = [], rr_queues = q, rr_added = False\<rparr>))"

definition advance_dag ::
  "(string \<Rightarrow> int option) \<Rightarrow> int \<Rightarrow> (string \<Rightarrow> string) \<Rightarrow> (string option list \<Rightarrow> string option list) \<Rightarrow>
   (string, task_output) hmap \<Rightarrow> chain_dag_root \<Rightarrow> chain_dag_root \<times> string list" where
  "advance_dag parse_rfc3339 now iso_at key_order outs r =
     (if mode r \<noteq> Dag \<or> paused r then (r, [])
      else if max_concurrent_tasks (global_config r) = 0 then (r, [])
      else (let r1 = handle_expired_backoffs parse_rfc3339 now r
            in if eligible_tasks outs r1 = [] then (r1, [])
               else (let ready = select_ready key_order outs r1
                     in (foldl (\<lambda>r' tid. start_task iso_at tid r') r1 ready, ready))))"

text \<open>The read-only listing of ready tasks; output conditions count as unmet.\<close>

definition compute_ready_tasks :: "chain_dag_root \<Rightarrow> dag_task_entry list" where
  "compute_ready_tasks r =
     filter (\<lambda>t. (status t = Pending \<or> status t = RetryScheduled) \<and>
                 dependencies_met t (tasks r) \<and> condition_met t (status_map (tasks r)) [])
       (tasks r)"

end
