(* ===== verification/Chain_Scheduling.thy ===== *)
theory Chain_Scheduling
  imports Chain_Scheduler "HOL-Library.Sublist"
begin

text \<open>
  What one scheduler step does: the concurrency caps, the gates every started task passed,
  the frame of the step, and that capacity is never left unused. All facts hold for every
  iteration order of the map of groups.
\<close>

section \<open>The map of queues\<close>

definition queue_of :: "(string option, string list) hmap \<Rightarrow> string option \<Rightarrow> string list" where
  "queue_of m g = (case hget m g of None \<Rightarrow> [] | Some l \<Rightarrow> l)"

definition ids_of_group :: "string option \<Rightarrow> dag_task_entry list \<Rightarrow> string list" where
  "ids_of_group g ts = map task_id (filter (\<lambda>t. parallel_group t = g) ts)"

lemma queue_of_push:
  "queue_of (push_group m t) g = queue_of m g @ (if parallel_group t = g then [task_id t] else [])"
  by (auto simp: push_group_def queue_of_def hmap_simps)

lemma eligible_by_group_snoc: "eligible_by_group (ts @ [t]) = push_group (eligible_by_group ts) t"
  by (simp add: eligible_by_group_def)

lemma queue_of_eligible: "queue_of (eligible_by_group ts) g = ids_of_group g ts"
proof (induction ts rule: rev_induct)
  case Nil
  then show ?case by (simp add: eligible_by_group_def queue_of_def ids_of_group_def)
next
  case (snoc t ts)
  then show ?case by (simp add: eligible_by_group_snoc queue_of_push ids_of_group_def)
qed

lemma keys_eligible: "set (hkeys (eligible_by_group ts)) = parallel_group ` set ts"
proof (induction ts rule: rev_induct)
  case Nil
  then show ?case by (simp add: eligible_by_group_def)
next
  case (snoc t ts)
  then show ?case by (simp add: eligible_by_group_snoc push_group_def dom_update flip: image_set)
qed

lemma eligible_by_group_ok: "hmap_ok (eligible_by_group ts)"
  by (induction ts rule: rev_induct)
    (simp_all add: eligible_by_group_snoc push_group_def hput_ok, simp add: eligible_by_group_def)

section \<open>The round-robin loop\<close>

lemma rr_loop_induct:
  assumes take: "\<And>s gk tid rest. P s \<Longrightarrow> \<not> at_capacity c s \<Longrightarrow> hget (rr_queues s) gk = Some (tid # rest) \<Longrightarrow>
      \<not> group_at_cap c s gk \<Longrightarrow> P (rr_take gk tid rest s)"
    and flag: "\<And>s b. P s \<Longrightarrow> P (s\<lparr>rr_added := b\<rparr>)"
    and start: "P s"
  shows "P (rr_loop c gks s)"
  using take start
proof (induction c gks s rule: rr_loop.induct)
  case (1 c gks s)
  let ?s = "rr_pass c gks (s\<lparr>rr_added := False\<rparr>)"
  have "P ?s"
  proof (rule rr_pass_induct [where P = P])
    show "P (s\<lparr>rr_added := False\<rparr>)" by (rule flag [OF "1.prems"(2)])
  qed (rule "1.prems"(1))
  then show ?case using "1.IH" "1.prems"(1) by (subst rr_loop.simps) (auto simp: Let_def)
qed

text \<open>A pass that adds nothing has looked at every group and found it empty or at its cap.\<close>

definition group_stuck :: "rr_cfg \<Rightarrow> rr_state \<Rightarrow> string option \<Rightarrow> bool" where
  "group_stuck c s gk \<longleftrightarrow> queue_of (rr_queues s) gk = [] \<or> group_at_cap c s gk"

lemma rr_pass_added: "rr_added s \<Longrightarrow> rr_added (rr_pass c gks s)"
  by (rule rr_pass_induct [where P = rr_added]) (auto simp: rr_take_def)

lemma rr_pass_idle:
  "\<not> rr_added (rr_pass c gks s) \<Longrightarrow>
   rr_pass c gks s = s \<and> (at_capacity c s \<or> (\<forall>gk \<in> set gks. group_stuck c s gk))"
proof (induction gks)
  case Nil
  then show ?case by simp
next
  case (Cons gk gks)
  have "rr_added (rr_pass c gks (rr_take gk tid rest s))" for tid rest
    by (rule rr_pass_added) (simp add: rr_take_def)
  with Cons show ?case
    by (auto simp: group_stuck_def queue_of_def split: if_splits option.splits list.splits)
qed

lemma rr_loop_final:
  "at_capacity c (rr_loop c gks s) \<or> (\<forall>gk \<in> set gks. group_stuck c (rr_loop c gks s) gk)"
proof (induction c gks s rule: rr_loop.induct)
  case (1 c gks s)
  let ?s = "rr_pass c gks (s\<lparr>rr_added := False\<rparr>)"
  show ?case
  proof (cases "\<not> rr_added ?s \<or> at_capacity c ?s")
    case True
    then have "rr_loop c gks s = ?s" by (subst rr_loop.simps) (simp add: Let_def)
    then show ?thesis using True rr_pass_idle [of c gks "s\<lparr>rr_added := False\<rparr>"] by metis
  next
    case False
    then have "rr_loop c gks s = rr_loop c gks ?s" by (subst rr_loop.simps) (simp add: Let_def)
    then show ?thesis using "1.IH" [OF refl False] by simp
  qed
qed

text \<open>
  The loop's invariant, for the queues \<^term>\<open>q0\<close> it starts from: per group, what was taken
  followed by what is left is the group's queue; and no cap is passed that was not passed
  already.
\<close>

definition taken_in :: "rr_cfg \<Rightarrow> rr_state \<Rightarrow> string option \<Rightarrow> string list" where
  "taken_in c s g = filter (\<lambda>t. rc_group_of c t = g) (rr_ready s)"

definition group_running_of :: "rr_cfg \<Rightarrow> string \<Rightarrow> nat" where
  "group_running_of c g = (case hget (rc_group_running c) g of None \<Rightarrow> 0 | Some n \<Rightarrow> n)"

definition rr_inv :: "rr_cfg \<Rightarrow> (string option, string list) hmap \<Rightarrow> rr_state \<Rightarrow> bool" where
  "rr_inv c q0 s \<longleftrightarrow>
     (\<forall>g. taken_in c s g @ queue_of (rr_queues s) g = queue_of q0 g) \<and>
     rc_global_running c + length (rr_ready s) \<le> max (rc_cap c) (rc_global_running c) \<and>
     (\<forall>g. group_running_of c g + length (taken_in c s (Some g))
            \<le> max (rc_group_cap c) (group_running_of c g))"

lemma group_at_cap_Some:
  "group_at_cap c s (Some g) \<longleftrightarrow> rc_group_cap c \<le> group_running_of c g + length (taken_in c s (Some g))"
  by (simp add: group_at_cap_def group_running_of_def taken_in_def)

lemma queue_of_hput: "queue_of (hput g l m) g' = (if g' = g then l else queue_of m g')"
  by (simp add: queue_of_def hmap_simps)

lemma rr_inv_take:
  assumes inv: "rr_inv c q0 s" and free: "\<not> at_capacity c s" "\<not> group_at_cap c s gk"
    and q: "hget (rr_queues s) gk = Some (tid # rest)"
    and groups: "\<And>g tid. tid \<in> set (queue_of q0 g) \<Longrightarrow> rc_group_of c tid = g"
  shows "rr_inv c q0 (rr_take gk tid rest s)"
proof -
  have qs: "queue_of (rr_queues s) gk = tid # rest" using q by (simp add: queue_of_def)
  then have "tid \<in> set (queue_of q0 gk)"
    using inv by (metis in_set_conv_decomp rr_inv_def)
  then have g: "rc_group_of c tid = gk" by (rule groups)
  have t: "taken_in c (rr_take gk tid rest s) g' = taken_in c s g' @ (if g' = gk then [tid] else [])" for g'
    by (simp add: taken_in_def rr_take_def g)
  have "taken_in c (rr_take gk tid rest s) g' @ queue_of (rr_queues (rr_take gk tid rest s)) g' = queue_of q0 g'" for g'
  proof -
    have "taken_in c s g' @ queue_of (rr_queues s) g' = queue_of q0 g'"
      using inv by (simp add: rr_inv_def)
    then show ?thesis
      using qs by (cases "g' = gk") (simp_all add: t, simp_all add: rr_take_def queue_of_hput)
  qed
  moreover have "group_running_of c g' + length (taken_in c (rr_take gk tid rest s) (Some g'))
      \<le> max (rc_group_cap c) (group_running_of c g')" for g'
    using inv free(2) t [of "Some g'"]
    by (cases "gk = Some g'") (auto simp: rr_inv_def group_at_cap_Some)
  moreover have "rc_global_running c + length (rr_ready (rr_take gk tid rest s)) \<le> max (rc_cap c) (rc_global_running c)"
    using free(1) by (simp add: at_capacity_def rr_take_def)
  ultimately show ?thesis by (simp add: rr_inv_def)
qed

lemma rr_loop_inv:
  assumes groups: "\<And>g tid. tid \<in> set (queue_of q0 g) \<Longrightarrow> rc_group_of c tid = g"
  shows "rr_inv c q0 (rr_loop c gks \<lparr>rr_ready = [], rr_queues = q0, rr_added = False\<rparr>)"
proof (rule rr_loop_induct)
  show "rr_inv c q0 \<lparr>rr_ready = [], rr_queues = q0, rr_added = False\<rparr>"
    by (simp add: rr_inv_def taken_in_def)
next
  fix s b
  assume "rr_inv c q0 s"
  then show "rr_inv c q0 (s\<lparr>rr_added := b\<rparr>)" by (simp add: rr_inv_def taken_in_def)
qed (rule rr_inv_take; (assumption | rule groups))

section \<open>Counting running tasks\<close>

definition running_count :: "dag_task_entry list \<Rightarrow> nat" where
  "running_count ts = length (filter (\<lambda>t. status t = Running) ts)"

definition group_running :: "string \<Rightarrow> dag_task_entry list \<Rightarrow> nat" where
  "group_running g ts = length (filter (\<lambda>t. status t = Running \<and> parallel_group t = Some g) ts)"

lemma count_running_snoc:
  "count_running (ts @ [t]) =
     (let (n, m) = count_running ts
      in if status t = Running
         then (n + 1, case parallel_group t of
                        None \<Rightarrow> m
                      | Some pg \<Rightarrow> hput pg ((case hget m pg of None \<Rightarrow> 0 | Some n \<Rightarrow> n) + 1) m)
         else (n, m))"
  by (simp add: count_running_def split: prod.splits)

lemma count_running_char:
  "fst (count_running ts) = running_count ts \<and>
   (case hget (snd (count_running ts)) g of None \<Rightarrow> 0 | Some n \<Rightarrow> n) = group_running g ts"
proof (induction ts rule: rev_induct)
  case Nil
  then show ?case by (simp add: count_running_def running_count_def group_running_def)
next
  case (snoc t ts)
  obtain n m where "count_running ts = (n, m)" by force
  with snoc show ?case
    by (cases "parallel_group t")
      (auto simp: count_running_snoc running_count_def group_running_def hmap_simps)
qed

lemma rr_cfg_of_simps:
  "rc_cap (rr_cfg_of r) = unat (max_concurrent_tasks (global_config r))"
  "rc_group_cap (rr_cfg_of r) = (unat (max_concurrent_tasks (global_config r)) + 1) div 2"
  "rc_global_running (rr_cfg_of r) = running_count (tasks r)"
  "group_running_of (rr_cfg_of r) g = group_running g (tasks r)"
  "rc_group_of (rr_cfg_of r) tid = Option.bind (task_by_id r tid) parallel_group"
  using count_running_char [of "tasks r" g]
  by (auto simp: rr_cfg_of_def Let_def group_running_of_def split: prod.splits)

section \<open>The selected tasks\<close>

lemma task_by_id_in: "distinct (task_ids r) \<Longrightarrow> t \<in> set (tasks r) \<Longrightarrow> task_by_id r (task_id t) = Some t"
  unfolding task_by_id_def task_ids_def by (rule find_key_in)

lemma distinct_filters: "(\<And>g. distinct (filter (\<lambda>x. f x = g) xs)) \<Longrightarrow> distinct xs"
proof (induction xs)
  case Nil
  then show ?case by simp
next
  case (Cons x xs)
  have "distinct (filter (\<lambda>y. f y = g) xs)" for g
    using Cons.prems [of g] by (simp split: if_splits)
  then have "distinct xs" by (rule Cons.IH)
  moreover have "x \<notin> set xs" using Cons.prems [of "f x"] by simp
  ultimately show ?case by simp
qed

lemma ids_of_group_group:
  assumes "distinct (task_ids r)" "set ts \<subseteq> set (tasks r)" "tid \<in> set (ids_of_group g ts)"
  shows "rc_group_of (rr_cfg_of r) tid = g"
  using assms by (auto simp: ids_of_group_def rr_cfg_of_simps task_by_id_in subset_iff)

lemma eligible_sub: "set (eligible_tasks outs r) \<subseteq> set (tasks r)"
  by (auto simp: eligible_tasks_def)

lemma eligible_distinct: "distinct (task_ids r) \<Longrightarrow> distinct (map task_id (eligible_tasks outs r))"
  by (simp add: eligible_tasks_def task_ids_def distinct_map_filter)

definition final_state ::
  "(string option list \<Rightarrow> string option list) \<Rightarrow> (string, task_output) hmap \<Rightarrow> chain_dag_root \<Rightarrow> rr_state" where
  "final_state key_order outs r =
     (let q = eligible_by_group (eligible_tasks outs r)
      in rr_loop (rr_cfg_of r) (key_order (hkeys q))
           \<lparr>rr_ready = [], rr_queues = q, rr_added = False\<rparr>)"

lemma select_ready_final: "select_ready key_order outs r = rr_ready (final_state key_order outs r)"
  by (simp add: select_ready_def final_state_def Let_def)

lemma final_state_inv:
  assumes "distinct (task_ids r)"
  shows "rr_inv (rr_cfg_of r) (eligible_by_group (eligible_tasks outs r)) (final_state key_order outs r)"
  unfolding final_state_def Let_def
  by (rule rr_loop_inv) (auto simp: queue_of_eligible intro: ids_of_group_group assms eligible_sub [THEN subsetD])

lemma taken_prefix:
  assumes "distinct (task_ids r)"
  shows "taken_in (rr_cfg_of r) (final_state key_order outs r) g @
     queue_of (rr_queues (final_state key_order outs r)) g = ids_of_group g (eligible_tasks outs r)"
  using final_state_inv [OF assms, of outs key_order] by (simp add: rr_inv_def queue_of_eligible)

lemma ids_of_group_distinct: "distinct (map task_id ts) \<Longrightarrow> distinct (ids_of_group g ts)"
  by (simp add: ids_of_group_def distinct_map_filter)

lemma select_ready_distinct:
  assumes "distinct (task_ids r)"
  shows "distinct (select_ready key_order outs r)"
proof (rule distinct_filters)
  fix g
  have "distinct (ids_of_group g (eligible_tasks outs r))"
    by (rule ids_of_group_distinct [OF eligible_distinct [OF assms]])
  then show "distinct (filter (\<lambda>x. rc_group_of (rr_cfg_of r) x = g) (select_ready key_order outs r))"
    unfolding taken_prefix [OF assms, of key_order outs g, symmetric]
    by (simp add: taken_in_def select_ready_final)
qed

lemma select_ready_eligible:
  assumes "distinct (task_ids r)" "tid \<in> set (select_ready key_order outs r)"
  shows "\<exists>t \<in> set (eligible_tasks outs r). task_id t = tid"
proof -
  have "tid \<in> set (taken_in (rr_cfg_of r) (final_state key_order outs r) (rc_group_of (rr_cfg_of r) tid))"
    using assms(2) by (simp add: taken_in_def select_ready_final)
  then have "tid \<in> set (ids_of_group (rc_group_of (rr_cfg_of r) tid) (eligible_tasks outs r))"
    unfolding taken_prefix [OF assms(1), of key_order outs, symmetric] by simp
  then show ?thesis by (auto simp: ids_of_group_def)
qed

text \<open>Per group, the tasks taken are the first ones of the chain's order.\<close>

lemma select_ready_fifo:
  assumes "distinct (task_ids r)"
  shows "prefix (filter (\<lambda>tid. Option.bind (task_by_id r tid) parallel_group = g) (select_ready key_order outs r))
     (ids_of_group g (eligible_tasks outs r))"
  using taken_prefix [OF assms, of key_order outs g]
  by (auto simp: taken_in_def select_ready_final rr_cfg_of_simps intro: prefixI [OF sym])

lemma select_ready_full:
  assumes r: "distinct (task_ids r)"
    and keys: "set (key_order (hkeys (eligible_by_group (eligible_tasks outs r)))) =
      set (hkeys (eligible_by_group (eligible_tasks outs r)))"
    and t: "t \<in> set (eligible_tasks outs r)" "task_id t \<notin> set (select_ready key_order outs r)"
  shows "at_capacity (rr_cfg_of r) (final_state key_order outs r) \<or>
     group_at_cap (rr_cfg_of r) (final_state key_order outs r) (parallel_group t)"
proof -
  let ?s = "final_state key_order outs r"
  have "task_id t \<in> set (ids_of_group (parallel_group t) (eligible_tasks outs r))"
    using t(1) by (auto simp: ids_of_group_def)
  moreover have "task_id t \<notin> set (taken_in (rr_cfg_of r) ?s (parallel_group t))"
    using t(2) by (simp add: taken_in_def select_ready_final)
  ultimately have "queue_of (rr_queues ?s) (parallel_group t) \<noteq> []"
    unfolding taken_prefix [OF r, of key_order outs, symmetric] by auto
  moreover have "parallel_group t \<in> set (key_order (hkeys (eligible_by_group (eligible_tasks outs r))))"
    using t(1) by (simp only: keys keys_eligible) simp
  ultimately show ?thesis
    using rr_loop_final unfolding final_state_def Let_def group_stuck_def by blast
qed

section \<open>The effect of a step\<close>

definition started :: "(string \<Rightarrow> string) \<Rightarrow> dag_task_entry \<Rightarrow> dag_task_entry" where
  "started iso_at t =
     t\<lparr>status := Running, attempt := sat_inc (attempt t), started_at := Some (iso_at (task_id t))\<rparr>"

lemma start_task_map:
  assumes "distinct (task_ids r)"
  shows "start_task iso_at tid r =
     r\<lparr>tasks := map (\<lambda>t. if task_id t = tid then started iso_at t else t) (tasks r)\<rparr>"
proof -
  have "update_first (\<lambda>t. task_id t = tid) f (tasks r) = map (\<lambda>t. if task_id t = tid then f t else t) (tasks r)" for f
    using assms by (simp add: task_ids_def update_first_map)
  then show ?thesis
    by (simp add: start_task_def task_by_id_mut_def started_def cong: if_cong)
qed

definition start_all :: "(string \<Rightarrow> string) \<Rightarrow> string list \<Rightarrow> chain_dag_root \<Rightarrow> chain_dag_root" where
  "start_all iso_at ready r =
     r\<lparr>tasks := map (\<lambda>t. if task_id t \<in> set ready then started iso_at t else t) (tasks r)\<rparr>"

lemma started_id [simp]: "task_id (started iso_at t) = task_id t"
  by (simp add: started_def)

lemma start_tasks_all:
  assumes "distinct (task_ids r)" "distinct ready"
  shows "foldl (\<lambda>r' tid. start_task iso_at tid r') r ready = start_all iso_at ready r"
  using assms
proof (induction ready rule: rev_induct)
  case Nil
  then show ?case by (simp add: start_all_def)
next
  case (snoc tid ready)
  have "task_ids (start_all iso_at ready r) = task_ids r"
    by (simp add: task_ids_def start_all_def if_distrib cong: if_cong)
  then have "start_task iso_at tid (start_all iso_at ready r) =
      start_all iso_at (ready @ [tid]) r"
    using snoc.prems by (auto simp: start_task_map start_all_def)
  with snoc show ?case by simp
qed

lemma expire_id [simp]: "task_id (expire_backoff p now t) = task_id t"
  by (simp add: expire_backoff_def split: option.splits)

lemma expire_group [simp]: "parallel_group (expire_backoff p now t) = parallel_group t"
  by (simp add: expire_backoff_def split: option.splits)

lemma expire_running [simp]: "status (expire_backoff p now t) = Running \<longleftrightarrow> status t = Running"
  by (simp add: expire_backoff_def split: option.splits)

lemma task_ids_expire [simp]: "task_ids (handle_expired_backoffs p now r) = task_ids r"
  by (simp add: task_ids_def handle_expired_backoffs_def)

lemma expire_running_count [simp]:
  "running_count (tasks (handle_expired_backoffs p now r)) = running_count (tasks r)"
  "group_running g (tasks (handle_expired_backoffs p now r)) = group_running g (tasks r)"
  by (simp_all add: running_count_def group_running_def handle_expired_backoffs_def filter_map comp_def)

lemma handle_expired_frame [simp]:
  "mode (handle_expired_backoffs p now r) = mode r" "paused (handle_expired_backoffs p now r) = paused r"
  "global_config (handle_expired_backoffs p now r) = global_config r"
  by (simp_all add: handle_expired_backoffs_def)

lemma select_ready_nil: "eligible_tasks outs r = [] \<Longrightarrow> distinct (task_ids r) \<Longrightarrow> select_ready key_order outs r = []"
  using select_ready_eligible [of r _ key_order outs] by (cases "select_ready key_order outs r") auto

text \<open>A step of an active chain with a capacity, in one equation.\<close>

lemma advance_dag_eq:
  assumes "distinct (task_ids r)" "mode r = Dag" "\<not> paused r" "max_concurrent_tasks (global_config r) \<noteq> 0"
  shows "advance_dag p now iso_at key_order outs r =
     (let r1 = handle_expired_backoffs p now r; ready = select_ready key_order outs r1
      in (start_all iso_at ready r1, ready))"
proof -
  let ?r1 = "handle_expired_backoffs p now r"
  have d: "distinct (task_ids ?r1)" using assms(1) by simp
  show ?thesis
    using assms start_tasks_all [OF d select_ready_distinct [OF d]] select_ready_nil [OF _ d]
    by (auto simp: advance_dag_def Let_def) (simp add: start_all_def)
qed

section \<open>Running tasks after a step\<close>

lemma length_filter_keys:
  assumes "distinct (map key xs)" "distinct ks" "set ks \<subseteq> key ` set xs"
  shows "length (filter (\<lambda>x. key x \<in> set ks) xs) = length ks"
proof -
  have "map key (filter (\<lambda>x. key x \<in> set ks) xs) = filter (\<lambda>k. k \<in> set ks) (map key xs)"
    by (simp add: filter_map comp_def)
  moreover have "mset (filter (\<lambda>k. k \<in> set ks) (map key xs)) = mset ks"
    using assms by (subst set_eq_iff_mset_eq_distinct [symmetric]) auto
  ultimately show ?thesis by (metis length_map size_mset)
qed

lemma length_filter_disj:
  "(\<And>x. x \<in> set xs \<Longrightarrow> \<not> (P x \<and> Q x)) \<Longrightarrow>
   length (filter (\<lambda>x. P x \<or> Q x) xs) = length (filter P xs) + length (filter Q xs)"
  by (induction xs) auto

definition runs_in :: "string option set \<Rightarrow> dag_task_entry \<Rightarrow> bool" where
  "runs_in G t \<longleftrightarrow> status t = Running \<and> parallel_group t \<in> G"

lemma runs_in_counts:
  "running_count ts = length (filter (runs_in UNIV) ts)"
  "group_running g ts = length (filter (runs_in {Some g}) ts)"
  by (simp_all add: running_count_def group_running_def runs_in_def [abs_def])

lemma start_all_count:
  assumes ids: "distinct (task_ids r)" and ready: "distinct ready"
    and elig: "\<And>tid. tid \<in> set ready \<Longrightarrow> \<exists>t \<in> set (tasks r). task_id t = tid \<and> status t \<noteq> Running"
  shows "length (filter (runs_in G) (tasks (start_all iso_at ready r))) =
     length (filter (runs_in G) (tasks r)) +
     length (filter (\<lambda>tid. Option.bind (task_by_id r tid) parallel_group \<in> G) ready)"
proof -
  let ?ks = "filter (\<lambda>tid. Option.bind (task_by_id r tid) parallel_group \<in> G) ready"
  have idle: "status t \<noteq> Running" if "t \<in> set (tasks r)" "task_id t \<in> set ready" for t
    using elig [OF that(2)] that(1) ids by (auto simp: task_ids_def distinct_map inj_on_def)
  have key: "task_id t \<in> set ?ks \<longleftrightarrow> task_id t \<in> set ready \<and> parallel_group t \<in> G" if "t \<in> set (tasks r)" for t
    using task_by_id_in [OF ids that] by simp
  have "length (filter (runs_in G) (tasks (start_all iso_at ready r))) =
      length (filter (\<lambda>t. runs_in G (if task_id t \<in> set ready then started iso_at t else t)) (tasks r))"
    by (simp add: start_all_def filter_map comp_def)
  also have "\<dots> = length (filter (\<lambda>t. runs_in G t \<or> task_id t \<in> set ?ks) (tasks r))"
  proof (rule arg_cong [where f = length], rule filter_cong [OF refl])
    fix t assume t: "t \<in> set (tasks r)"
    show "runs_in G (if task_id t \<in> set ready then started iso_at t else t) =
        (runs_in G t \<or> task_id t \<in> set ?ks)"
      unfolding key [OF t] using idle [OF t] by (auto simp: runs_in_def started_def)
  qed
  also have "\<dots> = length (filter (runs_in G) (tasks r)) + length (filter (\<lambda>t. task_id t \<in> set ?ks) (tasks r))"
    using idle by (intro length_filter_disj) (auto simp: runs_in_def)
  also have "length (filter (\<lambda>t. task_id t \<in> set ?ks) (tasks r)) = length ?ks"
    using ids ready elig by (intro length_filter_keys) (auto simp: task_ids_def)
  finally show ?thesis .
qed

lemma eligible_idle: "t \<in> set (eligible_tasks outs r) \<Longrightarrow> t \<in> set (tasks r) \<and> status t \<in> {Pending, RetryScheduled}"
  by (auto simp: eligible_tasks_def task_eligible_def)

lemma ready_idle:
  "distinct (task_ids r) \<Longrightarrow> tid \<in> set (select_ready key_order outs r) \<Longrightarrow>
   \<exists>t \<in> set (tasks r). task_id t = tid \<and> status t \<noteq> Running"
  using select_ready_eligible [of r tid key_order outs] eligible_idle by fastforce

lemma running_after:
  assumes "distinct (task_ids r)"
  shows "running_count (tasks (start_all iso_at (select_ready key_order outs r) r)) =
     running_count (tasks r) + length (select_ready key_order outs r)"
  using start_all_count [OF assms select_ready_distinct [OF assms] ready_idle [OF assms], where G = UNIV]
  by (simp add: runs_in_counts)

lemma group_running_after:
  assumes "distinct (task_ids r)"
  shows "group_running g (tasks (start_all iso_at (select_ready key_order outs r) r)) =
     group_running g (tasks r) + length (taken_in (rr_cfg_of r) (final_state key_order outs r) (Some g))"
  using start_all_count [OF assms select_ready_distinct [OF assms] ready_idle [OF assms], where G = "{Some g}"]
  by (simp add: runs_in_counts taken_in_def rr_cfg_of_simps select_ready_final)

section \<open>Dependency and round gates\<close>

lemma status_map_get: "distinct (task_ids r) \<Longrightarrow> hget (status_map (tasks r)) d = map_option status (task_by_id r d)"
proof -
  assume d: "distinct (task_ids r)"
  have "hget (map (\<lambda>t. (task_id t, status t)) ts) d = map_option status (find (\<lambda>t. task_id t = d) ts)" for ts
    by (induction ts) auto
  then show ?thesis
    using d unfolding status_map_def task_by_id_def
    by (subst hget_hcollect_distinct) (simp_all add: task_ids_def comp_def)
qed

lemma deps_met_iff:
  assumes "distinct (task_ids r)"
  shows "dependencies_met_cached t (status_map (tasks r)) \<longleftrightarrow>
     (\<forall>d \<in> set (depends_on t). \<exists>u. task_by_id r d = Some u \<and> status u \<in> {Completed, Skipped})"
  by (auto simp: dependencies_met_cached_def list_all_iff status_map_get [OF assms] split: option.splits)

lemma deps_met_cached_iff: "dependencies_met t ts = dependencies_met_cached t (status_map ts)"
proof -
  have "(case x of Some Completed \<Rightarrow> True | Some Skipped \<Rightarrow> True | Some _ \<Rightarrow> False | None \<Rightarrow> False) =
      (case x of Some s \<Rightarrow> s = Completed \<or> s = Skipped | None \<Rightarrow> False)" for x
    by (auto split: option.splits task_status.splits)
  then show ?thesis
    by (simp add: dependencies_met_def dependencies_met_cached_def status_map_def Let_def)
qed

lemma foldl_min_le: "foldl min (a :: 'a :: linorder) xs \<le> a \<and> (\<forall>x \<in> set xs. foldl min a xs \<le> x)"
proof (induction xs arbitrary: a)
  case Nil
  then show ?case by simp
next
  case (Cons x xs)
  then show ?case using Cons [of "min a x"] by auto
qed

lemma foldl_min_in: "foldl min (a :: 'a :: linorder) xs \<in> insert a (set xs)"
  by (induction xs arbitrary: a) (auto simp: min_def)

lemma min_round_less:
  "(case min_non_terminal_round ts of None \<Rightarrow> False | Some m \<Rightarrow> m < k) \<longleftrightarrow>
   (\<exists>u \<in> set ts. \<not> is_terminal (status u) \<and> round_of u < k)"
proof -
  let ?rs = "map round_of (filter (\<lambda>t. \<not> is_terminal (status t)) ts)"
  have "(\<exists>u \<in> set ts. \<not> is_terminal (status u) \<and> round_of u < k) \<longleftrightarrow> (\<exists>x \<in> set ?rs. x < k)"
    by auto
  moreover have "(case min_non_terminal_round ts of None \<Rightarrow> False | Some m \<Rightarrow> m < k) \<longleftrightarrow> (\<exists>x \<in> set ?rs. x < k)"
  proof (cases ?rs)
    case (Cons a xs)
    then show ?thesis using foldl_min_le [of a xs] foldl_min_in [of a xs]
      by (auto simp: min_non_terminal_round_def intro: le_less_trans)
  qed (simp add: min_non_terminal_round_def)
  ultimately show ?thesis by simp
qed

lemma round_blocked_iff:
  "round_blocked (min_non_terminal_round ts) t \<longleftrightarrow>
   1 < round_of t \<and> (\<exists>u \<in> set ts. \<not> is_terminal (status u) \<and> round_of u < round_of t)"
  by (cases "task_round t") (simp_all add: round_blocked_def round_of_def min_round_less [unfolded round_of_def])

section \<open>Properties of a scheduler step\<close>

lemma advance_dag_cases:
  assumes "distinct (task_ids r)" "advance_dag p now iso_at key_order outs r = (r', ready)"
  obtains (idle) "mode r \<noteq> Dag \<or> paused r \<or> max_concurrent_tasks (global_config r) = 0" "r' = r" "ready = []"
  | (active) "mode r = Dag" "\<not> paused r" "max_concurrent_tasks (global_config r) \<noteq> 0"
      "ready = select_ready key_order outs (handle_expired_backoffs p now r)"
      "r' = start_all iso_at ready (handle_expired_backoffs p now r)"
proof (cases "mode r \<noteq> Dag \<or> paused r \<or> max_concurrent_tasks (global_config r) = 0")
  case True
  then show ?thesis using assms(2) idle by (auto simp: advance_dag_def split: if_splits)
next
  case False
  then show ?thesis using assms active by (auto simp: advance_dag_eq Let_def)
qed

text \<open>A chain of four tasks, one of them finished, for the concrete instances below.\<close>

definition demo_retry :: dag_task_entry where
  "demo_retry = (dag_task_new ''r'')\<lparr>status := RetryScheduled, attempt := 1, backoff_until := Some ''5''\<rparr>"

definition demo_chain :: chain_dag_root where
  "demo_chain = chain_dag_root_new ''demo''
     [(dag_task_new ''a'')\<lparr>status := Completed\<rparr>,
      (dag_task_new ''b'')\<lparr>depends_on := [''a''], parallel_group := Some ''g''\<rparr>,
      (dag_task_new ''c'')\<lparr>depends_on := [''b'']\<rparr>,
      demo_retry]"

definition demo_parse :: "string \<Rightarrow> int option" where
  "demo_parse s = (if s = ''5'' then Some 5 else None)"

lemma demo_ids: "distinct (task_ids demo_chain)"
  by code_simp

text \<open>The ids of the running tasks, and what starting a list of tasks makes of them.\<close>

definition running_ids :: "dag_task_entry list \<Rightarrow> string set" where
  "running_ids ts = set (map task_id (filter (\<lambda>t. status t = Running) ts))"

lemma running_ids_expire [simp]: "running_ids (tasks (handle_expired_backoffs p now r)) = running_ids (tasks r)"
  by (simp add: running_ids_def handle_expired_backoffs_def filter_map comp_def image_image del: set_map set_filter)

lemma running_ids_start:
  assumes "set ready \<subseteq> set (task_ids r)"
  shows "running_ids (tasks (start_all iso_at ready r)) = running_ids (tasks r) \<union> set ready"
proof -
  let ?f = "\<lambda>t. if task_id t \<in> set ready then started iso_at t else t"
  have f: "task_id (?f t) = task_id t" "status (?f t) = Running \<longleftrightarrow> status t = Running \<or> task_id t \<in> set ready" for t
    by (simp_all add: started_def)
  have "running_ids (tasks (start_all iso_at ready r)) =
      set (map task_id (filter (\<lambda>t. status t = Running \<or> task_id t \<in> set ready) (tasks r)))"
    by (simp add: running_ids_def start_all_def filter_map comp_def f del: set_map set_filter)
  also have "\<dots> = running_ids (tasks r) \<union> set ready"
    using assms by (auto simp: running_ids_def task_ids_def)
  finally show ?thesis .
qed

text \<open>
  C13: A scheduler step starts exactly the tasks it returns: they are distinct tasks of the chain,
  none of them was running, and afterwards those that were running before and those that are returned run,
  and no others. Their number never exceeds the chain's cap on concurrent tasks (unless it
  already did before the step).
\<close>

theorem advance_dag_capacity:
  assumes "distinct (task_ids r)"
    and "advance_dag parse_rfc3339 now iso_at key_order outs r = (r', ready)"
  shows "distinct ready \<and> set ready \<subseteq> set (task_ids r) \<and> running_ids (tasks r) \<inter> set ready = {} \<and>
    running_ids (tasks r') = running_ids (tasks r) \<union> set ready \<and>
    running_count (tasks r') = running_count (tasks r) + length ready \<and>
    running_count (tasks r') \<le> max (unat (max_concurrent_tasks (global_config r))) (running_count (tasks r))"
  using assms
proof (cases rule: advance_dag_cases)
  case idle
  then show ?thesis by simp
next
  case active
  let ?r1 = "handle_expired_backoffs parse_rfc3339 now r"
  have d: "distinct (task_ids ?r1)" using assms(1) by simp
  have idle: "\<exists>t \<in> set (tasks ?r1). task_id t = i \<and> status t \<noteq> Running" if "i \<in> set ready" for i
    using ready_idle [OF d] that active by blast
  then have ids: "set ready \<subseteq> set (task_ids ?r1)" by (auto simp: task_ids_def)
  have "i \<notin> running_ids (tasks ?r1)" if "i \<in> set ready" for i
    using idle [OF that] d unfolding running_ids_def task_ids_def distinct_map by (auto dest: inj_onD)
  then show ?thesis
    using final_state_inv [OF d, of outs key_order] running_after [OF d, of iso_at key_order outs] active
      select_ready_distinct [OF d] running_ids_start [OF ids] ids
    by (auto simp: rr_inv_def rr_cfg_of_simps select_ready_final)
qed

theorem advance_dag_capacity_witness:
  "running_count (tasks (fst (advance_dag demo_parse 3 id id [] demo_chain))) \<le> 4"
proof -
  have c: "unat (max_concurrent_tasks (global_config demo_chain)) = 4" "running_count (tasks demo_chain) = 0"
    by code_simp+
  show ?thesis
    using advance_dag_capacity [OF demo_ids prod.collapse [symmetric], of demo_parse 3 id id "[]"]
    by (simp add: c)
qed

text \<open>
  In every named parallel group, a step brings the number of running tasks to at most half
  of the chain's cap, rounded up, unless the group had more before.
\<close>

theorem advance_dag_group_capacity:
  assumes "distinct (task_ids r)"
    and "advance_dag parse_rfc3339 now iso_at key_order outs r = (r', ready)"
  shows "group_running g (tasks r')
    \<le> max ((unat (max_concurrent_tasks (global_config r)) + 1) div 2) (group_running g (tasks r))"
  using assms
proof (cases rule: advance_dag_cases)
  case idle
  then show ?thesis by simp
next
  case active
  let ?r1 = "handle_expired_backoffs parse_rfc3339 now r"
  have d: "distinct (task_ids ?r1)" using assms(1) by simp
  show ?thesis
    using final_state_inv [OF d, of outs key_order] group_running_after [OF d, of g iso_at key_order outs] active
    by (simp add: rr_inv_def rr_cfg_of_simps)
qed

theorem advance_dag_group_capacity_witness:
  "group_running ''g'' (tasks (fst (advance_dag demo_parse 3 id id [] demo_chain))) \<le> 2"
proof -
  have c: "unat (max_concurrent_tasks (global_config demo_chain)) = 4" "group_running ''g'' (tasks demo_chain) = 0"
    by code_simp+
  show ?thesis
    using advance_dag_group_capacity [OF demo_ids prod.collapse [symmetric], of "''g''" demo_parse 3 id id "[]"]
    by (simp add: c)
qed

text \<open>
  Every task a step starts was pending or waiting for a retry, all its dependencies are
  tasks of the chain that completed or were skipped, its condition holds, and a task of a
  round after the first is started only when every task of a lower round is terminal.
\<close>

theorem advance_dag_gates:
  assumes "distinct (task_ids r)"
    and "advance_dag parse_rfc3339 now iso_at key_order outs r = (r', ready)"
    and "tid \<in> set ready"
  shows "\<exists>t. task_by_id (handle_expired_backoffs parse_rfc3339 now r) tid = Some t \<and>
    status t \<in> {Pending, RetryScheduled} \<and>
    (\<forall>d \<in> set (depends_on t). \<exists>u. task_by_id r d = Some u \<and> status u \<in> {Completed, Skipped}) \<and>
    condition_met t (status_map (tasks (handle_expired_backoffs parse_rfc3339 now r))) outs \<and>
    (1 < round_of t \<longrightarrow> (\<forall>u \<in> set (tasks r). round_of u < round_of t \<longrightarrow> is_terminal (status u)))"
  using assms(1,2)
proof (cases rule: advance_dag_cases)
  case idle
  then show ?thesis using assms(3) by simp
next
  case active
  let ?r1 = "handle_expired_backoffs parse_rfc3339 now r"
  let ?e = "expire_backoff parse_rfc3339 now"
  have d: "distinct (task_ids ?r1)" using assms(1) by simp
  obtain t where t: "t \<in> set (eligible_tasks outs ?r1)" "task_id t = tid"
    using select_ready_eligible [OF d] assms(3) active by blast
  have done1: "status (?e u) \<in> {Completed, Skipped} \<longleftrightarrow> status u \<in> {Completed, Skipped}"
    and term1: "is_terminal (status (?e u)) \<longleftrightarrow> is_terminal (status u)"
    and round1: "round_of (?e u) = round_of u" for u
    by (auto simp: expire_backoff_def round_of_def split: option.splits)
  have find1: "task_by_id ?r1 d = map_option ?e (task_by_id r d)" for d
    by (simp add: task_by_id_def handle_expired_backoffs_def find_map_key comp_def)
  have gates: "\<forall>d \<in> set (depends_on t). \<exists>u. task_by_id ?r1 d = Some u \<and> status u \<in> {Completed, Skipped}"
      "\<not> round_blocked (min_non_terminal_round (tasks ?r1)) t"
      "condition_met t (status_map (tasks ?r1)) outs"
    using t(1) deps_met_iff [OF d] by (auto simp: eligible_tasks_def task_eligible_def)
  have "task_by_id ?r1 tid = Some t"
    using task_by_id_in [OF d] t eligible_idle by blast
  moreover have "\<forall>d \<in> set (depends_on t). \<exists>u. task_by_id r d = Some u \<and> status u \<in> {Completed, Skipped}"
  proof
    fix d assume "d \<in> set (depends_on t)"
    then obtain u where "task_by_id ?r1 d = Some u" "status u \<in> {Completed, Skipped}"
      using gates(1) by blast
    then obtain v where "task_by_id r d = Some v" "u = ?e v" by (auto simp: find1)
    then show "\<exists>u. task_by_id r d = Some u \<and> status u \<in> {Completed, Skipped}"
      using done1 [of v] \<open>status u \<in> _\<close> by blast
  qed
  moreover have "1 < round_of t \<longrightarrow> (\<forall>u \<in> set (tasks r). round_of u < round_of t \<longrightarrow> is_terminal (status u))"
    using gates(2) by (auto simp: round_blocked_iff handle_expired_backoffs_def term1 round1)
  ultimately show ?thesis using eligible_idle [OF t(1)] gates(3) by blast
qed

lemma demo_run: "advance_dag demo_parse 3 id id [] demo_chain =
   (start_all id [''b'', ''r''] (handle_expired_backoffs demo_parse 3 demo_chain), [''b'', ''r''])"
  by code_simp

theorem advance_dag_gates_witness:
  "\<exists>t. task_by_id (handle_expired_backoffs demo_parse 3 demo_chain) ''b'' = Some t \<and>
    (\<forall>d \<in> set (depends_on t). \<exists>u. task_by_id demo_chain d = Some u \<and> status u \<in> {Completed, Skipped})"
  using advance_dag_gates [OF demo_ids demo_run, of "''b''"] by auto

text \<open>
  The whole effect of a step on an active chain: the tasks keep their order, an expired
  backoff turns its task back to pending, the returned ids become running with a start time
  and an attempt count one higher (saturating at 32 bits), and nothing else of the chain
  changes.
\<close>

theorem advance_dag_effect:
  assumes "distinct (task_ids r)" "mode r = Dag" "\<not> paused r" "max_concurrent_tasks (global_config r) \<noteq> 0"
    and "advance_dag parse_rfc3339 now iso_at key_order outs r = (r', ready)"
  shows "r' = r\<lparr>tasks := map (\<lambda>t. let t1 = expire_backoff parse_rfc3339 now t in
      if task_id t \<in> set ready
      then t1\<lparr>status := Running, attempt := sat_inc (attempt t1), started_at := Some (iso_at (task_id t1))\<rparr>
      else t1) (tasks r)\<rparr> \<and> distinct ready"
proof -
  let ?r1 = "handle_expired_backoffs parse_rfc3339 now r"
  have run: "ready = select_ready key_order outs ?r1" "r' = start_all iso_at ready ?r1"
    using assms by (auto simp: advance_dag_eq Let_def)
  have "distinct (task_ids ?r1)" using assms(1) by simp
  then have "distinct ready" unfolding run(1) by (rule select_ready_distinct)
  then show ?thesis unfolding run(2)
    by (simp add: start_all_def handle_expired_backoffs_def started_def Let_def comp_def cong: if_cong)
qed

theorem advance_dag_effect_witness:
  "map (\<lambda>t. (status t, attempt t)) (tasks (fst (advance_dag demo_parse 3 id id [] demo_chain))) =
   [(Completed, 0), (Running, 1), (Pending, 0), (Running, 2)]"
proof -
  have a: "mode demo_chain = Dag" "\<not> paused demo_chain" "max_concurrent_tasks (global_config demo_chain) \<noteq> 0"
    by code_simp+
  have "map (\<lambda>t. (status t, attempt t)) (tasks (demo_chain\<lparr>tasks := map (\<lambda>t. let t1 = expire_backoff demo_parse 3 t in
      if task_id t \<in> set [''b'', ''r'']
      then t1\<lparr>status := Running, attempt := sat_inc (attempt t1), started_at := Some (id (task_id t1))\<rparr>
      else t1) (tasks demo_chain)\<rparr>)) = [(Completed, 0), (Running, 1), (Pending, 0), (Running, 2)]"
    by code_simp
  then show ?thesis
    using advance_dag_effect [OF demo_ids a demo_run] demo_run by simp
qed

text \<open>
  Capacity is never left unused: when the chain has fewer running tasks than its cap after
  a step, every task that was eligible was started, except those whose named group is at its
  own cap. This holds for every order in which the map of groups is iterated.
\<close>

theorem advance_dag_work_conserving:
  assumes "distinct (task_ids r)" "mode r = Dag" "\<not> paused r"
    and "\<And>ks. set (key_order ks) = set ks"
    and "advance_dag parse_rfc3339 now iso_at key_order outs r = (r', ready)"
    and "running_count (tasks r') < unat (max_concurrent_tasks (global_config r))"
    and "t \<in> set (eligible_tasks outs (handle_expired_backoffs parse_rfc3339 now r))"
  shows "task_id t \<in> set ready \<or>
    (\<exists>g. parallel_group t = Some g \<and>
       (unat (max_concurrent_tasks (global_config r)) + 1) div 2 \<le> group_running g (tasks r'))"
  using assms(1,5)
proof (cases rule: advance_dag_cases)
  case idle
  then show ?thesis using assms(2,3,6) by simp
next
  case active
  let ?r1 = "handle_expired_backoffs parse_rfc3339 now r"
  have d: "distinct (task_ids ?r1)" using assms(1) by simp
  show ?thesis
  proof (rule disjCI)
    assume full: "\<not> (\<exists>g. parallel_group t = Some g \<and>
       (unat (max_concurrent_tasks (global_config r)) + 1) div 2 \<le> group_running g (tasks r'))"
    have "\<not> at_capacity (rr_cfg_of ?r1) (final_state key_order outs ?r1)"
      using assms(6) running_after [OF d, of iso_at key_order outs] active
      by (simp add: at_capacity_def rr_cfg_of_simps select_ready_final)
    moreover have "\<not> group_at_cap (rr_cfg_of ?r1) (final_state key_order outs ?r1) (parallel_group t)"
      using full group_running_after [OF d, of _ iso_at key_order outs] active
      by (cases "parallel_group t") (simp_all add: group_at_cap_Some rr_cfg_of_simps, simp add: group_at_cap_def)
    ultimately show "task_id t \<in> set ready"
      using select_ready_full [where key_order = key_order, OF d assms(4) assms(7)] active by auto
  qed
qed

theorem advance_dag_work_conserving_witness:
  "''r'' \<in> set (snd (advance_dag demo_parse 3 id rev [] demo_chain))"
proof -
  obtain r' ready where run: "advance_dag demo_parse 3 id rev [] demo_chain = (r', ready)" by force
  have "demo_retry \<in> set (eligible_tasks [] (handle_expired_backoffs demo_parse 3 demo_chain))"
    "running_count (tasks (fst (advance_dag demo_parse 3 id rev [] demo_chain))) <
       unat (max_concurrent_tasks (global_config demo_chain))"
    "mode demo_chain = Dag" "\<not> paused demo_chain" "task_id demo_retry = ''r''" "parallel_group demo_retry = None"
    by code_simp+
  then show ?thesis
    using advance_dag_work_conserving [OF demo_ids _ _ _ run, of demo_retry] run by simp
qed

text \<open>
  Within a parallel group (the tasks without a group form one too) tasks are started in
  the order in which the chain lists them: the started tasks of a group are a prefix of its
  eligible tasks.
\<close>

theorem advance_dag_fifo:
  assumes "distinct (task_ids r)"
    and "advance_dag parse_rfc3339 now iso_at key_order outs r = (r', ready)"
  shows "prefix (filter (\<lambda>tid. Option.bind (task_by_id r tid) parallel_group = g) ready)
    (map task_id (filter (\<lambda>t. parallel_group t = g)
       (eligible_tasks outs (handle_expired_backoffs parse_rfc3339 now r))))"
  using assms
proof (cases rule: advance_dag_cases)
  case idle
  then show ?thesis by simp
next
  case active
  have "Option.bind (task_by_id (handle_expired_backoffs parse_rfc3339 now r) tid) parallel_group =
      Option.bind (task_by_id r tid) parallel_group" for tid
    by (cases "task_by_id r tid")
      (simp_all add: task_by_id_def handle_expired_backoffs_def find_map_key comp_def)
  then show ?thesis
    using select_ready_fifo [of "handle_expired_backoffs parse_rfc3339 now r" g key_order outs] active assms(1)
    by (simp add: ids_of_group_def)
qed

theorem advance_dag_fifo_witness:
  "prefix (filter (\<lambda>tid. Option.bind (task_by_id demo_chain tid) parallel_group = None) [''b'', ''r'']) [''r'']"
proof -
  have "map task_id (filter (\<lambda>t. parallel_group t = None)
      (eligible_tasks [] (handle_expired_backoffs demo_parse 3 demo_chain))) = [''r'']"
    by code_simp
  then show ?thesis using advance_dag_fifo [OF demo_ids demo_run, of None] by simp
qed

text \<open>
  A backoff that has not expired does not hold its task back: a task waiting for a retry
  whose backoff deadline lies in the future is started by the next step whenever its other
  gates are open and the chain has capacity left. The eligibility test accepts the status
  itself, so the deadline only matters for the status text.
\<close>

theorem advance_dag_ignores_backoff:
  assumes "distinct (task_ids r)" "mode r = Dag" "\<not> paused r"
    and "\<And>ks. set (key_order ks) = set ks"
    and "advance_dag parse_rfc3339 now iso_at key_order outs r = (r', ready)"
    and "running_count (tasks r') < unat (max_concurrent_tasks (global_config r))"
    and "t \<in> set (tasks r)" "status t = RetryScheduled" "backoff_until t = Some b"
    and "parse_rfc3339 b = Some deadline" "now < deadline"
    and "depends_on t = []" "condition t = None" "task_round t = None" "parallel_group t = None"
  shows "task_id t \<in> set ready"
  using assms(1,5)
proof (cases rule: advance_dag_cases)
  case idle
  then show ?thesis using assms(2,3,6) by simp
next
  case active
  let ?r1 = "handle_expired_backoffs parse_rfc3339 now r"
  have d: "distinct (task_ids ?r1)" using assms(1) by simp
  have "expire_backoff parse_rfc3339 now t = t"
    using assms(9-11) by (simp add: expire_backoff_def)
  then have "t \<in> set (tasks ?r1)" using assms(7) by (force simp: handle_expired_backoffs_def)
  then have elig: "t \<in> set (eligible_tasks outs ?r1)"
    using assms(8,12-15)
    by (simp add: eligible_tasks_def task_eligible_def dependencies_met_cached_def condition_met_def round_blocked_def)
  have "\<not> at_capacity (rr_cfg_of ?r1) (final_state key_order outs ?r1)"
    using assms(6) running_after [OF d, of iso_at key_order outs] active
    by (simp add: at_capacity_def rr_cfg_of_simps select_ready_final)
  then show ?thesis
    using select_ready_full [where key_order = key_order, OF d assms(4) elig] active assms(15) by (auto simp: group_at_cap_def)
qed

theorem advance_dag_ignores_backoff_witness:
  "''r'' \<in> set (snd (advance_dag demo_parse 3 id id [] demo_chain)) \<and> demo_parse ''5'' = Some 5"
proof -
  have "demo_retry \<in> set (tasks demo_chain)" "status demo_retry = RetryScheduled"
    "backoff_until demo_retry = Some ''5''" "demo_parse ''5'' = Some 5" "(3::int) < 5"
    "depends_on demo_retry = []" "condition demo_retry = None" "task_round demo_retry = None"
    "parallel_group demo_retry = None" "task_id demo_retry = ''r''"
    "mode demo_chain = Dag" "\<not> paused demo_chain"
    "running_count (tasks (start_all id [''b'', ''r''] (handle_expired_backoffs demo_parse 3 demo_chain))) <
       unat (max_concurrent_tasks (global_config demo_chain))"
    by code_simp+
  then show ?thesis
    using advance_dag_ignores_backoff [OF demo_ids _ _ _ demo_run, of demo_retry "''5''" 5] by (simp add: demo_run)
qed

end
