(* ===== verification/Chain_Validate.thy ===== *)
theory Chain_Validate
  imports Chain_Scheduling
begin

text \<open>
  Validation of a chain's dependency graph (\<open>validate_dag\<close> and \<open>has_cycle_iterative\<close> of
  \<^verbatim>\<open>core/chain-engine/src/scheduler.rs\<close>): duplicate ids, unknown references, and the cycle
  search with an explicit stack. The search is proved equivalent to the existence of a
  reachable cycle, validation to the graph being well formed, and a validated chain is shown
  never to get stuck.
\<close>

section \<open>The cycle search\<close>

text \<open>A frame is the node, its dependencies and the index of the next one to look at.\<close>

type_synonym stack_frame = "string \<times> string list \<times> nat"

definition pending_deps :: "stack_frame list \<Rightarrow> nat" where
  "pending_deps stack = sum_list (map (\<lambda>(n, ds, i). Suc (length ds - i)) stack)"

lemma unvisited_less:
  assumes "hget m k = Some v" "k \<notin> V"
  shows "card (fst ` set m - insert k V) < card (fst ` set m - V)"
proof (rule psubset_card_mono)
  have "k \<in> fst ` set m" using hget_Some_in [OF assms(1)] by force
  then show "fst ` set m - insert k V \<subset> fst ` set m - V" using assms(2) by blast
qed simp

lemma unvisited_same: "hget m k = None \<Longrightarrow> fst ` set m - insert k V = fst ` set m - V"
  by (auto simp: hget_None_iff)

function cycle_loop :: "(string, string list) hmap \<Rightarrow> string set \<Rightarrow> string set \<Rightarrow> stack_frame list \<Rightarrow> bool" where
  "cycle_loop task_map visited in_stack [] = False"
| "cycle_loop task_map visited in_stack ((node, deps, index) # stack) =
     (if index \<ge> length deps then cycle_loop task_map visited (in_stack - {node}) stack
      else (let dep = deps ! index; stack' = (node, deps, Suc index) # stack
            in if dep \<in> in_stack then True
               else if dep \<notin> visited
                    then (case hget task_map dep of
                            Some ds \<Rightarrow> cycle_loop task_map (insert dep visited) (insert dep in_stack)
                                          ((dep, ds, 0) # stack')
                          | None \<Rightarrow> cycle_loop task_map (insert dep visited) (insert dep in_stack) stack')
                    else cycle_loop task_map visited in_stack stack'))"
  by pat_completeness auto

termination
  by (relation "measures [\<lambda>(tm, V, S, st). card (fst ` set tm - V), \<lambda>(tm, V, S, st). pending_deps st]")
    (auto simp: pending_deps_def unvisited_less unvisited_same)

definition has_cycle_iterative :: "string \<Rightarrow> dag_task_entry list \<Rightarrow> bool" where
  "has_cycle_iterative start_node ts =
     (let task_map = hcollect (map (\<lambda>t. (task_id t, depends_on t)) ts)
      in case hget task_map start_node of
           Some deps \<Rightarrow> cycle_loop task_map {start_node} {start_node} [(start_node, deps, 0)]
         | None \<Rightarrow> cycle_loop task_map {start_node} {start_node} [])"

section \<open>Validation\<close>

datatype chain_error = DuplicateTask string | UnknownDependency string string
  | UnknownConditionSource string string | CycleFrom string

fun first_duplicate :: "string set \<Rightarrow> string list \<Rightarrow> string option" where
  "first_duplicate seen [] = None"
| "first_duplicate seen (x # xs) = (if x \<in> seen then Some x else first_duplicate (insert x seen) xs)"

definition unknown_reference :: "string set \<Rightarrow> dag_task_entry \<Rightarrow> chain_error option" where
  "unknown_reference ids t =
     (case find (\<lambda>d. d \<notin> ids) (depends_on t) of
        Some d \<Rightarrow> Some (UnknownDependency (task_id t) d)
      | None \<Rightarrow>
          (case condition t of
             None \<Rightarrow> None
           | Some c \<Rightarrow> if source c \<notin> ids then Some (UnknownConditionSource (task_id t) (source c)) else None))"

definition validate_dag :: "chain_dag_root \<Rightarrow> (chain_error, unit) result" where
  "validate_dag r =
     (let ids = set (task_ids r)
      in case (if card ids \<noteq> length (tasks r) then first_duplicate {} (task_ids r) else None) of
           Some x \<Rightarrow> Inl (Validation, DuplicateTask x)
         | None \<Rightarrow>
             (case first_some (unknown_reference ids) (tasks r) of
                Some e \<Rightarrow> Inl (Validation, e)
              | None \<Rightarrow>
                  (case find (\<lambda>t. has_cycle_iterative (task_id t) (tasks r)) (tasks r) of
                     Some t \<Rightarrow> Inl (Validation, CycleFrom (task_id t))
                   | None \<Rightarrow> Inr ())))"

section \<open>Correctness of the search\<close>

definition tm_edges :: "(string, string list) hmap \<Rightarrow> (string \<times> string) set" where
  "tm_edges tm = {(u, d). \<exists>ds. hget tm u = Some ds \<and> d \<in> set ds}"

text \<open>
  The stack is a path of the graph; of a frame's dependencies, those already looked at are
  finished or are the node of the frame above.
\<close>

fun stack_ok :: "(string, string list) hmap \<Rightarrow> string set \<Rightarrow> string option \<Rightarrow> stack_frame list \<Rightarrow> bool" where
  "stack_ok tm B up [] = True"
| "stack_ok tm B up ((n, ds, i) # rest) =
     (hget tm n = Some ds \<and> i \<le> length ds \<and> (\<forall>j < i. ds ! j \<in> B \<or> up = Some (ds ! j)) \<and>
      (\<forall>a. up = Some a \<longrightarrow> (n, a) \<in> tm_edges tm) \<and> stack_ok tm B (Some n) rest)"

definition closed_acyclic :: "('a \<times> 'a) set \<Rightarrow> 'a set \<Rightarrow> bool" where
  "closed_acyclic E B \<longleftrightarrow> (\<forall>x \<in> B. E `` {x} \<subseteq> B \<and> (x, x) \<notin> E\<^sup>+)"

definition cycle_inv ::
  "(string, string list) hmap \<Rightarrow> string \<Rightarrow> string set \<Rightarrow> string set \<Rightarrow> stack_frame list \<Rightarrow> bool" where
  "cycle_inv tm start V S st \<longleftrightarrow>
     start \<in> V \<and> S = set (map fst st) \<and> distinct (map fst st) \<and> S \<subseteq> V \<and>
     (\<forall>n \<in> S. (start, n) \<in> (tm_edges tm)\<^sup>*) \<and> stack_ok tm (V - S) None st \<and>
     closed_acyclic (tm_edges tm) (V - S)"

lemma stack_ok_mono: "stack_ok tm B up st \<Longrightarrow> B \<subseteq> B' \<Longrightarrow> stack_ok tm B' up st"
  by (induction tm B up st rule: stack_ok.induct) auto

lemma stack_ok_pop: "stack_ok tm B (Some n) st \<Longrightarrow> stack_ok tm (insert n B) None st"
proof (cases st)
  case (Cons f rest)
  moreover obtain m ds i where "f = (m, ds, i)" by (cases f)
  moreover assume "stack_ok tm B (Some n) st"
  ultimately show ?thesis using stack_ok_mono [of tm B "Some m" rest "insert n B"] by auto
qed simp

lemma stack_ok_path: "stack_ok tm B (Some a) st \<Longrightarrow> x \<in> set (map fst st) \<Longrightarrow> (x, a) \<in> (tm_edges tm)\<^sup>+"
proof (induction st arbitrary: a)
  case Nil
  then show ?case by simp
next
  case (Cons f rest)
  obtain n ds i where f: "f = (n, ds, i)" by (cases f)
  have na: "(n, a) \<in> tm_edges tm" using Cons.prems f by simp
  show ?case
  proof (cases "x = n")
    case True
    then show ?thesis using na by auto
  next
    case False
    then have "(x, n) \<in> (tm_edges tm)\<^sup>+" using Cons f by auto
    then show ?thesis using na by (rule trancl_into_trancl)
  qed
qed

text \<open>A closed set without cycles stays so when a node is added whose successors are in it.\<close>

lemma closed_trancl: "(u, v) \<in> E\<^sup>+ \<Longrightarrow> u \<in> B \<Longrightarrow> (\<And>x. x \<in> B \<Longrightarrow> E `` {x} \<subseteq> B) \<Longrightarrow> v \<in> B"
  by (induction rule: trancl_induct) blast+

lemma closed_acyclic_insert:
  assumes "closed_acyclic E B" and "E `` {n} \<subseteq> B" and "n \<notin> B"
  shows "closed_acyclic E (insert n B)"
proof -
  have "(n, n) \<notin> E\<^sup>+"
  proof
    assume "(n, n) \<in> E\<^sup>+"
    then obtain d where "(n, d) \<in> E" "d = n \<or> (d, n) \<in> E\<^sup>+" by (meson tranclD rtrancl_eq_or_trancl)
    then show False using closed_trancl [of d n E B] assms by (auto simp: closed_acyclic_def)
  qed
  then show ?thesis using assms by (auto simp: closed_acyclic_def)
qed

lemma cycle_inv_pop:
  assumes "cycle_inv tm start V S ((n, ds, i) # st)" "length ds \<le> i"
  shows "cycle_inv tm start V (S - {n}) st"
proof -
  have n: "n \<in> V" "n \<notin> set (map fst st)" "S = insert n (set (map fst st))"
    using assms(1) by (auto simp: cycle_inv_def)
  then have B: "V - (S - {n}) = insert n (V - S)" by auto
  have "tm_edges tm `` {n} \<subseteq> V - S"
    using assms by (auto simp: cycle_inv_def tm_edges_def in_set_conv_nth)
  then have "closed_acyclic (tm_edges tm) (V - (S - {n}))"
    unfolding B using assms(1) n(3) by (intro closed_acyclic_insert) (auto simp: cycle_inv_def)
  moreover have "stack_ok tm (V - (S - {n})) None st"
    unfolding B using assms(1) by (intro stack_ok_pop) (auto simp: cycle_inv_def)
  ultimately show ?thesis using assms(1) n by (auto simp: cycle_inv_def)
qed

lemma cycle_inv_push:
  assumes inv: "cycle_inv tm start V S ((n, ds, i) # st)"
    and "i < length ds" "ds ! i \<notin> V" "hget tm (ds ! i) = Some ds'"
  shows "cycle_inv tm start (insert (ds ! i) V) (insert (ds ! i) S) ((ds ! i, ds', 0) # (n, ds, Suc i) # st)"
proof -
  let ?d = "ds ! i"
  have B: "insert ?d V - insert ?d S = V - S" using assms(3) by auto
  have e: "(n, ?d) \<in> tm_edges tm" using inv assms(2) by (auto simp: cycle_inv_def tm_edges_def)
  have "(start, n) \<in> (tm_edges tm)\<^sup>*" using inv by (simp add: cycle_inv_def)
  then have "(start, ?d) \<in> (tm_edges tm)\<^sup>*" using e by (rule rtrancl_into_rtrancl)
  moreover have "?d \<notin> S" using inv assms(3) by (auto simp: cycle_inv_def)
  moreover have "stack_ok tm (V - S) None ((?d, ds', 0) # (n, ds, Suc i) # st)"
    using inv assms(2,4) e by (auto simp: cycle_inv_def less_Suc_eq)
  ultimately show ?thesis using inv unfolding cycle_inv_def B by auto
qed

lemma cycle_inv_skip:
  assumes "cycle_inv tm start V S ((n, ds, i) # st)" "i < length ds" "ds ! i \<in> V" "ds ! i \<notin> S"
  shows "cycle_inv tm start V S ((n, ds, Suc i) # st)"
  using assms by (auto simp: cycle_inv_def less_Suc_eq)

lemma cycle_inv_hit:
  assumes inv: "cycle_inv tm start V S ((n, ds, i) # st)" and "i < length ds" "ds ! i \<in> S"
  shows "\<exists>v. (start, v) \<in> (tm_edges tm)\<^sup>* \<and> (v, v) \<in> (tm_edges tm)\<^sup>+"
proof -
  let ?d = "ds ! i"
  have e: "(n, ?d) \<in> tm_edges tm" using inv assms(2) by (auto simp: cycle_inv_def tm_edges_def)
  have "?d = n \<or> (?d, n) \<in> (tm_edges tm)\<^sup>+"
    using inv assms(3) stack_ok_path [of tm "V - S" n st ?d] by (auto simp: cycle_inv_def)
  then have "(?d, ?d) \<in> (tm_edges tm)\<^sup>+" using e by (auto intro: trancl_into_trancl)
  then show ?thesis using inv assms(3) unfolding cycle_inv_def by blast
qed

lemma cycle_loop_correct:
  assumes closed: "\<And>u d. (u, d) \<in> tm_edges tm \<Longrightarrow> hget tm d \<noteq> None"
    and "cycle_inv tm start V S st"
  shows "cycle_loop tm V S st \<longleftrightarrow> (\<exists>v. (start, v) \<in> (tm_edges tm)\<^sup>* \<and> (v, v) \<in> (tm_edges tm)\<^sup>+)"
  using assms
proof (induction tm V S st rule: cycle_loop.induct)
  case (1 tm V S)
  have "v \<in> V" if "(start, v) \<in> (tm_edges tm)\<^sup>*" for v
    using that
  proof (induction rule: rtrancl_induct)
    case base
    then show ?case using "1.prems"(2) by (simp add: cycle_inv_def)
  next
    case (step y z)
    then show ?case using "1.prems"(2) by (auto simp: cycle_inv_def closed_acyclic_def)
  qed
  then show ?case using "1.prems"(2) by (auto simp: cycle_inv_def closed_acyclic_def)
next
  case (2 tm V S n ds i st)
  let ?d = "ds ! i"
  consider (pop) "length ds \<le> i" | (hit) "i < length ds" "?d \<in> S"
    | (push) "i < length ds" "?d \<notin> S" "?d \<notin> V" | (skip) "i < length ds" "?d \<notin> S" "?d \<in> V"
    by linarith
  then show ?case
  proof cases
    case pop
    then show ?thesis using 2 cycle_inv_pop [OF "2.prems"(2) pop] by simp
  next
    case hit
    then show ?thesis using cycle_inv_hit [OF "2.prems"(2) hit] by (simp add: Let_def)
  next
    case push
    have "(n, ?d) \<in> tm_edges tm" using "2.prems"(2) push by (auto simp: cycle_inv_def tm_edges_def)
    then obtain ds' where ds': "hget tm ?d = Some ds'" using "2.prems"(1) by blast
    show ?thesis
      using "2.IH"(3) [OF _ refl refl push(2,3) ds' "2.prems"(1) cycle_inv_push [OF "2.prems"(2) push(1,3) ds']]
        push ds' by (simp add: Let_def)
  next
    case skip
    show ?thesis
      using "2.IH"(4) [OF _ refl refl skip(2) _ "2.prems"(1) cycle_inv_skip [OF "2.prems"(2) skip(1,3,2)]]
        skip by (simp add: Let_def)
  qed
qed

declare cycle_loop.simps [simp del]

section \<open>Well-formed dependency graphs\<close>

definition dep_edges :: "dag_task_entry list \<Rightarrow> (string \<times> string) set" where
  "dep_edges ts = {(task_id t, d) | t d. t \<in> set ts \<and> d \<in> set (depends_on t)}"

definition refs_resolve :: "dag_task_entry list \<Rightarrow> bool" where
  "refs_resolve ts \<longleftrightarrow>
     (\<forall>t \<in> set ts. set (depends_on t) \<subseteq> set (map task_id ts) \<and>
        (\<forall>c. condition t = Some c \<longrightarrow> source c \<in> set (map task_id ts)))"

lemma first_duplicate_None: "first_duplicate seen xs = None \<longleftrightarrow> distinct xs \<and> set xs \<inter> seen = {}"
  by (induction seen xs rule: first_duplicate.induct) auto

lemma first_duplicate_SomeD: "first_duplicate {} xs = Some x \<Longrightarrow> \<not> distinct xs"
  using first_duplicate_None [of "{}" xs] by auto

lemma unknown_reference_None:
  "unknown_reference ids t = None \<longleftrightarrow>
   set (depends_on t) \<subseteq> ids \<and> (\<forall>c. condition t = Some c \<longrightarrow> source c \<in> ids)"
proof (cases "find (\<lambda>d. d \<notin> ids) (depends_on t)")
  case None
  then have "set (depends_on t) \<subseteq> ids" by (auto simp: find_None_iff)
  with None show ?thesis by (simp add: unknown_reference_def split: option.splits)
next
  case (Some d)
  then show ?thesis using find_SomeD [OF Some] by (auto simp: unknown_reference_def)
qed

lemma task_map_edges:
  assumes "distinct (map task_id ts)"
  shows "tm_edges (hcollect (map (\<lambda>t. (task_id t, depends_on t)) ts)) = dep_edges ts"
proof -
  have "hget (hcollect (map (\<lambda>t. (task_id t, depends_on t)) ts)) u = Some ds \<longleftrightarrow>
      (u, ds) \<in> set (map (\<lambda>t. (task_id t, depends_on t)) ts)" for u ds
    using assms by (simp add: hget_hcollect_distinct comp_def)
  then show ?thesis by (auto simp: tm_edges_def dep_edges_def)
qed

lemma has_cycle_iff:
  assumes "distinct (map task_id ts)" "refs_resolve ts" "t \<in> set ts"
  shows "has_cycle_iterative (task_id t) ts \<longleftrightarrow>
    (\<exists>v. (task_id t, v) \<in> (dep_edges ts)\<^sup>* \<and> (v, v) \<in> (dep_edges ts)\<^sup>+)"
proof -
  let ?tm = "hcollect (map (\<lambda>t. (task_id t, depends_on t)) ts)"
  have get: "hget ?tm (task_id u) = Some (depends_on u)" if "u \<in> set ts" for u
    using assms(1) that by (simp add: hget_hcollect_distinct comp_def)
  have "cycle_inv ?tm (task_id t) {task_id t} {task_id t} [(task_id t, depends_on t, 0)]"
    using get [OF assms(3)] by (simp add: cycle_inv_def closed_acyclic_def)
  moreover have "hget ?tm d \<noteq> None" if "(u, d) \<in> tm_edges ?tm" for u d
    using that assms(2) get by (fastforce simp: task_map_edges [OF assms(1)] dep_edges_def refs_resolve_def)
  ultimately show ?thesis
    using cycle_loop_correct [of ?tm "task_id t"] get [OF assms(3)]
    by (simp add: has_cycle_iterative_def task_map_edges [OF assms(1)])
qed

lemma duplicate_check:
  "(if card (set xs) \<noteq> length xs then first_duplicate {} xs else None) = None \<longleftrightarrow> distinct xs"
  using first_duplicate_None [of "{}" xs] by (auto simp: card_distinct distinct_card)

lemma first_unknown: "first_some (unknown_reference (set (map task_id ts))) ts = None \<longleftrightarrow> refs_resolve ts"
  by (simp add: first_some_None unknown_reference_None refs_resolve_def)

lemma find_cycle:
  assumes "distinct (map task_id ts)" "refs_resolve ts"
  shows "find (\<lambda>t. has_cycle_iterative (task_id t) ts) ts = None \<longleftrightarrow> acyclic (dep_edges ts)"
proof -
  have "(\<exists>t \<in> set ts. has_cycle_iterative (task_id t) ts) \<longleftrightarrow> (\<exists>v. (v, v) \<in> (dep_edges ts)\<^sup>+)"
  proof
    assume "\<exists>v. (v, v) \<in> (dep_edges ts)\<^sup>+"
    then obtain v where v: "(v, v) \<in> (dep_edges ts)\<^sup>+" ..
    then obtain d where "(v, d) \<in> dep_edges ts" by (meson tranclD)
    then obtain t where "t \<in> set ts" "task_id t = v" by (auto simp: dep_edges_def)
    with v has_cycle_iff [OF assms] show "\<exists>t \<in> set ts. has_cycle_iterative (task_id t) ts" by blast
  qed (use has_cycle_iff [OF assms] in blast)
  then show ?thesis by (auto simp: find_None_iff acyclic_def)
qed

text \<open>
  C1: Validation accepts exactly the well-formed dependency graphs: the ids are distinct, every
  dependency and every condition source is a task of the chain, and the dependencies form no
  cycle. In particular the search with an explicit stack finds a cycle whenever there is one.
\<close>

theorem validate_dag_correct:
  "validate_dag r = Inr () \<longleftrightarrow>
   distinct (task_ids r) \<and> refs_resolve (tasks r) \<and> acyclic (dep_edges (tasks r))"
proof -
  have len: "length (tasks r) = length (task_ids r)" by (simp add: task_ids_def)
  have *: "validate_dag r = Inr () \<longleftrightarrow>
      (if card (set (task_ids r)) \<noteq> length (task_ids r) then first_duplicate {} (task_ids r) else None) = None \<and>
      first_some (unknown_reference (set (map task_id (tasks r)))) (tasks r) = None \<and>
      find (\<lambda>t. has_cycle_iterative (task_id t) (tasks r)) (tasks r) = None"
    unfolding validate_dag_def Let_def len by (auto simp: task_ids_def split: option.splits)
  show ?thesis
    unfolding * duplicate_check first_unknown
    using find_cycle [of "tasks r"] by (auto simp: task_ids_def)
qed

text \<open>
  A rejected chain is rejected for the reason the error names: the id really occurs twice,
  the dependency or condition source is really unknown, a cycle can really be reached from
  the named task.
\<close>

theorem validate_dag_error:
  assumes "validate_dag r = Inl (k, e)"
  shows "k = Validation \<and>
    (case e of
       DuplicateTask x \<Rightarrow> x \<in> set (task_ids r) \<and> \<not> distinct (task_ids r)
     | UnknownDependency x d \<Rightarrow> (x, d) \<in> dep_edges (tasks r) \<and> d \<notin> set (task_ids r)
     | UnknownConditionSource x s \<Rightarrow>
         (\<exists>t \<in> set (tasks r). \<exists>c. task_id t = x \<and> condition t = Some c \<and> source c = s) \<and> s \<notin> set (task_ids r)
     | CycleFrom x \<Rightarrow> \<exists>v. (x, v) \<in> (dep_edges (tasks r))\<^sup>* \<and> (v, v) \<in> (dep_edges (tasks r))\<^sup>+)"
proof -
  let ?ids = "set (task_ids r)"
  let ?dup = "if card ?ids \<noteq> length (tasks r) then first_duplicate {} (task_ids r) else None"
  have len: "length (tasks r) = length (task_ids r)" by (simp add: task_ids_def)
  have dup_in: "x \<in> set xs" if "first_duplicate seen xs = Some x" for seen xs and x :: string
    using that by (induction seen xs rule: first_duplicate.induct) (auto split: if_splits)
  consider (dup) x where "?dup = Some x" "e = DuplicateTask x"
    | (unk) "first_some (unknown_reference ?ids) (tasks r) = Some e"
    | (cyc) t where "?dup = None" "first_some (unknown_reference ?ids) (tasks r) = None"
        "find (\<lambda>t. has_cycle_iterative (task_id t) (tasks r)) (tasks r) = Some t" "e = CycleFrom (task_id t)"
    using assms unfolding validate_dag_def Let_def by (fastforce split: option.splits if_splits)
  then show ?thesis
  proof cases
    case dup
    then have "first_duplicate {} (task_ids r) = Some x" by (simp split: if_splits)
    then show ?thesis
      using dup assms first_duplicate_SomeD dup_in
      by (fastforce simp: validate_dag_def Let_def split: option.splits if_splits)
  next
    case unk
    then obtain t where t: "t \<in> set (tasks r)" "unknown_reference ?ids t = Some e"
      using first_some_SomeD by metis
    have "k = Validation" using assms by (auto simp: validate_dag_def Let_def split: option.splits if_splits)
    with t show ?thesis
      by (cases "find (\<lambda>d. d \<notin> ?ids) (depends_on t)"; cases "condition t")
        (auto 4 4 simp: unknown_reference_def dep_edges_def dest!: find_SomeD split: if_splits)
  next
    case cyc
    have "distinct (map task_id (tasks r))" "refs_resolve (tasks r)"
      using cyc(1,2) duplicate_check [of "task_ids r"] first_unknown [of "tasks r"]
      unfolding len by (simp_all add: task_ids_def)
    then show ?thesis
      using assms cyc find_SomeD [OF cyc(3)] has_cycle_iff [of "tasks r" t]
      by (auto simp: validate_dag_def Let_def split: option.splits if_splits)
  qed
qed

theorem validate_dag_error_witness:
  "\<exists>v. (''a'', v) \<in> (dep_edges [(dag_task_new ''a'')\<lparr>depends_on := [''a'']\<rparr>])\<^sup>*
     \<and> (v, v) \<in> (dep_edges [(dag_task_new ''a'')\<lparr>depends_on := [''a'']\<rparr>])\<^sup>+"
proof -
  let ?r = "chain_dag_root_new ''c'' [(dag_task_new ''a'')\<lparr>depends_on := [''a'']\<rparr>]"
  have "validate_dag ?r = Inl (Validation, CycleFrom ''a'')" by code_simp
  then show ?thesis
    using validate_dag_error [of ?r Validation "CycleFrom ''a''"] by (simp add: chain_dag_root_new_def)
qed

section \<open>A validated chain never gets stuck\<close>

lemma dep_edges_UN: "dep_edges ts = (\<Union>t \<in> set ts. (\<lambda>d. (task_id t, d)) ` set (depends_on t))"
  by (auto simp: dep_edges_def)

lemma finite_dep_edges: "finite (dep_edges ts)"
  by (simp add: dep_edges_UN)

lemma dep_edges_expire: "dep_edges (tasks (handle_expired_backoffs p now r)) = dep_edges (tasks r)"
proof -
  have "depends_on (expire_backoff p now t) = depends_on t" for t
    by (simp add: expire_backoff_def split: option.splits)
  then show ?thesis by (simp add: dep_edges_UN handle_expired_backoffs_def)
qed

text \<open>Among the tasks of a property, one of a least rank that depends on no other such.\<close>

lemma minimal_task:
  fixes rank :: "dag_task_entry \<Rightarrow> 'b::linorder"
  assumes "acyclic (dep_edges ts)" "t \<in> set ts" "P t"
  shows "\<exists>z \<in> set ts. P z \<and> (\<forall>u \<in> set ts. P u \<longrightarrow> rank z \<le> rank u) \<and>
    (\<forall>u \<in> set ts. P u \<and> rank u = rank z \<longrightarrow> (task_id z, task_id u) \<notin> dep_edges ts)"
proof -
  let ?N = "{u \<in> set ts. P u}"
  define m where "m = Min (rank ` ?N)"
  have fin: "finite (rank ` ?N)" "rank ` ?N \<noteq> {}" using assms(2,3) by auto
  define Q where "Q = {task_id u | u. u \<in> ?N \<and> rank u = m}"
  have "m \<in> rank ` ?N" unfolding m_def using fin by (rule Min_in)
  then obtain u0 where "u0 \<in> ?N" "rank u0 = m" by auto
  then have q: "task_id u0 \<in> Q" unfolding Q_def by blast
  have wf: "wf ((dep_edges ts)\<inverse>)"
    using finite_dep_edges assms(1) by (rule finite_acyclic_wf_converse)
  show ?thesis
  proof (rule wfE_min [OF wf q])
    fix z assume z: "z \<in> Q" "\<And>y. (y, z) \<in> (dep_edges ts)\<inverse> \<Longrightarrow> y \<notin> Q"
    then obtain u where u: "u \<in> ?N" "rank u = m" "z = task_id u" unfolding Q_def by blast
    have "\<forall>v \<in> set ts. P v \<longrightarrow> rank u \<le> rank v"
      unfolding u(2) m_def using fin(1) by (auto intro: Min_le)
    moreover have "(task_id u, task_id v) \<notin> dep_edges ts" if "v \<in> set ts" "P v" "rank v = rank u" for v
    proof
      assume "(task_id u, task_id v) \<in> dep_edges ts"
      then have "task_id v \<notin> Q" using z(2) u(3) by simp
      then show False using that u(2) by (auto simp: Q_def)
    qed
    ultimately show ?thesis using u(1) by blast
  qed
qed

definition rounds_consistent :: "dag_task_entry list \<Rightarrow> bool" where
  "rounds_consistent ts \<longleftrightarrow>
     (\<forall>t \<in> set ts. \<forall>u \<in> set ts. task_id u \<in> set (depends_on t) \<longrightarrow> round_of u \<le> round_of t)"

text \<open>
  An open chain none of whose tasks runs, failed or is blocked has an eligible task, when its
  graph is valid, no task waits on a condition, and dependencies do not point to later rounds.
\<close>

lemma eligible_exists:
  assumes valid: "validate_dag r = Inr ()"
    and idle: "\<forall>t \<in> set (tasks r). status t \<in> {Completed, Skipped, Pending, RetryScheduled} \<and> condition t = None"
    and rounds: "rounds_consistent (tasks r)" and open_chain: "\<not> is_chain_complete r"
  shows "eligible_tasks outs r \<noteq> []"
proof -
  let ?P = "\<lambda>t. \<not> is_terminal (status t)"
  have v: "distinct (task_ids r)" "refs_resolve (tasks r)" "acyclic (dep_edges (tasks r))"
    using valid by (simp_all add: validate_dag_correct)
  obtain t0 where "t0 \<in> set (tasks r)" "?P t0"
    using open_chain by (auto simp: is_chain_complete_def list_all_iff)
  then obtain t where t: "t \<in> set (tasks r)" "?P t"
      "\<forall>u \<in> set (tasks r). ?P u \<longrightarrow> round_of t \<le> round_of u"
      "\<forall>u \<in> set (tasks r). ?P u \<and> round_of u = round_of t \<longrightarrow> (task_id t, task_id u) \<notin> dep_edges (tasks r)"
    using minimal_task [OF v(3), of t0 ?P round_of] by blast
  have "\<exists>u. task_by_id r d = Some u \<and> status u \<in> {Completed, Skipped}" if d: "d \<in> set (depends_on t)" for d
  proof -
    obtain u where u: "u \<in> set (tasks r)" "task_id u = d"
      using v(2) d t(1) by (force simp: refs_resolve_def)
    have "round_of u \<le> round_of t" using rounds t(1) u d by (auto simp: rounds_consistent_def)
    moreover have "(task_id t, task_id u) \<in> dep_edges (tasks r)" using t(1) d u by (auto simp: dep_edges_def)
    ultimately have "\<not> ?P u" using t(3,4) u(1) by (metis antisym)
    then have "status u \<in> {Completed, Skipped}" using idle u(1) by fastforce
    then show ?thesis using task_by_id_in [OF v(1) u(1)] u(2) by auto
  qed
  moreover have "\<not> round_blocked (min_non_terminal_round (tasks r)) t"
    using t(3) by (auto simp: round_blocked_iff not_less)
  moreover have "status t \<in> {Pending, RetryScheduled}" "condition t = None" using idle t(1,2) by fastforce+
  ultimately have "task_eligible (status_map (tasks r)) outs (min_non_terminal_round (tasks r)) t"
    using deps_met_iff [OF v(1), of t] by (auto simp: task_eligible_def condition_met_def)
  then show ?thesis using t(1) by (auto simp: eligible_tasks_def filter_empty_conv)
qed

lemma select_ready_nonempty:
  assumes "distinct (task_ids r)" "\<And>ks. set (key_order ks) = set ks"
    and "eligible_tasks outs r \<noteq> []" "running_count (tasks r) = 0"
    and "max_concurrent_tasks (global_config r) \<noteq> 0"
  shows "select_ready key_order outs r \<noteq> []"
proof
  assume nil: "select_ready key_order outs r = []"
  obtain t where t: "t \<in> set (eligible_tasks outs r)" using assms(3) by (cases "eligible_tasks outs r") auto
  have cap: "0 < unat (max_concurrent_tasks (global_config r))" using assms(5) by (simp add: unat_gt_0)
  have "group_running g (tasks r) = 0" for g
    using assms(4) by (auto simp: group_running_def running_count_def filter_empty_conv)
  then have "\<not> group_at_cap (rr_cfg_of r) (final_state key_order outs r) (parallel_group t)"
    using nil cap
    by (cases "parallel_group t")
      (simp_all add: group_at_cap_Some rr_cfg_of_simps taken_in_def flip: select_ready_final,
        simp_all add: group_at_cap_def)
  moreover have "\<not> at_capacity (rr_cfg_of r) (final_state key_order outs r)"
    using assms(4) cap nil by (simp add: at_capacity_def rr_cfg_of_simps flip: select_ready_final)
  ultimately show False
    using select_ready_full [where key_order = key_order, OF assms(1,2) t] nil by simp
qed

text \<open>
  C34: A validated chain without conditions never gets stuck: in DAG mode, not paused, with a cap above
  zero and no task depending on one of a later round, as long as it is not complete and no task runs, failed or is
  blocked, the next step starts at least one task. A round barrier or a condition may otherwise
  hold back a task for good.
\<close>

theorem validated_chain_progress:
  assumes "validate_dag r = Inr ()" "mode r = Dag" "\<not> paused r" "max_concurrent_tasks (global_config r) \<noteq> 0"
    and "\<forall>t \<in> set (tasks r). status t \<in> {Completed, Skipped, Pending, RetryScheduled} \<and> condition t = None"
    and "rounds_consistent (tasks r)" "\<not> is_chain_complete r"
    and "\<And>ks. set (key_order ks) = set ks"
  shows "snd (advance_dag parse_rfc3339 now iso_at key_order outs r) \<noteq> []"
proof -
  let ?r1 = "handle_expired_backoffs parse_rfc3339 now r"
  let ?e = "expire_backoff parse_rfc3339 now"
  have d: "distinct (task_ids r)" using assms(1) by (simp add: validate_dag_correct)
  have e: "depends_on (?e t) = depends_on t" "condition (?e t) = condition t" "round_of (?e t) = round_of t"
      "is_terminal (status (?e t)) \<longleftrightarrow> is_terminal (status t)"
      "status t \<in> {Completed, Skipped, Pending, RetryScheduled} \<Longrightarrow>
       status (?e t) \<in> {Completed, Skipped, Pending, RetryScheduled}" for t
    by (auto simp: expire_backoff_def round_of_def split: option.splits)
  have "validate_dag ?r1 = Inr ()"
    using assms(1) unfolding validate_dag_correct dep_edges_expire
    by (simp add: refs_resolve_def handle_expired_backoffs_def e task_ids_def comp_def)
  moreover have "\<forall>t \<in> set (tasks ?r1). status t \<in> {Completed, Skipped, Pending, RetryScheduled} \<and> condition t = None"
    using assms(5) e(2,5) by (auto simp: handle_expired_backoffs_def)
  moreover have "rounds_consistent (tasks ?r1)" "\<not> is_chain_complete ?r1"
    using assms(6,7) by (simp_all add: rounds_consistent_def is_chain_complete_def handle_expired_backoffs_def e list_all_iff)
  ultimately have elig: "eligible_tasks outs ?r1 \<noteq> []" by (rule eligible_exists)
  have "running_count (tasks r) = 0"
    using assms(5) by (auto simp: running_count_def filter_empty_conv)
  then have "select_ready key_order outs ?r1 \<noteq> []"
    using select_ready_nonempty [where key_order = key_order, OF _ assms(8) elig] d assms(4) by simp
  then show ?thesis using advance_dag_eq [OF d assms(2-4)] by (simp add: Let_def)
qed

theorem validated_chain_progress_witness:
  "snd (advance_dag demo_parse 3 id rev [] demo_chain) \<noteq> []"
proof -
  have "validate_dag demo_chain = Inr ()" "mode demo_chain = Dag" "\<not> paused demo_chain"
    "max_concurrent_tasks (global_config demo_chain) \<noteq> 0"
    "\<forall>t \<in> set (tasks demo_chain). status t \<in> {Completed, Skipped, Pending, RetryScheduled} \<and> condition t = None"
    "rounds_consistent (tasks demo_chain)" "\<not> is_chain_complete demo_chain"
    by code_simp+
  then show ?thesis by (rule validated_chain_progress) simp
qed

end
