(* ===== verification/Chain_Tracker.thy ===== *)
theory Chain_Tracker
  imports Chain_Validate
begin

text \<open>
  The chain tracker (\<^verbatim>\<open>core/chain-engine/src/tracker.rs\<close>): timeout groups, retry scheduling and
  the failure strategies, run after a scheduler step.

  The environment enters as arguments: chrono's parsers as functions from a text to an
  instant in nanoseconds, the current time as text, the order in which the map of groups is
  iterated, and \<^verbatim>\<open>stamp\<close>, the formatted text of the time read for a task plus a number of
  milliseconds. Chrono's addition panics when it leaves its range of dates; \<^verbatim>\<open>stamp\<close> is then
  None, and so is the result of the operation.
\<close>

section \<open>Timeout groups\<close>

record timeout_result =
  tasks_failed :: "string list"
  groups_expired :: "string list"

record group_info =
  gi_max_seconds :: u64
  earliest_started :: "string option"
  running_tasks :: "string list"

definition trim_end_char :: "char \<Rightarrow> string \<Rightarrow> string" where
  "trim_end_char c s = rev (dropWhile (\<lambda>x. x = c) (rev s))"

text \<open>Seconds since the epoch, the cast to 64 unsigned bits included.\<close>

definition parse_iso_seconds ::
  "(string \<Rightarrow> int option) \<Rightarrow> (string \<Rightarrow> string \<Rightarrow> int option) \<Rightarrow> string \<Rightarrow> u64 option" where
  "parse_iso_seconds parse_rfc3339 parse_naive text_in =
     map_option (\<lambda>ns. word_of_int (ns div 1000000000))
       (case parse_rfc3339 text_in of
          Some t \<Rightarrow> Some t
        | None \<Rightarrow>
            (let clean = trim_end_char (CHR ''z'') (trim_end_char (CHR ''Z'') text_in)
             in case parse_naive ''%Y-%m-%dT%H:%M:%S'' clean of
                  Some t \<Rightarrow> Some t
                | None \<Rightarrow> parse_naive ''%Y-%m-%dT%H:%M:%S%.f'' clean))"

definition sat_sub :: "'a::len word \<Rightarrow> 'a word \<Rightarrow> 'a word" where
  "sat_sub a b = (if b \<le> a then a - b else 0)"

definition is_timed_out :: "(string \<Rightarrow> u64 option) \<Rightarrow> string \<Rightarrow> string \<Rightarrow> u64 \<Rightarrow> bool" where
  "is_timed_out parse_secs since now max_secs =
     (case (parse_secs since, parse_secs now) of
        (Some s, Some n) \<Rightarrow> sat_sub n s \<ge> max_secs
      | _ \<Rightarrow> False)"

definition note_started :: "string option \<Rightarrow> group_info \<Rightarrow> group_info" where
  "note_started st i =
     (case st of
        None \<Rightarrow> i
      | Some s \<Rightarrow> if (case earliest_started i of None \<Rightarrow> True | Some e \<Rightarrow> s < e)
                 then i\<lparr>earliest_started := Some s\<rparr> else i)"

definition note_task :: "dag_task_entry \<Rightarrow> group_info \<Rightarrow> group_info" where
  "note_task t i =
     (let i1 = note_started (started_at t) i
      in if status t = Running then i1\<lparr>running_tasks := running_tasks i1 @ [task_id t]\<rparr> else i1)"

definition group_info_new :: "u64 \<Rightarrow> group_info" where
  "group_info_new m = \<lparr>gi_max_seconds = m, earliest_started = None, running_tasks = []\<rparr>"

definition add_to_timeout_group :: "(string, group_info) hmap \<Rightarrow> dag_task_entry \<Rightarrow> (string, group_info) hmap" where
  "add_to_timeout_group m t =
     (case timeout_group t of
        None \<Rightarrow> m
      | Some tg \<Rightarrow>
          hput (group_id tg)
            (note_task t (case hget m (group_id tg) of
                            None \<Rightarrow> group_info_new (max_seconds tg)
                          | Some i \<Rightarrow> i)) m)"

definition timeout_groups :: "dag_task_entry list \<Rightarrow> (string, group_info) hmap" where
  "timeout_groups ts = foldl add_to_timeout_group [] ts"

definition group_timeout_error :: "string \<Rightarrow> u64 \<Rightarrow> string" where
  "group_timeout_error g m =
     ''group_timeout: group '' @ [CHR 0x27] @ g @ [CHR 0x27] @ '' exceeded '' @ show_nat (unat m) @ ''s limit''"

definition group_timed_out :: "(string \<Rightarrow> u64 option) \<Rightarrow> string \<Rightarrow> group_info \<Rightarrow> bool" where
  "group_timed_out parse_secs now i =
     (case earliest_started i of
        None \<Rightarrow> False
      | Some e \<Rightarrow> is_timed_out parse_secs e now (gi_max_seconds i))"

definition fail_timed_out ::
  "string \<Rightarrow> u64 \<Rightarrow> chain_dag_root \<times> string list \<Rightarrow> string \<Rightarrow> chain_dag_root \<times> string list" where
  "fail_timed_out g m = (\<lambda>(r, failed) tid.
     (case task_by_id r tid of
        None \<Rightarrow> (r, failed)
      | Some t \<Rightarrow>
          if status t = Running
          then (task_by_id_mut tid (\<lambda>t. t\<lparr>status := Failed, task_error := Some (group_timeout_error g m)\<rparr>) r,
                failed @ [tid])
          else (r, failed)))"

definition expire_timeout_group ::
  "chain_dag_root \<times> timeout_result \<Rightarrow> string \<times> group_info \<Rightarrow> chain_dag_root \<times> timeout_result" where
  "expire_timeout_group = (\<lambda>(r, res) (g, i).
     (let (r', failed) = foldl (fail_timed_out g (gi_max_seconds i)) (r, tasks_failed res) (running_tasks i)
      in (r', \<lparr>tasks_failed = failed, groups_expired = groups_expired res @ [g]\<rparr>)))"

definition process_timeouts ::
  "(string \<Rightarrow> u64 option) \<Rightarrow> string \<Rightarrow> ((string \<times> group_info) list \<Rightarrow> (string \<times> group_info) list) \<Rightarrow>
   chain_dag_root \<Rightarrow> chain_dag_root \<times> timeout_result" where
  "process_timeouts parse_secs now iter_order r =
     (if mode r \<noteq> Dag then (r, \<lparr>tasks_failed = [], groups_expired = []\<rparr>)
      else foldl expire_timeout_group (r, \<lparr>tasks_failed = [], groups_expired = []\<rparr>)
             (filter (\<lambda>(g, i). group_timed_out parse_secs now i) (iter_order (timeout_groups (tasks r)))))"

section \<open>Failures\<close>

record failure_action_result =
  retry_scheduled :: "string list"
  tasks_skipped :: "string list"
  dag_paused :: bool
  dag_aborted :: bool

definition no_action :: failure_action_result where
  "no_action = \<lparr>retry_scheduled = [], tasks_skipped = [], dag_paused = False, dag_aborted = False\<rparr>"

definition policy_of :: "chain_dag_root \<Rightarrow> dag_task_entry \<Rightarrow> retry_policy option" where
  "policy_of r t = (case retry t of Some p \<Rightarrow> Some p | None \<Rightarrow> default_retry (global_config r))"

text \<open>The retry of one task; the flag tells whether it was scheduled. None is a panic.\<close>

definition schedule_retry ::
  "(f64 \<Rightarrow> int \<Rightarrow> f64) \<Rightarrow> (string \<Rightarrow> int \<Rightarrow> string option) \<Rightarrow> chain_dag_root \<Rightarrow> dag_task_entry \<Rightarrow>
   (dag_task_entry \<times> bool) option" where
  "schedule_retry powi_f stamp r t =
     (if status t \<noteq> Failed then Some (t, False)
      else (case policy_of r t of
              None \<Rightarrow> Some (t, False)
            | Some p \<Rightarrow>
                if attempt t < max_attempts p
                then (case stamp (task_id t) (sint (backoff_ms powi_f p (sat_inc (attempt t)))) of
                        None \<Rightarrow> None
                      | Some b \<Rightarrow> Some (t\<lparr>backoff_until := Some b, status := RetryScheduled\<rparr>, True))
                else Some (t, False)))"

fun schedule_retries ::
  "(f64 \<Rightarrow> int \<Rightarrow> f64) \<Rightarrow> (string \<Rightarrow> int \<Rightarrow> string option) \<Rightarrow> chain_dag_root \<Rightarrow> dag_task_entry list \<Rightarrow>
   (dag_task_entry list \<times> string list) option" where
  "schedule_retries powi_f stamp r [] = Some ([], [])"
| "schedule_retries powi_f stamp r (t # ts) =
     (case schedule_retry powi_f stamp r t of
        None \<Rightarrow> None
      | Some (t', b) \<Rightarrow>
          (case schedule_retries powi_f stamp r ts of
             None \<Rightarrow> None
           | Some (ts', ids) \<Rightarrow> Some (t' # ts', if b then task_id t # ids else ids)))"

text \<open>Give the tasks of a predicate a status and an error; return their ids.\<close>

definition mark_where ::
  "(dag_task_entry \<Rightarrow> bool) \<Rightarrow> task_status \<Rightarrow> string \<Rightarrow> dag_task_entry list \<Rightarrow> dag_task_entry list \<times> string list" where
  "mark_where P s msg ts =
     (map (\<lambda>t. if P t then t\<lparr>status := s, task_error := Some msg\<rparr> else t) ts,
      map task_id (filter P ts))"

definition record_skips :: "string list \<Rightarrow> dag_task_entry list \<Rightarrow> dag_task_entry list" where
  "record_skips ids ts = map (\<lambda>t. if status t = Failed then t\<lparr>caused_skips := ids\<rparr> else t) ts"

definition abort_dag :: "chain_dag_root \<Rightarrow> failure_action_result \<Rightarrow> chain_dag_root \<times> failure_action_result" where
  "abort_dag r a =
     (let (ts1, ids1) = mark_where (\<lambda>t. \<not> is_terminal (status t) \<and> status t \<noteq> Failed \<and> status t \<noteq> RetryScheduled)
                          Skipped ''aborted by failure strategy'' (tasks r);
          (ts2, ids2) = mark_where (\<lambda>t. status t = RetryScheduled) Skipped ''aborted by failure strategy'' ts1
      in (r\<lparr>tasks := record_skips (ids1 @ ids2) ts2\<rparr>,
          a\<lparr>dag_aborted := True, tasks_skipped := tasks_skipped a @ ids1 @ ids2\<rparr>))"

definition pause_dag :: "chain_dag_root \<Rightarrow> failure_action_result \<Rightarrow> chain_dag_root \<times> failure_action_result" where
  "pause_dag r a =
     (let (ts1, ids) = mark_where (\<lambda>t. status t = Pending \<or> status t = RetryScheduled)
                         Blocked ''paused by failure strategy'' (tasks r)
      in (r\<lparr>paused := True, tasks := record_skips ids ts1\<rparr>,
          a\<lparr>dag_paused := True, tasks_skipped := tasks_skipped a @ ids\<rparr>))"

definition process_failures ::
  "(f64 \<Rightarrow> int \<Rightarrow> f64) \<Rightarrow> (string \<Rightarrow> int \<Rightarrow> string option) \<Rightarrow> chain_dag_root \<Rightarrow>
   (chain_dag_root \<times> failure_action_result) option" where
  "process_failures powi_f stamp r =
     (if mode r \<noteq> Dag then Some (r, no_action)
      else (case schedule_retries powi_f stamp r (tasks r) of
              None \<Rightarrow> None
            | Some (ts, ids) \<Rightarrow>
                (let r1 = r\<lparr>tasks := ts\<rparr>; a = no_action\<lparr>retry_scheduled := ids\<rparr>
                 in if \<not> list_ex (\<lambda>t. status t = Failed) ts then Some (r1, a)
                    else (case on_any_failure (global_config r) of
                            AbortDag \<Rightarrow> Some (abort_dag r1 a)
                          | PauseDag \<Rightarrow> Some (pause_dag r1 a)
                          | Continue \<Rightarrow> Some (r1, a)))))"

definition process_post_tick ::
  "(string \<Rightarrow> u64 option) \<Rightarrow> string \<Rightarrow> ((string \<times> group_info) list \<Rightarrow> (string \<times> group_info) list) \<Rightarrow>
   (f64 \<Rightarrow> int \<Rightarrow> f64) \<Rightarrow> (string \<Rightarrow> int \<Rightarrow> string option) \<Rightarrow> chain_dag_root \<Rightarrow>
   (chain_dag_root \<times> timeout_result \<times> failure_action_result) option" where
  "process_post_tick parse_secs now iter_order powi_f stamp r =
     (let (r1, tr) = process_timeouts parse_secs now iter_order r
      in map_option (\<lambda>(r2, fr). (r2, tr, fr)) (process_failures powi_f stamp r1))"

end
