(* ===== verification/Chain_Tracking.thy ===== *)
theory Chain_Tracking
  imports Chain_Tracker
begin

text \<open>
  What the tracker does: the outcome of each failure strategy, the bound on retries, the
  effect of timeouts independently of the order in which the groups are visited, and the
  backoff that wraps into the past.
\<close>

section \<open>Retries\<close>

lemma schedule_retry_cases:
  assumes "schedule_retry powi_f stamp r t = Some (t', b)"
  obtains (kept) "t' = t" "\<not> b" "status t = Failed \<longrightarrow> (\<forall>p. policy_of r t = Some p \<longrightarrow> max_attempts p \<le> attempt t)"
  | (retried) p d where "status t = Failed" "policy_of r t = Some p" "attempt t < max_attempts p"
      "stamp (task_id t) (sint (backoff_ms powi_f p (sat_inc (attempt t)))) = Some d"
      "t' = t\<lparr>backoff_until := Some d, status := RetryScheduled\<rparr>" "b"
proof (cases "status t = Failed \<and> (\<exists>p. policy_of r t = Some p \<and> attempt t < max_attempts p)")
  case True
  then obtain p where p: "status t = Failed" "policy_of r t = Some p" "attempt t < max_attempts p" by blast
  then obtain d where "stamp (task_id t) (sint (backoff_ms powi_f p (sat_inc (attempt t)))) = Some d"
    using assms by (cases "stamp (task_id t) (sint (backoff_ms powi_f p (sat_inc (attempt t))))")
      (simp_all add: schedule_retry_def)
  with p assms show ?thesis by (intro retried [OF p]) (auto simp: schedule_retry_def)
next
  case False
  then have "t' = t \<and> \<not> b"
    using assms by (cases "policy_of r t") (simp_all add: schedule_retry_def split: if_splits)
  with False show ?thesis by (intro kept) (auto simp: not_less)
qed

lemma schedule_retries_nth:
  "schedule_retries powi_f stamp r ts = Some (ts', ids) \<Longrightarrow>
   length ts' = length ts \<and> (\<forall>i < length ts. \<exists>b. schedule_retry powi_f stamp r (ts ! i) = Some (ts' ! i, b))"
proof (induction ts arbitrary: ts' ids)
  case Nil
  then show ?case by simp
next
  case (Cons t ts)
  then show ?case by (auto split: option.splits prod.splits if_splits simp: nth_Cons split: nat.splits)
qed

lemma schedule_retries_ids:
  "schedule_retries powi_f stamp r ts = Some (ts', ids) \<Longrightarrow>
   map task_id ts' = map task_id ts \<and> ids = map task_id (filter (\<lambda>t. status t = Failed \<and>
     (\<exists>p. policy_of r t = Some p \<and> attempt t < max_attempts p)) ts)"
proof (induction ts arbitrary: ts' ids)
  case Nil
  then show ?case by simp
next
  case (Cons t ts)
  then obtain t' b ts1 ids1 where step: "schedule_retry powi_f stamp r t = Some (t', b)"
      "schedule_retries powi_f stamp r ts = Some (ts1, ids1)" "ts' = t' # ts1"
      "ids = (if b then task_id t # ids1 else ids1)"
    by (auto split: option.splits)
  from step(1) show ?case
  proof (cases rule: schedule_retry_cases)
    case kept
    then show ?thesis using Cons.IH [OF step(2)] step by (auto simp: not_less)
  next
    case (retried p d)
    then show ?thesis using Cons.IH [OF step(2)] step by auto
  qed
qed

text \<open>
  The only way the retry pass panics is through the date arithmetic: with a total \<^verbatim>\<open>stamp\<close>
  it returns.
\<close>

lemma schedule_retries_total:
  assumes "\<And>tid ms. stamp tid ms \<noteq> None"
  shows "schedule_retries powi_f stamp r ts \<noteq> None"
proof (induction ts)
  case (Cons t ts)
  have "schedule_retry powi_f stamp r t \<noteq> None"
    using assms by (simp add: schedule_retry_def del: not_None_eq split: option.split)
  with Cons show ?case by (auto split: option.splits)
qed simp

section \<open>Strategies\<close>

lemma mark_where_simps:
  "fst (mark_where P s m ts) = map (\<lambda>t. if P t then t\<lparr>status := s, task_error := Some m\<rparr> else t) ts"
  "snd (mark_where P s m ts) = map task_id (filter P ts)"
  by (simp_all add: mark_where_def)

text \<open>What aborting does to one task.\<close>

definition aborted_task :: "string list \<Rightarrow> dag_task_entry \<Rightarrow> dag_task_entry" where
  "aborted_task ids t =
     (if status t = Failed then t\<lparr>caused_skips := ids\<rparr>
      else if is_terminal (status t) then t
      else t\<lparr>status := Skipped, task_error := Some ''aborted by failure strategy''\<rparr>)"

lemma abort_dag_tasks:
  "\<exists>ids. set ids = task_id ` {t \<in> set (tasks r). \<not> is_terminal (status t)} \<and>
     tasks (fst (abort_dag r a)) = map (aborted_task ids) (tasks r) \<and>
     tasks_skipped (snd (abort_dag r a)) = tasks_skipped a @ ids \<and> dag_aborted (snd (abort_dag r a)) \<and>
     fst (abort_dag r a) = r\<lparr>tasks := tasks (fst (abort_dag r a))\<rparr>"
proof -
  let ?P = "\<lambda>t. \<not> is_terminal (status t) \<and> status t \<noteq> Failed \<and> status t \<noteq> RetryScheduled"
  let ?m = "''aborted by failure strategy''"
  define ts1 ids1 where "ts1 = fst (mark_where ?P Skipped ?m (tasks r))"
    and "ids1 = snd (mark_where ?P Skipped ?m (tasks r))"
  define ts2 ids2 where "ts2 = fst (mark_where (\<lambda>t. status t = RetryScheduled) Skipped ?m ts1)"
    and "ids2 = snd (mark_where (\<lambda>t. status t = RetryScheduled) Skipped ?m ts1)"
  have run: "abort_dag r a = (r\<lparr>tasks := record_skips (ids1 @ ids2) ts2\<rparr>,
      a\<lparr>dag_aborted := True, tasks_skipped := tasks_skipped a @ ids1 @ ids2\<rparr>)"
    by (simp add: abort_dag_def Let_def ts1_def ids1_def ts2_def ids2_def split: prod.splits)
  have "set ids1 = task_id ` {t \<in> set (tasks r). ?P t}"
    by (simp add: ids1_def mark_where_simps)
  moreover have "ids2 = map task_id (filter (\<lambda>t. status t = RetryScheduled) (tasks r))"
  proof -
    have "filter (\<lambda>t. status t = RetryScheduled) ts1 = filter (\<lambda>t. status t = RetryScheduled) (tasks r)"
    proof -
      have "filter (\<lambda>t. status t = RetryScheduled) (map (\<lambda>t. if ?P t then t\<lparr>status := Skipped, task_error := Some ?m\<rparr> else t) xs) =
          filter (\<lambda>t. status t = RetryScheduled) xs" for xs
        by (induction xs) auto
      then show ?thesis unfolding ts1_def mark_where_simps .
    qed
    then show ?thesis by (simp add: ids2_def mark_where_simps)
  qed
  ultimately have "set (ids1 @ ids2) = task_id ` {t \<in> set (tasks r). \<not> is_terminal (status t)}"
    by (auto simp: is_terminal_def)
  moreover have "record_skips (ids1 @ ids2) ts2 = map (aborted_task (ids1 @ ids2)) (tasks r)"
    unfolding ts2_def ts1_def mark_where_simps record_skips_def map_map
    by (rule map_cong [OF refl]) (auto simp: aborted_task_def is_terminal_def)
  ultimately show ?thesis by (intro exI [of _ "ids1 @ ids2"]) (simp add: run)
qed

definition paused_task :: "string list \<Rightarrow> dag_task_entry \<Rightarrow> dag_task_entry" where
  "paused_task ids t =
     (if status t = Failed then t\<lparr>caused_skips := ids\<rparr>
      else if status t = Pending \<or> status t = RetryScheduled
      then t\<lparr>status := Blocked, task_error := Some ''paused by failure strategy''\<rparr> else t)"

lemma pause_dag_eq:
  "pause_dag r a =
     (let ids = map task_id (filter (\<lambda>t. status t = Pending \<or> status t = RetryScheduled) (tasks r))
      in (r\<lparr>paused := True, tasks := map (paused_task ids) (tasks r)\<rparr>,
          a\<lparr>dag_paused := True, tasks_skipped := tasks_skipped a @ ids\<rparr>))"
proof -
  have "record_skips ids (map (\<lambda>t. if status t = Pending \<or> status t = RetryScheduled
        then t\<lparr>status := Blocked, task_error := Some ''paused by failure strategy''\<rparr> else t) ts) =
      map (paused_task ids) ts" for ids ts
    unfolding record_skips_def map_map by (rule map_cong [OF refl]) (auto simp: paused_task_def)
  then show ?thesis by (simp add: pause_dag_def mark_where_def Let_def)
qed

section \<open>Properties of failure processing\<close>

text \<open>When a failed task is left, the strategy has been applied.\<close>

lemma process_failures_run:
  assumes "mode r = Dag" "process_failures powi_f stamp r = Some (r', a)"
    and "t \<in> set (tasks r')" "status t = Failed"
  shows "\<exists>ts ids. schedule_retries powi_f stamp r (tasks r) = Some (ts, ids) \<and>
    (case on_any_failure (global_config r) of
       AbortDag \<Rightarrow> abort_dag (r\<lparr>tasks := ts\<rparr>) (no_action\<lparr>retry_scheduled := ids\<rparr>)
     | PauseDag \<Rightarrow> pause_dag (r\<lparr>tasks := ts\<rparr>) (no_action\<lparr>retry_scheduled := ids\<rparr>)
     | Continue \<Rightarrow> (r\<lparr>tasks := ts\<rparr>, no_action\<lparr>retry_scheduled := ids\<rparr>)) = (r', a)"
proof -
  obtain ts ids where run: "schedule_retries powi_f stamp r (tasks r) = Some (ts, ids)"
    using assms(1,2) by (auto simp: process_failures_def split: option.splits)
  have "list_ex (\<lambda>t. status t = Failed) ts"
  proof (rule ccontr)
    assume no: "\<not> list_ex (\<lambda>t. status t = Failed) ts"
    then have "r' = r\<lparr>tasks := ts\<rparr>" using assms(1,2) run by (simp add: process_failures_def)
    then show False using no assms(3,4) by (auto simp: list_ex_iff)
  qed
  then show ?thesis
    using assms(1,2) run by (auto simp: process_failures_def split: failure_strategy.splits)
qed

text \<open>A chain with a failed task without retries left, under each strategy.\<close>

definition failed_chain :: "failure_strategy \<Rightarrow> chain_dag_root" where
  "failed_chain f = (chain_dag_root_new ''f''
     [(dag_task_new ''a'')\<lparr>status := Failed\<rparr>, dag_task_new ''b'', (dag_task_new ''c'')\<lparr>status := Running\<rparr>,
      (dag_task_new ''d'')\<lparr>status := Failed, attempt := 1,
         retry := Some \<lparr>max_attempts = 3, backoff_base_ms = 0, backoff_multiplier = Fin 2, max_backoff_ms = None\<rparr>\<rparr>])
     \<lparr>global_config := \<lparr>max_concurrent_tasks = 4, default_retry = None, on_any_failure = f\<rparr>\<rparr>"

text \<open>
  Under the abort strategy, when a failed task is left after the retries were scheduled,
  the chain is complete afterwards: every task is terminal, the ones that were not become
  skipped and are reported, tasks about to retry included, and each failed task records
  exactly the reported tasks as skipped because of it.
\<close>

theorem process_failures_abort:
  assumes "mode r = Dag" "on_any_failure (global_config r) = AbortDag"
    and "process_failures powi_f stamp r = Some (r', a)"
    and "t \<in> set (tasks r')" "status t = Failed"
  shows "is_chain_complete r' \<and> dag_aborted a \<and> \<not> dag_paused a \<and> caused_skips t = tasks_skipped a \<and>
    (\<forall>tid \<in> set (tasks_skipped a). \<exists>u \<in> set (tasks r'). task_id u = tid \<and> status u = Skipped)"
proof -
  obtain ts ids where run: "schedule_retries powi_f stamp r (tasks r) = Some (ts, ids)"
      and r': "abort_dag (r\<lparr>tasks := ts\<rparr>) (no_action\<lparr>retry_scheduled := ids\<rparr>) = (r', a)"
    using process_failures_run [OF assms(1,3-5)] assms(2) by auto
  let ?r1 = "r\<lparr>tasks := ts\<rparr>" and ?a = "no_action\<lparr>retry_scheduled := ids\<rparr>"
  obtain skipped where s: "set skipped = task_id ` {t \<in> set ts. \<not> is_terminal (status t)}"
      "tasks r' = map (aborted_task skipped) ts" "tasks_skipped a = skipped" "dag_aborted a"
    using abort_dag_tasks [of ?r1 ?a] unfolding r' fst_conv snd_conv by (auto simp: no_action_def)
  have finished: "is_terminal (status (aborted_task skipped u))" for u
    by (auto simp: aborted_task_def)
  then have "is_chain_complete r'" by (simp add: is_chain_complete_def s(2) list_all_iff finished)
  moreover have "\<not> dag_paused a"
    using r' by (auto simp: abort_dag_def no_action_def Let_def split: prod.splits)
  moreover have "caused_skips t = skipped"
    using assms(4,5) by (auto simp: s(2) aborted_task_def split: if_splits)
  moreover have "\<exists>u \<in> set (tasks r'). task_id u = tid \<and> status u = Skipped" if tid: "tid \<in> set skipped" for tid
  proof -
    obtain v where v: "v \<in> set ts" "\<not> is_terminal (status v)" "task_id v = tid" using tid s(1) by auto
    then have "task_id (aborted_task skipped v) = tid \<and> status (aborted_task skipped v) = Skipped"
      by (auto simp: aborted_task_def is_terminal_def)
    then show ?thesis using v(1) s(2) by force
  qed
  ultimately show ?thesis using s(3,4) by simp
qed

text \<open>
  Under the pause strategy, when a failed task is left after the retries were scheduled,
  the chain is paused and every waiting task, retries included, becomes blocked and is
  reported; running and finished tasks are left alone.
\<close>

theorem process_failures_pause:
  assumes "mode r = Dag" "on_any_failure (global_config r) = PauseDag"
    and "process_failures powi_f stamp r = Some (r', a)"
    and "t \<in> set (tasks r')" "status t = Failed"
  shows "paused r' \<and> dag_paused a \<and> \<not> dag_aborted a \<and> caused_skips t = tasks_skipped a \<and>
    (\<forall>u \<in> set (tasks r'). status u \<noteq> Pending \<and> status u \<noteq> RetryScheduled) \<and>
    (\<forall>u \<in> set (tasks r). status u \<in> {Running, Completed, Skipped, Blocked} \<longrightarrow> u \<in> set (tasks r'))"
proof -
  obtain ts ids where run: "schedule_retries powi_f stamp r (tasks r) = Some (ts, ids)"
      and r': "pause_dag (r\<lparr>tasks := ts\<rparr>) (no_action\<lparr>retry_scheduled := ids\<rparr>) = (r', a)"
    using process_failures_run [OF assms(1,3-5)] assms(2) by auto
  let ?r1 = "r\<lparr>tasks := ts\<rparr>" and ?a = "no_action\<lparr>retry_scheduled := ids\<rparr>"
  define blocked where "blocked = map task_id (filter (\<lambda>t. status t = Pending \<or> status t = RetryScheduled) ts)"
  have e: "r' = ?r1\<lparr>paused := True, tasks := map (paused_task blocked) ts\<rparr>"
      "a = ?a\<lparr>dag_paused := True, tasks_skipped := blocked\<rparr>"
    using r' by (simp_all add: pause_dag_eq blocked_def no_action_def Let_def)
  have kept: "u \<in> set (tasks r')" if u: "u \<in> set (tasks r)" "status u \<in> {Running, Completed, Skipped, Blocked}" for u
  proof -
    obtain i where i: "i < length (tasks r)" "tasks r ! i = u" using u(1) by (auto simp: in_set_conv_nth)
    have "schedule_retry powi_f stamp r u = Some (u, False)"
      using u(2) by (auto simp: schedule_retry_def)
    then have "ts ! i = u" "i < length ts" using schedule_retries_nth [OF run] i by auto
    then have "u \<in> set ts" using nth_mem [of i ts] by simp
    then have "paused_task blocked u \<in> set (map (paused_task blocked) ts)" by simp
    moreover have "paused_task blocked u = u" using u(2) by (cases "status u") (simp_all add: paused_task_def)
    ultimately show ?thesis by (simp only: e(1)) simp
  qed
  have ts': "tasks r' = map (paused_task blocked) ts" by (simp add: e(1))
  have "status (paused_task blocked u) \<noteq> Pending \<and> status (paused_task blocked u) \<noteq> RetryScheduled" for u
    by (simp add: paused_task_def)
  then have "\<forall>u \<in> set (tasks r'). status u \<noteq> Pending \<and> status u \<noteq> RetryScheduled"
    unfolding ts' by simp
  moreover obtain v where "t = paused_task blocked v" using assms(4) by (auto simp: ts')
  then have "caused_skips t = blocked"
    using assms(5) by (simp add: paused_task_def split: if_splits)
  moreover have "paused r'" "dag_paused a" "\<not> dag_aborted a" "tasks_skipped a = blocked"
    by (simp_all add: e no_action_def)
  ultimately show ?thesis using kept by (intro conjI ballI impI) simp_all
qed

definition demo_powi :: "f64 \<Rightarrow> int \<Rightarrow> f64" where
  "demo_powi x n = (if n = 0 then Fin 1 else x)"

definition demo_stamp :: "string \<Rightarrow> int \<Rightarrow> string option" where
  "demo_stamp tid ms = (if ms < 1000000 then Some (tid @ show_nat (nat ms)) else None)"

lemma failed_chain_runs:
  "map_option (map status \<circ> tasks \<circ> fst) (process_failures demo_powi demo_stamp (failed_chain AbortDag)) =
     Some [Failed, Skipped, Skipped, Skipped]"
  "map_option (map status \<circ> tasks \<circ> fst) (process_failures demo_powi demo_stamp (failed_chain PauseDag)) =
     Some [Failed, Blocked, Running, Blocked]"
  by code_simp+

theorem process_failures_abort_witness:
  "\<exists>r' a. process_failures demo_powi demo_stamp (failed_chain AbortDag) = Some (r', a) \<and> is_chain_complete r'"
proof -
  obtain r' a where run: "process_failures demo_powi demo_stamp (failed_chain AbortDag) = Some (r', a)"
      "map status (tasks r') = [Failed, Skipped, Skipped, Skipped]"
    using failed_chain_runs(1) by auto
  then obtain t where "t \<in> set (tasks r')" "status t = Failed" by (cases "tasks r'") auto
  moreover have "mode (failed_chain AbortDag) = Dag" "on_any_failure (global_config (failed_chain AbortDag)) = AbortDag"
    by code_simp+
  ultimately show ?thesis using process_failures_abort [OF _ _ run(1)] run(1) by blast
qed

theorem process_failures_pause_witness:
  "\<exists>r' a. process_failures demo_powi demo_stamp (failed_chain PauseDag) = Some (r', a) \<and> paused r'"
proof -
  obtain r' a where run: "process_failures demo_powi demo_stamp (failed_chain PauseDag) = Some (r', a)"
      "map status (tasks r') = [Failed, Blocked, Running, Blocked]"
    using failed_chain_runs(2) by auto
  then obtain t where "t \<in> set (tasks r')" "status t = Failed" by (cases "tasks r'") auto
  moreover have "mode (failed_chain PauseDag) = Dag" "on_any_failure (global_config (failed_chain PauseDag)) = PauseDag"
    by code_simp+
  ultimately show ?thesis using process_failures_pause [OF _ _ run(1)] run(1) by blast
qed

section \<open>Timeouts\<close>

lemma note_task_simps:
  "gi_max_seconds (note_task t i) = gi_max_seconds i"
  "running_tasks (note_task t i) = running_tasks i @ (if status t = Running then [task_id t] else [])"
  by (auto simp: note_task_def note_started_def Let_def split: option.splits)

definition in_group :: "string \<Rightarrow> dag_task_entry \<Rightarrow> bool" where
  "in_group g t \<longleftrightarrow> (case timeout_group t of None \<Rightarrow> False | Some tg \<Rightarrow> group_id tg = g)"

lemma in_group_iff: "in_group g t \<longleftrightarrow> (\<exists>tg. timeout_group t = Some tg \<and> group_id tg = g)"
  by (simp add: in_group_def split: option.splits)

text \<open>A group's limit is that of its first member; its clock is the least start text of its members.\<close>

definition group_limit :: "string \<Rightarrow> dag_task_entry list \<Rightarrow> u64 option" where
  "group_limit g ts = map_option (max_seconds \<circ> the \<circ> timeout_group) (find (in_group g) ts)"

definition group_start :: "string \<Rightarrow> dag_task_entry list \<Rightarrow> string option" where
  "group_start g ts =
     (case List.map_filter started_at (filter (in_group g) ts) of
        [] \<Rightarrow> None
      | s # ss \<Rightarrow> Some (foldl min s ss))"

lemma timeout_groups_snoc:
  "timeout_groups (ts @ [t]) = add_to_timeout_group (timeout_groups ts) t"
  by (simp add: timeout_groups_def)

lemma timeout_groups_ok: "hmap_ok (timeout_groups ts)"
  by (induction ts rule: rev_induct)
    (simp_all add: timeout_groups_snoc add_to_timeout_group_def hput_ok split: option.splits,
      simp add: timeout_groups_def)

lemma find_snoc: "find P (xs @ [x]) = (case find P xs of Some y \<Rightarrow> Some y | None \<Rightarrow> if P x then Some x else None)"
  by (induction xs) auto

lemma map_filter_snoc: "List.map_filter f (xs @ [x]) = List.map_filter f xs @ (case f x of None \<Rightarrow> [] | Some y \<Rightarrow> [y])"
  by (simp add: map_filter_def split: option.splits)

definition group_info_of :: "string \<Rightarrow> dag_task_entry list \<Rightarrow> group_info option" where
  "group_info_of g ts = map_option (\<lambda>m.
     \<lparr>gi_max_seconds = m, earliest_started = group_start g ts,
      running_tasks = map task_id (filter (\<lambda>t. in_group g t \<and> status t = Running) ts)\<rparr>) (group_limit g ts)"

lemma group_start_snoc:
  "group_start g (ts @ [t]) =
     (if in_group g t
      then (case started_at t of
              None \<Rightarrow> group_start g ts
            | Some s \<Rightarrow> (case group_start g ts of
                          None \<Rightarrow> Some s
                        | Some e \<Rightarrow> Some (min e s)))
      else group_start g ts)"
  by (auto simp: group_start_def map_filter_snoc split: option.splits list.splits)

lemma note_started_min:
  "earliest_started (note_started st i) =
     (case st of None \<Rightarrow> earliest_started i
      | Some s \<Rightarrow> (case earliest_started i of None \<Rightarrow> Some s | Some e \<Rightarrow> Some (min e s)))"
  by (auto simp: note_started_def min_def split: option.splits)

lemma note_task_start: "earliest_started (note_task t i) = earliest_started (note_started (started_at t) i)"
  by (simp add: note_task_def Let_def)

lemma timeout_groups_get: "hget (timeout_groups ts) g = group_info_of g ts"
proof (induction ts rule: rev_induct)
  case Nil
  then show ?case by (simp add: timeout_groups_def group_info_of_def group_limit_def)
next
  case (snoc t ts)
  show ?case
  proof (cases "in_group g t")
    case True
    then obtain tg where tg: "timeout_group t = Some tg" "group_id tg = g" by (auto simp: in_group_iff)
    have empty: "group_start g ts = None" "filter (\<lambda>t. in_group g t \<and> status t = Running) ts = []"
      if "find (in_group g) ts = None"
    proof -
      have "filter (in_group g) ts = []" using that by (auto simp: find_None_iff filter_empty_conv)
      then show "group_start g ts = None" by (simp add: group_start_def map_filter_def)
      show "filter (\<lambda>t. in_group g t \<and> status t = Running) ts = []"
        using that by (auto simp: find_None_iff filter_empty_conv)
    qed
    show ?thesis
      using snoc tg True empty
      by (cases "find (in_group g) ts")
        (auto simp: timeout_groups_snoc add_to_timeout_group_def hmap_simps group_info_of_def group_limit_def
          find_snoc note_task_simps note_task_start note_started_min group_start_snoc group_info_new_def
          split: option.splits intro!: group_info.equality)
  next
    case False
    then have "hget (timeout_groups (ts @ [t])) g = hget (timeout_groups ts) g"
      by (auto simp: timeout_groups_snoc add_to_timeout_group_def hmap_simps in_group_iff split: option.splits)
    then show ?thesis using snoc False
      by (simp add: group_info_of_def group_limit_def find_snoc group_start_snoc split: option.splits)
  qed
qed

section \<open>The effect of a timeout pass\<close>

definition group_expired :: "(string \<Rightarrow> u64 option) \<Rightarrow> string \<Rightarrow> dag_task_entry list \<Rightarrow> string \<Rightarrow> bool" where
  "group_expired parse_secs now ts g \<longleftrightarrow>
     (\<exists>m s. group_limit g ts = Some m \<and> group_start g ts = Some s \<and> is_timed_out parse_secs s now m)"

definition timed_out_task :: "dag_task_entry list \<Rightarrow> dag_task_entry \<Rightarrow> dag_task_entry" where
  "timed_out_task ts t =
     (let g = group_id (the (timeout_group t))
      in t\<lparr>status := Failed, task_error := Some (group_timeout_error g (the (group_limit g ts)))\<rparr>)"

definition fail_ids :: "string set \<Rightarrow> chain_dag_root \<Rightarrow> chain_dag_root" where
  "fail_ids D r = r\<lparr>tasks := map (\<lambda>t. if task_id t \<in> D then timed_out_task (tasks r) t else t) (tasks r)\<rparr>"

lemma timed_out_task_id [simp]: "task_id (timed_out_task ts t) = task_id t"
  by (simp add: timed_out_task_def Let_def)

lemma fail_ids_ids [simp]: "task_ids (fail_ids D r) = task_ids r"
  by (simp add: task_ids_def fail_ids_def if_distrib cong: if_cong)

lemma fail_timed_out_step:
  assumes ids: "distinct (task_ids r)" and t: "t \<in> set (tasks r)" "status t = Running" "in_group g t"
    and m: "group_limit g (tasks r) = Some m" and new: "task_id t \<notin> D"
  shows "fail_timed_out g m (fail_ids D r, failed) (task_id t) =
    (fail_ids (insert (task_id t) D) r, failed @ [task_id t])"
proof -
  let ?r = "fail_ids D r"
  have "t \<in> set (tasks ?r)" using t(1) new by (force simp: fail_ids_def)
  then have find: "task_by_id ?r (task_id t) = Some t" using ids by (simp add: task_by_id_in)
  have key: "u = t" if "u \<in> set (tasks r)" "task_id u = task_id t" for u
    using ids t(1) that by (auto simp: task_ids_def distinct_map inj_on_def)
  have e: "update_first (\<lambda>u. task_id u = task_id t) f (tasks ?r) =
      map (\<lambda>u. if task_id u = task_id t then f u else u) (tasks ?r)" for f
    using ids by (intro update_first_map) (simp flip: task_ids_def)
  have "timed_out_task (tasks r) t = t\<lparr>status := Failed, task_error := Some (group_timeout_error g m)\<rparr>"
    using t(3) m by (auto simp: timed_out_task_def in_group_iff)
  moreover have "map ((\<lambda>u. if task_id u = task_id t then u\<lparr>status := Failed, task_error := Some (group_timeout_error g m)\<rparr> else u)
        \<circ> (\<lambda>u. if task_id u \<in> D then timed_out_task (tasks r) u else u)) (tasks r) =
      map (\<lambda>u. if task_id u \<in> insert (task_id t) D then timed_out_task (tasks r) u else u) (tasks r)"
    using new calculation by (intro map_cong [OF refl]) (auto dest!: key)
  ultimately show ?thesis
    using t(2) by (simp add: fail_timed_out_def find task_by_id_mut_def e) (simp add: fail_ids_def)
qed

lemma fail_group:
  assumes "distinct (task_ids r)" "group_limit g (tasks r) = Some m"
    and "\<forall>tid \<in> set tids. \<exists>t \<in> set (tasks r). task_id t = tid \<and> status t = Running \<and> in_group g t"
    and "distinct tids" "D \<inter> set tids = {}"
  shows "foldl (fail_timed_out g m) (fail_ids D r, failed) tids = (fail_ids (D \<union> set tids) r, failed @ tids)"
  using assms
proof (induction tids arbitrary: D failed)
  case (Cons tid tids)
  then obtain t where "t \<in> set (tasks r)" "task_id t = tid" "status t = Running" "in_group g t" by auto
  then have "fail_timed_out g m (fail_ids D r, failed) tid = (fail_ids (insert tid D) r, failed @ [tid])"
    using fail_timed_out_step [OF Cons.prems(1), of t g m D failed] Cons.prems(2,5) by auto
  then show ?case using Cons by simp
qed simp

definition running_in :: "string \<Rightarrow> dag_task_entry list \<Rightarrow> string list" where
  "running_in g ts = map task_id (filter (\<lambda>t. in_group g t \<and> status t = Running) ts)"

lemma in_group_unique: "in_group g t \<Longrightarrow> in_group g' t \<Longrightarrow> g = g'"
  by (auto simp: in_group_iff)

lemma running_in_disjoint:
  "distinct (task_ids r) \<Longrightarrow> g \<noteq> g' \<Longrightarrow> set (running_in g (tasks r)) \<inter> set (running_in g' (tasks r)) = {}"
  by (auto simp: running_in_def task_ids_def distinct_map inj_on_def dest: in_group_unique)

lemma expire_groups:
  assumes ids: "distinct (task_ids r)"
    and info: "\<forall>(g, i) \<in> set gis. group_info_of g (tasks r) = Some i"
    and "distinct (map fst gis)" "\<forall>g \<in> set (map fst gis). D \<inter> set (running_in g (tasks r)) = {}"
  shows "foldl expire_timeout_group (fail_ids D r, \<lparr>tasks_failed = f, groups_expired = e\<rparr>) gis =
    (fail_ids (D \<union> (\<Union>g \<in> set (map fst gis). set (running_in g (tasks r)))) r,
     \<lparr>tasks_failed = f @ concat (map (\<lambda>g. running_in g (tasks r)) (map fst gis)), groups_expired = e @ map fst gis\<rparr>)"
  using info assms(3,4)
proof (induction gis arbitrary: D f e)
  case (Cons gi gis)
  obtain g i where gi: "gi = (g, i)" by force
  then have i: "group_limit g (tasks r) = Some (gi_max_seconds i)" "running_tasks i = running_in g (tasks r)"
    using Cons.prems(1) by (auto simp: group_info_of_def running_in_def)
  have dist: "distinct (running_in g (tasks r))"
    using ids by (simp add: running_in_def task_ids_def distinct_map_filter)
  have run: "\<forall>tid \<in> set (running_in g (tasks r)). \<exists>t \<in> set (tasks r). task_id t = tid \<and> status t = Running \<and> in_group g t"
    by (auto simp: running_in_def)
  have disj: "D \<inter> set (running_in g (tasks r)) = {}" using Cons.prems(3) gi by simp
  have "expire_timeout_group (fail_ids D r, \<lparr>tasks_failed = f, groups_expired = e\<rparr>) gi =
      (fail_ids (D \<union> set (running_in g (tasks r))) r,
       \<lparr>tasks_failed = f @ running_in g (tasks r), groups_expired = e @ [g]\<rparr>)"
    unfolding expire_timeout_group_def gi using fail_group [OF ids i(1) run dist disj] i(2) by simp
  moreover have "\<forall>g' \<in> set (map fst gis). (D \<union> set (running_in g (tasks r))) \<inter> set (running_in g' (tasks r)) = {}"
  proof
    fix g' assume g': "g' \<in> set (map fst gis)"
    then have "g \<noteq> g'" using Cons.prems(2) gi by auto
    then show "(D \<union> set (running_in g (tasks r))) \<inter> set (running_in g' (tasks r)) = {}"
      using running_in_disjoint [OF ids] Cons.prems(3) g' by (simp add: Int_Un_distrib2) blast
  qed
  ultimately show ?case using Cons.IH Cons.prems(1,2) gi by (simp add: Un_assoc)
qed simp

lemma map_iff_set: "mset xs = mset ys \<Longrightarrow> set xs = set ys \<and> (distinct xs \<longleftrightarrow> distinct ys)"
  by (metis mset_eq_imp_distinct_iff mset_eq_setD)

text \<open>
  A timeout pass fails exactly the running tasks of the expired groups, whatever the order
  in which the map of groups is visited. A group is expired when the least start text among
  all its tasks, finished ones included, lies at least the limit in the past; the limit is
  that of the group's first task. Nothing else of the chain changes.
\<close>

theorem process_timeouts_effect:
  assumes "distinct (task_ids r)" "mode r = Dag"
    and "\<And>m. mset (iter_order m) = mset m"
    and "process_timeouts parse_secs now iter_order r = (r', res)"
  shows "r' = r\<lparr>tasks := map (\<lambda>t.
      case timeout_group t of
        None \<Rightarrow> t
      | Some tg \<Rightarrow>
          if status t = Running \<and> group_expired parse_secs now (tasks r) (group_id tg)
          then t\<lparr>status := Failed,
                 task_error := Some (group_timeout_error (group_id tg) (the (group_limit (group_id tg) (tasks r))))\<rparr>
          else t) (tasks r)\<rparr> \<and>
    distinct (groups_expired res) \<and>
    set (groups_expired res) = {g. group_expired parse_secs now (tasks r) g} \<and>
    set (tasks_failed res) = {task_id t | t. t \<in> set (tasks r) \<and> status t = Running \<and>
      (\<exists>g. in_group g t \<and> group_expired parse_secs now (tasks r) g)}"
proof -
  let ?m = "timeout_groups (tasks r)"
  define gis where "gis = filter (\<lambda>(g, i). group_timed_out parse_secs now i) (iter_order ?m)"
  have perm: "set (iter_order ?m) = set ?m" "distinct (map fst (iter_order ?m))"
    using map_iff_set [OF assms(3)] timeout_groups_ok [of "tasks r"]
    by (auto simp: hmap_ok_def distinct_map inj_on_def)
  have "(g, i) \<in> set ?m \<longleftrightarrow> group_info_of g (tasks r) = Some i" for g i
    using hget_iff_in [OF timeout_groups_ok] by (metis timeout_groups_get)
  then have in_gis: "(g, i) \<in> set gis \<longleftrightarrow> group_info_of g (tasks r) = Some i \<and> group_timed_out parse_secs now i" for g i
    by (auto simp: gis_def perm)
  have dist: "distinct (map fst gis)" using perm(2) by (simp add: gis_def distinct_map_filter)
  have groups: "set (map fst gis) = {g. group_expired parse_secs now (tasks r) g}"
  proof -
    have "(\<exists>i. (g, i) \<in> set gis) \<longleftrightarrow> group_expired parse_secs now (tasks r) g" for g
    proof -
      have "(\<exists>i. group_info_of g (tasks r) = Some i \<and> group_timed_out parse_secs now i) \<longleftrightarrow>
          group_expired parse_secs now (tasks r) g"
        by (cases "group_limit g (tasks r)"; cases "group_start g (tasks r)")
          (simp_all add: group_info_of_def group_timed_out_def group_expired_def)
      then show ?thesis by (simp add: in_gis)
    qed
    then show ?thesis by force
  qed
  have zero: "fail_ids {} r = r" by (simp add: fail_ids_def)
  have "(r', res) = (fail_ids (\<Union>g \<in> set (map fst gis). set (running_in g (tasks r))) r,
      \<lparr>tasks_failed = concat (map (\<lambda>g. running_in g (tasks r)) (map fst gis)), groups_expired = map fst gis\<rparr>)"
    using expire_groups [OF assms(1) _ dist, of "{}" "[]" "[]"] assms(2,4) in_gis
    by (auto simp: process_timeouts_def zero gis_def)
  then have r': "r' = fail_ids (\<Union>g \<in> set (map fst gis). set (running_in g (tasks r))) r"
    and res: "tasks_failed res = concat (map (\<lambda>g. running_in g (tasks r)) (map fst gis))"
      "groups_expired res = map fst gis"
    by simp_all
  have hit: "task_id t \<in> (\<Union>g \<in> set (map fst gis). set (running_in g (tasks r))) \<longleftrightarrow>
      status t = Running \<and> (\<exists>g. in_group g t \<and> group_expired parse_secs now (tasks r) g)" if t: "t \<in> set (tasks r)" for t
    using assms(1) t unfolding groups
    by (auto simp: running_in_def task_ids_def distinct_map inj_on_def)
  have "r' = r\<lparr>tasks := map (\<lambda>t.
      case timeout_group t of
        None \<Rightarrow> t
      | Some tg \<Rightarrow>
          if status t = Running \<and> group_expired parse_secs now (tasks r) (group_id tg)
          then t\<lparr>status := Failed,
                 task_error := Some (group_timeout_error (group_id tg) (the (group_limit (group_id tg) (tasks r))))\<rparr>
          else t) (tasks r)\<rparr>"
    unfolding r' fail_ids_def
    by (intro arg_cong2 [where f = "\<lambda>ts r. r\<lparr>tasks := ts\<rparr>"] map_cong refl)
      (simp only: hit, auto simp: in_group_iff timed_out_task_def Let_def split: option.splits)
  moreover have "set (tasks_failed res) = {task_id t | t. t \<in> set (tasks r) \<and> status t = Running \<and>
      (\<exists>g. in_group g t \<and> group_expired parse_secs now (tasks r) g)}"
  proof -
    have "set (tasks_failed res) = (\<Union>g \<in> set (map fst gis). set (running_in g (tasks r)))"
      by (simp add: res)
    then show ?thesis unfolding groups by (auto simp: running_in_def)
  qed
  ultimately show ?thesis using dist groups by (simp add: res)
qed

definition timeout_chain :: chain_dag_root where
  "timeout_chain = chain_dag_root_new ''t''
     [(dag_task_new ''a'')\<lparr>status := Completed, started_at := Some ''1'',
         timeout_group := Some \<lparr>group_id = ''g'', max_seconds = 5\<rparr>\<rparr>,
      (dag_task_new ''b'')\<lparr>status := Running, started_at := Some ''4'',
         timeout_group := Some \<lparr>group_id = ''g'', max_seconds = 50\<rparr>\<rparr>]"

definition demo_secs :: "string \<Rightarrow> u64 option" where
  "demo_secs s = (case s of [c] \<Rightarrow> Some (word_of_nat (of_char c - 48)) | _ \<Rightarrow> None)"

theorem process_timeouts_effect_witness:
  "''b'' \<in> set (tasks_failed (snd (process_timeouts demo_secs ''7'' rev timeout_chain)))"
proof -
  obtain r' res where run: "process_timeouts demo_secs ''7'' rev timeout_chain = (r', res)" by force
  have *: "distinct (task_ids timeout_chain)" "mode timeout_chain = Dag"
      "status (tasks timeout_chain ! 1) = Running" "task_id (tasks timeout_chain ! 1) = ''b''"
      "length (tasks timeout_chain) = 2"
      "timeout_group (tasks timeout_chain ! 1) = Some \<lparr>group_id = ''g'', max_seconds = 50\<rparr>"
      "group_limit ''g'' (tasks timeout_chain) = Some 5" "group_start ''g'' (tasks timeout_chain) = Some ''1''"
      "is_timed_out demo_secs ''1'' ''7'' 5"
    by code_simp+
  then have "group_expired demo_secs ''7'' (tasks timeout_chain) ''g''" by (simp add: group_expired_def)
  moreover have "tasks timeout_chain ! 1 \<in> set (tasks timeout_chain)" using *(5) by simp
  ultimately have "\<exists>t. ''b'' = task_id t \<and> t \<in> set (tasks timeout_chain) \<and> status t = Running \<and>
      (\<exists>g. in_group g t \<and> group_expired demo_secs ''7'' (tasks timeout_chain) g)"
    using * by (intro exI [of _ "tasks timeout_chain ! 1"]) (auto simp: in_group_iff)
  then show ?thesis using process_timeouts_effect [OF *(1,2) _ run] run by auto
qed

section \<open>Backoffs that wrap\<close>

text \<open>
  An uncapped exponential backoff that has grown to 2 to the 64 milliseconds or more is
  scheduled one millisecond into the past: the product saturates at the largest 64-bit value,
  and the cast to a signed number that follows turns it into -1. The failed task is then due
  for its retry at once instead of never.
\<close>

theorem overflowed_backoff_in_the_past:
  assumes "status t = Failed" "policy_of r t = Some p" "attempt t < max_attempts p"
    and "max_backoff_ms p = None"
    and "f64_mul (f64_of_int (uint (backoff_base_ms p)))
           (powi_f (backoff_multiplier p) (sint (sat_inc (attempt t) - 1))) = v"
    and "v = PInf \<or> (\<exists>x. v = Fin x \<and> 2 ^ 64 \<le> x)"
  shows "schedule_retry powi_f stamp r t =
    (case stamp (task_id t) (- 1) of
       None \<Rightarrow> None
     | Some b \<Rightarrow> Some (t\<lparr>backoff_until := Some b, status := RetryScheduled\<rparr>, True))"
proof -
  have "f64_to_u64 v = - 1" using assms(6) by auto
  then have "backoff_ms powi_f p (sat_inc (attempt t)) = - 1"
    using assms(4,5) by (simp add: backoff_ms_def)
  then show ?thesis using assms(1-3) by (simp add: schedule_retry_def)
qed

definition overflow_policy :: retry_policy where
  "overflow_policy = \<lparr>max_attempts = 1000, backoff_base_ms = 1, backoff_multiplier = Fin 10, max_backoff_ms = None\<rparr>"

definition overflow_task :: dag_task_entry where
  "overflow_task = (dag_task_new ''a'')\<lparr>status := Failed, attempt := 400, retry := Some overflow_policy\<rparr>"

theorem overflowed_backoff_in_the_past_witness:
  "schedule_retry (\<lambda>x n. PInf) (\<lambda>tid ms. Some (if ms < 0 then ''past'' else ''future''))
     (chain_dag_root_new ''c'' [overflow_task]) overflow_task =
     Some (overflow_task\<lparr>backoff_until := Some ''past'', status := RetryScheduled\<rparr>, True)"
proof -
  have "f64_of_int 1 = Fin 1" using f64_of_int_exact [of 1] by simp
  then have "f64_mul (f64_of_int (uint (backoff_base_ms overflow_policy))) PInf = PInf"
    by (simp add: overflow_policy_def)
  moreover have "status overflow_task = Failed" "attempt overflow_task < max_attempts overflow_policy"
      "policy_of (chain_dag_root_new ''c'' [overflow_task]) overflow_task = Some overflow_policy"
      "max_backoff_ms overflow_policy = None"
    by code_simp+
  ultimately show ?thesis
    using overflowed_backoff_in_the_past [of overflow_task _ overflow_policy "\<lambda>x n. PInf" PInf] by simp
qed

end
