(* ===== verification/Serde.thy ===== *)
theory Serde
  imports Json
begin

text \<open>
  The serialised forms serde derives, on JSON values.

  Derived readers accept an object without unknown members, or an array with the fields in
  their order; a member with a default may be missing. Enumerations are read from their
  snake-case name, or from an object that maps the name to null.
\<close>

section \<open>Derived readers\<close>

fun de_fields :: "string list \<Rightarrow> json \<Rightarrow> (string \<times> json) list option" where
  "de_fields names (JObj m) = (if list_all (\<lambda>(k, v). k \<in> set names) m then Some m else None)"
| "de_fields names (JArr xs) = (if length xs \<le> length names then Some (zip names xs) else None)"
| "de_fields names _ = None"

definition de_req :: "(json \<Rightarrow> 'a option) \<Rightarrow> (string \<times> json) list \<Rightarrow> string \<Rightarrow> 'a option" where
  "de_req f m k = Option.bind (map_of m k) f"

definition de_dflt :: "(json \<Rightarrow> 'a option) \<Rightarrow> 'a \<Rightarrow> (string \<times> json) list \<Rightarrow> string \<Rightarrow> 'a option" where
  "de_dflt f d m k = (case map_of m k of None \<Rightarrow> Some d | Some v \<Rightarrow> f v)"

fun de_opt :: "(json \<Rightarrow> 'a option) \<Rightarrow> json \<Rightarrow> 'a option option" where
  "de_opt f JNull = Some None"
| "de_opt f v = map_option Some (f v)"

fun de_list :: "(json \<Rightarrow> 'a option) \<Rightarrow> json \<Rightarrow> 'a list option" where
  "de_list f (JArr []) = Some []"
| "de_list f (JArr (v # vs)) =
     (case f v of
        None \<Rightarrow> None
      | Some a \<Rightarrow> (case de_list f (JArr vs) of None \<Rightarrow> None | Some as \<Rightarrow> Some (a # as)))"
| "de_list f _ = None"

fun de_word :: "json \<Rightarrow> 'a::len word option" where
  "de_word (JNum (NPos n)) = (if n < 2 ^ LENGTH('a) then Some (word_of_nat n) else None)"
| "de_word _ = None"

fun de_f64 :: "json \<Rightarrow> f64 option" where
  "de_f64 (JNum n) = Some (num_as_f64 n)"
| "de_f64 _ = None"

fun de_enum :: "(string \<times> 'a) list \<Rightarrow> json \<Rightarrow> 'a option" where
  "de_enum tbl (JStr s) = map_of tbl s"
| "de_enum tbl (JObj [(s, JNull)]) = map_of tbl s"
| "de_enum tbl _ = None"

fun ser_f64 :: "f64 \<Rightarrow> json" where
  "ser_f64 (Fin x) = JNum (NFloat (Fin x))"
| "ser_f64 _ = JNull"

definition ser_word :: "'a::len word \<Rightarrow> json" where
  "ser_word w = JNum (NPos (unat w))"

text \<open>
  A structure that may have unknown members: an object, or an array that has every field
  without a declared default. Then the signed integers.
\<close>

type_synonym i64 = "64 word"

fun de_struct :: "string list \<Rightarrow> string list \<Rightarrow> json \<Rightarrow> (string \<times> json) list option" where
  "de_struct names dflts (JObj m) = Some m"
| "de_struct names dflts (JArr xs) =
     (if length xs \<le> length names \<and> list_all (\<lambda>k. k \<in> set dflts) (drop (length xs) names)
      then Some (zip names xs) else None)"
| "de_struct names dflts _ = None"

fun de_i64 :: "json \<Rightarrow> i64 option" where
  "de_i64 (JNum (NPos n)) = (if n < 2 ^ 63 then Some (word_of_nat n) else None)"
| "de_i64 (JNum (NNeg i)) = (if - (2 ^ 63) \<le> i then Some (word_of_int i) else None)"
| "de_i64 _ = None"

definition ser_i64 :: "i64 \<Rightarrow> json" where
  "ser_i64 w = JNum (if 0 \<le> sint w then NPos (nat (sint w)) else NNeg (sint w))"

text \<open>The name of an enumeration's value in its table.\<close>

definition ser_enum :: "(string \<times> 'a) list \<Rightarrow> 'a \<Rightarrow> json" where
  "ser_enum tbl a = (case find (\<lambda>(s, b). b = a) tbl of Some (s, b) \<Rightarrow> JStr s | None \<Rightarrow> JNull)"

section \<open>Round trips\<close>

lemma de_fields_obj: "set (map fst m) \<subseteq> set names \<Longrightarrow> de_fields names (JObj m) = Some m"
  by (auto simp: list_all_iff)

lemma de_opt_jopt: "(\<And>a. x = Some a \<Longrightarrow> f (g a) = Some a \<and> g a \<noteq> JNull) \<Longrightarrow> de_opt f (jopt g x) = Some x"
  by (cases x; cases "g (the x)") (auto simp: jopt_def)

lemma de_opt_str [simp]: "de_opt as_str (jopt JStr x) = Some x"
  by (rule de_opt_jopt) simp

lemma de_word_ser [simp]: "de_word (ser_word w) = Some w"
  using unsigned_less [of w, where 'a = nat] by (simp add: ser_word_def)

lemma ser_word_not_null [simp]: "ser_word w \<noteq> JNull"
  by (simp add: ser_word_def)

lemma de_opt_word [simp]: "de_opt de_word (jopt ser_word x) = Some x"
  by (rule de_opt_jopt) simp

lemma de_list_map: "(\<And>x. x \<in> set xs \<Longrightarrow> f (g x) = Some x) \<Longrightarrow> de_list f (JArr (map g xs)) = Some xs"
  by (induction xs) auto

lemma de_list_strs [simp]: "de_list as_str (JArr (map JStr xs)) = Some xs"
  by (rule de_list_map) simp

lemma de_i64_ser [simp]: "de_i64 (ser_i64 w) = Some w"
proof -
  have "sint w < 2 ^ 63" "- (2 ^ 63) \<le> sint w"
    using sint_greater_eq [of w] sint_less [of w] by simp_all
  then show ?thesis by (simp add: ser_i64_def nat_less_iff)
qed

lemma ser_i64_not_null [simp]: "ser_i64 w \<noteq> JNull"
  by (simp add: ser_i64_def)

lemma de_opt_i64 [simp]: "de_opt de_i64 (jopt ser_i64 x) = Some x"
  by (rule de_opt_jopt) simp

end
