(* ===== verification/Chain_Json.thy ===== *)
theory Chain_Json
  imports Chain_Types Serde
begin

text \<open>
  The serialised form of a chain (the serde derives of \<^verbatim>\<open>core/chain-engine/src/types.rs\<close>) and
  the reading of a chain file (\<^verbatim>\<open>core/chain-engine/src/lib.rs\<close>): the detection of the old linear
  format and its conversion. Texts are not modelled: a file holds a JSON value.
\<close>

section \<open>Enumerations\<close>

definition chain_modes :: "(string \<times> chain_mode) list" where
  "chain_modes = [(''linear'', Linear), (''dag'', Dag)]"

definition task_statuses :: "(string \<times> task_status) list" where
  "task_statuses =
     [(''pending'', Pending), (''running'', Running), (''completed'', Completed), (''failed'', Failed),
      (''blocked'', Blocked), (''skipped'', Skipped), (''retry_scheduled'', RetryScheduled)]"

definition failure_strategies :: "(string \<times> failure_strategy) list" where
  "failure_strategies = [(''pause_dag'', PauseDag), (''abort_dag'', AbortDag), (''continue'', Continue)]"

definition condition_types :: "(string \<times> condition_type) list" where
  "condition_types = [(''output_field'', OutputField), (''status'', Status), (''expression'', Expression)]"

definition condition_operators :: "(string \<times> condition_operator) list" where
  "condition_operators =
     [(''eq'', Eq), (''ne'', Ne), (''gte'', Gte), (''lte'', Lte), (''gt'', Gt), (''lt'', Lt),
      (''in'', In), (''not_in'', NotIn)]"

section \<open>Structures\<close>

definition condition_json :: "dag_condition \<Rightarrow> json" where
  "condition_json c = JObj
     [(''field'', jopt JStr (cond_field c)),
      (''operator'', ser_enum condition_operators (cond_operator c)),
      (''source'', JStr (source c)),
      (''type'', ser_enum condition_types (cond_type c)),
      (''value'', cond_value c)]"

definition condition_of_json :: "json \<Rightarrow> dag_condition option" where
  "condition_of_json v =
     Option.bind (de_fields [''source'', ''type'', ''field'', ''operator'', ''value''] v) (\<lambda>m.
     Option.bind (de_req as_str m ''source'') (\<lambda>s.
     Option.bind (de_dflt (de_enum condition_types) OutputField m ''type'') (\<lambda>ct.
     Option.bind (de_dflt (de_opt as_str) None m ''field'') (\<lambda>f.
     Option.bind (de_dflt (de_enum condition_operators) Eq m ''operator'') (\<lambda>p.
     Option.bind (de_req Some m ''value'') (\<lambda>x.
     Some \<lparr>source = s, cond_type = ct, cond_field = f, cond_operator = p, cond_value = x\<rparr>))))))"

definition timeout_json :: "timeout_group_spec \<Rightarrow> json" where
  "timeout_json g = JObj [(''group_id'', JStr (group_id g)), (''max_seconds'', ser_word (max_seconds g))]"

definition timeout_of_json :: "json \<Rightarrow> timeout_group_spec option" where
  "timeout_of_json v =
     Option.bind (de_fields [''group_id'', ''max_seconds''] v) (\<lambda>m.
     Option.bind (de_req as_str m ''group_id'') (\<lambda>g.
     Option.bind (de_req de_word m ''max_seconds'') (\<lambda>s.
     Some \<lparr>group_id = g, max_seconds = s\<rparr>)))"

definition retry_json :: "retry_policy \<Rightarrow> json" where
  "retry_json p = JObj
     [(''backoff_base_ms'', ser_word (backoff_base_ms p)),
      (''backoff_multiplier'', ser_f64 (backoff_multiplier p)),
      (''max_attempts'', ser_word (max_attempts p)),
      (''max_backoff_ms'', jopt ser_word (max_backoff_ms p))]"

definition retry_of_json :: "json \<Rightarrow> retry_policy option" where
  "retry_of_json v =
     Option.bind (de_fields [''max_attempts'', ''backoff_base_ms'', ''backoff_multiplier'', ''max_backoff_ms''] v) (\<lambda>m.
     Option.bind (de_req de_word m ''max_attempts'') (\<lambda>a.
     Option.bind (de_dflt de_word 1000 m ''backoff_base_ms'') (\<lambda>b.
     Option.bind (de_dflt de_f64 (Fin 2) m ''backoff_multiplier'') (\<lambda>x.
     Option.bind (de_dflt (de_opt de_word) None m ''max_backoff_ms'') (\<lambda>c.
     Some \<lparr>max_attempts = a, backoff_base_ms = b, backoff_multiplier = x, max_backoff_ms = c\<rparr>)))))"

definition task_json :: "dag_task_entry \<Rightarrow> json" where
  "task_json t = JObj
     [(''attempt'', ser_word (attempt t)),
      (''backoff_until'', jopt JStr (backoff_until t)),
      (''caused_skips'', JArr (map JStr (caused_skips t))),
      (''completed_at'', jopt JStr (completed_at t)),
      (''condition'', jopt condition_json (condition t)),
      (''depends_on'', JArr (map JStr (depends_on t))),
      (''error'', jopt JStr (task_error t)),
      (''parallel_group'', jopt JStr (parallel_group t)),
      (''retry'', jopt retry_json (retry t)),
      (''round'', jopt ser_word (task_round t)),
      (''started_at'', jopt JStr (started_at t)),
      (''status'', ser_enum task_statuses (status t)),
      (''task_id'', JStr (task_id t)),
      (''timeout_group'', jopt timeout_json (timeout_group t)),
      (''title'', jopt JStr (title t))]"

definition task_fields :: "string list" where
  "task_fields =
     [''task_id'', ''title'', ''depends_on'', ''round'', ''condition'', ''parallel_group'', ''timeout_group'',
      ''retry'', ''status'', ''attempt'', ''started_at'', ''completed_at'', ''error'', ''backoff_until'',
      ''caused_skips'']"

definition task_of_json :: "json \<Rightarrow> dag_task_entry option" where
  "task_of_json v =
     Option.bind (de_fields task_fields v) (\<lambda>m.
     Option.bind (de_req as_str m ''task_id'') (\<lambda>i.
     Option.bind (de_dflt (de_opt as_str) None m ''title'') (\<lambda>t.
     Option.bind (de_dflt (de_list as_str) [] m ''depends_on'') (\<lambda>d.
     Option.bind (de_dflt (de_opt de_word) None m ''round'') (\<lambda>r.
     Option.bind (de_dflt (de_opt condition_of_json) None m ''condition'') (\<lambda>c.
     Option.bind (de_dflt (de_opt as_str) None m ''parallel_group'') (\<lambda>pg.
     Option.bind (de_dflt (de_opt timeout_of_json) None m ''timeout_group'') (\<lambda>tg.
     Option.bind (de_dflt (de_opt retry_of_json) None m ''retry'') (\<lambda>rp.
     Option.bind (de_dflt (de_enum task_statuses) Pending m ''status'') (\<lambda>s.
     Option.bind (de_dflt de_word 0 m ''attempt'') (\<lambda>a.
     Option.bind (de_dflt (de_opt as_str) None m ''started_at'') (\<lambda>sa.
     Option.bind (de_dflt (de_opt as_str) None m ''completed_at'') (\<lambda>ca.
     Option.bind (de_dflt (de_opt as_str) None m ''error'') (\<lambda>e.
     Option.bind (de_dflt (de_opt as_str) None m ''backoff_until'') (\<lambda>b.
     Option.bind (de_dflt (de_list as_str) [] m ''caused_skips'') (\<lambda>cs.
     Some \<lparr>task_id = i, title = t, depends_on = d, task_round = r, condition = c, parallel_group = pg,
           timeout_group = tg, retry = rp, status = s, attempt = a, started_at = sa, completed_at = ca,
           task_error = e, backoff_until = b, caused_skips = cs\<rparr>))))))))))))))))"

definition config_json :: "global_dag_config \<Rightarrow> json" where
  "config_json g = JObj
     [(''default_retry'', jopt retry_json (default_retry g)),
      (''max_concurrent_tasks'', ser_word (max_concurrent_tasks g)),
      (''on_any_failure'', ser_enum failure_strategies (on_any_failure g))]"

definition config_of_json :: "json \<Rightarrow> global_dag_config option" where
  "config_of_json v =
     Option.bind (de_fields [''max_concurrent_tasks'', ''default_retry'', ''on_any_failure''] v) (\<lambda>m.
     Option.bind (de_dflt de_word 4 m ''max_concurrent_tasks'') (\<lambda>c.
     Option.bind (de_dflt (de_opt retry_of_json) None m ''default_retry'') (\<lambda>r.
     Option.bind (de_dflt (de_enum failure_strategies) PauseDag m ''on_any_failure'') (\<lambda>f.
     Some \<lparr>max_concurrent_tasks = c, default_retry = r, on_any_failure = f\<rparr>))))"

definition chain_json :: "chain_dag_root \<Rightarrow> json" where
  "chain_json r = JObj
     [(''chain_id'', JStr (chain_id r)),
      (''global_config'', config_json (global_config r)),
      (''mode'', ser_enum chain_modes (mode r)),
      (''paused'', JBool (paused r)),
      (''schema_version'', JStr (schema_version r)),
      (''tasks'', JArr (map task_json (tasks r)))]"

definition chain_of_json :: "json \<Rightarrow> chain_dag_root option" where
  "chain_of_json v =
     Option.bind (de_fields [''schema_version'', ''chain_id'', ''mode'', ''tasks'', ''global_config'', ''paused''] v) (\<lambda>m.
     Option.bind (de_req as_str m ''schema_version'') (\<lambda>s.
     Option.bind (de_req as_str m ''chain_id'') (\<lambda>c.
     Option.bind (de_dflt (de_enum chain_modes) Linear m ''mode'') (\<lambda>d.
     Option.bind (de_req (de_list task_of_json) m ''tasks'') (\<lambda>ts.
     Option.bind (de_dflt config_of_json global_dag_config_default m ''global_config'') (\<lambda>g.
     Option.bind (de_dflt as_bool False m ''paused'') (\<lambda>p.
     Some \<lparr>schema_version = s, chain_id = c, mode = d, tasks = ts, global_config = g, paused = p\<rparr>)))))))"

section \<open>Loading\<close>

definition is_old_linear_format :: "json \<Rightarrow> bool" where
  "is_old_linear_format v \<longleftrightarrow>
     jget_with as_u64 v ''current_index'' \<noteq> None \<or>
     jget_with as_str v ''schema_version'' \<noteq> Some CHAIN_DAG_SCHEMA_VERSION"

definition old_linear_task :: "json \<Rightarrow> dag_task_entry" where
  "old_linear_task t =
     (let tid = (case jget_with as_str t ''task_id'' of Some s \<Rightarrow> s | None \<Rightarrow> []);
          st = (case jget_with as_str t ''status'' of Some s \<Rightarrow> s | None \<Rightarrow> ''pending'')
      in (dag_task_new tid)\<lparr>title := jget_with as_str t ''title'',
            status := (if st = ''running'' then Running
                       else if st = ''completed'' then Completed
                       else if st = ''failed'' then Failed else Pending)\<rparr>)"

definition convert_old_linear :: "json \<Rightarrow> chain_dag_root" where
  "convert_old_linear old =
     \<lparr>schema_version = CHAIN_DAG_SCHEMA_VERSION,
      chain_id = (case jget_with as_str old ''chain_id'' of Some s \<Rightarrow> s | None \<Rightarrow> ''linear-chain''),
      mode = Linear,
      tasks = (case jget_with as_array old ''tasks'' of Some arr \<Rightarrow> map old_linear_task arr | None \<Rightarrow> []),
      global_config = global_dag_config_default, paused = False\<rparr>"

datatype load_error = FileMissing | FileUnreadable | FileMalformed

text \<open>
  The content of a file: none, one that does not parse as JSON, or the JSON value it was
  printed from. The tools read that value itself; \<^verbatim>\<open>read_back\<close> below has what the text of a
  value may do to its floats.
\<close>

datatype file_content = Absent | Garbage | Doc json

definition load_chain_from_path :: "file_content \<Rightarrow> (load_error, chain_dag_root) result" where
  "load_chain_from_path f =
     (case f of
        Absent \<Rightarrow> Inl (Io, FileUnreadable)
      | Garbage \<Rightarrow> Inl (error_kind.Json, FileMalformed)
      | Doc v \<Rightarrow>
          if is_old_linear_format v then Inr (convert_old_linear v)
          else (case chain_of_json v of
                  Some r \<Rightarrow> Inr r
                | None \<Rightarrow> Inl (error_kind.Json, FileMalformed)))"

definition load_chain :: "file_content \<Rightarrow> (load_error, chain_dag_root) result" where
  "load_chain f = (if f = Absent then Inl (NotFound, FileMissing) else load_chain_from_path f)"

definition write_chain_file :: "chain_dag_root \<Rightarrow> file_content" where
  "write_chain_file r = Doc (chain_json r)"

section \<open>Round trips\<close>

lemma de_enum_ser [simp]:
  "de_enum chain_modes (ser_enum chain_modes m) = Some m"
  "de_enum task_statuses (ser_enum task_statuses s) = Some s"
  "de_enum failure_strategies (ser_enum failure_strategies f) = Some f"
  "de_enum condition_types (ser_enum condition_types c) = Some c"
  "de_enum condition_operators (ser_enum condition_operators p) = Some p"
  by (cases m, simp_all add: chain_modes_def ser_enum_def)
    (cases s, simp_all add: task_statuses_def ser_enum_def,
     cases f, simp_all add: failure_strategies_def ser_enum_def,
     cases c, simp_all add: condition_types_def ser_enum_def,
     cases p, simp_all add: condition_operators_def ser_enum_def)

lemma condition_roundtrip: "condition_of_json (condition_json c) = Some c"
  by (simp add: condition_json_def condition_of_json_def de_fields_obj de_req_def de_dflt_def)

lemma timeout_roundtrip: "timeout_of_json (timeout_json g) = Some g"
  by (simp add: timeout_json_def timeout_of_json_def de_fields_obj de_req_def)

definition finite_policy :: "retry_policy \<Rightarrow> bool" where
  "finite_policy p \<longleftrightarrow> (case backoff_multiplier p of Fin _ \<Rightarrow> True | _ \<Rightarrow> False)"

lemma retry_roundtrip: "finite_policy p \<Longrightarrow> retry_of_json (retry_json p) = Some p"
  by (cases "backoff_multiplier p")
    (simp_all add: finite_policy_def retry_json_def retry_of_json_def de_fields_obj de_req_def de_dflt_def)

lemma json_not_null [simp]:
  "condition_json c \<noteq> JNull" "timeout_json g \<noteq> JNull" "retry_json p \<noteq> JNull"
  by (simp_all add: condition_json_def timeout_json_def retry_json_def)

lemma task_roundtrip:
  assumes "\<forall>p. retry t = Some p \<longrightarrow> finite_policy p"
  shows "task_of_json (task_json t) = Some t"
proof -
  have "de_opt condition_of_json (jopt condition_json (condition t)) = Some (condition t)"
    "de_opt timeout_of_json (jopt timeout_json (timeout_group t)) = Some (timeout_group t)"
    "de_opt retry_of_json (jopt retry_json (retry t)) = Some (retry t)"
    using assms by (auto intro!: de_opt_jopt condition_roundtrip timeout_roundtrip retry_roundtrip)
  then show ?thesis
    by (simp add: task_json_def task_of_json_def task_fields_def de_fields_obj de_req_def de_dflt_def)
qed

lemma config_roundtrip:
  assumes "\<forall>p. default_retry g = Some p \<longrightarrow> finite_policy p"
  shows "config_of_json (config_json g) = Some g"
proof -
  have "de_opt retry_of_json (jopt retry_json (default_retry g)) = Some (default_retry g)"
    using assms by (auto intro!: de_opt_jopt retry_roundtrip)
  then show ?thesis
    by (simp add: config_json_def config_of_json_def de_fields_obj de_req_def de_dflt_def)
qed

text \<open>The multipliers of all retry policies are numbers, which JSON can hold.\<close>

definition finite_policies :: "chain_dag_root \<Rightarrow> bool" where
  "finite_policies r \<longleftrightarrow>
     (\<forall>t \<in> set (tasks r). \<forall>p. retry t = Some p \<longrightarrow> finite_policy p) \<and>
     (\<forall>p. default_retry (global_config r) = Some p \<longrightarrow> finite_policy p)"

lemma chain_roundtrip:
  assumes "finite_policies r"
  shows "chain_of_json (chain_json r) = Some r"
proof -
  have "de_list task_of_json (JArr (map task_json (tasks r))) = Some (tasks r)"
    using assms by (intro de_list_map task_roundtrip) (simp add: finite_policies_def)
  moreover have "config_of_json (config_json (global_config r)) = Some (global_config r)"
    using assms by (intro config_roundtrip) (simp add: finite_policies_def)
  ultimately show ?thesis
    by (simp add: chain_json_def chain_of_json_def de_fields_obj de_req_def de_dflt_def)
qed

lemma old_linear_chain_json: "is_old_linear_format (chain_json r) \<longleftrightarrow> schema_version r \<noteq> CHAIN_DAG_SCHEMA_VERSION"
  by (simp add: is_old_linear_format_def chain_json_def)

text \<open>What reading back a written chain yields: the invariant of the stored chains.\<close>

definition storable :: "chain_dag_root \<Rightarrow> bool" where
  "storable r \<longleftrightarrow> schema_version r = CHAIN_DAG_SCHEMA_VERSION \<and> finite_policies r"

lemma load_written: "storable r \<Longrightarrow> load_chain_from_path (write_chain_file r) = Inr r"
  by (simp add: load_chain_from_path_def write_chain_file_def old_linear_chain_json chain_roundtrip storable_def)

text \<open>
  The text of a value: what is read back from it is the value but for its floats, each of which the parser
  may read as a neighbour of the float that was printed. The function on floats is a
  parameter; where the tools load what they wrote, it is the identity.
\<close>

fun reread :: "(f64 \<Rightarrow> f64) \<Rightarrow> json \<Rightarrow> json" where
  "reread rf (JNum (NFloat x)) = JNum (NFloat (rf x))"
| "reread rf (JArr vs) = JArr (map (reread rf) vs)"
| "reread rf (JObj kvs) = JObj (map (\<lambda>(k, v). (k, reread rf v)) kvs)"
| "reread rf v = v"

fun floats_in :: "json \<Rightarrow> f64 list" where
  "floats_in (JNum (NFloat x)) = [x]"
| "floats_in (JArr vs) = concat (map floats_in vs)"
| "floats_in (JObj kvs) = concat (map (\<lambda>(k, v). floats_in v) kvs)"
| "floats_in v = []"

definition read_back :: "(f64 \<Rightarrow> f64) \<Rightarrow> file_content \<Rightarrow> file_content" where
  "read_back rf f = (case f of Doc v \<Rightarrow> Doc (reread rf v) | _ \<Rightarrow> f)"

definition reread_policy :: "(f64 \<Rightarrow> f64) \<Rightarrow> retry_policy \<Rightarrow> retry_policy" where
  "reread_policy rf p = p\<lparr>backoff_multiplier := rf (backoff_multiplier p)\<rparr>"

definition reread_condition :: "(f64 \<Rightarrow> f64) \<Rightarrow> dag_condition \<Rightarrow> dag_condition" where
  "reread_condition rf c = c\<lparr>cond_value := reread rf (cond_value c)\<rparr>"

definition reread_chain :: "(f64 \<Rightarrow> f64) \<Rightarrow> chain_dag_root \<Rightarrow> chain_dag_root" where
  "reread_chain rf r = r\<lparr>tasks := map (\<lambda>t. t\<lparr>retry := map_option (reread_policy rf) (retry t),
       condition := map_option (reread_condition rf) (condition t)\<rparr>) (tasks r),
     global_config := (global_config r)\<lparr>default_retry := map_option (reread_policy rf) (default_retry (global_config r))\<rparr>\<rparr>"

lemma reread_exact: "\<forall>x \<in> set (floats_in v). rf x = x \<Longrightarrow> reread rf v = v"
  by (induction rf v rule: reread.induct) (auto intro!: map_idI)

lemma reread_jopt [simp]: "reread rf (jopt f ov) = jopt (reread rf \<circ> f) ov"
  by (simp add: jopt_def split: option.split)

lemma reread_str [simp]: "reread rf \<circ> JStr = JStr" "reread rf \<circ> ser_word = ser_word"
  by (auto simp: ser_word_def)

lemma reread_word [simp]: "reread rf (ser_word n) = ser_word n"
  by (simp add: ser_word_def)

lemma reread_enum [simp]: "reread rf (ser_enum tbl x) = ser_enum tbl x"
  by (simp add: ser_enum_def split: option.split)

text \<open>The parser reads a finite float as a finite one.\<close>

definition reads_finite :: "(f64 \<Rightarrow> f64) \<Rightarrow> bool" where
  "reads_finite rf \<longleftrightarrow> (\<forall>x. \<exists>y. rf (Fin x) = Fin y)"

lemma reread_policy_json:
  assumes "finite_policy p" "reads_finite rf"
  shows "reread rf (retry_json p) = retry_json (reread_policy rf p)" "finite_policy (reread_policy rf p)"
proof -
  obtain x where x: "backoff_multiplier p = Fin x" using assms(1) by (cases "backoff_multiplier p") (auto simp: finite_policy_def)
  obtain y where y: "rf (Fin x) = Fin y" using assms(2) unfolding reads_finite_def by blast
  show "reread rf (retry_json p) = retry_json (reread_policy rf p)" "finite_policy (reread_policy rf p)"
    by (simp_all add: retry_json_def reread_policy_def finite_policy_def x y)
qed

lemma reread_task_json:
  assumes "\<forall>p. retry t = Some p \<longrightarrow> finite_policy p" "reads_finite rf"
  shows "reread rf (task_json t) = task_json (t\<lparr>retry := map_option (reread_policy rf) (retry t),
     condition := map_option (reread_condition rf) (condition t)\<rparr>)"
proof -
  have "jopt (reread rf \<circ> retry_json) (retry t) = jopt retry_json (map_option (reread_policy rf) (retry t))"
    using reread_policy_json [OF _ assms(2)] assms(1) by (cases "retry t") (auto simp: jopt_def)
  moreover have "jopt (reread rf \<circ> condition_json) (condition t) = jopt condition_json (map_option (reread_condition rf) (condition t))"
    by (cases "condition t") (auto simp: jopt_def condition_json_def reread_condition_def split: option.split)
  moreover have "reread rf \<circ> timeout_json = timeout_json" by (auto simp: timeout_json_def)
  ultimately show ?thesis by (simp add: task_json_def)
qed

lemma reread_chain_json:
  assumes "finite_policies r" "reads_finite rf"
  shows "reread rf (chain_json r) = chain_json (reread_chain rf r)" "finite_policies (reread_chain rf r)"
proof -
  have "map (reread rf \<circ> task_json) (tasks r) = map task_json (tasks (reread_chain rf r))"
    using assms by (auto simp: finite_policies_def reread_chain_def intro!: reread_task_json)
  moreover have "jopt (reread rf \<circ> retry_json) (default_retry (global_config r)) =
      jopt retry_json (map_option (reread_policy rf) (default_retry (global_config r)))"
    using reread_policy_json [OF _ assms(2)] assms(1) by (cases "default_retry (global_config r)") (auto simp: jopt_def finite_policies_def)
  ultimately show "reread rf (chain_json r) = chain_json (reread_chain rf r)"
    by (simp add: chain_json_def config_json_def) (simp add: reread_chain_def)
  show "finite_policies (reread_chain rf r)"
    using assms(1) reread_policy_json [OF _ assms(2)] by (auto simp: finite_policies_def reread_chain_def)
qed

text \<open>
  C39: Reading back the text of a written chain, of the current schema version and with finite
  backoff multipliers, yields the same chain but for its floats: each is replaced by the float the
  parser reads for it, so that the chain is the same if the parser reads the floats in it
  exactly. The writer's output is never mistaken for the old linear format.
\<close>

theorem chain_file_roundtrip:
  assumes "schema_version r = CHAIN_DAG_SCHEMA_VERSION" "finite_policies r" "reads_finite rf"
  shows "load_chain (read_back rf (write_chain_file r)) = Inr (reread_chain rf r) \<and>
    ((\<forall>x \<in> set (floats_in (chain_json r)). rf x = x) \<longrightarrow> reread_chain rf r = r)"
proof
  note j = reread_chain_json [OF assms(2), of rf]
  have "read_back rf (write_chain_file r) = write_chain_file (reread_chain rf r)"
    using j(1) assms(3) by (simp add: read_back_def write_chain_file_def)
  moreover have "storable (reread_chain rf r)"
    using j(2) assms(1,3) by (simp add: storable_def reread_chain_def)
  ultimately show "load_chain (read_back rf (write_chain_file r)) = Inr (reread_chain rf r)"
    using load_written by (simp add: load_chain_def write_chain_file_def)
  have "Some (reread_chain rf r) = Some r" if "\<forall>x \<in> set (floats_in (chain_json r)). rf x = x"
    using reread_exact [OF that] j assms(2,3) chain_roundtrip by metis
  then show "(\<forall>x \<in> set (floats_in (chain_json r)). rf x = x) \<longrightarrow> reread_chain rf r = r" by simp
qed

theorem chain_file_roundtrip_witness:
  "load_chain (read_back (\<lambda>x. if x = Fin 3 then Fin 4 else x) (write_chain_file
     (chain_dag_root_new ''c'' [(dag_task_with_title ''a'' ''A'')\<lparr>retry := Some \<lparr>max_attempts = 2, backoff_base_ms = 1,
        backoff_multiplier = Fin 3, max_backoff_ms = None\<rparr>\<rparr>]))) =
   Inr (chain_dag_root_new ''c'' [(dag_task_with_title ''a'' ''A'')\<lparr>retry := Some \<lparr>max_attempts = 2, backoff_base_ms = 1,
        backoff_multiplier = Fin 4, max_backoff_ms = None\<rparr>\<rparr>])"
  (is "load_chain (read_back ?rf (write_chain_file ?r)) = Inr ?s")
proof -
  have "?s = reread_chain ?rf ?r"
    by (simp add: reread_chain_def reread_policy_def chain_dag_root_new_def dag_task_with_title_def dag_task_new_def
        global_dag_config_default_def)
  moreover have "schema_version ?r = CHAIN_DAG_SCHEMA_VERSION" "finite_policies ?r"
    by (simp_all add: chain_dag_root_new_def finite_policies_def finite_policy_def dag_task_with_title_def dag_task_new_def
        global_dag_config_default_def)
  ultimately show ?thesis using chain_file_roundtrip [of ?r ?rf] by (simp add: reads_finite_def)
qed

text \<open>
  A value taken for the old linear format loads as a linear chain with default settings whose
  tasks have no dependencies.
\<close>

lemma old_linear_task_simps:
  "depends_on (old_linear_task v) = []" "condition (old_linear_task v) = None"
  "status (old_linear_task v) \<in> {Pending, Running, Completed, Failed}"
  "retry (old_linear_task v) = None"
  by (simp_all add: old_linear_task_def dag_task_new_def Let_def)

lemma old_linear_is_linear:
  assumes "is_old_linear_format v" "load_chain (Doc v) = Inr r"
  shows "mode r = Linear \<and> storable r \<and> (\<forall>t \<in> set (tasks r). depends_on t = [])"
proof -
  have "r = convert_old_linear v"
    using assms by (simp add: load_chain_def load_chain_from_path_def)
  then show ?thesis
    by (auto simp: convert_old_linear_def storable_def finite_policies_def global_dag_config_default_def
        old_linear_task_simps split: option.splits)
qed

end
