(* ===== verification/Chain_Output.thy ===== *)
theory Chain_Output
  imports Chain_Json Task_Output
begin

text \<open>
  The aggregate of a finished chain (\<^verbatim>\<open>core/core-state/src/chain_output.rs\<close>): roll-up of the
  tasks' outputs into counts, an overall verification and an overall status. The reader of
  the task outputs is a parameter; sums are taken modulo 2 to the 64, as in a release build.
\<close>

record chain_task_entry =
  ce_task_id :: string
  ce_status :: string
  ce_summary :: string
  ce_verification_status :: string

record chain_quality_gate =
  gate_passed :: bool
  overall_gate :: string
  gate_blockers :: "string list"

record chain_aggregated_evidence =
  total_commands_run :: u64
  ae_changed_files :: u64
  overall_verification :: string

record chain_output =
  co_schema_version :: string
  co_chain_id :: string
  overall_status :: string
  task_count :: u64
  completed_count :: u64
  failed_count :: u64
  co_tasks :: "chain_task_entry list"
  aggregated_evidence :: chain_aggregated_evidence
  quality_gate_result :: "chain_quality_gate option"

definition CHAIN_OUTPUT_SCHEMA_VERSION :: string where
  "CHAIN_OUTPUT_SCHEMA_VERSION = ''chain-output-v1''"

definition chain_output_new :: "string \<Rightarrow> u64 \<Rightarrow> chain_output" where
  "chain_output_new cid n =
     \<lparr>co_schema_version = CHAIN_OUTPUT_SCHEMA_VERSION, co_chain_id = cid, overall_status = [],
      task_count = n, completed_count = 0, failed_count = 0, co_tasks = [],
      aggregated_evidence = \<lparr>total_commands_run = 0, ae_changed_files = 0, overall_verification = []\<rparr>,
      quality_gate_result = None\<rparr>"

text \<open>The loop's variables besides the output.\<close>

record rollup =
  ro_output :: chain_output
  ro_commands :: u64
  ro_changed :: u64
  any_failed :: bool
  any_partial :: bool
  any_pass :: bool

type_synonym output_reader = "string \<Rightarrow> (unit, task_output option) result"

definition output_of_task :: "output_reader \<Rightarrow> string \<Rightarrow> task_output option" where
  "output_of_task read_task_output tid =
     (if tid \<noteq> [] then (case read_task_output tid of Inr (Some out) \<Rightarrow> Some out | _ \<Rightarrow> None) else None)"

definition rollup_task :: "output_reader \<Rightarrow> rollup \<Rightarrow> json \<Rightarrow> rollup" where
  "rollup_task read_task_output s task_val =
     (let tid = (case jget_with as_str task_val ''task_id'' of Some t \<Rightarrow> t | None \<Rightarrow> []);
          st = (case jget_with as_str task_val ''status'' of Some t \<Rightarrow> t | None \<Rightarrow> []);
          (summ, ver, dc, df) =
            (case output_of_task read_task_output tid of
               Some out \<Rightarrow> (summary (outputs out), verification_status (outputs out),
                 total_commands (od_evidence_summary (outputs out)),
                 total_changed_files (od_evidence_summary (outputs out)))
             | None \<Rightarrow> ([], [], 0, 0));
          out1 = ro_output s;
          out2 = (if st = ''completed'' \<or> st = ''done'' then out1\<lparr>completed_count := completed_count out1 + 1\<rparr> else out1);
          out3 = (if st = ''failed'' then out2\<lparr>failed_count := failed_count out2 + 1\<rparr> else out2)
      in \<lparr>ro_output = out3\<lparr>co_tasks := co_tasks out3 @
              [\<lparr>ce_task_id = tid, ce_status = st, ce_summary = summ, ce_verification_status = ver\<rparr>]\<rparr>,
          ro_commands = ro_commands s + dc, ro_changed = ro_changed s + df,
          any_failed = (any_failed s \<or> st = ''failed'' \<or> ver = ''failed''),
          any_partial = (any_partial s \<or> ver = ''partial''),
          any_pass = (any_pass s \<or> ver = ''passed'')\<rparr>)"

definition finish_rollup :: "rollup \<Rightarrow> chain_output" where
  "finish_rollup s =
     (ro_output s)
       \<lparr>aggregated_evidence :=
          \<lparr>total_commands_run = ro_commands s, ae_changed_files = ro_changed s,
           overall_verification =
             (if any_failed s then ''failed'' else if any_partial s then ''partial''
              else if any_pass s then ''passed'' else ''unknown'')\<rparr>,
        overall_status :=
          (if any_failed s then ''fail'' else if any_partial s then ''partial'' else ''pass'')\<rparr>"

datatype aggregate_error = AggChainMissing | AggUnreadable | AggMissingTasks

definition build_chain_aggregate :: "output_reader \<Rightarrow> file_content \<Rightarrow> (aggregate_error, chain_output) result" where
  "build_chain_aggregate read_task_output f =
     (case f of
        Absent \<Rightarrow> Inl (NotFound, AggChainMissing)
      | Garbage \<Rightarrow> Inl (error_kind.Json, AggUnreadable)
      | Doc chain_val \<Rightarrow>
          (case jget_with as_array chain_val ''tasks'' of
             None \<Rightarrow> Inl (Config, AggMissingTasks)
           | Some arr \<Rightarrow>
               (let cid = (case jget_with as_str chain_val ''chain_id'' of Some c \<Rightarrow> c | None \<Rightarrow> ''unknown-chain'')
                in Inr (finish_rollup (foldl (rollup_task read_task_output)
                     \<lparr>ro_output = chain_output_new cid (word_of_nat (length arr)), ro_commands = 0, ro_changed = 0,
                      any_failed = False, any_partial = False, any_pass = False\<rparr> arr)))))"

section \<open>What the roll-up computes\<close>

definition entry_of :: "output_reader \<Rightarrow> json \<Rightarrow> chain_task_entry" where
  "entry_of rd v =
     (let tid = (case jget_with as_str v ''task_id'' of Some t \<Rightarrow> t | None \<Rightarrow> []);
          out = output_of_task rd tid
      in \<lparr>ce_task_id = tid,
          ce_status = (case jget_with as_str v ''status'' of Some t \<Rightarrow> t | None \<Rightarrow> []),
          ce_summary = (case out of Some x \<Rightarrow> summary (outputs x) | None \<Rightarrow> []),
          ce_verification_status = (case out of Some x \<Rightarrow> verification_status (outputs x) | None \<Rightarrow> [])\<rparr>)"

lemma rollup_task_simps:
  "co_tasks (ro_output (rollup_task rd s v)) = co_tasks (ro_output s) @ [entry_of rd v]"
  "any_failed (rollup_task rd s v) \<longleftrightarrow>
     any_failed s \<or> ce_status (entry_of rd v) = ''failed'' \<or> ce_verification_status (entry_of rd v) = ''failed''"
  "any_partial (rollup_task rd s v) \<longleftrightarrow> any_partial s \<or> ce_verification_status (entry_of rd v) = ''partial''"
  "any_pass (rollup_task rd s v) \<longleftrightarrow> any_pass s \<or> ce_verification_status (entry_of rd v) = ''passed''"
  "completed_count (ro_output (rollup_task rd s v)) =
     completed_count (ro_output s) + (if ce_status (entry_of rd v) \<in> {''completed'', ''done''} then 1 else 0)"
  "failed_count (ro_output (rollup_task rd s v)) =
     failed_count (ro_output s) + (if ce_status (entry_of rd v) = ''failed'' then 1 else 0)"
  "task_count (ro_output (rollup_task rd s v)) = task_count (ro_output s)"
  "co_chain_id (ro_output (rollup_task rd s v)) = co_chain_id (ro_output s)"
  by (auto simp: rollup_task_def entry_of_def Let_def split: option.splits)

lemma rollup_foldl:
  "co_tasks (ro_output (foldl (rollup_task rd) s vs)) = co_tasks (ro_output s) @ map (entry_of rd) vs \<and>
   (any_failed (foldl (rollup_task rd) s vs) \<longleftrightarrow> any_failed s \<or> (\<exists>e \<in> entry_of rd ` set vs.
      ce_status e = ''failed'' \<or> ce_verification_status e = ''failed'')) \<and>
   (any_partial (foldl (rollup_task rd) s vs) \<longleftrightarrow> any_partial s \<or> (\<exists>e \<in> entry_of rd ` set vs.
      ce_verification_status e = ''partial'')) \<and>
   (any_pass (foldl (rollup_task rd) s vs) \<longleftrightarrow> any_pass s \<or> (\<exists>e \<in> entry_of rd ` set vs.
      ce_verification_status e = ''passed'')) \<and>
   completed_count (ro_output (foldl (rollup_task rd) s vs)) = completed_count (ro_output s) +
     word_of_nat (length (filter (\<lambda>e. ce_status e \<in> {''completed'', ''done''}) (map (entry_of rd) vs))) \<and>
   failed_count (ro_output (foldl (rollup_task rd) s vs)) = failed_count (ro_output s) +
     word_of_nat (length (filter (\<lambda>e. ce_status e = ''failed'') (map (entry_of rd) vs))) \<and>
   task_count (ro_output (foldl (rollup_task rd) s vs)) = task_count (ro_output s)"
proof (induction vs rule: rev_induct)
  case Nil
  then show ?case by simp
next
  case (snoc v vs)
  then show ?case by (simp add: rollup_task_simps) blast
qed

text \<open>
  The aggregate has one entry per task of the chain, in order; its counts are the numbers
  of completed and failed entries; its status is fail exactly when some task failed or
  some verification failed, else partial when some verification is partial, else pass.
\<close>

theorem build_chain_aggregate_correct:
  assumes "build_chain_aggregate rd (Doc v) = Inr out"
    and "jget_with as_array v ''tasks'' = Some arr"
  shows "co_tasks out = map (entry_of rd) arr \<and> task_count out = word_of_nat (length arr) \<and>
    completed_count out = word_of_nat (length (filter (\<lambda>e. ce_status e \<in> {''completed'', ''done''}) (co_tasks out))) \<and>
    failed_count out = word_of_nat (length (filter (\<lambda>e. ce_status e = ''failed'') (co_tasks out))) \<and>
    (overall_status out = ''fail'' \<longleftrightarrow>
       (\<exists>e \<in> set (co_tasks out). ce_status e = ''failed'' \<or> ce_verification_status e = ''failed'')) \<and>
    (overall_status out = ''partial'' \<longleftrightarrow> overall_status out \<noteq> ''fail'' \<and>
       (\<exists>e \<in> set (co_tasks out). ce_verification_status e = ''partial'')) \<and>
    (overall_status out = ''pass'' \<longleftrightarrow> overall_status out \<noteq> ''fail'' \<and> overall_status out \<noteq> ''partial'')"
proof -
  let ?s = "\<lparr>ro_output = chain_output_new
      (case jget_with as_str v ''chain_id'' of Some c \<Rightarrow> c | None \<Rightarrow> ''unknown-chain'') (word_of_nat (length arr)),
      ro_commands = 0, ro_changed = 0, any_failed = False, any_partial = False, any_pass = False\<rparr>"
  have "out = finish_rollup (foldl (rollup_task rd) ?s arr)"
    using assms by (simp add: build_chain_aggregate_def)
  then show ?thesis
    using rollup_foldl [of rd ?s arr] by (auto simp: finish_rollup_def chain_output_new_def)
qed

theorem build_chain_aggregate_correct_witness:
  "case build_chain_aggregate (\<lambda>_. Inr None) (Doc (JObj [(''tasks'', JArr [JObj [(''status'', JStr ''failed'')]])])) of
     Inr out \<Rightarrow> overall_status out = ''fail'' | Inl _ \<Rightarrow> False"
proof -
  let ?v = "JObj [(''tasks'', JArr [JObj [(''status'', JStr ''failed'')]])]"
  obtain out where run: "build_chain_aggregate (\<lambda>_. Inr None) (Doc ?v) = Inr out"
    by (simp add: build_chain_aggregate_def)
  have "jget_with as_array ?v ''tasks'' = Some [JObj [(''status'', JStr ''failed'')]]" by simp
  from build_chain_aggregate_correct [OF run this] show ?thesis
    by (simp add: run entry_of_def Let_def)
qed

text \<open>
  A chain is rolled up as passed without any evidence: when no task failed and no task
  left an output, the status is pass although the overall verification is unknown, whatever
  the statuses of the tasks are (all skipped, or not even started).
\<close>

theorem aggregate_passes_without_evidence:
  assumes "build_chain_aggregate rd (Doc v) = Inr out"
    and "\<And>tid. rd tid = Inr None"
    and "jget_with as_array v ''tasks'' = Some arr"
    and "\<And>t. t \<in> set arr \<Longrightarrow> jget_with as_str t ''status'' \<noteq> Some ''failed''"
  shows "overall_status out = ''pass'' \<and> overall_verification (aggregated_evidence out) = ''unknown''"
proof -
  have "ce_status e \<noteq> ''failed'' \<and> ce_verification_status e = []" if "e \<in> entry_of rd ` set arr" for e
    using that assms(2,4)
    by (auto simp: entry_of_def output_of_task_def Let_def split: option.splits)
  then have "\<forall>e \<in> entry_of rd ` set arr. ce_status e \<noteq> ''failed'' \<and> ce_verification_status e = []" by blast
  then have none: "\<not> (\<exists>e \<in> entry_of rd ` set arr. ce_status e = ''failed'' \<or> ce_verification_status e = ''failed'')"
      "\<not> (\<exists>e \<in> entry_of rd ` set arr. ce_verification_status e = ''partial'')"
      "\<not> (\<exists>e \<in> entry_of rd ` set arr. ce_verification_status e = ''passed'')"
    by (metis list.discI)+
  show ?thesis
    using assms(1,3) none rollup_foldl [of rd _ arr]
    by (auto simp: build_chain_aggregate_def finish_rollup_def Let_def)
qed

theorem aggregate_passes_without_evidence_witness:
  "case build_chain_aggregate (\<lambda>_. Inr None) (Doc (JObj [(''tasks'', JArr [JObj [(''status'', JStr ''skipped'')]])])) of
     Inr out \<Rightarrow> overall_status out = ''pass'' | Inl _ \<Rightarrow> False"
proof -
  let ?v = "JObj [(''tasks'', JArr [JObj [(''status'', JStr ''skipped'')]])]"
  obtain out where run: "build_chain_aggregate (\<lambda>_. Inr None) (Doc ?v) = Inr out"
    by (simp add: build_chain_aggregate_def)
  show ?thesis
    using aggregate_passes_without_evidence [OF run, of "[JObj [(''status'', JStr ''skipped'')]]"] by (simp add: run)
qed

end
