(* ===== verification/Text.thy ===== *)
theory Text
  imports Prelude "HOL-Library.Sublist"
begin

text \<open>
  Trimming of UTF-8 text as Rust's \<^verbatim>\<open>str::trim\<close> does it: the characters with the Unicode
  property White_Space, given by their byte sequences.
\<close>

definition whitespace :: "string list" where
  "whitespace =
     [[CHR 0x09], [CHR 0x0A], [CHR 0x0B], [CHR 0x0C], [CHR 0x0D], [CHR 0x20], [CHR 0xC2, CHR 0x85],
      [CHR 0xC2, CHR 0xA0], [CHR 0xE1, CHR 0x9A, CHR 0x80], [CHR 0xE2, CHR 0x80, CHR 0x80],
      [CHR 0xE2, CHR 0x80, CHR 0x81], [CHR 0xE2, CHR 0x80, CHR 0x82], [CHR 0xE2, CHR 0x80, CHR 0x83],
      [CHR 0xE2, CHR 0x80, CHR 0x84], [CHR 0xE2, CHR 0x80, CHR 0x85], [CHR 0xE2, CHR 0x80, CHR 0x86],
      [CHR 0xE2, CHR 0x80, CHR 0x87], [CHR 0xE2, CHR 0x80, CHR 0x88], [CHR 0xE2, CHR 0x80, CHR 0x89],
      [CHR 0xE2, CHR 0x80, CHR 0x8A], [CHR 0xE2, CHR 0x80, CHR 0xA8], [CHR 0xE2, CHR 0x80, CHR 0xA9],
      [CHR 0xE2, CHR 0x80, CHR 0xAF], [CHR 0xE2, CHR 0x81, CHR 0x9F], [CHR 0xE3, CHR 0x80, CHR 0x80]]"

fun strip_one :: "string list \<Rightarrow> string \<Rightarrow> string option" where
  "strip_one [] s = None"
| "strip_one (p # ps) s = (if p \<noteq> [] \<and> take (length p) s = p then Some (drop (length p) s) else strip_one ps s)"

lemma strip_one_shorter: "strip_one ps s = Some s' \<Longrightarrow> length s' < length s"
proof (induction ps s rule: strip_one.induct)
  case (2 p ps s)
  show ?case
  proof (cases "p \<noteq> [] \<and> take (length p) s = p")
    case True
    then have "s \<noteq> []" by auto
    with True "2.prems" show ?thesis by auto
  next
    case False
    with 2 show ?thesis by (auto split: if_splits)
  qed
qed simp

function strip_all :: "string list \<Rightarrow> string \<Rightarrow> string" where
  "strip_all ps s = (case strip_one ps s of None \<Rightarrow> s | Some s' \<Rightarrow> strip_all ps s')"
  by pat_completeness auto
termination
  by (relation "measure (length \<circ> snd)") (auto dest: strip_one_shorter)

declare strip_all.simps [simp del]

definition trim_start :: "string \<Rightarrow> string" where
  "trim_start = strip_all whitespace"

definition trim_end :: "string \<Rightarrow> string" where
  "trim_end s = rev (strip_all (map rev whitespace) (rev s))"

definition trim :: "string \<Rightarrow> string" where
  "trim s = trim_end (trim_start s)"

lemma strip_one_suffix: "strip_one ps s = Some s' \<Longrightarrow> \<exists>p. s = p @ s'"
  by (induction ps s rule: strip_one.induct) (auto split: if_splits intro: append_take_drop_id [symmetric])

lemma strip_all_suffix: "\<exists>p. s = p @ strip_all ps s"
proof (induction ps s rule: strip_all.induct)
  case (1 ps s)
  show ?case
  proof (cases "strip_one ps s")
    case None
    then show ?thesis by (simp add: strip_all.simps)
  next
    case (Some s')
    then obtain p q where "s = p @ s'" "s' = q @ strip_all ps s'"
      using strip_one_suffix "1.IH" by metis
    then have "s = (p @ q) @ strip_all ps s'" by simp
    then show ?thesis using Some by (subst strip_all.simps) auto
  qed
qed

lemma strip_all_done: "strip_one ps (strip_all ps s) = None"
proof (induction ps s rule: strip_all.induct)
  case (1 ps s)
  then show ?case by (subst strip_all.simps) (auto split: option.splits)
qed

lemma strip_all_id: "strip_one ps s = None \<Longrightarrow> strip_all ps s = s"
  by (subst strip_all.simps) simp

text \<open>The trimmed text is a part of the text.\<close>

lemma trim_sublist: "sublist (trim s) s"
proof -
  obtain p where "s = p @ trim_start s" using strip_all_suffix unfolding trim_start_def by blast
  moreover obtain q where "rev (trim_start s) = q @ strip_all (map rev whitespace) (rev (trim_start s))"
    using strip_all_suffix by blast
  then have "trim_start s = trim s @ rev q"
    by (metis rev_append rev_rev_ident trim_def trim_end_def)
  ultimately show ?thesis unfolding sublist_def by metis
qed

text \<open>A trimmed text is its own trim.\<close>

lemma strip_one_append: "strip_one ps (s @ t) = None \<Longrightarrow> strip_one ps s = None"
  by (induction ps s rule: strip_one.induct) (auto split: if_splits)

lemma trim_prefix: "\<exists>q. trim_start s = trim s @ q"
proof -
  obtain q where "rev (trim_start s) = q @ strip_all (map rev whitespace) (rev (trim_start s))"
    using strip_all_suffix by blast
  then show ?thesis by (metis rev_append rev_rev_ident trim_def trim_end_def)
qed

lemma trim_trim [simp]: "trim (trim s) = trim s"
proof -
  obtain q where q: "trim_start s = trim s @ q" using trim_prefix by blast
  have "strip_one whitespace (trim s @ q) = None"
    unfolding q [symmetric] trim_start_def by (rule strip_all_done)
  then have "trim_start (trim s) = trim s"
    unfolding trim_start_def by (intro strip_all_id) (rule strip_one_append)
  moreover have "trim_end (trim s) = trim s"
    unfolding trim_def trim_end_def by (simp add: strip_all_id strip_all_done)
  ultimately show ?thesis by (simp add: trim_def [of "trim s"])
qed

section \<open>Letters, searching, debug output\<close>

text \<open>\<^verbatim>\<open>unwrap_or\<close>.\<close>

definition or_default :: "'a \<Rightarrow> 'a option \<Rightarrow> 'a" where
  "or_default d x = (case x of Some a \<Rightarrow> a | None \<Rightarrow> d)"

text \<open>The lower-case form of the ASCII letters.\<close>

definition lower_char :: "char \<Rightarrow> char" where
  "lower_char c =
     (case map_of (zip ''ABCDEFGHIJKLMNOPQRSTUVWXYZ'' ''abcdefghijklmnopqrstuvwxyz'') c of
        Some d \<Rightarrow> d | None \<Rightarrow> c)"

text \<open>The text before and after the first occurrence of a pattern.\<close>

fun split_once :: "string \<Rightarrow> string \<Rightarrow> (string \<times> string) option" where
  "split_once p s =
     (if take (length p) s = p then Some ([], drop (length p) s)
      else case s of [] \<Rightarrow> None | c # cs \<Rightarrow> map_option (\<lambda>(a, b). (c # a, b)) (split_once p cs))"

declare split_once.simps [simp del]

definition contains_text :: "string \<Rightarrow> string \<Rightarrow> bool" where
  "contains_text s p \<longleftrightarrow> split_once p s \<noteq> None"

definition starts_with :: "string \<Rightarrow> string \<Rightarrow> bool" where
  "starts_with s p \<longleftrightarrow> take (length p) s = p"

definition ends_with :: "string \<Rightarrow> string \<Rightarrow> bool" where
  "ends_with s p \<longleftrightarrow> take (length p) (rev s) = rev p"

text \<open>A byte inside a character of UTF-8.\<close>

definition is_continuation :: "char \<Rightarrow> bool" where
  "is_continuation c \<longleftrightarrow> 128 \<le> (of_char c :: nat) \<and> (of_char c :: nat) < 192"

definition hex_digit :: "nat \<Rightarrow> char" where
  "hex_digit n = ''0123456789abcdef'' ! (n mod 16)"

text \<open>A character in Rust's debug form of a string; exact for ASCII, other bytes are kept.\<close>

definition debug_char :: "char \<Rightarrow> string" where
  "debug_char c =
     (if c = CHR 0x22 \<or> c = CHR 0x5C then [CHR 0x5C, c]
      else if c = CHR 0x00 then [CHR 0x5C, CHR ''0'']
      else if c = CHR 0x09 then [CHR 0x5C, CHR ''t'']
      else if c = CHR 0x0A then [CHR 0x5C, CHR ''n'']
      else if c = CHR 0x0D then [CHR 0x5C, CHR ''r'']
      else if of_char c < (32::nat) \<or> c = CHR 0x7F then
        (let n = (of_char c :: nat) in
         [CHR 0x5C] @ ''u{'' @ (if n < 16 then [hex_digit n] else [hex_digit (n div 16), hex_digit n]) @ ''}'')
      else [c])"

definition debug_str :: "string \<Rightarrow> string" where
  "debug_str s = [CHR 0x22] @ concat (map debug_char s) @ [CHR 0x22]"

end
