(* ===== verification/Chain_Tools.thy ===== *)
theory Chain_Tools
  imports Chain_Tracking Chain_Output Text
begin

text \<open>
  The chain's tools (\<^verbatim>\<open>host-projection/.../mcp_stdio_harness/chain_tools.rs\<close>) and the automatic
  advance after a completed goal (\<^verbatim>\<open>tools.rs\<close>): each operation of a client, with its argument
  checks, its read of the chain file, its change and its write.

  The state is the chain file and the aggregate file. What an operation reads from its
  surroundings is a record: chrono's parsers, the clock, the iteration orders of two hash
  maps, the reader of task outputs, whether a write succeeds, and the path of the chain file.
\<close>

section \<open>State and environment\<close>

record chain_world =
  chain_file :: file_content
  aggregate_file :: "chain_output option"

record chain_env =
  env_parse :: "string \<Rightarrow> int option"
  env_parse_naive :: "string \<Rightarrow> string \<Rightarrow> int option"
  env_now :: int
  env_now_iso :: string
  env_iso_at :: "string \<Rightarrow> string"
  env_key_order :: "string option list \<Rightarrow> string option list"
  env_group_order :: "(string \<times> group_info) list \<Rightarrow> (string \<times> group_info) list"
  env_powi :: "f64 \<Rightarrow> int \<Rightarrow> f64"
  env_stamp :: "string \<Rightarrow> int \<Rightarrow> string option"
  env_read_output :: output_reader
  env_write_ok :: bool
  env_chain_path :: string

datatype tool_error =
    MissingArgument string
  | EmptyArgument string
  | MissingTasks
  | UnknownMode string
  | MissingTaskId nat
  | InvalidChain chain_error
  | NoChainFile
  | LoadFailed load_error
  | LinearMode
  | TaskNotFound string
  | TaskNotFailed string task_status
  | AlreadyTerminal string task_status
  | WriteFailed

definition tool_err :: "error_kind \<Rightarrow> tool_error \<Rightarrow> (tool_error, 'a) result" where
  "tool_err k e = Inl (k, e)"

definition load_for_tool :: "chain_world \<Rightarrow> (tool_error, chain_dag_root) result" where
  "load_for_tool w =
     (case load_chain_from_path (chain_file w) of Inl (k, e) \<Rightarrow> Inl (k, LoadFailed e) | Inr r \<Rightarrow> Inr r)"

text \<open>Write the chain and answer, or leave the file alone and report the failure.\<close>

definition store_chain ::
  "chain_env \<Rightarrow> chain_world \<Rightarrow> chain_dag_root \<Rightarrow> 'a \<Rightarrow> chain_world \<times> (tool_error, 'a) result" where
  "store_chain env w r answer =
     (if env_write_ok env then (w\<lparr>chain_file := write_chain_file r\<rparr>, Inr answer)
      else (w, Inl (Io, WriteFailed)))"

section \<open>Creating a chain\<close>

definition init_task_entry :: "json \<Rightarrow> string \<Rightarrow> dag_task_entry" where
  "init_task_entry t tid =
     (let e0 = dag_task_new tid;
          e1 = (case jget_with as_str t ''title'' of Some s \<Rightarrow> e0\<lparr>title := Some s\<rparr> | None \<Rightarrow> e0);
          e2 = e1\<lparr>task_round := map_option word_of_nat (jget_with as_u64 t ''round'')\<rparr>;
          e3 = (case jget_with as_array t ''depends_on'' of
                  Some deps \<Rightarrow> e2\<lparr>depends_on := List.map_filter as_str deps\<rparr> | None \<Rightarrow> e2);
          e4 = (case jget t ''condition'' of Some c \<Rightarrow> e3\<lparr>condition := condition_of_json c\<rparr> | None \<Rightarrow> e3);
          e5 = (case jget_with as_str t ''parallel_group'' of Some s \<Rightarrow> e4\<lparr>parallel_group := Some s\<rparr> | None \<Rightarrow> e4);
          e6 = (case jget t ''timeout_group'' of Some g \<Rightarrow> e5\<lparr>timeout_group := timeout_of_json g\<rparr> | None \<Rightarrow> e5);
          e7 = (case jget t ''retry'' of Some p \<Rightarrow> e6\<lparr>retry := retry_of_json p\<rparr> | None \<Rightarrow> e6)
      in (case jget_with as_str t ''status'' of
            Some st \<Rightarrow> e7\<lparr>status := (if st = ''completed'' then Completed else if st = ''failed'' then Failed
                                     else if st = ''running'' then Running else Pending)\<rparr>
          | None \<Rightarrow> e7))"

fun init_tasks :: "nat \<Rightarrow> json list \<Rightarrow> (tool_error, dag_task_entry list) result" where
  "init_tasks i [] = Inr []"
| "init_tasks i (t # ts) =
     (case jget_with as_str t ''task_id'' of
        None \<Rightarrow> tool_err Validation (MissingTaskId i)
      | Some tid \<Rightarrow> bind_result (init_tasks (Suc i) ts) (\<lambda>es. Inr (init_task_entry t tid # es)))"

definition trimmed_argument :: "json \<Rightarrow> string \<Rightarrow> (tool_error, string) result" where
  "trimmed_argument args k =
     (case jget_with as_str args k of
        None \<Rightarrow> tool_err Validation (MissingArgument k)
      | Some s \<Rightarrow> if trim s = [] then tool_err Validation (EmptyArgument k) else Inr (trim s))"

definition mode_of_argument :: "json \<Rightarrow> (tool_error, chain_mode \<times> string) result" where
  "mode_of_argument args =
     (let m = (case jget_with as_str args ''mode'' of Some m \<Rightarrow> m | None \<Rightarrow> ''dag'')
      in if m = ''linear'' then Inr (Linear, m) else if m = ''dag'' then Inr (Dag, m)
         else tool_err Validation (UnknownMode m))"

definition apply_config :: "json \<Rightarrow> chain_dag_root \<Rightarrow> chain_dag_root" where
  "apply_config args r =
     (case jget args ''global_config'' of
        Some gc \<Rightarrow> (case config_of_json gc of Some c \<Rightarrow> r\<lparr>global_config := c\<rparr> | None \<Rightarrow> r)
      | None \<Rightarrow> r)"

text \<open>The chain described by the arguments, validated but not yet written.\<close>

definition chain_of_arguments :: "json \<Rightarrow> (tool_error, chain_dag_root \<times> string) result" where
  "chain_of_arguments args =
     bind_result (trimmed_argument args ''chain_id'') (\<lambda>cid.
     (case jget_with as_array args ''tasks'' of
        None \<Rightarrow> tool_err Validation MissingTasks
      | Some tasks_val \<Rightarrow>
          bind_result (mode_of_argument args) (\<lambda>(m, mode_str).
          bind_result (init_tasks 0 tasks_val) (\<lambda>ts.
            let ch = apply_config args ((chain_dag_root_new cid ts)\<lparr>mode := m\<rparr>)
            in (case validate_dag ch of
                  Inl (k, e) \<Rightarrow> Inl (k, InvalidChain e)
                | Inr _ \<Rightarrow> Inr (ch, mode_str))))))"

definition tool_chain_dag_init :: "chain_env \<Rightarrow> json \<Rightarrow> chain_world \<Rightarrow> chain_world \<times> (tool_error, json) result" where
  "tool_chain_dag_init env args w =
     (case chain_of_arguments args of
        Inl e \<Rightarrow> (w, Inl e)
      | Inr (ch, mode_str) \<Rightarrow>
          store_chain env w ch (JObj
            [(''chain_id'', JStr (chain_id ch)), (''mode'', JStr mode_str), (''ok'', JBool True),
             (''path'', JStr (env_chain_path env)),
             (''task_count'', jnat (length (tasks ch)))]))"

section \<open>Advancing the chain\<close>

definition count_status :: "task_status \<Rightarrow> chain_dag_root \<Rightarrow> nat" where
  "count_status s r = length (filter (\<lambda>t. status t = s) (tasks r))"

definition tick_answer :: "string list \<Rightarrow> timeout_result \<Rightarrow> failure_action_result \<Rightarrow> chain_dag_root \<Rightarrow> json" where
  "tick_answer ready tr fr r = JObj
     [(''dag_aborted'', JBool (dag_aborted fr)), (''dag_paused'', JBool (dag_paused fr)),
      (''expired_groups'', jstrs (groups_expired tr)), (''newly_ready_tasks'', jstrs ready), (''ok'', JBool True),
      (''retry_scheduled'', jstrs (retry_scheduled fr)),
      (''status_counts'', JObj
         [(''blocked'', jnat (count_status Blocked r)), (''completed'', jnat (count_status Completed r)),
          (''failed'', jnat (count_status Failed r)), (''pending'', jnat (count_status Pending r)),
          (''running'', jnat (count_status Running r)), (''skipped'', jnat (count_status Skipped r))]),
      (''tasks_skipped'', jstrs (tasks_skipped fr)), (''timeout_failures'', jstrs (tasks_failed tr))]"

text \<open>Scheduler, timeouts and failures in turn; None is a panic of the date arithmetic.\<close>

definition tick_chain ::
  "chain_env \<Rightarrow> chain_dag_root \<Rightarrow> (chain_dag_root \<times> string list \<times> timeout_result \<times> failure_action_result) option" where
  "tick_chain env r =
     (let outs = load_condition_task_outputs (env_read_output env) r;
          (r1, ready) = advance_dag (env_parse env) (env_now env) (env_iso_at env) (env_key_order env) outs r
      in map_option (\<lambda>(r2, tr, fr). (r2, ready, tr, fr))
           (process_post_tick (parse_iso_seconds (env_parse env) (env_parse_naive env)) (env_now_iso env)
              (env_group_order env) (env_powi env) (env_stamp env) r1))"

definition build_and_write_chain_aggregate :: "chain_env \<Rightarrow> chain_world \<Rightarrow> chain_world" where
  "build_and_write_chain_aggregate env w =
     (case build_chain_aggregate (env_read_output env) (chain_file w) of
        Inr out \<Rightarrow> if env_write_ok env then w\<lparr>aggregate_file := Some out\<rparr> else w
      | Inl _ \<Rightarrow> w)"

text \<open>
  The tick in two phases, as in the source: the chain is read before the chain lock is taken;
  under the lock the change is computed from what was read, and written. A panic leaves the
  files alone.
\<close>

definition tick_load :: "chain_world \<Rightarrow> (tool_error, chain_dag_root) result" where
  "tick_load w =
     (if chain_file w = Absent then tool_err NotFound NoChainFile
      else bind_result (load_for_tool w) (\<lambda>r.
        if mode r \<noteq> Dag then tool_err Validation LinearMode else Inr r))"

definition tick_commit ::
  "chain_env \<Rightarrow> chain_dag_root \<Rightarrow> chain_world \<Rightarrow> (chain_world \<times> (tool_error, json) result) option" where
  "tick_commit env r w =
     (case tick_chain env r of
        None \<Rightarrow> None
      | Some (r', ready, tr, fr) \<Rightarrow>
          (let (w1, res) = store_chain env w r' (tick_answer ready tr fr r')
           in case res of
                Inl e \<Rightarrow> Some (w1, Inl e)
              | Inr ans \<Rightarrow>
                  Some (if is_chain_complete r' then build_and_write_chain_aggregate env w1 else w1, Inr ans)))"

definition tool_chain_dag_tick ::
  "chain_env \<Rightarrow> chain_world \<Rightarrow> (chain_world \<times> (tool_error, json) result) option" where
  "tool_chain_dag_tick env w =
     (case tick_load w of Inl e \<Rightarrow> Some (w, Inl e) | Inr r \<Rightarrow> tick_commit env r w)"

text \<open>The poller's variant: only the scheduler, and a write only when a task was started.\<close>

definition load_advance_write :: "chain_env \<Rightarrow> chain_world \<Rightarrow> chain_world \<times> (tool_error, string list) result" where
  "load_advance_write env w =
     (case load_for_tool w of
        Inl e \<Rightarrow> (w, Inl e)
      | Inr r \<Rightarrow>
          (let outs = load_condition_task_outputs (env_read_output env) r;
               (r', ready) = advance_dag (env_parse env) (env_now env) (env_iso_at env) (env_key_order env) outs r
           in if ready \<noteq> [] then store_chain env w r' ready else (w, Inr ready)))"

text \<open>
  The advance after a completed goal, up to the start of the new goals: the task is recorded
  as completed, whatever its status was, and the scheduler runs, in one locked section.
\<close>

definition mark_chain_completed :: "string \<Rightarrow> string \<Rightarrow> chain_dag_root \<Rightarrow> chain_dag_root" where
  "mark_chain_completed now_iso tid r =
     (if tid = [] then r
      else task_by_id_mut tid
        (\<lambda>t. if status t \<noteq> Completed then t\<lparr>status := Completed, completed_at := Some now_iso\<rparr> else t) r)"

definition auto_advance_chain ::
  "chain_env \<Rightarrow> string \<Rightarrow> chain_world \<Rightarrow> chain_world \<times> (tool_error, string list) result" where
  "auto_advance_chain env tid w =
     (if chain_file w = Absent then (w, Inr [])
      else (case load_for_tool w of
              Inl e \<Rightarrow> (w, Inl e)
            | Inr r \<Rightarrow>
                (let r1 = mark_chain_completed (env_now_iso env) tid r;
                     outs = load_condition_task_outputs (env_read_output env) r1;
                     (r2, ready) = advance_dag (env_parse env) (env_now env) (env_iso_at env) (env_key_order env) outs r1
                 in store_chain env w r2 ready)))"

text \<open>The goals then started, with the start of a goal as a parameter, and the first that succeeds.\<close>

definition auto_advance_chain_after_complete ::
  "chain_env \<Rightarrow> (string \<Rightarrow> string \<Rightarrow> bool) \<Rightarrow> string \<Rightarrow> chain_world \<Rightarrow> chain_world \<times> (tool_error, string option) result" where
  "auto_advance_chain_after_complete env start_goal tid w =
     (case auto_advance_chain env tid w of
        (w', Inl e) \<Rightarrow> (w', Inl e)
      | (w', Inr ready) \<Rightarrow>
          (w', Inr (find (\<lambda>next.
             (case load_for_tool w' of
                Inl _ \<Rightarrow> False
              | Inr ch \<Rightarrow> start_goal next
                  (case Option.bind (task_by_id ch next) title of Some g \<Rightarrow> g | None \<Rightarrow> next))) ready)))"

section \<open>Manual changes\<close>

definition tool_chain_dag_retry :: "chain_env \<Rightarrow> json \<Rightarrow> chain_world \<Rightarrow> chain_world \<times> (tool_error, json) result" where
  "tool_chain_dag_retry env args w =
     (case trimmed_argument args ''task_id'' of
        Inl e \<Rightarrow> (w, Inl e)
      | Inr tid \<Rightarrow>
          (case load_for_tool w of
             Inl e \<Rightarrow> (w, Inl e)
           | Inr r \<Rightarrow>
               (case task_by_id r tid of
                  None \<Rightarrow> (w, tool_err NotFound (TaskNotFound tid))
                | Some t \<Rightarrow>
                    if status t \<noteq> Failed \<and> status t \<noteq> RetryScheduled
                    then (w, tool_err Validation (TaskNotFailed tid (status t)))
                    else store_chain env w
                      (task_by_id_mut tid (\<lambda>t. t\<lparr>status := Pending, task_error := None, backoff_until := None\<rparr>) r)
                      (JObj [(''new_status'', JStr ''pending''), (''ok'', JBool True), (''task_id'', JStr tid)]))))"

definition tool_chain_dag_skip :: "chain_env \<Rightarrow> json \<Rightarrow> chain_world \<Rightarrow> chain_world \<times> (tool_error, json) result" where
  "tool_chain_dag_skip env args w =
     (case trimmed_argument args ''task_id'' of
        Inl e \<Rightarrow> (w, Inl e)
      | Inr tid \<Rightarrow>
          (case load_for_tool w of
             Inl e \<Rightarrow> (w, Inl e)
           | Inr r \<Rightarrow>
               (case task_by_id r tid of
                  None \<Rightarrow> (w, tool_err NotFound (TaskNotFound tid))
                | Some t \<Rightarrow>
                    if is_terminal (status t)
                    then (w, tool_err Validation (AlreadyTerminal tid (status t)))
                    else store_chain env w
                      (task_by_id_mut tid
                         (\<lambda>t. t\<lparr>status := Skipped, task_error := Some ''manually skipped via chain_dag_skip''\<rparr>) r)
                      (JObj [(''new_status'', JStr ''skipped''), (''ok'', JBool True), (''task_id'', JStr tid)]))))"

definition unblock_task :: "dag_task_entry \<Rightarrow> dag_task_entry" where
  "unblock_task t =
     (if status t = Blocked \<and> task_error t = Some ''paused by failure strategy''
      then t\<lparr>status := Pending, task_error := None\<rparr> else t)"

definition resume_chain :: "chain_dag_root \<Rightarrow> chain_dag_root" where
  "resume_chain r = r\<lparr>paused := False, tasks := map unblock_task (tasks r)\<rparr>"

definition tool_chain_dag_resume :: "chain_env \<Rightarrow> chain_world \<Rightarrow> chain_world \<times> (tool_error, json) result" where
  "tool_chain_dag_resume env w =
     (if chain_file w = Absent then (w, tool_err NotFound NoChainFile)
      else (case load_for_tool w of
              Inl e \<Rightarrow> (w, Inl e)
            | Inr r \<Rightarrow>
                if mode r \<noteq> Dag then (w, tool_err Validation LinearMode)
                else if \<not> paused r
                then (w, Inr (JObj [(''chain_id'', JStr (chain_id r)), (''message'', JStr ''chain was not paused''),
                                    (''ok'', JBool True), (''was_paused'', JBool False)]))
                else (let r' = resume_chain r
                      in store_chain env w r'
                           (JObj [(''chain_id'', JStr (chain_id r')), (''ok'', JBool True),
                                  (''tasks_unblocked'', jnat (count_status Pending r')),
                                  (''was_paused'', JBool True)]))))"

section \<open>Status\<close>

text \<open>The counts of one round, as the object the loop builds up.\<close>

definition bump :: "string \<Rightarrow> (string \<times> json) list \<Rightarrow> (string \<times> json) list" where
  "bump k m = jput k (jnat ((case Option.bind (map_of m k) as_u64 of Some n \<Rightarrow> n | None \<Rightarrow> 0) + 1)) m"

definition round_running :: "dag_task_entry list \<Rightarrow> string list" where
  "round_running ts = map task_id (filter (\<lambda>t. status_str (status t) = ''running'') ts)"

definition round_summary :: "u32 \<Rightarrow> dag_task_entry list \<Rightarrow> json" where
  "round_summary k ts = JObj
     [(''round'', jnat (unat k)),
      (''running'', jstrs (round_running ts)),
      (''status_counts'', JObj (foldl (\<lambda>m t. bump (status_str (status t)) m) [] ts)),
      (''steps'', JObj (foldl (\<lambda>m t. jput (task_id t) (JStr (status_str (status t))) m) [] ts))]"

definition max_round :: "chain_dag_root \<Rightarrow> u32" where
  "max_round r = (case List.map_filter task_round (tasks r) of [] \<Rightarrow> 1 | k # ks \<Rightarrow> foldl max k ks)"

definition tasks_of_round :: "u32 \<Rightarrow> chain_dag_root \<Rightarrow> dag_task_entry list" where
  "tasks_of_round k r = filter (\<lambda>t. round_of t = k) (tasks r)"

definition listed_rounds :: "chain_dag_root \<Rightarrow> u32 list" where
  "listed_rounds r =
     filter (\<lambda>k. tasks_of_round k r \<noteq> []) (map word_of_nat [1..<Suc (unat (max_round r))])"

definition flat_round :: "chain_dag_root \<Rightarrow> json" where
  "flat_round r =
     (let n = (\<lambda>s. jnat (case hget (status_counts r) s of Some n \<Rightarrow> n | None \<Rightarrow> 0))
      in JObj [(''round'', jnat 1),
        (''running'', jstrs (map task_id (filter (\<lambda>t. status t = Running) (tasks r)))),
        (''status_counts'', JObj [(''blocked'', n ''blocked''), (''completed'', n ''completed''), (''failed'', n ''failed''),
           (''pending'', n ''pending''), (''running'', n ''running''), (''skipped'', n ''skipped'')])])"

definition active_step_ids :: "chain_dag_root \<Rightarrow> string list" where
  "active_step_ids r = concat (map (\<lambda>k. round_running (tasks_of_round k r)) (listed_rounds r))"

fun strategy_debug :: "failure_strategy \<Rightarrow> string" where
  "strategy_debug PauseDag = ''pausedag''"
| "strategy_debug AbortDag = ''abortdag''"
| "strategy_debug Continue = ''continue''"

definition task_summary :: "dag_task_entry \<Rightarrow> json" where
  "task_summary t = JObj
     [(''attempt'', ser_word (attempt t)), (''depends_on'', jstrs (depends_on t)), (''error'', jopt JStr (task_error t)),
      (''parallel_group'', jopt JStr (parallel_group t)), (''status'', JStr (status_str (status t))),
      (''task_id'', JStr (task_id t)), (''title'', jopt JStr (title t))]"

definition status_answer :: "bool \<Rightarrow> chain_dag_root \<Rightarrow> json" where
  "status_answer detail r =
     (let rounds = map (\<lambda>k. round_summary k (tasks_of_round k r)) (listed_rounds r);
          rounds = (if rounds = [] then [flat_round r] else rounds);
          resp = [(''active_step_ids'', jstrs (active_step_ids r)), (''chain_id'', JStr (chain_id r)),
                  (''is_complete'', JBool (is_chain_complete r)), (''ok'', JBool True), (''paused'', JBool (paused r)),
                  (''rounds'', JArr rounds), (''task_count'', jnat (length (tasks r)))]
      in JObj (if detail
               then jput ''global_config'' (JObj
                      [(''max_concurrent_tasks'', ser_word (max_concurrent_tasks (global_config r))),
                       (''on_any_failure'', JStr (strategy_debug (on_any_failure (global_config r))))])
                    (jput ''tasks'' (JArr (map task_summary (tasks r)))
                    (jput ''mode'' (ser_enum chain_modes (mode r)) resp))
               else resp))"

definition tool_chain_dag_status :: "json \<Rightarrow> chain_world \<Rightarrow> (tool_error, json) result" where
  "tool_chain_dag_status args w =
     (if chain_file w = Absent then tool_err NotFound NoChainFile
      else bind_result (load_for_tool w) (\<lambda>r.
        Inr (status_answer (case jget_with as_bool args ''detail'' of Some b \<Rightarrow> b | None \<Rightarrow> False) r)))"

end
