(* ===== verification/Chain_Machine.thy ===== *)
theory Chain_Machine
  imports Chain_Tools
begin

text \<open>
  The chain file as a state machine: its steps are the tools' operations. Whatever sequence of
  operations runs, the plan of the chain stays, completed tasks stay completed and the number
  of attempts stays within the retry policy; and what a stale read does to this.
\<close>

section \<open>The plan\<close>

text \<open>What is fixed when a chain is created: everything but the run state.\<close>

definition plan_task :: "dag_task_entry \<Rightarrow> dag_task_entry" where
  "plan_task t =
     t\<lparr>status := Pending, attempt := 0, started_at := None, completed_at := None, task_error := None,
       backoff_until := None, caused_skips := []\<rparr>"

definition plan :: "chain_dag_root \<Rightarrow> chain_dag_root" where
  "plan r = r\<lparr>paused := False, tasks := map plan_task (tasks r)\<rparr>"

lemma plan_task_simps [simp]:
  "plan_task (t\<lparr>status := s\<rparr>) = plan_task t" "plan_task (t\<lparr>attempt := a\<rparr>) = plan_task t"
  "plan_task (t\<lparr>started_at := x\<rparr>) = plan_task t" "plan_task (t\<lparr>completed_at := x\<rparr>) = plan_task t"
  "plan_task (t\<lparr>task_error := x\<rparr>) = plan_task t" "plan_task (t\<lparr>backoff_until := x\<rparr>) = plan_task t"
  "plan_task (t\<lparr>caused_skips := l\<rparr>) = plan_task t"
  by (simp_all add: plan_task_def)

lemma plan_map: "(\<And>t. t \<in> set (tasks r) \<Longrightarrow> plan_task (f t) = plan_task t) \<Longrightarrow> plan (r\<lparr>tasks := map f (tasks r)\<rparr>) = plan r"
  by (simp add: plan_def)

lemma plan_paused [simp]: "plan (r\<lparr>paused := b\<rparr>) = plan r"
  by (simp add: plan_def)

lemma plan_mut [simp]: "(\<And>t. plan_task (f t) = plan_task t) \<Longrightarrow> plan (task_by_id_mut tid f r) = plan r"
  by (simp add: plan_def task_by_id_mut_def map_update_first)

lemma plan_tasks: "map plan_task ts = map plan_task (tasks r) \<Longrightarrow> plan (r\<lparr>tasks := ts\<rparr>) = plan r"
  by (simp add: plan_def)

lemma plan_start [simp]: "plan (start_task iso_at tid r) = plan r"
  by (simp add: start_task_def)

lemma plan_starts: "plan (foldl (\<lambda>r' tid. start_task iso_at tid r') r ready) = plan r"
  by (induction ready arbitrary: r) simp_all

lemma plan_expire [simp]: "plan (handle_expired_backoffs p now r) = plan r"
  unfolding handle_expired_backoffs_def
  by (rule plan_map) (simp add: expire_backoff_def split: option.splits)

lemma plan_advance: "plan (fst (advance_dag p now iso_at key_order outs r)) = plan r"
  by (simp add: advance_dag_def Let_def plan_starts)

lemma plan_fail_timed_out: "plan (fst (fail_timed_out g m s tid)) = plan (fst s)"
  by (cases s) (simp add: fail_timed_out_def split: option.splits)

lemma plan_fail_group: "plan (fst (foldl (fail_timed_out g m) s tids)) = plan (fst s)"
  by (induction tids arbitrary: s) (simp_all add: plan_fail_timed_out)

lemma plan_expire_group: "plan (fst (expire_timeout_group s gi)) = plan (fst s)"
proof -
  obtain r res g i where "s = (r, res)" "gi = (g, i)" by (cases s, cases gi) auto
  then show ?thesis
    using plan_fail_group [of g "gi_max_seconds i" "(r, tasks_failed res)" "running_tasks i"]
    by (auto simp: expire_timeout_group_def split: prod.splits)
qed

lemma plan_expire_groups: "plan (fst (foldl expire_timeout_group s gis)) = plan (fst s)"
  by (induction gis arbitrary: s) (simp_all add: plan_expire_group)

lemma plan_timeouts: "plan (fst (process_timeouts ps now ord r)) = plan r"
  by (simp add: process_timeouts_def plan_expire_groups)

lemma plan_retries:
  "schedule_retries powi_f stamp r ts = Some (ts', ids) \<Longrightarrow> map plan_task ts' = map plan_task ts"
proof (induction ts arbitrary: ts' ids)
  case (Cons t ts)
  then obtain t' b ts1 ids1 where step: "schedule_retry powi_f stamp r t = Some (t', b)"
      "schedule_retries powi_f stamp r ts = Some (ts1, ids1)" "ts' = t' # ts1"
    by (auto split: option.splits)
  from step(1) have "plan_task t' = plan_task t"
    by (cases rule: schedule_retry_cases) simp_all
  then show ?case using Cons.IH [OF step(2)] step(3) by simp
qed simp

lemma plan_mark: "map plan_task (fst (mark_where P s m ts)) = map plan_task ts"
  by (simp add: mark_where_def)

lemma plan_skips: "map plan_task (record_skips ids ts) = map plan_task ts"
  by (simp add: record_skips_def)

lemma plan_abort: "plan (fst (abort_dag r a)) = plan r"
  by (simp add: abort_dag_def Let_def split: prod.splits)
    (auto intro!: plan_tasks simp: plan_skips dest!: arg_cong [where f = fst] simp: plan_mark [unfolded mark_where_simps] mark_where_def)

lemma plan_pause: "plan (fst (pause_dag r a)) = plan r"
proof -
  have "plan (r\<lparr>tasks := map (paused_task ids) (tasks r)\<rparr>) = plan r" for ids
    by (rule plan_map) (simp add: paused_task_def)
  then show ?thesis by (simp add: pause_dag_eq Let_def plan_def)
qed

lemma plan_failures:
  assumes "process_failures powi_f stamp r = Some (r', a)"
  shows "plan r' = plan r"
proof (cases "mode r = Dag")
  case True
  then obtain ts ids where run: "schedule_retries powi_f stamp r (tasks r) = Some (ts, ids)"
    using assms by (auto simp: process_failures_def split: option.splits)
  let ?r1 = "r\<lparr>tasks := ts\<rparr>" and ?a = "no_action\<lparr>retry_scheduled := ids\<rparr>"
  have "r' \<in> {?r1, fst (abort_dag ?r1 ?a), fst (pause_dag ?r1 ?a)}"
    using assms True run
    by (cases "list_ex (\<lambda>t. status t = Failed) ts"; cases "on_any_failure (global_config r)")
      (auto simp: process_failures_def)
  moreover have "plan ?r1 = plan r" by (rule plan_tasks) (rule plan_retries [OF run])
  ultimately show ?thesis using plan_abort [of ?r1 ?a] plan_pause [of ?r1 ?a] by auto
qed (use assms in \<open>simp add: process_failures_def\<close>)

lemma plan_tick:
  assumes "tick_chain env r = Some (r', x)"
  shows "plan r' = plan r"
proof -
  obtain r1 ready where adv: "advance_dag (env_parse env) (env_now env) (env_iso_at env) (env_key_order env)
      (load_condition_task_outputs (env_read_output env) r) r = (r1, ready)" by force
  obtain r2 tr where tmo: "process_timeouts (parse_iso_seconds (env_parse env) (env_parse_naive env)) (env_now_iso env)
      (env_group_order env) r1 = (r2, tr)" by force
  have "plan r1 = plan r" using plan_advance adv by (metis fst_conv)
  moreover have "plan r2 = plan r1" using plan_timeouts tmo by (metis fst_conv)
  moreover have "\<exists>fr. process_failures (env_powi env) (env_stamp env) r2 = Some (r', fr)"
    using assms adv tmo by (auto simp: tick_chain_def process_post_tick_def Let_def)
  ultimately show ?thesis using plan_failures by metis
qed

lemma plan_complete [simp]: "plan (mark_chain_completed now tid r) = plan r"
  by (simp add: mark_chain_completed_def)

lemma plan_resume [simp]: "plan (resume_chain r) = plan r"
proof -
  have "plan (r\<lparr>tasks := map unblock_task (tasks r)\<rparr>) = plan r"
    by (rule plan_map) (simp add: unblock_task_def)
  then show ?thesis by (simp add: resume_chain_def plan_def)
qed

text \<open>What depends on the plan only.\<close>

lemma plan_task_fields:
  assumes "plan_task t = plan_task u"
  shows "task_id t = task_id u" "depends_on t = depends_on u" "condition t = condition u" "retry t = retry u"
    "task_round t = task_round u" "parallel_group t = parallel_group u" "timeout_group t = timeout_group u"
  using assms by (cases t; cases u; simp add: plan_task_def)+

lemma plan_fields:
  assumes "plan r = plan r'"
  shows "mode r = mode r'" "global_config r = global_config r'" "schema_version r = schema_version r'"
    "chain_id r = chain_id r'" "map plan_task (tasks r) = map plan_task (tasks r')"
  using assms by (cases r; cases r'; simp add: plan_def)+

lemma plan_map_eq:
  assumes "map plan_task ts = map plan_task us" "\<And>t u. plan_task t = plan_task u \<Longrightarrow> f t = f u"
  shows "map f ts = map f us"
proof (rule nth_equalityI)
  show len: "length (map f ts) = length (map f us)" using assms(1) by (metis length_map)
  show "map f ts ! i = map f us ! i" if "i < length (map f ts)" for i
    using that len assms(1) assms(2) [of "ts ! i" "us ! i"] by (metis length_map nth_map)
qed

lemma plan_ids: "plan r = plan r' \<Longrightarrow> task_ids r = task_ids r'"
  unfolding task_ids_def by (rule plan_map_eq [OF plan_fields(5)]) (auto dest: plan_task_fields)

lemma plan_storable:
  assumes "plan r = plan r'"
  shows "storable r \<longleftrightarrow> storable r'"
proof -
  have "map retry (tasks r) = map retry (tasks r')"
    by (rule plan_map_eq [OF plan_fields(5) [OF assms]]) (rule plan_task_fields)
  then have eq: "set (map retry (tasks r)) = set (map retry (tasks r'))" by simp
  have F: "finite_policies r \<longleftrightarrow> (\<forall>x \<in> set (map retry (tasks r)). \<forall>p. x = Some p \<longrightarrow> finite_policy p) \<and>
      (\<forall>p. default_retry (global_config r) = Some p \<longrightarrow> finite_policy p)" for r
    by (simp add: finite_policies_def)
  show ?thesis unfolding storable_def F eq by (simp add: plan_fields [OF assms])
qed

lemma plan_valid:
  assumes "plan r = plan r'"
  shows "validate_dag r = Inr () \<longleftrightarrow> validate_dag r' = Inr ()"
proof -
  let ?g = "\<lambda>t. (task_id t, depends_on t, condition t)"
  have "map ?g (tasks r) = map ?g (tasks r')"
    by (rule plan_map_eq [OF plan_fields(5) [OF assms]]) (metis plan_task_fields(1-3))
  then have g: "set (map ?g (tasks r)) = set (map ?g (tasks r'))" by (simp only:)
  have D: "dep_edges ts = (\<Union>(i, ds, c) \<in> set (map ?g ts). (\<lambda>d. (i, d)) ` set ds)" for ts
    unfolding dep_edges_UN by simp
  have R: "refs_resolve ts \<longleftrightarrow> (\<forall>(i, ds, c) \<in> set (map ?g ts). set ds \<subseteq> set (map task_id ts) \<and>
      (\<forall>x. c = Some x \<longrightarrow> source x \<in> set (map task_id ts)))" for ts
    by (auto simp: refs_resolve_def)
  have "map task_id (tasks r) = map task_id (tasks r')"
    using plan_ids [OF assms] by (simp add: task_ids_def)
  then show ?thesis unfolding validate_dag_correct D R g by (simp only: task_ids_def)
qed

end
