(* ===== verification/Chain_Lifecycle.thy ===== *)
theory Chain_Lifecycle
  imports Chain_Machine
begin

text \<open>
  The life cycle of a task as an abstract machine, and the proof that every operation on the
  chain file moves each task along it. The invariants of the chain follow from those of the
  life cycle: completed tasks stay completed, and attempts stay within the retry policy.
\<close>

section \<open>The life cycle of a task\<close>

text \<open>
  The flag \<^term>\<open>m\<close> admits manual retries, the flag \<^term>\<open>c\<close> reports of completed goals;
  \<^term>\<open>d\<close> is the chain's default retry policy.
\<close>

inductive task_step :: "bool \<Rightarrow> bool \<Rightarrow> retry_policy option \<Rightarrow> dag_task_entry \<Rightarrow> dag_task_entry \<Rightarrow> bool" for m c d where
  start: "status t \<in> {Pending, RetryScheduled} \<Longrightarrow>
     task_step m c d t (t\<lparr>status := Running, attempt := sat_inc (attempt t), started_at := s\<rparr>)"
| expire: "status t = RetryScheduled \<Longrightarrow> task_step m c d t (t\<lparr>status := Pending, backoff_until := None\<rparr>)"
| time_out: "status t = Running \<Longrightarrow> task_step m c d t (t\<lparr>status := Failed, task_error := e\<rparr>)"
| schedule: "status t = Failed \<Longrightarrow> (case retry t of Some p \<Rightarrow> Some p | None \<Rightarrow> d) = Some p \<Longrightarrow> attempt t < max_attempts p \<Longrightarrow>
     task_step m c d t (t\<lparr>backoff_until := b, status := RetryScheduled\<rparr>)"
| abort: "\<not> is_terminal (status t) \<Longrightarrow> task_step m c d t (t\<lparr>status := Skipped, task_error := e\<rparr>)"
| block: "status t \<in> {Pending, RetryScheduled} \<Longrightarrow> task_step m c d t (t\<lparr>status := Blocked, task_error := e\<rparr>)"
| unblock: "status t = Blocked \<Longrightarrow> task_step m c d t (t\<lparr>status := Pending, task_error := e\<rparr>)"
| note_skips: "status t = Failed \<Longrightarrow> task_step m c d t (t\<lparr>caused_skips := l\<rparr>)"
| complete: "c \<Longrightarrow> status t \<noteq> Completed \<Longrightarrow> task_step m c d t (t\<lparr>status := Completed, completed_at := x\<rparr>)"
| manual_retry: "m \<Longrightarrow> status t \<in> {Failed, RetryScheduled} \<Longrightarrow>
     task_step m c d t (t\<lparr>status := Pending, task_error := None, backoff_until := None\<rparr>)"

inductive_cases task_stepE: "task_step m c d t t'"

definition moves :: "bool \<Rightarrow> bool \<Rightarrow> retry_policy option \<Rightarrow> dag_task_entry list \<Rightarrow> dag_task_entry list \<Rightarrow> bool" where
  "moves m c d ts ts' \<longleftrightarrow> list_all2 ((task_step m c d)\<^sup>*\<^sup>*) ts ts'"

lemma moves_refl [simp, intro]: "moves m c d ts ts"
  by (simp add: moves_def list.rel_refl)

lemma moves_trans [trans]: "moves m c d ts us \<Longrightarrow> moves m c d us vs \<Longrightarrow> moves m c d ts vs"
  unfolding moves_def by (erule (1) list_all2_trans [rotated]) simp

lemma moves_map:
  assumes "\<And>t. t \<in> set ts \<Longrightarrow> f t = t \<or> task_step m c d t (f t)"
  shows "moves m c d ts (map f ts)"
  unfolding moves_def list_all2_map2
  using assms by (intro list.rel_refl_strong) (metis r_into_rtranclp rtranclp.rtrancl_refl)

lemma moves_update_first:
  assumes "find P ts = Some t" "task_step m c d t (f t)"
  shows "moves m c d ts (update_first P f ts)"
  using assms by (induction ts) (auto simp: moves_def list.rel_refl)

lemma moves_mut:
  assumes "task_by_id r tid = Some t" "task_step m c d t (f t)"
  shows "moves m c d (tasks r) (tasks (task_by_id_mut tid f r))"
  using assms unfolding task_by_id_def task_by_id_mut_def by (simp add: moves_update_first)

section \<open>Every operation moves the tasks along the life cycle\<close>

lemma moves_expire: "moves m c d (tasks r) (tasks (handle_expired_backoffs p now r))"
  unfolding handle_expired_backoffs_def
  by (simp, rule moves_map) (auto simp: expire_backoff_def intro: task_step.expire split: option.splits)

lemma moves_advance:
  assumes ids: "distinct (task_ids r)"
    and run: "advance_dag p now iso_at key_order outs r = (r', ready)"
  shows "moves m c d (tasks r) (tasks r')"
  using ids run
proof (cases rule: advance_dag_cases)
  case idle
  then show ?thesis by simp
next
  case active
  let ?r1 = "handle_expired_backoffs p now r"
  have ids1: "distinct (task_ids ?r1)" using ids by simp
  have "status t \<in> {Pending, RetryScheduled}" if t: "t \<in> set (tasks ?r1)" "task_id t \<in> set ready" for t
  proof -
    obtain u where u: "u \<in> set (eligible_tasks outs ?r1)" "task_id u = task_id t"
      using select_ready_eligible [OF ids1, of "task_id t"] t(2) active(4) by blast
    then have "u = t" using eligible_idle [OF u(1)] t(1) ids1
      by (auto simp: task_ids_def distinct_map inj_on_def)
    then show ?thesis using eligible_idle [OF u(1)] by simp
  qed
  then have "moves m c d (tasks ?r1) (tasks r')"
    unfolding active(5) start_all_def by (simp, intro moves_map) (auto simp: started_def intro!: task_step.start)
  then show ?thesis using moves_expire moves_trans by blast
qed

lemma moves_fail_timed_out: "moves m c d (tasks (fst s)) (tasks (fst (fail_timed_out g k s tid)))"
proof (cases s)
  case (Pair r failed)
  show ?thesis
  proof (cases "task_by_id r tid")
    case (Some t)
    have "task_step m c d t (t\<lparr>status := Failed, task_error := e\<rparr>)" if "status t = Running" for e
      using that by (rule task_step.time_out)
    then show ?thesis
      using moves_mut [OF Some] by (simp add: Pair Some fail_timed_out_def)
  qed (simp add: Pair fail_timed_out_def)
qed

lemma moves_fail_group: "moves m c d (tasks (fst s)) (tasks (fst (foldl (fail_timed_out g k) s tids)))"
proof (induction tids arbitrary: s)
  case (Cons x xs)
  show ?case
    using moves_trans [OF moves_fail_timed_out Cons] by simp
qed simp

lemma moves_expire_group: "moves m c d (tasks (fst s)) (tasks (fst (expire_timeout_group s gi)))"
proof -
  obtain r res g i where "s = (r, res)" "gi = (g, i)" by (cases s, cases gi) auto
  then show ?thesis
    using moves_fail_group [of m c d "(r, tasks_failed res)" g "gi_max_seconds i" "running_tasks i"]
    by (auto simp: expire_timeout_group_def split: prod.splits)
qed

lemma moves_expire_groups: "moves m c d (tasks (fst s)) (tasks (fst (foldl expire_timeout_group s gis)))"
proof (induction gis arbitrary: s)
  case (Cons x xs)
  show ?case
    using moves_trans [OF moves_expire_group Cons] by simp
qed simp

lemma moves_timeouts: "moves m c d (tasks r) (tasks (fst (process_timeouts ps now ord r)))"
  using moves_expire_groups [of m c d "(r, x)" for x] by (simp add: process_timeouts_def)

lemma moves_retries:
  "schedule_retries powi_f stamp r ts = Some (ts', ids) \<Longrightarrow> moves m c (default_retry (global_config r)) ts ts'"
proof (induction ts arbitrary: ts' ids)
  case (Cons t ts)
  then obtain t' b ts1 ids1 where step: "schedule_retry powi_f stamp r t = Some (t', b)"
      "schedule_retries powi_f stamp r ts = Some (ts1, ids1)" "ts' = t' # ts1"
    by (auto split: option.splits)
  from step(1) have "t' = t \<or> task_step m c (default_retry (global_config r)) t t'"
    by (cases rule: schedule_retry_cases) (auto simp: policy_of_def intro: task_step.schedule)
  then show ?case using Cons.IH [OF step(2)] step(3) by (auto simp: moves_def)
qed simp

lemma moves_abort: "moves m c d (tasks r) (tasks (fst (abort_dag r a)))"
proof -
  obtain ids where "tasks (fst (abort_dag r a)) = map (aborted_task ids) (tasks r)"
    using abort_dag_tasks by blast
  then show ?thesis
    by (simp, intro moves_map) (auto simp: aborted_task_def intro: task_step.note_skips task_step.abort)
qed

lemma moves_pause: "moves m c d (tasks r) (tasks (fst (pause_dag r a)))"
  by (simp add: pause_dag_eq Let_def, rule moves_map)
    (auto simp: paused_task_def intro: task_step.note_skips task_step.block)

lemma moves_failures:
  assumes "process_failures powi_f stamp r = Some (r', a)"
  shows "moves m c (default_retry (global_config r)) (tasks r) (tasks r')"
proof (cases "mode r = Dag")
  case True
  then obtain ts ids where run: "schedule_retries powi_f stamp r (tasks r) = Some (ts, ids)"
    using assms by (auto simp: process_failures_def split: option.splits)
  let ?r1 = "r\<lparr>tasks := ts\<rparr>" and ?a = "no_action\<lparr>retry_scheduled := ids\<rparr>"
  have "r' \<in> {?r1, fst (abort_dag ?r1 ?a), fst (pause_dag ?r1 ?a)}"
    using assms True run
    by (cases "list_ex (\<lambda>t. status t = Failed) ts"; cases "on_any_failure (global_config r)")
      (auto simp: process_failures_def)
  then have "moves m c (default_retry (global_config r)) ts (tasks r')"
    using moves_abort [of _ _ _ ?r1 ?a] moves_pause [of _ _ _ ?r1 ?a] by auto
  with moves_retries [OF run] show ?thesis by (rule moves_trans)
qed (use assms in \<open>simp add: process_failures_def\<close>)

lemma moves_tick:
  assumes ids: "distinct (task_ids r)" and run: "tick_chain env r = Some (r', x)"
  shows "moves m c (default_retry (global_config r)) (tasks r) (tasks r')"
proof -
  obtain r1 ready where adv: "advance_dag (env_parse env) (env_now env) (env_iso_at env) (env_key_order env)
      (load_condition_task_outputs (env_read_output env) r) r = (r1, ready)" by force
  obtain r2 tr where tmo: "process_timeouts (parse_iso_seconds (env_parse env) (env_parse_naive env)) (env_now_iso env)
      (env_group_order env) r1 = (r2, tr)" by force
  obtain fr where fail: "process_failures (env_powi env) (env_stamp env) r2 = Some (r', fr)"
    using run adv tmo by (auto simp: tick_chain_def process_post_tick_def Let_def)
  have "plan r1 = plan r" using plan_advance adv by (metis fst_conv)
  moreover have "plan r2 = plan r1" using plan_timeouts tmo by (metis fst_conv)
  ultimately have "global_config r2 = global_config r" by (metis plan_fields(2))
  then have "moves m c (default_retry (global_config r)) (tasks r2) (tasks r')"
    using moves_failures [OF fail] by simp
  moreover have "moves m c d (tasks r) (tasks r1)" for d by (rule moves_advance [OF ids adv])
  moreover have "moves m c d (tasks r1) (tasks r2)" for d using moves_timeouts tmo by (metis fst_conv)
  ultimately show ?thesis using moves_trans by blast
qed

lemma moves_completed: "moves m True d (tasks r) (tasks (mark_chain_completed now tid r))"
proof (cases "task_by_id r tid")
  case None
  then have "update_first (\<lambda>t. task_id t = tid) f (tasks r) = tasks r" for f
    by (intro update_first_none) (auto simp: task_by_id_def find_None_iff)
  then show ?thesis by (simp add: mark_chain_completed_def task_by_id_mut_def)
next
  case (Some t)
  let ?f = "\<lambda>t. if status t \<noteq> Completed then t\<lparr>status := Completed, completed_at := Some now\<rparr> else t"
  show ?thesis
  proof (cases "status t = Completed")
    case True
    have "update_first (\<lambda>t. task_id t = tid) ?f ts = ts" if "find (\<lambda>t. task_id t = tid) ts = Some t" for ts
      using that True by (induction ts) (auto split: if_splits)
    then show ?thesis using Some by (simp add: mark_chain_completed_def task_by_id_mut_def task_by_id_def)
  next
    case False
    then have "task_step m True d t (?f t)" by (simp add: task_step.complete)
    then show ?thesis using moves_mut [OF Some] by (simp add: mark_chain_completed_def)
  qed
qed

lemma moves_resume: "moves m c d (tasks r) (tasks (resume_chain r))"
  unfolding resume_chain_def
  by (simp, rule moves_map) (auto simp: unblock_task_def intro: task_step.unblock)

section \<open>The operations as a machine on the files\<close>

inductive chain_op :: "bool \<Rightarrow> chain_world \<Rightarrow> chain_world \<Rightarrow> bool" for m where
  tick: "tool_chain_dag_tick env w = Some (w', res) \<Longrightarrow> chain_op m w w'"
| poll: "load_advance_write env w = (w', res1) \<Longrightarrow> chain_op m w w'"
| auto_advance: "auto_advance_chain env tid w = (w', res1) \<Longrightarrow> chain_op m w w'"
| retry: "m \<Longrightarrow> tool_chain_dag_retry env args w = (w', res) \<Longrightarrow> chain_op m w w'"
| skip: "tool_chain_dag_skip env args w = (w', res) \<Longrightarrow> chain_op m w w'"
| resume: "tool_chain_dag_resume env w = (w', res) \<Longrightarrow> chain_op m w w'"

text \<open>What an operation may do to the chain it has read.\<close>

definition chain_change :: "bool \<Rightarrow> chain_dag_root \<Rightarrow> chain_dag_root \<Rightarrow> bool" where
  "chain_change m r r' \<longleftrightarrow> plan r' = plan r \<and>
     (distinct (task_ids r) \<longrightarrow> moves m True (default_retry (global_config r)) (tasks r) (tasks r'))"

definition loaded :: "chain_world \<Rightarrow> chain_dag_root option" where
  "loaded w = (case load_chain_from_path (chain_file w) of Inr r \<Rightarrow> Some r | Inl _ \<Rightarrow> None)"

text \<open>The file is as before, or holds a changed version of the chain it held.\<close>

definition file_change :: "bool \<Rightarrow> chain_world \<Rightarrow> chain_world \<Rightarrow> bool" where
  "file_change m w w' \<longleftrightarrow> chain_file w' = chain_file w \<or>
     (\<exists>r r'. loaded w = Some r \<and> chain_change m r r' \<and> chain_file w' = write_chain_file r')"

lemma store_chain_file:
  "store_chain env w r' a = (w', res) \<Longrightarrow> chain_file w' \<in> {chain_file w, write_chain_file r'}"
  by (auto simp: store_chain_def split: if_splits)

lemma file_change_store:
  assumes "store_chain env w r' a = (w', res)" "loaded w = Some r" "chain_change m r r'"
  shows "file_change m w w'"
  using store_chain_file [OF assms(1)] assms(2,3) by (auto simp: file_change_def)

lemma file_change_same [simp]: "file_change m w w"
  by (simp add: file_change_def)

lemma load_for_tool_loaded: "load_for_tool w = Inr r \<longleftrightarrow> loaded w = Some r"
  by (auto simp: load_for_tool_def loaded_def split: sum.splits prod.splits)

lemma change_advance:
  assumes "advance_dag p now iso_at ko outs r = (r', ready)"
  shows "chain_change m r r'"
  using assms plan_advance [of p now iso_at ko outs r] moves_advance by (auto simp: chain_change_def)

lemma change_trans:
  assumes "chain_change m r s" "chain_change m s t"
  shows "chain_change m r t"
proof -
  have p: "plan s = plan r" "plan t = plan s" using assms by (simp_all add: chain_change_def)
  have g: "global_config s = global_config r" "task_ids s = task_ids r"
    using plan_fields(2) [OF p(1)] plan_ids [OF p(1)] by simp_all
  have "moves m True (default_retry (global_config r)) (tasks r) (tasks t)" if "distinct (task_ids r)"
    using moves_trans assms that by (auto simp: chain_change_def g)
  then show ?thesis using p by (simp add: chain_change_def)
qed

lemma change_completed: "chain_change m r (mark_chain_completed now tid r)"
  by (simp add: chain_change_def moves_completed)

lemma change_resume: "chain_change m r (resume_chain r)"
  by (simp add: chain_change_def moves_resume)

lemma change_tick: "tick_chain env r = Some (r', x) \<Longrightarrow> chain_change m r r'"
  by (auto simp: chain_change_def plan_tick moves_tick)

lemma change_mut:
  assumes "task_by_id r tid = Some t" "\<And>d. task_step m True d t (f t)" "\<And>t. plan_task (f t) = plan_task t"
  shows "chain_change m r (task_by_id_mut tid f r)"
  using assms by (simp add: chain_change_def moves_mut)

lemma aggregate_keeps_file [simp]: "chain_file (build_and_write_chain_aggregate env w) = chain_file w"
  by (simp add: build_and_write_chain_aggregate_def split: sum.splits)

lemma tick_file_change:
  assumes "tool_chain_dag_tick env w = Some (w', res)"
  shows "file_change m w w'"
proof (cases "tick_load w")
  case (Inl e)
  then show ?thesis using assms by (simp add: tool_chain_dag_tick_def)
next
  case (Inr r)
  then have load: "loaded w = Some r"
    by (auto simp: tick_load_def tool_err_def bind_result_Inr_iff load_for_tool_loaded split: if_splits)
  obtain r' ready tr fr where run: "tick_chain env r = Some (r', ready, tr, fr)"
    using assms Inr by (auto simp: tool_chain_dag_tick_def tick_commit_def split: option.splits)
  obtain w1 res1 where store: "store_chain env w r' (tick_answer ready tr fr r') = (w1, res1)" by force
  have "chain_file w' = chain_file w1"
    using assms Inr run store by (auto simp: tool_chain_dag_tick_def tick_commit_def split: sum.splits)
  then show ?thesis
    using file_change_store [OF store load change_tick [OF run], of m] by (simp add: file_change_def)
qed

lemma auto_advance_file_change:
  assumes "auto_advance_chain env tid w = (w', res)"
  shows "file_change m w w'"
proof (cases "load_for_tool w")
  case (Inr r)
  let ?r1 = "mark_chain_completed (env_now_iso env) tid r"
  let ?outs = "load_condition_task_outputs (env_read_output env) ?r1"
  obtain r2 ready where adv: "advance_dag (env_parse env) (env_now env) (env_iso_at env) (env_key_order env) ?outs ?r1 = (r2, ready)"
    by force
  have "chain_change m r r2" using change_trans [OF change_completed change_advance [OF adv]] .
  moreover have "chain_file w = Absent \<and> w' = w \<or> store_chain env w r2 ready = (w', res)"
    using assms Inr adv by (auto simp: auto_advance_chain_def Let_def split: if_splits)
  ultimately show ?thesis
    using file_change_store [of env w r2 ready w' res r] Inr by (auto simp: load_for_tool_loaded)
qed (use assms in \<open>auto simp: auto_advance_chain_def split: if_splits\<close>)

lemma poll_file_change:
  assumes "load_advance_write env w = (w', res)"
  shows "file_change m w w'"
proof (cases "load_for_tool w")
  case (Inr r)
  let ?outs = "load_condition_task_outputs (env_read_output env) r"
  obtain r2 ready where adv: "advance_dag (env_parse env) (env_now env) (env_iso_at env) (env_key_order env) ?outs r = (r2, ready)"
    by force
  have "w' = w \<or> store_chain env w r2 ready = (w', res)"
    using assms Inr adv by (auto simp: load_advance_write_def Let_def split: if_splits)
  then show ?thesis
    using file_change_store [of env w r2 ready w' res r] change_advance [OF adv] Inr by (auto simp: load_for_tool_loaded)
qed (use assms in \<open>auto simp: load_advance_write_def\<close>)

lemma manual_file_change:
  "m \<Longrightarrow> tool_chain_dag_retry env args w = (w', res) \<Longrightarrow> file_change m w w'"
  "tool_chain_dag_skip env args w = (w', res) \<Longrightarrow> file_change m w w'"
  "tool_chain_dag_resume env w = (w', res) \<Longrightarrow> file_change m w w'"
proof -
  assume m: m and run: "tool_chain_dag_retry env args w = (w', res)"
  let ?f = "\<lambda>t. t\<lparr>status := Pending, task_error := None, backoff_until := None\<rparr>"
  consider (same) "w' = w" | (stored) tid r t a where "load_for_tool w = Inr r" "task_by_id r tid = Some t"
      "status t \<in> {Failed, RetryScheduled}" "store_chain env w (task_by_id_mut tid ?f r) a = (w', res)"
    using run by (auto simp: tool_chain_dag_retry_def split: sum.splits option.splits if_splits)
  then show "file_change m w w'"
  proof cases
    case stored
    have "chain_change m r (task_by_id_mut tid ?f r)"
      using m stored(2,3) by (intro change_mut) (auto intro: task_step.manual_retry)
    with file_change_store [OF stored(4)] stored(1) show ?thesis by (simp add: load_for_tool_loaded)
  qed simp
next
  assume run: "tool_chain_dag_skip env args w = (w', res)"
  let ?f = "\<lambda>t. t\<lparr>status := Skipped, task_error := Some ''manually skipped via chain_dag_skip''\<rparr>"
  consider (same) "w' = w" | (stored) tid r t a where "load_for_tool w = Inr r" "task_by_id r tid = Some t"
      "\<not> is_terminal (status t)" "store_chain env w (task_by_id_mut tid ?f r) a = (w', res)"
    using run by (auto simp: tool_chain_dag_skip_def split: sum.splits option.splits if_splits)
  then show "file_change m w w'"
  proof cases
    case stored
    have "chain_change m r (task_by_id_mut tid ?f r)"
      using stored(2,3) by (intro change_mut) (auto intro: task_step.abort)
    with file_change_store [OF stored(4)] stored(1) show ?thesis by (simp add: load_for_tool_loaded)
  qed simp
next
  assume run: "tool_chain_dag_resume env w = (w', res)"
  consider (same) "w' = w" | (stored) r a where "load_for_tool w = Inr r" "store_chain env w (resume_chain r) a = (w', res)"
    using run by (auto simp: tool_chain_dag_resume_def Let_def split: sum.splits if_splits)
  then show "file_change m w w'"
  proof cases
    case stored
    then show ?thesis using file_change_store [OF stored(2)] change_resume by (simp add: load_for_tool_loaded)
  qed simp
qed

lemma chain_op_file_change: "chain_op m w w' \<Longrightarrow> file_change m w w'"
  by (erule chain_op.cases)
    (auto intro: tick_file_change poll_file_change auto_advance_file_change manual_file_change)

section \<open>Invariants of the life cycle\<close>

interpretation finished: absorbing_machine "task_step m c d" "\<lambda>t. status t = Completed" for m c d
  by unfold_locales (auto elim!: task_stepE)

definition attempt_limit :: "retry_policy option \<Rightarrow> dag_task_entry \<Rightarrow> u32" where
  "attempt_limit d t =
     (case (case retry t of Some p \<Rightarrow> Some p | None \<Rightarrow> d) of None \<Rightarrow> 1 | Some p \<Rightarrow> max 1 (max_attempts p))"

text \<open>A task that may still be started has an attempt left.\<close>

definition attempt_ok :: "retry_policy option \<Rightarrow> dag_task_entry \<Rightarrow> bool" where
  "attempt_ok d t \<longleftrightarrow> attempt t \<le> attempt_limit d t \<and>
     (status t \<in> {Pending, RetryScheduled, Blocked} \<longrightarrow> attempt t < attempt_limit d t)"

lemma sat_inc_le: "w < v \<Longrightarrow> sat_inc w \<le> v"
  unfolding word_le_nat_alt word_less_nat_alt unat_sat_inc by simp

lemma attempt_ok_step: "attempt_ok d t \<Longrightarrow> task_step False c d t t' \<Longrightarrow> attempt_ok d t'"
  by (erule task_stepE)
    (auto simp: attempt_ok_def attempt_limit_def is_terminal_def less_max_iff_disj intro: sat_inc_le split: option.splits)

interpretation attempts: invariant_machine "task_step False c d" "attempt_ok d" for c d
  by unfold_locales (rule attempt_ok_step)

interpretation unfinished: invariant_machine "task_step m False d" "\<lambda>t. status t \<noteq> Completed" for m d
  by unfold_locales (auto elim!: task_stepE)

lemma moves_in:
  assumes "moves m c d ts ts'" "t' \<in> set ts'"
  obtains t where "t \<in> set ts" "(task_step m c d)\<^sup>*\<^sup>* t t'"
  using assms unfolding moves_def list_all2_conv_all_nth in_set_conv_nth by metis

lemma moves_out:
  assumes "moves m c d ts ts'" "t \<in> set ts"
  obtains t' where "t' \<in> set ts'" "(task_step m c d)\<^sup>*\<^sup>* t t'"
  using assms unfolding moves_def list_all2_conv_all_nth in_set_conv_nth by metis

section \<open>Invariants of the chain file\<close>

text \<open>
  An invariant of chains that every change keeps is an invariant of the machine on files.
\<close>

definition holds :: "(chain_dag_root \<Rightarrow> bool) \<Rightarrow> chain_world \<Rightarrow> bool" where
  "holds I w \<longleftrightarrow> (\<exists>r. loaded w = Some r \<and> storable r \<and> I r)"

locale chain_invariant =
  fixes m :: bool and I :: "chain_dag_root \<Rightarrow> bool"
  assumes change: "I r \<Longrightarrow> chain_change m r r' \<Longrightarrow> I r'"
begin

lemma op_keeps: "holds I w \<Longrightarrow> chain_op m w w' \<Longrightarrow> holds I w'"
proof -
  assume inv: "holds I w" and step: "chain_op m w w'"
  obtain r where r: "loaded w = Some r" "storable r" "I r" using inv by (auto simp: holds_def)
  from chain_op_file_change [OF step] consider (same) "chain_file w' = chain_file w"
    | (stored) r' where "chain_change m r r'" "chain_file w' = write_chain_file r'"
    using r(1) by (auto simp: file_change_def)
  then show "holds I w'"
  proof cases
    case same
    then show ?thesis using r by (auto simp: holds_def loaded_def)
  next
    case stored
    have "plan r' = plan r" using stored(1) by (simp add: chain_change_def)
    then have "storable r'" using plan_storable r(2) by blast
    moreover have "loaded w' = Some r'"
      using load_written [OF \<open>storable r'\<close>] by (simp add: loaded_def stored(2))
    ultimately show ?thesis using change [OF r(3) stored(1)] by (auto simp: holds_def)
  qed
qed

end

sublocale chain_invariant \<subseteq> files: invariant_machine "chain_op m" "holds I"
  by unfold_locales (rule op_keeps)

lemma change_ids: "chain_change m r r' \<Longrightarrow> task_ids r' = task_ids r"
  unfolding chain_change_def using plan_ids by blast

lemma change_config: "chain_change m r r' \<Longrightarrow> global_config r' = global_config r"
  unfolding chain_change_def using plan_fields(2) by blast

interpretation plan_kept: chain_invariant m "\<lambda>r. distinct (task_ids r) \<and> plan r = p" for m p
  by unfold_locales (auto simp: change_ids, simp add: chain_change_def)

interpretation task_finished: chain_invariant m "\<lambda>r. distinct (task_ids r) \<and> status t = Completed \<and> t \<in> set (tasks r)" for m t
proof unfold_locales
  fix r r'
  assume a: "distinct (task_ids r) \<and> status t = Completed \<and> t \<in> set (tasks r)" and c: "chain_change m r r'"
  then have "moves m True (default_retry (global_config r)) (tasks r) (tasks r')" by (simp add: chain_change_def)
  then obtain t' where "t' \<in> set (tasks r')" "(task_step m True (default_retry (global_config r)))\<^sup>*\<^sup>* t t'"
    using a by (auto elim: moves_out)
  then have "t \<in> set (tasks r')" using finished.run_final a by metis
  then show "distinct (task_ids r') \<and> status t = Completed \<and> t \<in> set (tasks r')"
    using a change_ids [OF c] by simp
qed

definition attempts_ok :: "chain_dag_root \<Rightarrow> bool" where
  "attempts_ok r \<longleftrightarrow> (\<forall>t \<in> set (tasks r). attempt_ok (default_retry (global_config r)) t)"

interpretation attempts_bounded: chain_invariant False "\<lambda>r. distinct (task_ids r) \<and> attempts_ok r"
proof unfold_locales
  fix r r'
  assume a: "distinct (task_ids r) \<and> attempts_ok r" and c: "chain_change False r r'"
  then have mv: "moves False True (default_retry (global_config r)) (tasks r) (tasks r')"
    by (simp add: chain_change_def)
  have "attempt_ok (default_retry (global_config r)) t'" if t': "t' \<in> set (tasks r')" for t'
  proof -
    obtain t where "t \<in> set (tasks r)" "(task_step False True (default_retry (global_config r)))\<^sup>*\<^sup>* t t'"
      using mv t' by (rule moves_in)
    then show ?thesis using attempts.run_inv a by (auto simp: attempts_ok_def)
  qed
  then show "distinct (task_ids r') \<and> attempts_ok r'"
    using a change_ids [OF c] change_config [OF c] by (simp add: attempts_ok_def)
qed

section \<open>Properties of every run\<close>

text \<open>A world for the concrete instances: a written chain, a clock and readers that find nothing.\<close>

definition demo_env :: chain_env where
  "demo_env = \<lparr>env_parse = demo_parse, env_parse_naive = (\<lambda>f s. None), env_now = 3, env_now_iso = ''3'',
     env_iso_at = id, env_key_order = id, env_group_order = id, env_powi = demo_powi, env_stamp = demo_stamp,
     env_read_output = (\<lambda>tid. Inr None), env_write_ok = True, env_chain_path = ''TASK_CHAIN.json''\<rparr>"

definition demo_world :: chain_world where
  "demo_world = \<lparr>chain_file = write_chain_file demo_chain, aggregate_file = None\<rparr>"

lemma demo_storable: "storable demo_chain"
  by (simp add: storable_def demo_chain_def chain_dag_root_new_def finite_policies_def dag_task_new_def
      demo_retry_def global_dag_config_default_def)

lemma demo_loaded: "loaded demo_world = Some demo_chain"
  by (simp add: loaded_def demo_world_def load_written demo_storable)

definition demo_after :: chain_world where
  "demo_after = fst (tool_chain_dag_skip demo_env (JObj [(''task_id'', JStr ''b'')]) demo_world)"

lemma demo_run_op: "(chain_op m)\<^sup>*\<^sup>* demo_world demo_after"
  unfolding demo_after_def by (intro r_into_rtranclp chain_op.skip) (rule prod.collapse [symmetric])

text \<open>
  No sequence of operations on a created chain changes its plan: the ids, dependencies,
  conditions, rounds, groups, timeouts and retry policies of its tasks and its global settings
  stay what they were when the chain was created. In particular a validated chain stays valid.
\<close>

theorem runs_keep_plan:
  assumes "(chain_op m)\<^sup>*\<^sup>* w w'" "loaded w = Some r" "storable r" "distinct (task_ids r)"
  shows "\<exists>r'. loaded w' = Some r' \<and> plan r' = plan r \<and> (validate_dag r' = Inr () \<longleftrightarrow> validate_dag r = Inr ())"
proof -
  have "holds (\<lambda>r'. distinct (task_ids r') \<and> plan r' = plan r) w" using assms(2-4) by (simp add: holds_def)
  then have "holds (\<lambda>r'. distinct (task_ids r') \<and> plan r' = plan r) w'"
    by (rule plan_kept.files.run_inv [OF assms(1)])
  then obtain r' where "loaded w' = Some r'" "plan r' = plan r" by (auto simp: holds_def)
  then show ?thesis using plan_valid [of r' r] by blast
qed

theorem runs_keep_plan_witness:
  "\<exists>r'. loaded demo_after = Some r' \<and> plan r' = plan demo_chain"
  using runs_keep_plan [OF demo_run_op demo_loaded demo_storable demo_ids] by blast

text \<open>
  C8: A completed task stays completed, with its whole record unchanged, whatever operations
  run afterwards: scheduler steps, timeouts, failure strategies, manual retries, skips,
  resumes and further completions.
\<close>

theorem runs_keep_completed:
  assumes "(chain_op m)\<^sup>*\<^sup>* w w'" "loaded w = Some r" "storable r" "distinct (task_ids r)"
    and "t \<in> set (tasks r)" "status t = Completed"
  shows "\<exists>r'. loaded w' = Some r' \<and> t \<in> set (tasks r')"
  using task_finished.files.run_inv [OF assms(1), of t] assms(2-6) by (auto simp: holds_def)

theorem runs_keep_completed_witness:
  "\<exists>r'. loaded demo_after = Some r' \<and> (dag_task_new ''a'')\<lparr>status := Completed\<rparr> \<in> set (tasks r')"
  by (rule runs_keep_completed [OF demo_run_op demo_loaded demo_storable demo_ids])
    (simp_all add: demo_chain_def chain_dag_root_new_def)

text \<open>
  C24: Without manual retries, a task is never started more often than its retry policy (or the
  chain's default policy) allows, and once when there is none: in every chain file reached
  from a fresh chain the attempt count of each task is at most its limit.
\<close>

theorem runs_bound_attempts:
  assumes "(chain_op False)\<^sup>*\<^sup>* w w'" "loaded w = Some r" "storable r" "distinct (task_ids r)"
    and "\<forall>t \<in> set (tasks r). attempt t = 0"
  shows "\<exists>r'. loaded w' = Some r' \<and>
    (\<forall>t \<in> set (tasks r'). attempt t \<le> (case policy_of r' t of None \<Rightarrow> 1 | Some p \<Rightarrow> max 1 (max_attempts p)))"
proof -
  have "attempts_ok r"
    using assms(5) by (auto simp: attempts_ok_def attempt_ok_def attempt_limit_def less_max_iff_disj split: option.splits)
  then have "holds (\<lambda>r. distinct (task_ids r) \<and> attempts_ok r) w"
    using assms(2-4) by (simp add: holds_def)
  then have "holds (\<lambda>r. distinct (task_ids r) \<and> attempts_ok r) w'"
    using attempts_bounded.files.run_inv [OF assms(1)] by blast
  then show ?thesis
    by (auto simp: holds_def attempts_ok_def attempt_ok_def attempt_limit_def policy_of_def)
qed

definition fresh_world :: chain_world where
  "fresh_world = \<lparr>chain_file = write_chain_file (chain_dag_root_new ''c'' [dag_task_new ''a'']), aggregate_file = None\<rparr>"

theorem runs_bound_attempts_witness:
  "\<exists>r'. loaded (fst (auto_advance_chain demo_env ''a'' fresh_world)) = Some r' \<and>
    (\<forall>t \<in> set (tasks r'). attempt t \<le> (case policy_of r' t of None \<Rightarrow> 1 | Some p \<Rightarrow> max 1 (max_attempts p)))"
proof (rule runs_bound_attempts)
  show "(chain_op False)\<^sup>*\<^sup>* fresh_world (fst (auto_advance_chain demo_env ''a'' fresh_world))"
    by (intro r_into_rtranclp chain_op.auto_advance) (rule prod.collapse [symmetric])
  let ?r = "chain_dag_root_new ''c'' [dag_task_new ''a'']"
  show s: "storable ?r"
    by (simp add: storable_def chain_dag_root_new_def finite_policies_def dag_task_new_def global_dag_config_default_def)
  show "loaded fresh_world = Some ?r" by (simp add: loaded_def fresh_world_def load_written s)
qed (simp_all add: chain_dag_root_new_def task_ids_def dag_task_new_def)

end
