(* ===== verification/Chain_Operations.thy ===== *)
theory Chain_Operations
  imports Chain_Lifecycle
begin

text \<open>
  Properties of single operations: what creation accepts and stores, the update a concurrent
  tick loses, the pause that returns after a resume, and what the status listing shows.
\<close>

section \<open>Creation\<close>

lemma init_tasks_entries:
  "init_tasks i vs = Inr ts \<Longrightarrow> length ts = length vs \<and>
   (\<forall>k < length vs. \<exists>tid. jget_with as_str (vs ! k) ''task_id'' = Some tid \<and> ts ! k = init_task_entry (vs ! k) tid)"
proof (induction i vs arbitrary: ts rule: init_tasks.induct)
  case (2 i v vs)
  obtain tid es where v: "jget_with as_str v ''task_id'' = Some tid" "init_tasks (Suc i) vs = Inr es"
      "ts = init_task_entry v tid # es"
    using 2(2) by (auto simp: tool_err_def bind_result_Inr_iff split: option.splits)
  show ?case using "2.IH" [OF v(1,2)] v(1,3) by (auto simp: nth_Cons split: nat.splits)
qed simp

lemma init_task_entry_fields:
  "task_id (init_task_entry v tid) = tid"
  "condition (init_task_entry v tid) = Option.bind (jget v ''condition'') condition_of_json"
  "retry (init_task_entry v tid) = Option.bind (jget v ''retry'') retry_of_json"
  "attempt (init_task_entry v tid) = 0"
  by (auto simp: init_task_entry_def dag_task_new_def Let_def split: option.splits)

lemma chain_of_arguments_Inr:
  assumes "chain_of_arguments args = Inr (r, ms)"
  shows "\<exists>cid vs m ts. trimmed_argument args ''chain_id'' = Inr cid \<and> jget_with as_array args ''tasks'' = Some vs \<and>
    mode_of_argument args = Inr (m, ms) \<and> init_tasks 0 vs = Inr ts \<and> validate_dag r = Inr () \<and>
    r = apply_config args ((chain_dag_root_new cid ts)\<lparr>mode := m\<rparr>)"
proof -
  obtain cid vs m ms' ts where a: "trimmed_argument args ''chain_id'' = Inr cid"
      "jget_with as_array args ''tasks'' = Some vs" "mode_of_argument args = Inr (m, ms')" "init_tasks 0 vs = Inr ts"
      "(case validate_dag (apply_config args ((chain_dag_root_new cid ts)\<lparr>mode := m\<rparr>)) of
          Inl (k, e) \<Rightarrow> Inl (k, InvalidChain e)
        | Inr _ \<Rightarrow> Inr (apply_config args ((chain_dag_root_new cid ts)\<lparr>mode := m\<rparr>), ms')) = Inr (r, ms)"
    using assms
    by (auto simp: chain_of_arguments_def bind_result_Inr_iff tool_err_def Let_def split: option.splits)
  then show ?thesis
    by (cases "validate_dag (apply_config args ((chain_dag_root_new cid ts)\<lparr>mode := m\<rparr>))") auto
qed

text \<open>
  Creation stores only validated chains, under the trimmed non-empty id given, with one
  task per descriptor in order; on any error the files are left alone.
\<close>

theorem init_stores_valid_chain:
  assumes "tool_chain_dag_init env args w = (w', res)"
  shows "case res of
      Inl e \<Rightarrow> w' = w
    | Inr ans \<Rightarrow> \<exists>r vs. w' = w\<lparr>chain_file := write_chain_file r\<rparr> \<and> validate_dag r = Inr () \<and> \<not> paused r \<and>
        chain_id r \<noteq> [] \<and> map_option trim (jget_with as_str args ''chain_id'') = Some (chain_id r) \<and>
        jget_with as_array args ''tasks'' = Some vs \<and>
        map (\<lambda>t. Some (task_id t)) (tasks r) = map (\<lambda>v. jget_with as_str v ''task_id'') vs \<and>
        (\<forall>t \<in> set (tasks r). attempt t = 0)"
proof (cases "chain_of_arguments args")
  case (Inl e)
  then show ?thesis using assms by (auto simp: tool_chain_dag_init_def)
next
  case (Inr x)
  obtain r ms where x: "x = (r, ms)" by force
  show ?thesis
  proof (cases "env_write_ok env")
    case False
    then show ?thesis using assms Inr x by (auto simp: tool_chain_dag_init_def store_chain_def)
  next
    case True
    then have run: "w' = w\<lparr>chain_file := write_chain_file r\<rparr>" "\<exists>ans. res = Inr ans"
      using assms Inr x by (auto simp: tool_chain_dag_init_def store_chain_def)
    obtain cid vs m ts where a: "trimmed_argument args ''chain_id'' = Inr cid"
        "jget_with as_array args ''tasks'' = Some vs" "mode_of_argument args = Inr (m, ms)"
        "init_tasks 0 vs = Inr ts"
      and r: "validate_dag r = Inr ()" "r = apply_config args ((chain_dag_root_new cid ts)\<lparr>mode := m\<rparr>)"
      using chain_of_arguments_Inr [of args r ms] Inr x by auto
    have t: "tasks r = ts" "chain_id r = cid" "\<not> paused r"
      unfolding r(2) by (auto simp: chain_dag_root_new_def apply_config_def split: option.splits)
    have "map (\<lambda>t. Some (task_id t)) ts = map (\<lambda>v. jget_with as_str v ''task_id'') vs"
      using init_tasks_entries [OF a(4)] by (intro nth_equalityI) (auto simp: init_task_entry_fields)
    moreover have "attempt t = 0" if "t \<in> set ts" for t
      using that init_tasks_entries [OF a(4)] by (auto simp: in_set_conv_nth init_task_entry_fields)
    moreover have "cid \<noteq> [] \<and> map_option trim (jget_with as_str args ''chain_id'') = Some cid"
      using a(1) by (auto simp: trimmed_argument_def tool_err_def split: option.splits if_splits)
    ultimately show ?thesis using run r(1) a(2) t by (auto intro!: exI [of _ r])
  qed
qed

theorem init_stores_valid_chain_witness:
  "\<exists>r. chain_file (fst (tool_chain_dag_init demo_env
       (JObj [(''chain_id'', JStr '' c ''), (''tasks'', JArr [JObj [(''task_id'', JStr ''a'')]])]) demo_world)) =
     write_chain_file r \<and> chain_id r = ''c''"
proof -
  let ?args = "JObj [(''chain_id'', JStr '' c ''), (''tasks'', JArr [JObj [(''task_id'', JStr ''a'')]])]"
  obtain w' res where run: "tool_chain_dag_init demo_env ?args demo_world = (w', res)" by force
  have "case snd (tool_chain_dag_init demo_env ?args demo_world) of Inl _ \<Rightarrow> False | Inr _ \<Rightarrow> True"
    by code_simp
  then obtain ans where "res = Inr ans" using run by (auto split: sum.splits)
  moreover have "trim '' c '' = ''c''" by code_simp
  ultimately show ?thesis using init_stores_valid_chain [OF run] run by auto
qed

text \<open>
  A malformed condition is dropped: a task descriptor whose condition cannot be read (an
  unknown operator, a missing value, an extra member) is accepted, and the task is stored
  without a condition, so it will run unconditionally. The same holds for a retry policy.
\<close>

theorem init_drops_malformed_condition:
  assumes "jget v ''condition'' = Some c" "condition_of_json c = None"
    and "jget v ''task_id'' = Some (JStr tid)"
  shows "\<exists>t. init_tasks i [v] = Inr [t] \<and> task_id t = tid \<and> condition t = None \<and>
    condition_met t sm outs"
  using assms
  by (auto simp: jget_with_def init_task_entry_fields condition_met_def intro!: exI [of _ "init_task_entry v tid"])

theorem init_drops_malformed_condition_witness:
  "\<exists>t. init_tasks 0 [JObj [(''condition'', JObj [(''operator'', JStr ''equals''), (''source'', JStr ''b''),
       (''value'', JStr ''passed'')]), (''task_id'', JStr ''a'')]] = Inr [t] \<and> condition t = None"
proof -
  let ?c = "JObj [(''operator'', JStr ''equals''), (''source'', JStr ''b''), (''value'', JStr ''passed'')]"
  let ?v = "JObj [(''condition'', ?c), (''task_id'', JStr ''a'')]"
  have "condition_of_json ?c = None" by code_simp
  then show ?thesis using init_drops_malformed_condition [of ?v ?c "''a''" 0] by auto
qed

section \<open>Lost updates\<close>

text \<open>
  A tick reads the chain before it takes the chain lock. A goal that completes between
  the read and the lock is recorded as completed in the file, and the tick then writes its
  stale version over it: the task is no longer completed, and nothing will complete it again.
\<close>

theorem tick_loses_completion:
  assumes "tick_load w = Inr r" "storable r" "distinct (task_ids r)"
    and "auto_advance_chain env1 tid w = (w1, Inr ready)"
    and "tick_commit env2 r w1 = Some (w2, Inr ans)"
    and "t \<in> set (tasks r)" "task_id t = tid" "tid \<noteq> []" "status t \<noteq> Completed"
  shows "(\<exists>r1 u. loaded w1 = Some r1 \<and> task_by_id r1 tid = Some u \<and> status u = Completed) \<and>
    (\<exists>r2 u. loaded w2 = Some r2 \<and> task_by_id r2 tid = Some u \<and> status u \<noteq> Completed)"
proof -
  have found: "chain_file w \<noteq> Absent" "load_for_tool w = Inr r"
    using assms(1) by (auto simp: tick_load_def tool_err_def bind_result_Inr_iff split: if_splits)
  let ?m = "mark_chain_completed (env_now_iso env1) tid r"
  let ?outs = "load_condition_task_outputs (env_read_output env1) ?m"
  obtain r1 where adv: "advance_dag (env_parse env1) (env_now env1) (env_iso_at env1) (env_key_order env1) ?outs ?m = (r1, ready)"
      and w1: "w1 = w\<lparr>chain_file := write_chain_file r1\<rparr>"
    using assms(4) found by (auto simp: auto_advance_chain_def store_chain_def Let_def split: if_splits prod.splits)
  have p1: "plan r1 = plan r" using plan_advance adv by (metis fst_conv plan_complete)
  have ids1: "distinct (task_ids ?m)" using plan_ids [OF plan_complete] assms(3) by metis
  let ?f = "\<lambda>t. if status t \<noteq> Completed then t\<lparr>status := Completed, completed_at := Some (env_now_iso env1)\<rparr> else t"
  have "?m = r\<lparr>tasks := map (\<lambda>t. if task_id t = tid then ?f t else t) (tasks r)\<rparr>"
    using assms(3,8) update_first_map [of task_id "tasks r" tid ?f]
    by (simp add: mark_chain_completed_def task_by_id_mut_def task_ids_def)
  then have "?f t \<in> set (tasks ?m)" using assms(6,7) by force
  moreover have "status (?f t) = Completed" by simp
  moreover have "moves False True None (tasks ?m) (tasks r1)" by (rule moves_advance [OF ids1 adv])
  ultimately obtain u where u: "u \<in> set (tasks r1)" "(task_step False True None)\<^sup>*\<^sup>* (?f t) u"
    by (elim moves_out)
  then have "u = ?f t" using finished.run_final [OF u(2)] by simp
  then have "task_id u = tid" "status u = Completed" using assms(7) by simp_all
  moreover have "distinct (task_ids r1)" using plan_ids [OF p1] assms(3) by simp
  moreover have "storable r1" using plan_storable [OF p1] assms(2) by blast
  then have "loaded w1 = Some r1" by (simp add: loaded_def w1 load_written)
  ultimately have one: "\<exists>r1 u. loaded w1 = Some r1 \<and> task_by_id r1 tid = Some u \<and> status u = Completed"
    using task_by_id_in u(1) by blast
  obtain r2 x where tick: "tick_chain env2 r = Some (r2, x)" and w2: "chain_file w2 = write_chain_file r2"
    using assms(5) by (auto simp: tick_commit_def store_chain_def split: option.splits if_splits)
  have p2: "plan r2 = plan r" by (rule plan_tick [OF tick])
  have ids2: "distinct (task_ids r2)" using plan_ids [OF p2] assms(3) by simp
  have "storable r2" using plan_storable [OF p2] assms(2) by blast
  then have l2: "loaded w2 = Some r2" by (simp add: loaded_def w2 load_written)
  obtain v where v: "v \<in> set (tasks r2)" "(task_step False False (default_retry (global_config r)))\<^sup>*\<^sup>* t v"
    using moves_tick [OF assms(3) tick] assms(6) by (rule moves_out)
  have "status v \<noteq> Completed" using unfinished.run_inv [OF v(2)] assms(9) by simp
  moreover have "plan_task v = plan_task t"
    using v(2) by (induction rule: rtranclp_induct) (auto elim!: task_stepE)
  then have "task_id v = tid" using plan_task_fields(1) assms(7) by blast
  ultimately show ?thesis using one l2 task_by_id_in [OF ids2 v(1)] by auto
qed

definition running_chain :: chain_dag_root where
  "running_chain = chain_dag_root_new ''c'' [(dag_task_new ''a'')\<lparr>status := Running\<rparr>]"

definition running_world :: chain_world where
  "running_world = \<lparr>chain_file = write_chain_file running_chain, aggregate_file = None\<rparr>"

theorem tick_loses_completion_witness:
  "\<exists>w1 w2 r2 u ans. auto_advance_chain demo_env ''a'' running_world = (w1, Inr []) \<and>
     tick_commit demo_env running_chain w1 = Some (w2, ans) \<and> loaded w2 = Some r2 \<and>
     task_by_id r2 ''a'' = Some u \<and> status u \<noteq> Completed"
proof -
  have s: "storable running_chain"
    by (simp add: storable_def running_chain_def chain_dag_root_new_def finite_policies_def dag_task_new_def
        global_dag_config_default_def)
  have lt: "load_for_tool running_world = Inr running_chain"
    by (simp add: load_for_tool_def running_world_def load_written [OF s])
  have found: "chain_file running_world \<noteq> Absent" by (simp add: running_world_def write_chain_file_def)
  have load: "tick_load running_world = Inr running_chain"
    using lt found by (simp add: tick_load_def running_chain_def chain_dag_root_new_def)
  let ?m = "mark_chain_completed ''3'' ''a'' running_chain"
  have "load_condition_task_outputs (\<lambda>tid. Inr None :: (unit, task_output option) result) ?m = []"
    "snd (advance_dag demo_parse 3 id id [] ?m) = []"
    by code_simp+
  then obtain w1 where w1: "auto_advance_chain demo_env ''a'' running_world = (w1, Inr [])"
    using lt found
    by (cases "advance_dag demo_parse 3 id id [] ?m")
      (auto simp: auto_advance_chain_def store_chain_def demo_env_def Let_def)
  have "case tick_chain demo_env running_chain of Some _ \<Rightarrow> True | None \<Rightarrow> False" by code_simp
  then obtain r' ready tr fr where "tick_chain demo_env running_chain = Some (r', ready, tr, fr)"
    by (auto split: option.splits)
  then obtain w2 ans where w2: "tick_commit demo_env running_chain w1 = Some (w2, Inr ans)"
    by (simp add: tick_commit_def store_chain_def demo_env_def)
  have "(dag_task_new ''a'')\<lparr>status := Running\<rparr> \<in> set (tasks running_chain)" "distinct (task_ids running_chain)"
    by (simp_all add: running_chain_def chain_dag_root_new_def task_ids_def)
  then show ?thesis
    using tick_loses_completion [OF load s _ w1 w2, of "(dag_task_new ''a'')\<lparr>status := Running\<rparr>"] w1 w2
    by (auto simp: dag_task_new_def)
qed

section \<open>Resuming with a failed task\<close>

definition exhausted :: "retry_policy option \<Rightarrow> dag_task_entry \<Rightarrow> bool" where
  "exhausted d t \<longleftrightarrow> status t = Failed \<and>
     (\<forall>p. (case retry t of Some p \<Rightarrow> Some p | None \<Rightarrow> d) = Some p \<longrightarrow> max_attempts p \<le> attempt t)"

interpretation stays_failed: invariant_machine "task_step False False d" "exhausted d" for d
  by unfold_locales (auto simp: exhausted_def elim!: task_stepE)

lemma exhausted_moves:
  assumes "moves False False d ts ts'" "t \<in> set ts" "exhausted d t"
  obtains t' where "t' \<in> set ts'" "exhausted d t'"
  using moves_out [OF assms(1,2)] stays_failed.run_inv assms(3) by metis

text \<open>
  A resume does not outlive the next tick while a failed task has no retries left: under
  the pause strategy the tick after the resume pauses the chain again and blocks every task
  that is still waiting, so only the tasks that fit into that one tick are started.
\<close>

theorem resumed_chain_pauses_again:
  assumes "distinct (task_ids r)" "mode r = Dag" "on_any_failure (global_config r) = PauseDag"
    and "t \<in> set (tasks r)" "status t = Failed" "\<forall>p. policy_of r t = Some p \<longrightarrow> max_attempts p \<le> attempt t"
    and "tick_chain env (resume_chain r) = Some (r', ready, tr, fr)"
  shows "paused r' \<and> dag_paused fr \<and> (\<forall>u \<in> set (tasks r'). status u \<notin> {Pending, RetryScheduled})"
proof -
  let ?r0 = "resume_chain r" and ?d = "default_retry (global_config r)"
  have "unblock_task t = t" using assms(5) by (simp add: unblock_task_def)
  then have t0: "t \<in> set (tasks ?r0)" using assms(4) by (force simp: resume_chain_def)
  have e: "exhausted ?d t" using assms(5,6) by (simp add: exhausted_def policy_of_def)
  have ids0: "distinct (task_ids ?r0)" using plan_ids [OF plan_resume] assms(1) by metis
  obtain r1 rd where adv: "advance_dag (env_parse env) (env_now env) (env_iso_at env) (env_key_order env)
      (load_condition_task_outputs (env_read_output env) ?r0) ?r0 = (r1, rd)" by force
  obtain r2 t' where tmo: "process_timeouts (parse_iso_seconds (env_parse env) (env_parse_naive env)) (env_now_iso env)
      (env_group_order env) r1 = (r2, t')" by force
  have fail: "process_failures (env_powi env) (env_stamp env) r2 = Some (r', fr)"
    using assms(7) adv tmo by (auto simp: tick_chain_def process_post_tick_def Let_def)
  have p: "plan r1 = plan ?r0" "plan r2 = plan r1"
    using plan_advance plan_timeouts adv tmo by (metis fst_conv)+
  then have "plan r2 = plan r" using plan_resume by metis
  then have g: "global_config r2 = global_config r" "mode r2 = mode r" by (auto dest: plan_fields(1,2))
  have m1: "moves False False ?d (tasks ?r0) (tasks r1)" by (rule moves_advance [OF ids0 adv])
  have m2: "moves False False ?d (tasks r1) (tasks r2)" using moves_timeouts tmo by (metis fst_conv)
  have m3: "moves False False ?d (tasks r2) (tasks r')" using moves_failures [OF fail] by (simp add: g)
  from moves_trans [OF moves_trans [OF m1 m2] m3] t0 e
  obtain u where u: "u \<in> set (tasks r')" "status u = Failed"
    by (rule exhausted_moves) (simp add: exhausted_def)
  obtain ts ids where "pause_dag (r2\<lparr>tasks := ts\<rparr>) (no_action\<lparr>retry_scheduled := ids\<rparr>) = (r', fr)"
    using process_failures_run [OF _ fail u] g assms(2,3) by auto
  then have "paused r'" "dag_paused fr" "\<exists>bl. tasks r' = map (paused_task bl) ts"
    by (auto simp: pause_dag_eq Let_def)
  then show ?thesis by (auto simp: paused_task_def)
qed

definition paused_chain :: chain_dag_root where
  "paused_chain = (chain_dag_root_new ''c''
     [(dag_task_new ''a'')\<lparr>status := Failed\<rparr>,
      (dag_task_new ''b'')\<lparr>status := Blocked, task_error := Some ''paused by failure strategy''\<rparr>,
      (dag_task_new ''c'')\<lparr>status := Blocked, depends_on := [''b''], task_error := Some ''paused by failure strategy''\<rparr>])
     \<lparr>paused := True\<rparr>"

lemma paused_chain_ticks:
  "map_option (\<lambda>(r', ready, _). (paused r', ready, map status (tasks r'))) (tick_chain demo_env (resume_chain paused_chain)) =
   Some (True, [''b''], [Failed, Running, Blocked])"
  by code_simp

theorem resumed_chain_pauses_again_witness:
  "\<exists>r' x. tick_chain demo_env (resume_chain paused_chain) = Some (r', x) \<and> paused r'"
proof -
  obtain r' ready tr fr where run: "tick_chain demo_env (resume_chain paused_chain) = Some (r', ready, tr, fr)"
    using paused_chain_ticks by (auto split: prod.splits)
  have "distinct (task_ids paused_chain)" "mode paused_chain = Dag" "on_any_failure (global_config paused_chain) = PauseDag"
      "(dag_task_new ''a'')\<lparr>status := Failed\<rparr> \<in> set (tasks paused_chain)"
      "\<forall>p. policy_of paused_chain ((dag_task_new ''a'')\<lparr>status := Failed\<rparr>) = Some p \<longrightarrow>
         max_attempts p \<le> attempt ((dag_task_new ''a'')\<lparr>status := Failed\<rparr>)"
    by (simp_all add: paused_chain_def chain_dag_root_new_def task_ids_def policy_of_def dag_task_new_def
        global_dag_config_default_def)
  then show ?thesis using resumed_chain_pauses_again [OF _ _ _ _ _ _ run] run by auto
qed

section \<open>The status listing\<close>

lemma foldl_max_ge: "a \<le> foldl max (a :: 'a :: linorder) xs \<and> (\<forall>x \<in> set xs. x \<le> foldl max a xs)"
proof (induction xs arbitrary: a)
  case (Cons x xs)
  have "max a x \<le> foldl max (max a x) xs" "\<forall>y \<in> set xs. y \<le> foldl max (max a x) xs"
    using Cons [of "max a x"] by simp_all
  then show ?case by (simp add: max.bounded_iff)
qed simp

lemma listed_rounds_iff: "k \<in> set (listed_rounds r) \<longleftrightarrow> 1 \<le> k \<and> k \<le> max_round r \<and> tasks_of_round k r \<noteq> []"
proof -
  have "k \<in> word_of_nat ` {1..<Suc (unat (max_round r))} \<longleftrightarrow> 1 \<le> k \<and> k \<le> max_round r"
  proof
    assume "k \<in> word_of_nat ` {1..<Suc (unat (max_round r))}"
    then obtain n where n: "k = word_of_nat n" "1 \<le> n" "n \<le> unat (max_round r)" by auto
    then have "unat k = n"
      using unsigned_less [of "max_round r", where 'a = nat] by (simp add: unat_of_nat take_bit_nat_eq_self)
    then show "1 \<le> k \<and> k \<le> max_round r" using n by (simp add: word_le_nat_alt)
  next
    assume "1 \<le> k \<and> k \<le> max_round r"
    then have "unat k \<in> {1..<Suc (unat (max_round r))}" by (simp add: word_le_nat_alt)
    then show "k \<in> word_of_nat ` {1..<Suc (unat (max_round r))}" by (metis image_eqI unsigned_of_nat word_nat_cases word_unat_eq_iff of_nat_unat ucast_id)
  qed
  then show ?thesis by (auto simp: listed_rounds_def)
qed

lemma listed_rounds_distinct: "distinct (listed_rounds r)"
proof -
  have "inj_on (word_of_nat :: nat \<Rightarrow> u32) {1..<Suc (unat (max_round r))}"
  proof (rule inj_onI)
    fix a b assume ab: "a \<in> {1..<Suc (unat (max_round r))}" "b \<in> {1..<Suc (unat (max_round r))}"
      and eq: "(word_of_nat a :: u32) = word_of_nat b"
    have "unat (max_round r) < 2 ^ 32" using unsigned_less [of "max_round r", where 'a = nat] by simp
    then show "a = b" using ab arg_cong [OF eq, of unat] by (simp add: unat_of_nat take_bit_nat_eq_self)
  qed
  then show ?thesis unfolding listed_rounds_def by (intro distinct_filter) (simp add: distinct_map del: upt_Suc)
qed

lemma round_le_max: "t \<in> set (tasks r) \<Longrightarrow> task_round t = Some k \<Longrightarrow> k \<le> max_round r"
proof -
  assume "t \<in> set (tasks r)" "task_round t = Some k"
  then have "k \<in> set (List.map_filter task_round (tasks r))" by (force simp: map_filter_def)
  then show ?thesis
    using foldl_max_ge unfolding max_round_def
    by (cases "List.map_filter task_round (tasks r)") auto
qed

lemma active_step_ids_distinct:
  assumes "distinct (task_ids r)"
  shows "distinct (active_step_ids r)"
proof -
  have one: "distinct (round_running (tasks_of_round k r))" for k
    using assms by (simp add: round_running_def tasks_of_round_def task_ids_def distinct_map_filter)
  have disj: "set (round_running (tasks_of_round k r)) \<inter> set (round_running (tasks_of_round l r)) = {}" if "k \<noteq> l" for k l
    using assms that by (auto simp: round_running_def tasks_of_round_def task_ids_def distinct_map inj_on_def)
  have "distinct (concat (map (\<lambda>k. round_running (tasks_of_round k r)) ks))" if "distinct ks" for ks
    using that
  proof (induction ks)
    case (Cons k ks)
    have "set (round_running (tasks_of_round k r)) \<inter> set (round_running (tasks_of_round l r)) = {}" if "l \<in> set ks" for l
      using that Cons.prems by (intro disj) auto
    then have "set (round_running (tasks_of_round k r)) \<inter> (\<Union>l \<in> set ks. set (round_running (tasks_of_round l r))) = {}"
      by blast
    then show ?case using Cons one by simp
  qed simp
  then show ?thesis unfolding active_step_ids_def using listed_rounds_distinct by blast
qed

text \<open>
  The status listing names as active exactly the running tasks of the rounds from 1 to the
  highest round given. A running task of round 0 is not listed, and neither is one without a
  round when the highest round given is 0.
\<close>

theorem status_active_ids:
  "set (active_step_ids r) = {task_id t | t. t \<in> set (tasks r) \<and> status t = Running \<and>
     1 \<le> round_of t \<and> round_of t \<le> max_round r}"
proof -
  have run: "status_str s = ''running'' \<longleftrightarrow> s = Running" for s by (cases s) simp_all
  have "round_of t \<in> set (listed_rounds r)" if "t \<in> set (tasks r)" "1 \<le> round_of t" "round_of t \<le> max_round r" for t
    using that by (auto simp: listed_rounds_iff tasks_of_round_def filter_empty_conv)
  moreover have "1 \<le> k \<and> k \<le> max_round r" if "k \<in> set (listed_rounds r)" for k
    using that by (simp add: listed_rounds_iff)
  ultimately show ?thesis
    by (fastforce simp: active_step_ids_def round_running_def run tasks_of_round_def)
qed

end
