(* ===== verification/Job_Types.thy ===== *)
theory Job_Types
  imports Serde
begin

text \<open>
  The data of the background job store (\<^verbatim>\<open>core/runtime-storage/src/background_state/types.rs\<close>):
  job records, status mutations, the persisted document, requests and answers, with their
  serialised forms. Derived readers here ignore unknown members; an array must have every
  field without a declared default.
\<close>

section \<open>Constants\<close>

definition BACKGROUND_STATE_STORE_SCHEMA_VERSION :: string where
  "BACKGROUND_STATE_STORE_SCHEMA_VERSION = ''router-rs-background-state-store-v1''"

definition BACKGROUND_STATE_STORE_AUTHORITY :: string where
  "BACKGROUND_STATE_STORE_AUTHORITY = ''rust-background-state-store''"

definition BACKGROUND_STATE_REQUEST_SCHEMA_VERSION :: string where
  "BACKGROUND_STATE_REQUEST_SCHEMA_VERSION = ''router-rs-background-state-request-v1''"

definition BACKGROUND_STATE_SCHEMA_VERSION :: string where
  "BACKGROUND_STATE_SCHEMA_VERSION = ''runtime-background-state-v5''"

definition BACKGROUND_STATE_CONTROL_PLANE_SCHEMA_VERSION :: string where
  "BACKGROUND_STATE_CONTROL_PLANE_SCHEMA_VERSION = ''runtime-background-state-control-plane-v1''"

definition BACKGROUND_SESSION_TAKEOVER_ARBITRATION_SCHEMA_VERSION :: string where
  "BACKGROUND_SESSION_TAKEOVER_ARBITRATION_SCHEMA_VERSION =
     ''runtime-background-session-takeover-arbitration-v1''"

definition DEFAULT_BACKGROUND_JOB_MULTITASK_STRATEGY :: string where
  "DEFAULT_BACKGROUND_JOB_MULTITASK_STRATEGY = ''reject''"

definition DEFAULT_BACKGROUND_JOB_ATTEMPT :: i64 where
  "DEFAULT_BACKGROUND_JOB_ATTEMPT = 1"

definition DEFAULT_BACKGROUND_JOB_RETRY_COUNT :: i64 where
  "DEFAULT_BACKGROUND_JOB_RETRY_COUNT = 0"

definition DEFAULT_BACKGROUND_JOB_MAX_ATTEMPTS :: i64 where
  "DEFAULT_BACKGROUND_JOB_MAX_ATTEMPTS = 1"

definition DEFAULT_BACKGROUND_JOB_BACKOFF_BASE_SECONDS :: f64 where
  "DEFAULT_BACKGROUND_JOB_BACKOFF_BASE_SECONDS = Fin 0"

definition DEFAULT_BACKGROUND_JOB_BACKOFF_MULTIPLIER :: f64 where
  "DEFAULT_BACKGROUND_JOB_BACKOFF_MULTIPLIER = Fin 2"

definition DEFAULT_MAX_BACKGROUND_JOBS :: nat where
  "DEFAULT_MAX_BACKGROUND_JOBS = 16"

definition MAX_BACKGROUND_JOBS_LIMIT :: nat where
  "MAX_BACKGROUND_JOBS_LIMIT = 64"

text \<open>The two ages, in seconds.\<close>

definition STALE_ACTIVE_HEARTBEAT_TTL_SECS :: int where
  "STALE_ACTIVE_HEARTBEAT_TTL_SECS = 3600"

definition STALE_TERMINAL_JOB_TTL_SECS :: int where
  "STALE_TERMINAL_JOB_TTL_SECS = 24 * 3600"

section \<open>Jobs and mutations\<close>

record background_run_status =
  j_job_id :: string
  j_session_id :: "string option"
  j_status :: string
  j_parallel_group_id :: "string option"
  j_lane_id :: "string option"
  j_parent_job_id :: "string option"
  j_multitask_strategy :: string
  j_result :: "json option"
  j_error :: "string option"
  j_created_at :: string
  j_updated_at :: string
  j_attempt :: i64
  j_retry_count :: i64
  j_max_attempts :: i64
  j_timeout_seconds :: "f64 option"
  j_claimed_by :: "string option"
  j_claimed_at :: "string option"
  j_backoff_base_seconds :: f64
  j_backoff_multiplier :: f64
  j_max_backoff_seconds :: "f64 option"
  j_backoff_seconds :: "f64 option"
  j_next_retry_at :: "string option"
  j_retry_scheduled_at :: "string option"
  j_retry_claimed_at :: "string option"
  j_interrupt_requested_at :: "string option"
  j_interrupted_at :: "string option"
  j_last_attempt_started_at :: "string option"
  j_last_attempt_finished_at :: "string option"
  j_last_failure_at :: "string option"

record background_job_status_mutation =
  m_status :: string
  m_session_id :: "string option"
  m_parallel_group_id :: "string option"
  m_lane_id :: "string option"
  m_parent_job_id :: "string option"
  m_multitask_strategy :: "string option"
  m_result :: "json option"
  m_error :: "string option"
  m_timeout_seconds :: "f64 option"
  m_claimed_by :: "string option"
  m_attempt :: "i64 option"
  m_retry_count :: "i64 option"
  m_max_attempts :: "i64 option"
  m_claimed_at :: "string option"
  m_backoff_base_seconds :: "f64 option"
  m_backoff_multiplier :: "f64 option"
  m_max_backoff_seconds :: "f64 option"
  m_backoff_seconds :: "f64 option"
  m_next_retry_at :: "string option"
  m_retry_scheduled_at :: "string option"
  m_retry_claimed_at :: "string option"
  m_interrupt_requested_at :: "string option"
  m_interrupted_at :: "string option"
  m_last_attempt_started_at :: "string option"
  m_last_attempt_finished_at :: "string option"
  m_last_failure_at :: "string option"

definition job_json :: "background_run_status \<Rightarrow> json" where
  "job_json j = JObj
     [(''attempt'', ser_i64 (j_attempt j)),
      (''backoff_base_seconds'', ser_f64 (j_backoff_base_seconds j)),
      (''backoff_multiplier'', ser_f64 (j_backoff_multiplier j)),
      (''backoff_seconds'', jopt ser_f64 (j_backoff_seconds j)),
      (''claimed_at'', jopt JStr (j_claimed_at j)),
      (''claimed_by'', jopt JStr (j_claimed_by j)),
      (''created_at'', JStr (j_created_at j)),
      (''error'', jopt JStr (j_error j)),
      (''interrupt_requested_at'', jopt JStr (j_interrupt_requested_at j)),
      (''interrupted_at'', jopt JStr (j_interrupted_at j)),
      (''job_id'', JStr (j_job_id j)),
      (''lane_id'', jopt JStr (j_lane_id j)),
      (''last_attempt_finished_at'', jopt JStr (j_last_attempt_finished_at j)),
      (''last_attempt_started_at'', jopt JStr (j_last_attempt_started_at j)),
      (''last_failure_at'', jopt JStr (j_last_failure_at j)),
      (''max_attempts'', ser_i64 (j_max_attempts j)),
      (''max_backoff_seconds'', jopt ser_f64 (j_max_backoff_seconds j)),
      (''multitask_strategy'', JStr (j_multitask_strategy j)),
      (''next_retry_at'', jopt JStr (j_next_retry_at j)),
      (''parallel_group_id'', jopt JStr (j_parallel_group_id j)),
      (''parent_job_id'', jopt JStr (j_parent_job_id j)),
      (''result'', jopt id (j_result j)),
      (''retry_claimed_at'', jopt JStr (j_retry_claimed_at j)),
      (''retry_count'', ser_i64 (j_retry_count j)),
      (''retry_scheduled_at'', jopt JStr (j_retry_scheduled_at j)),
      (''session_id'', jopt JStr (j_session_id j)),
      (''status'', JStr (j_status j)),
      (''timeout_seconds'', jopt ser_f64 (j_timeout_seconds j)),
      (''updated_at'', JStr (j_updated_at j))]"

definition job_fields :: "string list" where
  "job_fields = [
     ''job_id'', ''session_id'', ''status'', ''parallel_group_id'', ''lane_id'',
     ''parent_job_id'', ''multitask_strategy'', ''result'', ''error'', ''created_at'',
     ''updated_at'', ''attempt'', ''retry_count'', ''max_attempts'', ''timeout_seconds'',
     ''claimed_by'', ''claimed_at'', ''backoff_base_seconds'', ''backoff_multiplier'',
     ''max_backoff_seconds'', ''backoff_seconds'', ''next_retry_at'', ''retry_scheduled_at'',
     ''retry_claimed_at'', ''interrupt_requested_at'', ''interrupted_at'',
     ''last_attempt_started_at'', ''last_attempt_finished_at'', ''last_failure_at'']"

definition job_defaults :: "string list" where
  "job_defaults = [
     ''multitask_strategy'', ''result'', ''error'', ''attempt'', ''retry_count'',
     ''max_attempts'', ''timeout_seconds'', ''claimed_by'', ''claimed_at'',
     ''backoff_base_seconds'', ''backoff_multiplier'', ''max_backoff_seconds'',
     ''backoff_seconds'', ''next_retry_at'', ''retry_scheduled_at'', ''retry_claimed_at'',
     ''interrupt_requested_at'', ''interrupted_at'', ''last_attempt_started_at'',
     ''last_attempt_finished_at'', ''last_failure_at'']"

definition job_of_json :: "json \<Rightarrow> background_run_status option" where
  "job_of_json v =
     Option.bind (de_struct job_fields job_defaults v) (\<lambda>m.
     Option.bind (de_req as_str m ''job_id'') (\<lambda>x1.
     Option.bind (de_dflt (de_opt as_str) None m ''session_id'') (\<lambda>x2.
     Option.bind (de_req as_str m ''status'') (\<lambda>x3.
     Option.bind (de_dflt (de_opt as_str) None m ''parallel_group_id'') (\<lambda>x4.
     Option.bind (de_dflt (de_opt as_str) None m ''lane_id'') (\<lambda>x5.
     Option.bind (de_dflt (de_opt as_str) None m ''parent_job_id'') (\<lambda>x6.
     Option.bind (de_dflt as_str DEFAULT_BACKGROUND_JOB_MULTITASK_STRATEGY m ''multitask_strategy'') (\<lambda>x7.
     Option.bind (de_dflt (de_opt Some) None m ''result'') (\<lambda>x8.
     Option.bind (de_dflt (de_opt as_str) None m ''error'') (\<lambda>x9.
     Option.bind (de_req as_str m ''created_at'') (\<lambda>x10.
     Option.bind (de_req as_str m ''updated_at'') (\<lambda>x11.
     Option.bind (de_dflt de_i64 DEFAULT_BACKGROUND_JOB_ATTEMPT m ''attempt'') (\<lambda>x12.
     Option.bind (de_dflt de_i64 DEFAULT_BACKGROUND_JOB_RETRY_COUNT m ''retry_count'') (\<lambda>x13.
     Option.bind (de_dflt de_i64 DEFAULT_BACKGROUND_JOB_MAX_ATTEMPTS m ''max_attempts'') (\<lambda>x14.
     Option.bind (de_dflt (de_opt de_f64) None m ''timeout_seconds'') (\<lambda>x15.
     Option.bind (de_dflt (de_opt as_str) None m ''claimed_by'') (\<lambda>x16.
     Option.bind (de_dflt (de_opt as_str) None m ''claimed_at'') (\<lambda>x17.
     Option.bind (de_dflt de_f64 DEFAULT_BACKGROUND_JOB_BACKOFF_BASE_SECONDS m ''backoff_base_seconds'') (\<lambda>x18.
     Option.bind (de_dflt de_f64 DEFAULT_BACKGROUND_JOB_BACKOFF_MULTIPLIER m ''backoff_multiplier'') (\<lambda>x19.
     Option.bind (de_dflt (de_opt de_f64) None m ''max_backoff_seconds'') (\<lambda>x20.
     Option.bind (de_dflt (de_opt de_f64) None m ''backoff_seconds'') (\<lambda>x21.
     Option.bind (de_dflt (de_opt as_str) None m ''next_retry_at'') (\<lambda>x22.
     Option.bind (de_dflt (de_opt as_str) None m ''retry_scheduled_at'') (\<lambda>x23.
     Option.bind (de_dflt (de_opt as_str) None m ''retry_claimed_at'') (\<lambda>x24.
     Option.bind (de_dflt (de_opt as_str) None m ''interrupt_requested_at'') (\<lambda>x25.
     Option.bind (de_dflt (de_opt as_str) None m ''interrupted_at'') (\<lambda>x26.
     Option.bind (de_dflt (de_opt as_str) None m ''last_attempt_started_at'') (\<lambda>x27.
     Option.bind (de_dflt (de_opt as_str) None m ''last_attempt_finished_at'') (\<lambda>x28.
     Option.bind (de_dflt (de_opt as_str) None m ''last_failure_at'') (\<lambda>x29.
     Some \<lparr>j_job_id = x1, j_session_id = x2, j_status = x3, j_parallel_group_id = x4, j_lane_id = x5,
       j_parent_job_id = x6, j_multitask_strategy = x7, j_result = x8, j_error = x9,
       j_created_at = x10, j_updated_at = x11, j_attempt = x12, j_retry_count = x13,
       j_max_attempts = x14, j_timeout_seconds = x15, j_claimed_by = x16, j_claimed_at = x17,
       j_backoff_base_seconds = x18, j_backoff_multiplier = x19, j_max_backoff_seconds = x20,
       j_backoff_seconds = x21, j_next_retry_at = x22, j_retry_scheduled_at = x23,
       j_retry_claimed_at = x24, j_interrupt_requested_at = x25, j_interrupted_at = x26,
       j_last_attempt_started_at = x27, j_last_attempt_finished_at = x28, j_last_failure_at = x29\<rparr>))))))))))))))))))))))))))))))"

definition mutation_fields :: "string list" where
  "mutation_fields = [
     ''status'', ''session_id'', ''parallel_group_id'', ''lane_id'', ''parent_job_id'',
     ''multitask_strategy'', ''result'', ''error'', ''timeout_seconds'', ''claimed_by'',
     ''attempt'', ''retry_count'', ''max_attempts'', ''claimed_at'', ''backoff_base_seconds'',
     ''backoff_multiplier'', ''max_backoff_seconds'', ''backoff_seconds'', ''next_retry_at'',
     ''retry_scheduled_at'', ''retry_claimed_at'', ''interrupt_requested_at'',
     ''interrupted_at'', ''last_attempt_started_at'', ''last_attempt_finished_at'',
     ''last_failure_at'']"

definition mutation_of_json :: "json \<Rightarrow> background_job_status_mutation option" where
  "mutation_of_json v =
     Option.bind (de_struct mutation_fields [] v) (\<lambda>m.
     Option.bind (de_req as_str m ''status'') (\<lambda>x1.
     Option.bind (de_dflt (de_opt as_str) None m ''session_id'') (\<lambda>x2.
     Option.bind (de_dflt (de_opt as_str) None m ''parallel_group_id'') (\<lambda>x3.
     Option.bind (de_dflt (de_opt as_str) None m ''lane_id'') (\<lambda>x4.
     Option.bind (de_dflt (de_opt as_str) None m ''parent_job_id'') (\<lambda>x5.
     Option.bind (de_dflt (de_opt as_str) None m ''multitask_strategy'') (\<lambda>x6.
     Option.bind (de_dflt (de_opt Some) None m ''result'') (\<lambda>x7.
     Option.bind (de_dflt (de_opt as_str) None m ''error'') (\<lambda>x8.
     Option.bind (de_dflt (de_opt de_f64) None m ''timeout_seconds'') (\<lambda>x9.
     Option.bind (de_dflt (de_opt as_str) None m ''claimed_by'') (\<lambda>x10.
     Option.bind (de_dflt (de_opt de_i64) None m ''attempt'') (\<lambda>x11.
     Option.bind (de_dflt (de_opt de_i64) None m ''retry_count'') (\<lambda>x12.
     Option.bind (de_dflt (de_opt de_i64) None m ''max_attempts'') (\<lambda>x13.
     Option.bind (de_dflt (de_opt as_str) None m ''claimed_at'') (\<lambda>x14.
     Option.bind (de_dflt (de_opt de_f64) None m ''backoff_base_seconds'') (\<lambda>x15.
     Option.bind (de_dflt (de_opt de_f64) None m ''backoff_multiplier'') (\<lambda>x16.
     Option.bind (de_dflt (de_opt de_f64) None m ''max_backoff_seconds'') (\<lambda>x17.
     Option.bind (de_dflt (de_opt de_f64) None m ''backoff_seconds'') (\<lambda>x18.
     Option.bind (de_dflt (de_opt as_str) None m ''next_retry_at'') (\<lambda>x19.
     Option.bind (de_dflt (de_opt as_str) None m ''retry_scheduled_at'') (\<lambda>x20.
     Option.bind (de_dflt (de_opt as_str) None m ''retry_claimed_at'') (\<lambda>x21.
     Option.bind (de_dflt (de_opt as_str) None m ''interrupt_requested_at'') (\<lambda>x22.
     Option.bind (de_dflt (de_opt as_str) None m ''interrupted_at'') (\<lambda>x23.
     Option.bind (de_dflt (de_opt as_str) None m ''last_attempt_started_at'') (\<lambda>x24.
     Option.bind (de_dflt (de_opt as_str) None m ''last_attempt_finished_at'') (\<lambda>x25.
     Option.bind (de_dflt (de_opt as_str) None m ''last_failure_at'') (\<lambda>x26.
     Some \<lparr>m_status = x1, m_session_id = x2, m_parallel_group_id = x3, m_lane_id = x4,
       m_parent_job_id = x5, m_multitask_strategy = x6, m_result = x7, m_error = x8,
       m_timeout_seconds = x9, m_claimed_by = x10, m_attempt = x11, m_retry_count = x12,
       m_max_attempts = x13, m_claimed_at = x14, m_backoff_base_seconds = x15,
       m_backoff_multiplier = x16, m_max_backoff_seconds = x17, m_backoff_seconds = x18,
       m_next_retry_at = x19, m_retry_scheduled_at = x20, m_retry_claimed_at = x21,
       m_interrupt_requested_at = x22, m_interrupted_at = x23, m_last_attempt_started_at = x24,
       m_last_attempt_finished_at = x25, m_last_failure_at = x26\<rparr>)))))))))))))))))))))))))))"

section \<open>The persisted document\<close>

record persisted_active_session =
  as_session_id :: string
  as_job_id :: string

record persisted_pending_takeover =
  pt_session_id :: string
  pt_incoming_job_id :: string

record persisted_background_state =
  p_version :: i64
  p_schema_version :: string
  p_control_plane :: "json option"
  p_jobs :: "background_run_status list"
  p_active_sessions :: "persisted_active_session list"
  p_pending_session_takeovers :: "persisted_pending_takeover list"

definition active_session_json :: "persisted_active_session \<Rightarrow> json" where
  "active_session_json a = JObj [(''job_id'', JStr (as_job_id a)), (''session_id'', JStr (as_session_id a))]"

definition active_session_of_json :: "json \<Rightarrow> persisted_active_session option" where
  "active_session_of_json v =
     Option.bind (de_struct [''session_id'', ''job_id''] [] v) (\<lambda>m.
     Option.bind (de_req as_str m ''session_id'') (\<lambda>s.
     Option.bind (de_req as_str m ''job_id'') (\<lambda>i. Some \<lparr>as_session_id = s, as_job_id = i\<rparr>)))"

definition pending_takeover_json :: "persisted_pending_takeover \<Rightarrow> json" where
  "pending_takeover_json a = JObj
     [(''incoming_job_id'', JStr (pt_incoming_job_id a)), (''session_id'', JStr (pt_session_id a))]"

definition pending_takeover_of_json :: "json \<Rightarrow> persisted_pending_takeover option" where
  "pending_takeover_of_json v =
     Option.bind (de_struct [''session_id'', ''incoming_job_id''] [] v) (\<lambda>m.
     Option.bind (de_req as_str m ''session_id'') (\<lambda>s.
     Option.bind (de_req as_str m ''incoming_job_id'') (\<lambda>i.
     Some \<lparr>pt_session_id = s, pt_incoming_job_id = i\<rparr>)))"

definition persisted_json :: "persisted_background_state \<Rightarrow> json" where
  "persisted_json p = JObj
     [(''active_sessions'', JArr (map active_session_json (p_active_sessions p))),
      (''control_plane'', jopt id (p_control_plane p)),
      (''jobs'', JArr (map job_json (p_jobs p))),
      (''pending_session_takeovers'', JArr (map pending_takeover_json (p_pending_session_takeovers p))),
      (''schema_version'', JStr (p_schema_version p)),
      (''version'', ser_i64 (p_version p))]"

definition persisted_of_json :: "json \<Rightarrow> persisted_background_state option" where
  "persisted_of_json v =
     Option.bind (de_struct [''version'', ''schema_version'', ''control_plane'', ''jobs'',
       ''active_sessions'', ''pending_session_takeovers''] [] v) (\<lambda>m.
     Option.bind (de_req de_i64 m ''version'') (\<lambda>n.
     Option.bind (de_req as_str m ''schema_version'') (\<lambda>s.
     Option.bind (de_dflt (de_opt Some) None m ''control_plane'') (\<lambda>c.
     Option.bind (de_req (de_list job_of_json) m ''jobs'') (\<lambda>js.
     Option.bind (de_req (de_list active_session_of_json) m ''active_sessions'') (\<lambda>as.
     Option.bind (de_req (de_list pending_takeover_of_json) m ''pending_session_takeovers'') (\<lambda>ps.
     Some \<lparr>p_version = n, p_schema_version = s, p_control_plane = c, p_jobs = js,
       p_active_sessions = as, p_pending_session_takeovers = ps\<rparr>)))))))"

section \<open>Requests and answers\<close>

record background_state_request =
  q_schema_version :: string
  q_operation :: string
  q_state_path :: "string option"
  q_backend_family :: "string option"
  q_sqlite_db_path :: "string option"
  q_state_payload_text :: "string option"
  q_control_plane_descriptor :: "json option"
  q_job_id :: "string option"
  q_arbitration_operation :: "string option"
  q_mutation :: "background_job_status_mutation option"
  q_session_id :: "string option"
  q_incoming_job_id :: "string option"
  q_parallel_group_id :: "string option"
  q_capacity_limit :: "u64 option"

definition request_fields :: "string list" where
  "request_fields = [
     ''schema_version'', ''operation'', ''state_path'', ''backend_family'', ''sqlite_db_path'',
     ''state_payload_text'', ''control_plane_descriptor'', ''job_id'', ''arbitration_operation'',
     ''mutation'', ''session_id'', ''incoming_job_id'', ''parallel_group_id'', ''capacity_limit'']"

definition request_of_json :: "json \<Rightarrow> background_state_request option" where
  "request_of_json v =
     Option.bind (de_struct request_fields [] v) (\<lambda>m.
     Option.bind (de_req as_str m ''schema_version'') (\<lambda>x1.
     Option.bind (de_req as_str m ''operation'') (\<lambda>x2.
     Option.bind (de_dflt (de_opt as_str) None m ''state_path'') (\<lambda>x3.
     Option.bind (de_dflt (de_opt as_str) None m ''backend_family'') (\<lambda>x4.
     Option.bind (de_dflt (de_opt as_str) None m ''sqlite_db_path'') (\<lambda>x5.
     Option.bind (de_dflt (de_opt as_str) None m ''state_payload_text'') (\<lambda>x6.
     Option.bind (de_dflt (de_opt Some) None m ''control_plane_descriptor'') (\<lambda>x7.
     Option.bind (de_dflt (de_opt as_str) None m ''job_id'') (\<lambda>x8.
     Option.bind (de_dflt (de_opt as_str) None m ''arbitration_operation'') (\<lambda>x9.
     Option.bind (de_dflt (de_opt mutation_of_json) None m ''mutation'') (\<lambda>x10.
     Option.bind (de_dflt (de_opt as_str) None m ''session_id'') (\<lambda>x11.
     Option.bind (de_dflt (de_opt as_str) None m ''incoming_job_id'') (\<lambda>x12.
     Option.bind (de_dflt (de_opt as_str) None m ''parallel_group_id'') (\<lambda>x13.
     Option.bind (de_dflt (de_opt de_word) None m ''capacity_limit'') (\<lambda>x14.
     Some \<lparr>q_schema_version = x1, q_operation = x2, q_state_path = x3, q_backend_family = x4,
       q_sqlite_db_path = x5, q_state_payload_text = x6, q_control_plane_descriptor = x7,
       q_job_id = x8, q_arbitration_operation = x9, q_mutation = x10, q_session_id = x11,
       q_incoming_job_id = x12, q_parallel_group_id = x13, q_capacity_limit = x14\<rparr>)))))))))))))))"

record background_session_takeover_arbitration =
  t_schema_version :: string
  t_operation :: string
  t_session_id :: string
  t_incoming_job_id :: string
  t_previous_active_job_id :: "string option"
  t_previous_pending_job_id :: "string option"
  t_active_job_id :: "string option"
  t_pending_job_id :: "string option"
  t_outcome :: string
  t_changed :: bool

definition takeover_json :: "background_session_takeover_arbitration \<Rightarrow> json" where
  "takeover_json t = JObj
     [(''active_job_id'', jopt JStr (t_active_job_id t)),
      (''changed'', JBool (t_changed t)),
      (''incoming_job_id'', JStr (t_incoming_job_id t)),
      (''operation'', JStr (t_operation t)),
      (''outcome'', JStr (t_outcome t)),
      (''pending_job_id'', jopt JStr (t_pending_job_id t)),
      (''previous_active_job_id'', jopt JStr (t_previous_active_job_id t)),
      (''previous_pending_job_id'', jopt JStr (t_previous_pending_job_id t)),
      (''schema_version'', JStr (t_schema_version t)),
      (''session_id'', JStr (t_session_id t))]"

record background_parallel_group_summary =
  g_parallel_group_id :: string
  g_job_ids :: "string list"
  g_session_ids :: "string list"
  g_lane_ids :: "string list"
  g_parent_job_ids :: "string list"
  g_status_counts :: "(string \<times> json) list"
  g_active_job_count :: nat
  g_terminal_job_count :: nat
  g_total_job_count :: nat
  g_latest_updated_at :: "string option"

definition group_summary_json :: "background_parallel_group_summary \<Rightarrow> json" where
  "group_summary_json g = JObj
     [(''active_job_count'', jnat (g_active_job_count g)),
      (''job_ids'', JArr (map JStr (g_job_ids g))),
      (''lane_ids'', JArr (map JStr (g_lane_ids g))),
      (''latest_updated_at'', jopt JStr (g_latest_updated_at g)),
      (''parallel_group_id'', JStr (g_parallel_group_id g)),
      (''parent_job_ids'', JArr (map JStr (g_parent_job_ids g))),
      (''session_ids'', JArr (map JStr (g_session_ids g))),
      (''status_counts'', JObj (g_status_counts g)),
      (''terminal_job_count'', jnat (g_terminal_job_count g)),
      (''total_job_count'', jnat (g_total_job_count g))]"

section \<open>The store\<close>

record background_state_store =
  s_state_path :: string
  s_backend_family :: string
  s_sqlite_db_path :: "string option"
  s_control_plane :: json
  s_jobs :: "(string, background_run_status) hmap"
  s_active_sessions :: "(string, string) hmap"
  s_pending_session_takeovers :: "(string, string) hmap"
  s_reaped_dirty :: bool

section \<open>Round trips\<close>

fun finite_f64 :: "f64 \<Rightarrow> bool" where
  "finite_f64 (Fin x) = True"
| "finite_f64 _ = False"

lemma de_f64_ser: "finite_f64 x \<Longrightarrow> de_f64 (ser_f64 x) = Some x"
  by (cases x) simp_all

lemma ser_f64_not_null: "finite_f64 x \<Longrightarrow> ser_f64 x \<noteq> JNull"
  by (cases x) simp_all

lemma de_opt_f64: "pred_option finite_f64 x \<Longrightarrow> de_opt de_f64 (jopt ser_f64 x) = Some x"
  by (rule de_opt_jopt) (auto simp: de_f64_ser ser_f64_not_null)

lemma de_opt_value: "x \<noteq> Some JNull \<Longrightarrow> de_opt Some (jopt id x) = Some x"
  by (rule de_opt_jopt) auto

text \<open>What a job read from JSON satisfies: finite numbers, and no null as a result.\<close>

definition job_writable :: "background_run_status \<Rightarrow> bool" where
  "job_writable j \<longleftrightarrow> j_result j \<noteq> Some JNull \<and> pred_option finite_f64 (j_timeout_seconds j) \<and>
     finite_f64 (j_backoff_base_seconds j) \<and> finite_f64 (j_backoff_multiplier j) \<and>
     pred_option finite_f64 (j_max_backoff_seconds j) \<and> pred_option finite_f64 (j_backoff_seconds j)"

lemma job_roundtrip:
  assumes "job_writable j"
  shows "job_of_json (job_json j) = Some j"
  using assms unfolding job_writable_def
  by (simp add: job_json_def job_of_json_def de_req_def de_dflt_def de_f64_ser de_opt_f64 de_opt_value)

lemma persisted_roundtrip:
  assumes "\<forall>j \<in> set (p_jobs p). job_writable j" "p_control_plane p \<noteq> Some JNull"
  shows "persisted_of_json (persisted_json p) = Some p"
proof -
  have "de_list job_of_json (JArr (map job_json (p_jobs p))) = Some (p_jobs p)"
    using assms(1) by (intro de_list_map job_roundtrip) blast
  moreover have "de_list active_session_of_json (JArr (map active_session_json (p_active_sessions p))) =
      Some (p_active_sessions p)"
    by (rule de_list_map) (simp add: active_session_json_def active_session_of_json_def de_req_def)
  moreover have "de_list pending_takeover_of_json
      (JArr (map pending_takeover_json (p_pending_session_takeovers p))) = Some (p_pending_session_takeovers p)"
    by (rule de_list_map) (simp add: pending_takeover_json_def pending_takeover_of_json_def de_req_def)
  ultimately show ?thesis
    using assms(2) by (simp add: persisted_of_json_def persisted_json_def de_req_def de_dflt_def de_opt_value)
qed

end
