(* ===== verification/Job_Status.thy ===== *)
theory Job_Status
  imports Job_Types
begin

text \<open>
  Job statuses and their transitions, and the effect of a status mutation on a job
  (\<^verbatim>\<open>core/runtime-storage/src/background_state/status.rs\<close>). The clock readings are
  arguments: a new job takes one for its creation and one for its update.
\<close>

section \<open>Statuses\<close>

definition active_statuses :: "string list" where
  "active_statuses = [''queued'', ''running'', ''interrupt_requested'', ''retry_scheduled'', ''retry_claimed'']"

definition terminal_statuses :: "string list" where
  "terminal_statuses = [''completed'', ''failed'', ''interrupted'', ''retry_exhausted'']"

definition is_active_status :: "string \<Rightarrow> bool" where
  "is_active_status s \<longleftrightarrow> s \<in> set active_statuses"

definition is_terminal_status :: "string \<Rightarrow> bool" where
  "is_terminal_status s \<longleftrightarrow> s \<in> set terminal_statuses"

text \<open>The statuses a job may take next: the rows of the transition table.\<close>

definition successors :: "string option \<Rightarrow> string list" where
  "successors prev = (case prev of
     None \<Rightarrow> [''queued'', ''running'', ''interrupt_requested'', ''retry_scheduled'', ''retry_claimed'',
             ''completed'', ''failed'', ''interrupted'', ''retry_exhausted'']
   | Some p \<Rightarrow>
       if p = ''queued'' then [''queued'', ''running'', ''interrupt_requested'', ''interrupted'', ''failed'']
       else if p = ''running'' then
         [''running'', ''interrupt_requested'', ''completed'', ''failed'', ''interrupted'',
          ''retry_scheduled'', ''retry_exhausted'']
       else if p = ''interrupt_requested'' then [''interrupt_requested'', ''interrupted'']
       else if p = ''retry_scheduled'' then
         [''retry_scheduled'', ''retry_claimed'', ''interrupt_requested'', ''interrupted'', ''retry_exhausted'']
       else if p = ''retry_claimed'' then
         [''retry_claimed'', ''queued'', ''running'', ''interrupt_requested'', ''interrupted'', ''failed'',
          ''retry_scheduled'', ''retry_exhausted'']
       else if p = ''completed'' then [''completed'']
       else if p = ''failed'' then [''failed'']
       else if p = ''interrupted'' then [''interrupted'']
       else if p = ''retry_exhausted'' then [''retry_exhausted'']
       else [])"

datatype job_error = InvalidTransition "string option" string
  | SessionActive string string | TakeoverPending string string
  | NotReserved string string | StillActive string string | UnsupportedArbitration string
  | UnsupportedFamily | MissingArgument string | UnknownRequestVersion string | MalformedRequest
  | UnsupportedOperation string | FileUnreadable | StateMalformed | WriteFailed | LockFailed
  | MissingDbPath | NoParent | OutsideRoot | DatabaseFailed

definition validate_transition :: "string option \<Rightarrow> string \<Rightarrow> (job_error, unit) result" where
  "validate_transition prev nxt =
     (if nxt \<in> set (successors prev) then Inr () else Inl (Validation, InvalidTransition prev nxt))"

section \<open>Mutations\<close>

definition claimed_placeholder :: "string \<Rightarrow> string \<Rightarrow> string \<Rightarrow> background_run_status" where
  "claimed_placeholder now jid sid =
     \<lparr>j_job_id = jid,
      j_session_id = Some sid,
      j_status = ''retry_claimed'',
      j_parallel_group_id = None,
      j_lane_id = None,
      j_parent_job_id = None,
      j_multitask_strategy = DEFAULT_BACKGROUND_JOB_MULTITASK_STRATEGY,
      j_result = None,
      j_error = None,
      j_created_at = now,
      j_updated_at = now,
      j_attempt = DEFAULT_BACKGROUND_JOB_ATTEMPT,
      j_retry_count = DEFAULT_BACKGROUND_JOB_RETRY_COUNT,
      j_max_attempts = DEFAULT_BACKGROUND_JOB_MAX_ATTEMPTS,
      j_timeout_seconds = None,
      j_claimed_by = Some jid,
      j_claimed_at = Some now,
      j_backoff_base_seconds = DEFAULT_BACKGROUND_JOB_BACKOFF_BASE_SECONDS,
      j_backoff_multiplier = DEFAULT_BACKGROUND_JOB_BACKOFF_MULTIPLIER,
      j_max_backoff_seconds = None,
      j_backoff_seconds = None,
      j_next_retry_at = None,
      j_retry_scheduled_at = None,
      j_retry_claimed_at = Some now,
      j_interrupt_requested_at = None,
      j_interrupted_at = None,
      j_last_attempt_started_at = None,
      j_last_attempt_finished_at = None,
      j_last_failure_at = None\<rparr>"

definition mutation_new :: "string \<times> string \<Rightarrow> background_job_status_mutation \<Rightarrow> string \<Rightarrow> background_run_status" where
  "mutation_new now m jid = (case now of (now1, now2) \<Rightarrow>
     \<lparr>j_job_id = jid,
      j_session_id = m_session_id m,
      j_status = m_status m,
      j_parallel_group_id = m_parallel_group_id m,
      j_lane_id = m_lane_id m,
      j_parent_job_id = m_parent_job_id m,
      j_multitask_strategy = (case m_multitask_strategy m of Some x \<Rightarrow> x | None \<Rightarrow> DEFAULT_BACKGROUND_JOB_MULTITASK_STRATEGY),
      j_result = m_result m,
      j_error = m_error m,
      j_created_at = now1,
      j_updated_at = now2,
      j_attempt = (case m_attempt m of Some x \<Rightarrow> x | None \<Rightarrow> DEFAULT_BACKGROUND_JOB_ATTEMPT),
      j_retry_count = (case m_retry_count m of Some x \<Rightarrow> x | None \<Rightarrow> DEFAULT_BACKGROUND_JOB_RETRY_COUNT),
      j_max_attempts = (case m_max_attempts m of Some x \<Rightarrow> x | None \<Rightarrow> DEFAULT_BACKGROUND_JOB_MAX_ATTEMPTS),
      j_timeout_seconds = m_timeout_seconds m,
      j_claimed_by = m_claimed_by m,
      j_claimed_at = m_claimed_at m,
      j_backoff_base_seconds = (case m_backoff_base_seconds m of Some x \<Rightarrow> x | None \<Rightarrow> DEFAULT_BACKGROUND_JOB_BACKOFF_BASE_SECONDS),
      j_backoff_multiplier = (case m_backoff_multiplier m of Some x \<Rightarrow> x | None \<Rightarrow> DEFAULT_BACKGROUND_JOB_BACKOFF_MULTIPLIER),
      j_max_backoff_seconds = m_max_backoff_seconds m,
      j_backoff_seconds = m_backoff_seconds m,
      j_next_retry_at = m_next_retry_at m,
      j_retry_scheduled_at = m_retry_scheduled_at m,
      j_retry_claimed_at = m_retry_claimed_at m,
      j_interrupt_requested_at = m_interrupt_requested_at m,
      j_interrupted_at = m_interrupted_at m,
      j_last_attempt_started_at = m_last_attempt_started_at m,
      j_last_attempt_finished_at = m_last_attempt_finished_at m,
      j_last_failure_at = m_last_failure_at m\<rparr>)"

definition mutation_merge :: "string \<times> string \<Rightarrow> background_job_status_mutation \<Rightarrow> background_run_status \<Rightarrow> background_run_status" where
  "mutation_merge now m x =
     \<lparr>j_job_id = j_job_id x,
      j_session_id = or_else (m_session_id m) (j_session_id x),
      j_status = m_status m,
      j_parallel_group_id = or_else (m_parallel_group_id m) (j_parallel_group_id x),
      j_lane_id = or_else (m_lane_id m) (j_lane_id x),
      j_parent_job_id = or_else (m_parent_job_id m) (j_parent_job_id x),
      j_multitask_strategy = (case m_multitask_strategy m of Some y \<Rightarrow> y | None \<Rightarrow> j_multitask_strategy x),
      j_result = or_else (m_result m) (j_result x),
      j_error = or_else (m_error m) (j_error x),
      j_created_at = j_created_at x,
      j_updated_at = fst now,
      j_attempt = (case m_attempt m of Some y \<Rightarrow> y | None \<Rightarrow> j_attempt x),
      j_retry_count = (case m_retry_count m of Some y \<Rightarrow> y | None \<Rightarrow> j_retry_count x),
      j_max_attempts = (case m_max_attempts m of Some y \<Rightarrow> y | None \<Rightarrow> j_max_attempts x),
      j_timeout_seconds = or_else (m_timeout_seconds m) (j_timeout_seconds x),
      j_claimed_by = or_else (m_claimed_by m) (j_claimed_by x),
      j_claimed_at = or_else (m_claimed_at m) (j_claimed_at x),
      j_backoff_base_seconds = (case m_backoff_base_seconds m of Some y \<Rightarrow> y | None \<Rightarrow> j_backoff_base_seconds x),
      j_backoff_multiplier = (case m_backoff_multiplier m of Some y \<Rightarrow> y | None \<Rightarrow> j_backoff_multiplier x),
      j_max_backoff_seconds = or_else (m_max_backoff_seconds m) (j_max_backoff_seconds x),
      j_backoff_seconds = or_else (m_backoff_seconds m) (j_backoff_seconds x),
      j_next_retry_at = or_else (m_next_retry_at m) (j_next_retry_at x),
      j_retry_scheduled_at = or_else (m_retry_scheduled_at m) (j_retry_scheduled_at x),
      j_retry_claimed_at = or_else (m_retry_claimed_at m) (j_retry_claimed_at x),
      j_interrupt_requested_at = or_else (m_interrupt_requested_at m) (j_interrupt_requested_at x),
      j_interrupted_at = or_else (m_interrupted_at m) (j_interrupted_at x),
      j_last_attempt_started_at = or_else (m_last_attempt_started_at m) (j_last_attempt_started_at x),
      j_last_attempt_finished_at = or_else (m_last_attempt_finished_at m) (j_last_attempt_finished_at x),
      j_last_failure_at = or_else (m_last_failure_at m) (j_last_failure_at x)\<rparr>"

definition mutation_apply ::
  "string \<times> string \<Rightarrow> background_job_status_mutation \<Rightarrow> string \<Rightarrow> background_run_status option \<Rightarrow>
   background_run_status" where
  "mutation_apply now m jid existing =
     (case existing of None \<Rightarrow> mutation_new now m jid | Some x \<Rightarrow> mutation_merge now m x)"

section \<open>Facts about the transition table\<close>

lemmas status_defs = is_active_status_def is_terminal_status_def active_statuses_def terminal_statuses_def

lemma active_not_terminal: "is_active_status s \<Longrightarrow> \<not> is_terminal_status s"
  by (auto simp: status_defs)

lemma validate_transition_ok [simp]: "validate_transition p n = Inr u \<longleftrightarrow> n \<in> set (successors p)"
  by (simp add: validate_transition_def)

lemma successors_rows:
  "successors (Some ''queued'') = [''queued'', ''running'', ''interrupt_requested'', ''interrupted'', ''failed'']"
  "successors (Some ''running'') = [''running'', ''interrupt_requested'', ''completed'', ''failed'', ''interrupted'', ''retry_scheduled'', ''retry_exhausted'']"
  "successors (Some ''interrupt_requested'') = [''interrupt_requested'', ''interrupted'']"
  "successors (Some ''retry_scheduled'') = [''retry_scheduled'', ''retry_claimed'', ''interrupt_requested'', ''interrupted'', ''retry_exhausted'']"
  "successors (Some ''retry_claimed'') = [''retry_claimed'', ''queued'', ''running'', ''interrupt_requested'', ''interrupted'', ''failed'', ''retry_scheduled'', ''retry_exhausted'']"
  "successors (Some ''completed'') = [''completed'']"
  "successors (Some ''failed'') = [''failed'']"
  "successors (Some ''interrupted'') = [''interrupted'']"
  "successors (Some ''retry_exhausted'') = [''retry_exhausted'']"
  by (simp_all add: successors_def)

lemma successors_known: "n \<in> set (successors p) \<Longrightarrow> is_active_status n \<or> is_terminal_status n"
  by (auto simp: successors_def status_defs split: option.splits if_splits)

lemma successors_terminal:
  assumes "is_terminal_status p"
  shows "n \<in> set (successors (Some p)) \<longleftrightarrow> n = p"
proof -
  consider "p = ''completed''" | "p = ''failed''" | "p = ''interrupted''" | "p = ''retry_exhausted''"
    using assms unfolding status_defs by auto
  then show ?thesis by cases (simp_all only: successors_rows list.set singleton_iff)
qed

lemma successors_ghost: "\<not> is_active_status p \<Longrightarrow> \<not> is_terminal_status p \<Longrightarrow> successors (Some p) = []"
  by (auto simp: successors_def status_defs)

text \<open>The accepted changes of the status of an existing job.\<close>

inductive status_step :: "string \<Rightarrow> string \<Rightarrow> bool" where
  accepted: "validate_transition (Some p) n = Inr () \<Longrightarrow> status_step p n"

inductive_simps status_step_iff: "status_step p n"

interpretation status: absorbing_machine status_step is_terminal_status
  by unfold_locales (simp add: status_step_iff successors_terminal)

interpretation interrupting: invariant_machine status_step "\<lambda>s. s \<in> {''interrupt_requested'', ''interrupted''}"
  by unfold_locales (auto simp: status_step_iff successors_rows)

lemma mutation_new_simps [simp]:
  "j_status (mutation_new now m jid) = m_status m"
  "j_job_id (mutation_new now m jid) = jid"
  "j_session_id (mutation_new now m jid) = m_session_id m"
  "j_updated_at (mutation_new now m jid) = snd now"
  by (simp_all add: mutation_new_def split_beta)

lemma mutation_merge_simps [simp]:
  "j_status (mutation_merge now m x) = m_status m"
  "j_job_id (mutation_merge now m x) = j_job_id x"
  "j_session_id (mutation_merge now m x) = or_else (m_session_id m) (j_session_id x)"
  "j_created_at (mutation_merge now m x) = j_created_at x"
  "j_updated_at (mutation_merge now m x) = fst now"
  by (simp_all add: mutation_merge_def)

lemma mutation_apply_simps [simp]:
  "mutation_apply now m jid None = mutation_new now m jid"
  "mutation_apply now m jid (Some x) = mutation_merge now m x"
  "j_status (mutation_apply now m jid e) = m_status m"
  by (simp_all add: mutation_apply_def split: option.split)

lemma or_else_simps [simp]: "or_else None b = b" "or_else (Some a) b = Some a"
  by (simp_all add: or_else_def)

text \<open>
  The life of a job as the transition table allows it. Every accepted status is one of
  the nine known ones; a terminal status can be followed only by itself, however many
  mutations are tried; once an interrupt has been requested the job can only end as
  interrupted, never as completed or failed; and a completed job was running before.
\<close>

theorem job_status_machine:
  "status_step\<^sup>*\<^sup>* p n \<Longrightarrow>
     (is_terminal_status p \<longrightarrow> n = p) \<and>
     (p = ''interrupt_requested'' \<longrightarrow> n = ''interrupt_requested'' \<or> n = ''interrupted'') \<and>
     (n \<noteq> p \<longrightarrow> is_active_status p \<and> (is_active_status n \<or> is_terminal_status n)) \<and>
     (n = ''completed'' \<and> p \<noteq> ''completed'' \<longrightarrow> status_step\<^sup>*\<^sup>* p ''running'')"
proof (intro conjI impI)
  assume run: "status_step\<^sup>*\<^sup>* p n"
  show "n = p" if "is_terminal_status p" using status.run_final [OF run that] .
  show "n = ''interrupt_requested'' \<or> n = ''interrupted''" if "p = ''interrupt_requested''"
    using interrupting.run_inv [OF run] that by simp
  show "is_active_status p" if "n \<noteq> p"
    using run that
    by (cases rule: converse_rtranclpE)
      (metis status.run_final r_into_rtranclp converse_rtranclp_into_rtranclp status_step_iff
        validate_transition_ok successors_ghost empty_iff empty_set)+
  show "is_active_status n \<or> is_terminal_status n" if "n \<noteq> p"
    using run that by (cases rule: rtranclp.cases) (auto simp: status_step_iff dest: successors_known)
  show "status_step\<^sup>*\<^sup>* p ''running''" if "n = ''completed'' \<and> p \<noteq> ''completed''"
  proof -
    have last: "q = ''completed'' \<or> q = ''running''" if "status_step q ''completed''" for q
      using that by (auto simp: status_step_iff successors_def split: if_splits)
    from run that have "status_step\<^sup>*\<^sup>* p n" "n = ''completed''" "p \<noteq> ''completed''" by auto
    then show ?thesis by (induction rule: rtranclp_induct) (use last in blast)+
  qed
qed

theorem job_status_machine_witness:
  "status_step\<^sup>*\<^sup>* ''retry_scheduled'' ''completed'' \<and> is_active_status ''retry_scheduled'' \<and>
   status_step\<^sup>*\<^sup>* ''retry_scheduled'' ''running''"
proof -
  have "status_step ''retry_scheduled'' ''retry_claimed''" "status_step ''retry_claimed'' ''running''"
    "status_step ''running'' ''completed''"
    by (simp_all add: status_step_iff successors_rows)
  then have "status_step\<^sup>*\<^sup>* ''retry_scheduled'' ''completed''"
    by (meson converse_rtranclp_into_rtranclp rtranclp.rtrancl_refl)
  with job_status_machine [OF this] show ?thesis by simp
qed

end
