(* ===== verification/Job_Backend.thy ===== *)
theory Job_Backend
  imports Job_Status Text
begin

text \<open>
  Storage back ends: their capabilities and parity
  (\<^verbatim>\<open>core/runtime-storage/src/runtime_storage/backend.rs\<close>), the control plane description of
  the job store (\<^verbatim>\<open>background_state/control_plane.rs\<close>) and the key of a job store in the
  SQLite payload table (\<^verbatim>\<open>background_state/persist.rs\<close>).
\<close>

section \<open>Names of back ends\<close>

text \<open>
  Lower-casing is that of the ASCII letters. Other letters keep their bytes; no name of a
  back end has a letter with another upper-case form outside ASCII, so the recognised names
  are the same.
\<close>

definition replace_char :: "char \<Rightarrow> char \<Rightarrow> string \<Rightarrow> string" where
  "replace_char a b s = map (\<lambda>c. if c = a then b else c) s"

definition normalized_backend_family :: "string \<Rightarrow> string" where
  "normalized_backend_family s = replace_char CHR ''-'' CHR ''_'' (map lower_char (trim s))"

definition background_delegate_kind :: "string \<Rightarrow> string" where
  "background_delegate_kind s = replace_char CHR ''_'' CHR ''-'' (map lower_char (trim s)) @ ''-state-store''"

section \<open>Capabilities\<close>

record runtime_backend_capabilities =
  b_backend_family :: string
  b_supports_atomic_replace :: bool
  b_supports_compaction :: bool
  b_supports_snapshot_delta :: bool
  b_supports_remote_event_transport :: bool
  b_supports_consistent_append :: bool
  b_supports_sqlite_wal :: bool

definition backend_capabilities :: "string \<Rightarrow> (job_error, runtime_backend_capabilities) result" where
  "backend_capabilities s =
     (let f = normalized_backend_family s in
      if f \<in> {''filesystem'', ''file''} then
        Inr \<lparr>b_backend_family = ''filesystem'', b_supports_atomic_replace = True,
          b_supports_compaction = False, b_supports_snapshot_delta = False,
          b_supports_remote_event_transport = True, b_supports_consistent_append = True,
          b_supports_sqlite_wal = False\<rparr>
      else if f \<in> {''sqlite'', ''sqlite3''} then
        Inr \<lparr>b_backend_family = ''sqlite'', b_supports_atomic_replace = True,
          b_supports_compaction = True, b_supports_snapshot_delta = True,
          b_supports_remote_event_transport = True, b_supports_consistent_append = True,
          b_supports_sqlite_wal = True\<rparr>
      else if f \<in> {''memory'', ''in_memory'', ''regression'', ''regression_double''} then
        Inr \<lparr>b_backend_family = ''memory'', b_supports_atomic_replace = False,
          b_supports_compaction = False, b_supports_snapshot_delta = False,
          b_supports_remote_event_transport = True, b_supports_consistent_append = False,
          b_supports_sqlite_wal = False\<rparr>
      else Inl (Unsupported, UnsupportedFamily))"

definition backend_capabilities_payload :: "string \<Rightarrow> (job_error, json) result" where
  "backend_capabilities_payload s = bind_result (backend_capabilities s) (\<lambda>c. Inr (JObj
     [(''backend_family'', JStr (b_backend_family c)),
      (''supports_atomic_replace'', JBool (b_supports_atomic_replace c)),
      (''supports_compaction'', JBool (b_supports_compaction c)),
      (''supports_consistent_append'', JBool (b_supports_consistent_append c)),
      (''supports_remote_event_transport'', JBool (b_supports_remote_event_transport c)),
      (''supports_snapshot_delta'', JBool (b_supports_snapshot_delta c)),
      (''supports_sqlite_wal'', JBool (b_supports_sqlite_wal c))]))"

definition backend_family_catalog_payload :: json where
  "backend_family_catalog_payload = JObj
     [(''authority'', JStr ''rust-runtime-checkpoint-control-plane''),
      (''default_backend_family'', JStr ''filesystem''),
      (''families'', JArr (concat (map (\<lambda>f. case backend_capabilities_payload f of Inr v \<Rightarrow> [v] | Inl _ \<Rightarrow> [])
         [''filesystem'', ''sqlite'']))),
      (''owner'', JStr ''rust-runtime-checkpoint-control-plane''),
      (''schema_version'', JStr ''runtime-persistence-backend-family-catalog-v1''),
      (''selection_rule'', JStr ''store and checkpointer must resolve to one normalized backend_family before persistence operations''),
      (''strongest_local_backend_family'', JStr ''sqlite''),
      (''test_only_backend_families'', JArr [JStr ''memory''])]"

text \<open>The parity report: the family each service resolves to, and whether they agree.\<close>

definition parity_json ::
  "runtime_backend_capabilities \<Rightarrow> runtime_backend_capabilities \<Rightarrow> runtime_backend_capabilities \<Rightarrow>
   runtime_backend_capabilities \<Rightarrow> json" where
  "parity_json cst ccp ctr csa =
     (let aligned = (b_backend_family cst = b_backend_family ccp \<and>
            b_backend_family cst = b_backend_family ctr \<and> b_backend_family cst = b_backend_family csa)
      in JObj
        [(''aligned'', JBool aligned),
         (''authority'', JStr ''rust-runtime-checkpoint-control-plane''),
         (''checkpointer_backend_family'', JStr (b_backend_family ccp)),
         (''compaction_eligible'', JBool (aligned \<and> b_supports_compaction ccp \<and>
            b_supports_snapshot_delta ccp \<and> b_supports_compaction csa \<and> b_supports_snapshot_delta csa)),
         (''mismatch_reason'', if aligned then JNull
            else JStr ''store, checkpointer, trace, and state must share one backend_family''),
         (''schema_version'', JStr ''runtime-persistence-backend-family-parity-v1''),
         (''state_backend_family'', JStr (b_backend_family csa)),
         (''store_backend_family'', JStr (b_backend_family cst)),
         (''trace_backend_family'', JStr (b_backend_family ctr))])"

text \<open>\<^verbatim>\<open>Option::unwrap_or\<close>\<close>

definition unwrap_or :: "'a option \<Rightarrow> 'a \<Rightarrow> 'a" where
  "unwrap_or x d = (case x of None \<Rightarrow> d | Some y \<Rightarrow> y)"

definition backend_family_parity_payload ::
  "string option \<Rightarrow> string option \<Rightarrow> string option \<Rightarrow> string option \<Rightarrow> (job_error, json) result" where
  "backend_family_parity_payload store checkpointer trace state =
     (let st = unwrap_or store ''filesystem''; cp = unwrap_or checkpointer st;
          tr = unwrap_or trace cp; sa = unwrap_or state st
      in bind_result (backend_capabilities st) (\<lambda>cst.
         bind_result (backend_capabilities cp) (\<lambda>ccp.
         bind_result (backend_capabilities tr) (\<lambda>ctr.
         bind_result (backend_capabilities sa) (\<lambda>csa. Inr (parity_json cst ccp ctr csa))))))"

section \<open>Control plane\<close>

definition DEFAULT_STATE_SERVICE_AUTHORITY :: string where
  "DEFAULT_STATE_SERVICE_AUTHORITY = ''rust-runtime-control-plane''"

definition DEFAULT_STATE_SERVICE_ROLE :: string where
  "DEFAULT_STATE_SERVICE_ROLE = ''durable-background-state''"

definition DEFAULT_STATE_SERVICE_PROJECTION :: string where
  "DEFAULT_STATE_SERVICE_PROJECTION = ''rust-native-projection''"

definition control_plane_base :: "json option \<Rightarrow> string \<Rightarrow> runtime_backend_capabilities \<Rightarrow> string \<Rightarrow> (string \<times> json) list" where
  "control_plane_base desc family c path =
     [(''authority'', JStr DEFAULT_STATE_SERVICE_AUTHORITY),
      (''backend_family'', JStr family),
      (''delegate_kind'', JStr (background_delegate_kind family)),
      (''health_family'', JStr ''runtime-health''),
      (''projection'', JStr DEFAULT_STATE_SERVICE_PROJECTION),
      (''role'', JStr DEFAULT_STATE_SERVICE_ROLE),
      (''runtime_control_plane_authority'',
         JStr (case Option.bind desc (\<lambda>d. jget_with as_str d ''authority'') of
                 None \<Rightarrow> DEFAULT_STATE_SERVICE_AUTHORITY | Some a \<Rightarrow> a)),
      (''runtime_control_plane_schema_version'',
         (case Option.bind desc (\<lambda>d. jget d ''schema_version'') of None \<Rightarrow> JNull | Some v \<Rightarrow> v)),
      (''schema_version'', JStr BACKGROUND_STATE_CONTROL_PLANE_SCHEMA_VERSION),
      (''service'', JStr ''state''),
      (''state_path'', JStr path),
      (''supports_atomic_replace'', JBool (b_supports_atomic_replace c)),
      (''supports_compaction'', JBool (b_supports_compaction c)),
      (''supports_consistent_append'', JBool (b_supports_consistent_append c)),
      (''supports_remote_event_transport'', JBool (b_supports_remote_event_transport c)),
      (''supports_snapshot_delta'', JBool (b_supports_snapshot_delta c)),
      (''supports_sqlite_wal'', JBool (b_supports_sqlite_wal c)),
      (''transport_family'', JStr ''checkpoint-artifact'')]"

text \<open>The members of \<^verbatim>\<open>services.state\<close> of the descriptor that override the defaults.\<close>

definition service_override :: "(string \<times> json) list \<Rightarrow> string \<Rightarrow> (string \<times> json) list \<Rightarrow> (string \<times> json) list" where
  "service_override service k m = (case map_of service k of None \<Rightarrow> m | Some v \<Rightarrow> jput k v m)"

definition state_service :: "json option \<Rightarrow> (string \<times> json) list option" where
  "state_service desc =
     Option.bind (Option.bind desc as_object) (\<lambda>d.
     Option.bind (Option.bind (map_of d ''services'') as_object) (\<lambda>s.
     Option.bind (map_of s ''state'') as_object))"

definition apply_state_service :: "json option \<Rightarrow> (string \<times> json) list \<Rightarrow> (string \<times> json) list" where
  "apply_state_service desc m =
     (case state_service desc of
        None \<Rightarrow> m
      | Some s \<Rightarrow> foldl (\<lambda>m k. service_override s k m) m [''authority'', ''role'', ''projection'', ''delegate_kind''])"

definition build_state_control_plane :: "json option \<Rightarrow> string \<Rightarrow> string \<Rightarrow> (job_error, json) result" where
  "build_state_control_plane desc family path =
     (let f = normalized_backend_family family in
      bind_result (backend_capabilities f) (\<lambda>c.
        let m = apply_state_service desc (control_plane_base desc f c path);
            m = (if Option.bind (map_of m ''delegate_kind'') as_str = Some ''filesystem-state-store'' \<and>
                    f \<noteq> ''filesystem''
                 then jput ''delegate_kind'' (JStr (background_delegate_kind f)) m else m)
        in Inr (JObj m)))"

section \<open>Paths\<close>

text \<open>
  The components of a path as Rust's \<^verbatim>\<open>Path::components\<close> yields them on Unix: repeated
  separators and inner \<^verbatim>\<open>.\<close> components are dropped, the root is the component \<^verbatim>\<open>/\<close>.
\<close>

fun split_slash :: "string \<Rightarrow> string list" where
  "split_slash [] = [[]]"
| "split_slash (c # cs) =
     (if c = CHR ''/'' then [] # split_slash cs
      else (case split_slash cs of [] \<Rightarrow> [[c]] | w # ws \<Rightarrow> (c # w) # ws))"

definition path_components :: "string \<Rightarrow> string list" where
  "path_components s =
     (if take 1 s = ''/'' then [''/''] else if take 1 (split_slash s) = [''.''] then [''.''] else []) @
     filter (\<lambda>p. p \<noteq> [] \<and> p \<noteq> ''.'') (split_slash s)"

definition path_parent :: "string list \<Rightarrow> string list option" where
  "path_parent p = (if p = [] \<or> p = [''/''] then None else Some (butlast p))"

definition path_strip_prefix :: "string list \<Rightarrow> string list \<Rightarrow> string list option" where
  "path_strip_prefix base p =
     (if take (length base) p = base then Some (drop (length base) p) else None)"

fun join_slash :: "string list \<Rightarrow> string" where
  "join_slash [] = []"
| "join_slash [w] = w"
| "join_slash (w # ws) = w @ ''/'' @ join_slash ws"

definition path_text :: "string list \<Rightarrow> string" where
  "path_text p =
     (case p of [] \<Rightarrow> [] | w # ws \<Rightarrow> if w = ''/'' then ''/'' @ join_slash ws else join_slash (w # ws))"

section \<open>The surroundings of the store\<close>

text \<open>
  What the store takes from outside: chrono's reading and printing of timestamps (a point in
  time is a number of nanoseconds), serde\_json's reading and printing of texts, the operating
  system's view of paths, whether its calls succeed, and the error of taking the path lock.
\<close>

record job_env =
  e_parse_rfc3339 :: "string \<Rightarrow> int option"
  e_to_rfc3339 :: "int \<Rightarrow> string"
  e_json_text :: "json \<Rightarrow> string"
  e_text_json :: "string \<Rightarrow> json option"
  e_canonicalize :: "string list \<Rightarrow> string list option"
  e_exists :: "string list \<Rightarrow> bool"
  e_readable :: "string \<Rightarrow> bool"
  e_write_ok :: "string \<Rightarrow> bool"
  e_db_opens :: "string \<Rightarrow> bool"
  e_db_queries :: "string \<Rightarrow> bool"
  e_db_writes :: "string \<Rightarrow> bool"
  e_lock_error :: "string \<Rightarrow> error_kind option"

definition sqlite_storage_key :: "job_env \<Rightarrow> string list \<Rightarrow> string list \<Rightarrow> (job_error, string) result" where
  "sqlite_storage_key e base state =
     (let rbase = (case e_canonicalize e base of None \<Rightarrow> base | Some r \<Rightarrow> r);
          rstate = (if e_exists e state
                    then (case e_canonicalize e state of None \<Rightarrow> state | Some r \<Rightarrow> r) else state)
      in case path_strip_prefix rbase rstate of
           None \<Rightarrow> Inl (Validation, OutsideRoot)
         | Some rel \<Rightarrow> Inr (replace_char (CHR 0x5C) CHR ''/'' (path_text rel)))"

section \<open>Parity\<close>

lemma backend_capabilities_Inr:
  assumes "backend_capabilities s = Inr c"
  shows "b_backend_family c \<in> {''filesystem'', ''sqlite'', ''memory''}"
    "b_supports_compaction c \<longleftrightarrow> b_backend_family c = ''sqlite''"
    "b_supports_snapshot_delta c \<longleftrightarrow> b_backend_family c = ''sqlite''"
  using assms unfolding backend_capabilities_def Let_def by (auto split: if_splits)

text \<open>The family a name resolves to.\<close>

definition resolved_family :: "string \<Rightarrow> string option" where
  "resolved_family s = (case backend_capabilities s of Inr c \<Rightarrow> Some (b_backend_family c) | Inl _ \<Rightarrow> None)"

lemma resolved_family_Some: "resolved_family s = Some f \<longleftrightarrow> (\<exists>c. backend_capabilities s = Inr c \<and> b_backend_family c = f)"
  by (auto simp: resolved_family_def split: sum.splits)

text \<open>
  The parity report of four services is given exactly if every name is known. It calls
  the services aligned if and only if they all resolve to one back end, whatever the spelling
  of the names and with the defaults filled in, and lets compaction run only when that back
  end is SQLite.
\<close>

theorem parity_report:
  "case backend_family_parity_payload st cp tr sa of
      Inl err \<Rightarrow> err = (Unsupported, UnsupportedFamily) \<and>
        None \<in> {resolved_family (unwrap_or st ''filesystem''), resolved_family (unwrap_or cp (unwrap_or st ''filesystem'')),
                resolved_family (unwrap_or tr (unwrap_or cp (unwrap_or st ''filesystem''))), resolved_family (unwrap_or sa (unwrap_or st ''filesystem''))}
    | Inr v \<Rightarrow> (\<exists>f1 f2 f3 f4.
        resolved_family (unwrap_or st ''filesystem'') = Some f1 \<and> resolved_family (unwrap_or cp (unwrap_or st ''filesystem'')) = Some f2 \<and>
        resolved_family (unwrap_or tr (unwrap_or cp (unwrap_or st ''filesystem''))) = Some f3 \<and>
        resolved_family (unwrap_or sa (unwrap_or st ''filesystem'')) = Some f4 \<and>
        jget v ''aligned'' = Some (JBool (f1 = f2 \<and> f2 = f3 \<and> f3 = f4)) \<and>
        jget v ''compaction_eligible'' =
          Some (JBool (f1 = ''sqlite'' \<and> f2 = ''sqlite'' \<and> f3 = ''sqlite'' \<and> f4 = ''sqlite'')) \<and>
        (jget v ''mismatch_reason'' = Some JNull) = (f1 = f2 \<and> f2 = f3 \<and> f3 = f4))"
proof -
  define a where "a = unwrap_or st ''filesystem''"
  define b where "b = unwrap_or cp a"
  define t where "t = unwrap_or tr b"
  define s where "s = unwrap_or sa a"
  have kind: "err = (Unsupported, UnsupportedFamily)" if "backend_capabilities x = Inl err" for x err
    using that unfolding backend_capabilities_def Let_def by (auto split: if_splits)
  have none: "resolved_family x = None" if "backend_capabilities x = Inl err" for x err
    using that by (simp add: resolved_family_def)
  have eq: "backend_family_parity_payload st cp tr sa =
      bind_result (backend_capabilities a) (\<lambda>cst. bind_result (backend_capabilities b) (\<lambda>ccp.
      bind_result (backend_capabilities t) (\<lambda>ctr. bind_result (backend_capabilities s) (\<lambda>csa.
        Inr (parity_json cst ccp ctr csa)))))"
    unfolding backend_family_parity_payload_def a_def b_def t_def s_def Let_def by (rule refl)
  show ?thesis
  proof (cases "backend_capabilities a")
    case (Inl err)
    then show ?thesis using kind [OF Inl] none [OF Inl]
      by (simp add: eq flip: a_def b_def t_def s_def)
  next
    case A: (Inr ca)
    show ?thesis
    proof (cases "backend_capabilities b")
      case (Inl err)
      then show ?thesis using kind [OF Inl] none [OF Inl] A
        by (simp add: eq flip: a_def b_def t_def s_def)
    next
      case B: (Inr cb)
      show ?thesis
      proof (cases "backend_capabilities t")
        case (Inl err)
        then show ?thesis using kind [OF Inl] none [OF Inl] A B
          by (simp add: eq flip: a_def b_def t_def s_def)
      next
        case T: (Inr ct)
        show ?thesis
        proof (cases "backend_capabilities s")
          case (Inl err)
          then show ?thesis using kind [OF Inl] none [OF Inl] A B T
            by (simp add: eq flip: a_def b_def t_def s_def)
        next
          case S: (Inr cs)
          have r: "resolved_family a = Some (b_backend_family ca)" "resolved_family b = Some (b_backend_family cb)"
            "resolved_family t = Some (b_backend_family ct)" "resolved_family s = Some (b_backend_family cs)"
            using A B T S by (simp_all add: resolved_family_def)
          show ?thesis
            using A B T S r backend_capabilities_Inr(2,3) [OF B] backend_capabilities_Inr(2,3) [OF S]
            by (auto simp: eq parity_json_def Let_def simp flip: a_def b_def t_def s_def)
        qed
      qed
    qed
  qed
qed

end
