(* ===== verification/Job_Store.thy ===== *)
theory Job_Store
  imports Job_Backend
begin

text \<open>
  The operations of the background job store on its maps
  (\<^verbatim>\<open>core/runtime-storage/src/background_state/store.rs\<close>): reaping, merging a persisted
  document, compaction, sessions and their takeover, summaries and the payloads of answers.
\<close>

section \<open>Texts of the reaper\<close>

definition append_error :: "string option \<Rightarrow> string \<Rightarrow> string" where
  "append_error prev msg = (case prev of Some p \<Rightarrow> if p \<noteq> [] then p @ ''; '' @ msg else msg | None \<Rightarrow> msg)"

definition stale_message :: "string \<Rightarrow> string" where
  "stale_message status = ''reaped: '' @ status @ '' heartbeat stale > '' @
     show_nat (nat STALE_ACTIVE_HEARTBEAT_TTL_SECS) @ ''s''"

definition ghost_message :: "string \<Rightarrow> string" where
  "ghost_message status = ''reaped: ghost_status='' @ debug_str status @ '' not in active/terminal FSM''"

section \<open>Reaping\<close>

definition nanos :: "int \<Rightarrow> int" where
  "nanos secs = secs * 1000000000"

definition older_than :: "job_env \<Rightarrow> int \<Rightarrow> background_run_status \<Rightarrow> bool" where
  "older_than e cutoff j = (case e_parse_rfc3339 e (j_updated_at j) of Some ts \<Rightarrow> ts < cutoff | None \<Rightarrow> False)"

definition interrupt_job :: "string \<Rightarrow> string \<Rightarrow> background_run_status \<Rightarrow> background_run_status" where
  "interrupt_job now msg j = j\<lparr>j_status := ''interrupted'', j_interrupted_at := Some now,
     j_updated_at := now, j_error := Some (append_error (j_error j) msg)\<rparr>"

text \<open>The sessions of the given jobs are given up, owned ones and awaited ones.\<close>

definition release_jobs :: "string list \<Rightarrow> background_state_store \<Rightarrow> background_state_store" where
  "release_jobs ids s = s
     \<lparr>s_active_sessions := hretain (\<lambda>_ owner. owner \<notin> set ids) (s_active_sessions s),
      s_pending_session_takeovers := hretain (\<lambda>_ incoming. incoming \<notin> set ids) (s_pending_session_takeovers s)\<rparr>"

definition stale_active_ids :: "job_env \<Rightarrow> int \<Rightarrow> background_state_store \<Rightarrow> string list" where
  "stale_active_ids e now s = map fst (filter (\<lambda>(_, j). is_active_status (j_status j) \<and>
     older_than e (now - nanos STALE_ACTIVE_HEARTBEAT_TTL_SECS) j) (s_jobs s))"

definition reap_stale_active_jobs ::
  "job_env \<Rightarrow> int \<Rightarrow> background_state_store \<Rightarrow> nat \<times> background_state_store" where
  "reap_stale_active_jobs e now s =
     (let ids = stale_active_ids e now s;
          jobs = foldl (\<lambda>m i. hmodify i (\<lambda>j. interrupt_job (e_to_rfc3339 e now) (stale_message (j_status j)) j) m)
                   (s_jobs s) ids;
          s' = s\<lparr>s_jobs := jobs\<rparr>
      in (length ids, if ids = [] then s' else release_jobs ids s'))"

definition stale_terminal_ids :: "job_env \<Rightarrow> int \<Rightarrow> background_state_store \<Rightarrow> string list" where
  "stale_terminal_ids e now s = map fst (filter (\<lambda>(_, j). is_terminal_status (j_status j) \<and>
     older_than e (now - nanos STALE_TERMINAL_JOB_TTL_SECS) j) (s_jobs s))"

definition reap_stale_terminal_jobs ::
  "job_env \<Rightarrow> int \<Rightarrow> background_state_store \<Rightarrow> nat \<times> background_state_store" where
  "reap_stale_terminal_jobs e now s =
     (let ids = stale_terminal_ids e now s
      in (length ids, s\<lparr>s_jobs := foldl (\<lambda>m i. hdel i m) (s_jobs s) ids\<rparr>))"

definition ghost_pairs :: "background_state_store \<Rightarrow> (string \<times> string) list" where
  "ghost_pairs s = map (\<lambda>(i, j). (i, j_status j))
     (filter (\<lambda>(_, j). \<not> is_active_status (j_status j) \<and> \<not> is_terminal_status (j_status j)) (s_jobs s))"

definition reap_ghost_status_jobs ::
  "job_env \<Rightarrow> int \<Rightarrow> background_state_store \<Rightarrow> nat \<times> background_state_store" where
  "reap_ghost_status_jobs e now s =
     (let pairs = ghost_pairs s in
      if pairs = [] then (0, s)
      else (let jobs = foldl (\<lambda>m (i, prev). hmodify i (interrupt_job (e_to_rfc3339 e now) (ghost_message prev)) m)
                         (s_jobs s) pairs
            in (length pairs, release_jobs (map fst pairs) (s\<lparr>s_jobs := jobs\<rparr>))))"

section \<open>The persisted document\<close>

definition merge_control_plane :: "json option \<Rightarrow> json \<Rightarrow> json" where
  "merge_control_plane persisted current =
     (case (persisted, current) of
        (Some (JObj p), JObj c) \<Rightarrow> JObj (foldl (\<lambda>c (k, v). if v = JNull then c else jput k v c) c p)
      | _ \<Rightarrow> current)"

definition rebuild_active_sessions :: "(string, background_run_status) hmap \<Rightarrow> (string, string) hmap" where
  "rebuild_active_sessions jobs =
     hcollect (map (\<lambda>(_, i, sid). (sid, i)) (sort (map
       (\<lambda>j. (j_updated_at j, j_job_id j, case j_session_id j of None \<Rightarrow> [] | Some sid \<Rightarrow> sid))
       (filter (\<lambda>j. j_session_id j \<noteq> None \<and> is_active_status (j_status j)) (hvals jobs)))))"

definition job_active :: "(string, background_run_status) hmap \<Rightarrow> string \<Rightarrow> bool" where
  "job_active jobs i = (case hget jobs i of Some j \<Rightarrow> is_active_status (j_status j) | None \<Rightarrow> False)"

definition session_known :: "(string, background_run_status) hmap \<Rightarrow> string \<Rightarrow> bool" where
  "session_known jobs sid = (\<exists>j \<in> set (hvals jobs). j_session_id j = Some sid)"

definition merge_persisted :: "persisted_background_state \<Rightarrow> background_state_store \<Rightarrow> background_state_store" where
  "merge_persisted p s =
     (let jobs = hcollect (map (\<lambda>j. (j_job_id j, j)) (p_jobs p));
          active = (if p_active_sessions p = [] then rebuild_active_sessions jobs
                    else hcollect (map (\<lambda>a. (as_session_id a, as_job_id a)) (p_active_sessions p)));
          pending = hcollect (map (\<lambda>r. (pt_session_id r, pt_incoming_job_id r))
                      (filter (\<lambda>r. job_active jobs (pt_incoming_job_id r) \<or> session_known jobs (pt_session_id r))
                        (p_pending_session_takeovers p)))
      in s\<lparr>s_control_plane := merge_control_plane (p_control_plane p) (s_control_plane s),
           s_jobs := jobs,
           s_active_sessions := hretain (\<lambda>_ i. job_active jobs i) active,
           s_pending_session_takeovers := pending\<rparr>)"

definition sorted_jobs :: "(string, background_run_status) hmap \<Rightarrow> background_run_status list" where
  "sorted_jobs jobs = sort_key j_job_id (hvals jobs)"

definition sorted_string_pairs :: "(string, string) hmap \<Rightarrow> (string \<times> string) list" where
  "sorted_string_pairs rows = sort rows"

definition persisted_of_store :: "background_state_store \<Rightarrow> persisted_background_state" where
  "persisted_of_store s = \<lparr>p_version = 2, p_schema_version = BACKGROUND_STATE_SCHEMA_VERSION,
     p_control_plane = Some (s_control_plane s), p_jobs = sorted_jobs (s_jobs s),
     p_active_sessions = map (\<lambda>(sid, i). \<lparr>as_session_id = sid, as_job_id = i\<rparr>)
       (sorted_string_pairs (s_active_sessions s)),
     p_pending_session_takeovers = map (\<lambda>(sid, i). \<lparr>pt_session_id = sid, pt_incoming_job_id = i\<rparr>)
       (sorted_string_pairs (s_pending_session_takeovers s))\<rparr>"

definition serialized_payload :: "job_env \<Rightarrow> background_state_store \<Rightarrow> string" where
  "serialized_payload e s = e_json_text e (persisted_json (persisted_of_store s)) @ [CHR 0x0A]"

section \<open>Sessions\<close>

definition reserve_session ::
  "string \<Rightarrow> string option \<Rightarrow> string \<Rightarrow> background_state_store \<Rightarrow> (job_error, background_state_store) result" where
  "reserve_session jid sess status s =
     (case sess of
        None \<Rightarrow> Inr s
      | Some sid \<Rightarrow>
          if \<not> is_active_status status then Inr s
          else (case hget (s_active_sessions s) sid of
                  Some owner \<Rightarrow>
                    if owner \<noteq> jid then Inl (Validation, SessionActive sid owner)
                    else Inr (s\<lparr>s_active_sessions := hput sid jid (s_active_sessions s)\<rparr>)
                | None \<Rightarrow> Inr (s\<lparr>s_active_sessions := hput sid jid (s_active_sessions s)\<rparr>)))"

definition drop_own_session :: "string \<Rightarrow> string \<Rightarrow> background_state_store \<Rightarrow> background_state_store" where
  "drop_own_session jid sid s =
     (if hget (s_active_sessions s) sid = Some jid
      then s\<lparr>s_active_sessions := hdel sid (s_active_sessions s)\<rparr> else s)"

definition release_previous_session ::
  "string \<Rightarrow> string option \<Rightarrow> string option \<Rightarrow> background_state_store \<Rightarrow> background_state_store" where
  "release_previous_session jid prev nxt s =
     (case prev of
        None \<Rightarrow> s
      | Some sid \<Rightarrow> if Some sid = nxt then s else drop_own_session jid sid s)"

definition finalize_session ::
  "string \<Rightarrow> string option \<Rightarrow> string \<Rightarrow> background_state_store \<Rightarrow> background_state_store" where
  "finalize_session jid sess status s =
     (case sess of
        None \<Rightarrow> s
      | Some sid \<Rightarrow> if \<not> is_terminal_status status then s else drop_own_session jid sid s)"

definition get_job :: "background_state_store \<Rightarrow> string \<Rightarrow> background_run_status option" where
  "get_job s jid = hget (s_jobs s) jid"

definition active_job :: "background_state_store \<Rightarrow> string \<Rightarrow> string option" where
  "active_job s sid = hget (s_active_sessions s) sid"

text \<open>The in-memory part of a mutation; the store is persisted afterwards.\<close>

definition mutate_job ::
  "string \<times> string \<Rightarrow> string \<Rightarrow> background_job_status_mutation \<Rightarrow> background_state_store \<Rightarrow>
   (job_error, background_run_status \<times> background_state_store) result" where
  "mutate_job now jid m s =
     (let existing = hget (s_jobs s) jid in
      bind_result (validate_transition (map_option j_status existing) (m_status m)) (\<lambda>_.
        let prev = Option.bind existing j_session_id;
            sess = or_else (m_session_id m) prev
        in bind_result (reserve_session jid sess (m_status m) s) (\<lambda>s.
             let updated = mutation_apply now (m\<lparr>m_session_id := sess\<rparr>) jid existing;
                 s = s\<lparr>s_jobs := hput jid updated (s_jobs s)\<rparr>;
                 s = release_previous_session jid prev sess s;
                 s = finalize_session jid sess (m_status m) s
             in Inr (updated, s))))"

section \<open>Session takeover\<close>

text \<open>The outcome, whether anything changed, and the store of a takeover request.\<close>

definition arbitrate_reserve ::
  "string \<Rightarrow> string \<Rightarrow> background_state_store \<Rightarrow> (job_error, string \<times> bool \<times> background_state_store) result" where
  "arbitrate_reserve sid incoming s =
     (let active = hget (s_active_sessions s) sid; pending = hget (s_pending_session_takeovers s) sid in
      if pending \<noteq> None \<and> pending \<noteq> Some incoming then Inl (Validation, TakeoverPending sid (the pending))
      else (case active of
              None \<Rightarrow> Inr (if pending = Some incoming then ''pending'' else ''available'', False, s)
            | Some a \<Rightarrow>
                if a = incoming then Inr (''owned'', False, s)
                else if pending \<noteq> Some incoming then
                  Inr (''pending'', True,
                    s\<lparr>s_pending_session_takeovers := hput sid incoming (s_pending_session_takeovers s)\<rparr>)
                else Inr (''pending'', False, s)))"

definition arbitrate_claim ::
  "string \<Rightarrow> string \<Rightarrow> string \<Rightarrow> background_state_store \<Rightarrow>
   (job_error, string \<times> bool \<times> background_state_store) result" where
  "arbitrate_claim now sid incoming s =
     (let active = hget (s_active_sessions s) sid; pending = hget (s_pending_session_takeovers s) sid in
      if pending \<noteq> Some incoming then Inl (Validation, NotReserved sid incoming)
      else if active \<noteq> None \<and> active \<noteq> Some incoming then Inl (Validation, StillActive sid (the active))
      else
        let c1 = (active \<noteq> Some incoming);
            s = (if c1 then s\<lparr>s_active_sessions := hput sid incoming (s_active_sessions s)\<rparr> else s);
            c2 = (hget (s_jobs s) incoming = None);
            s = (if c2 then s\<lparr>s_jobs := hput incoming (claimed_placeholder now incoming sid) (s_jobs s)\<rparr> else s);
            c3 = (pending \<noteq> None);
            s = (if c3 then s\<lparr>s_pending_session_takeovers := hdel sid (s_pending_session_takeovers s)\<rparr> else s)
        in Inr (''claimed'', c1 \<or> c2 \<or> c3, s))"

definition arbitrate_release ::
  "string \<Rightarrow> string \<Rightarrow> background_state_store \<Rightarrow> string \<times> bool \<times> background_state_store" where
  "arbitrate_release sid incoming s =
     (let c1 = (hget (s_pending_session_takeovers s) sid = Some incoming);
          s = (if c1 then s\<lparr>s_pending_session_takeovers := hdel sid (s_pending_session_takeovers s)\<rparr> else s);
          c2 = (hget (s_active_sessions s) sid = Some incoming \<and> hget (s_jobs s) incoming = None);
          s = (if c2 then s\<lparr>s_active_sessions := hdel sid (s_active_sessions s)\<rparr> else s)
      in (if c1 \<or> c2 then ''released'' else ''noop'', c1 \<or> c2, s))"

definition arbitrate ::
  "string \<Rightarrow> string \<Rightarrow> string \<Rightarrow> string \<Rightarrow> background_state_store \<Rightarrow>
   (job_error, string \<times> bool \<times> background_state_store) result" where
  "arbitrate now opn sid incoming s =
     (if opn = ''reserve'' then arbitrate_reserve sid incoming s
      else if opn = ''claim'' then arbitrate_claim now sid incoming s
      else if opn = ''release'' then Inr (arbitrate_release sid incoming s)
      else Inl (Unsupported, UnsupportedArbitration opn))"

section \<open>Counts and compaction\<close>

definition active_job_count :: "background_state_store \<Rightarrow> nat" where
  "active_job_count s = length (filter (\<lambda>j. is_active_status (j_status j)) (hvals (s_jobs s)))"

definition terminal_job_count :: "background_state_store \<Rightarrow> nat" where
  "terminal_job_count s = length (filter (\<lambda>j. is_terminal_status (j_status j)) (hvals (s_jobs s)))"

definition resolved_capacity_limit :: "u64 option \<Rightarrow> background_state_store \<Rightarrow> nat" where
  "resolved_capacity_limit override s =
     (let n = (case override of
                 Some w \<Rightarrow> unat w
               | None \<Rightarrow> (case jget_with as_u64 (s_control_plane s) ''max_background_jobs'' of
                           Some k \<Rightarrow> k | None \<Rightarrow> DEFAULT_MAX_BACKGROUND_JOBS))
      in min MAX_BACKGROUND_JOBS_LIMIT (max 1 n))"

definition terminal_rows :: "(string, background_run_status) hmap \<Rightarrow> (string \<times> string) list" where
  "terminal_rows jobs = sort (map (\<lambda>j. (j_updated_at j, j_job_id j))
     (filter (\<lambda>j. is_terminal_status (j_status j)) (hvals jobs)))"

partial_function (option) compact_loop ::
  "nat \<Rightarrow> (string, background_run_status) hmap \<Rightarrow> bool \<Rightarrow> ((string, background_run_status) hmap \<times> bool) option" where
  "compact_loop limit jobs reaped =
     (if length jobs \<le> limit then Some (jobs, reaped)
      else if terminal_rows jobs = [] then Some (jobs, reaped)
      else compact_loop limit
             (foldl (\<lambda>m (_, i). hdel i m) jobs
               (take (min (length jobs - limit) (length (terminal_rows jobs))) (terminal_rows jobs)))
             True)"

definition compact_terminal_over_capacity ::
  "u64 option \<Rightarrow> background_state_store \<Rightarrow> background_state_store option" where
  "compact_terminal_over_capacity cap s =
     map_option (\<lambda>(jobs, reaped). s\<lparr>s_jobs := jobs, s_reaped_dirty := s_reaped_dirty s \<or> reaped\<rparr>)
       (compact_loop (resolved_capacity_limit cap s) (s_jobs s) False)"

section \<open>Summaries of parallel groups\<close>

definition sorted_dedup :: "string list \<Rightarrow> string list" where
  "sorted_dedup xs = remdups_adj (sort xs)"

definition count_status_of :: "(string \<times> json) list \<Rightarrow> string \<Rightarrow> (string \<times> json) list" where
  "count_status_of m st =
     jput st (jnat ((case Option.bind (map_of m st) as_u64 of Some n \<Rightarrow> n | None \<Rightarrow> 0) + 1)) m"

definition later_of :: "string option \<Rightarrow> string \<Rightarrow> string option" where
  "later_of cur t = (case cur of None \<Rightarrow> Some t | Some c \<Rightarrow> if t > c then Some t else Some c)"

definition the_values :: "(background_run_status \<Rightarrow> string option) \<Rightarrow> background_run_status list \<Rightarrow> string list" where
  "the_values f jobs = concat (map (\<lambda>j. case f j of Some x \<Rightarrow> [x] | None \<Rightarrow> []) jobs)"

definition build_parallel_group_summary ::
  "string \<Rightarrow> background_run_status list \<Rightarrow> background_parallel_group_summary" where
  "build_parallel_group_summary gid jobs = \<lparr>
     g_parallel_group_id = gid,
     g_job_ids = sort (map j_job_id jobs),
     g_session_ids = sorted_dedup (the_values j_session_id jobs),
     g_lane_ids = sorted_dedup (the_values j_lane_id jobs),
     g_parent_job_ids = sorted_dedup (the_values j_parent_job_id jobs),
     g_status_counts = foldl count_status_of [] (map j_status jobs),
     g_active_job_count = length (filter (\<lambda>j. is_active_status (j_status j)) jobs),
     g_terminal_job_count = length (filter (\<lambda>j. is_terminal_status (j_status j)) jobs),
     g_total_job_count = length jobs,
     g_latest_updated_at = foldl later_of None (map j_updated_at jobs)\<rparr>"

definition parallel_group_summary ::
  "background_state_store \<Rightarrow> string \<Rightarrow> background_parallel_group_summary option" where
  "parallel_group_summary s gid =
     (let jobs = filter (\<lambda>j. j_parallel_group_id j = Some gid) (hvals (s_jobs s))
      in if jobs = [] then None else Some (build_parallel_group_summary gid jobs))"

definition push_job ::
  "(string, background_run_status list) hmap \<Rightarrow> background_run_status \<Rightarrow> (string, background_run_status list) hmap" where
  "push_job m j =
     (case j_parallel_group_id j of
        None \<Rightarrow> m
      | Some g \<Rightarrow> hput g ((case hget m g of Some js \<Rightarrow> js | None \<Rightarrow> []) @ [j]) m)"

definition parallel_group_summaries :: "background_state_store \<Rightarrow> background_parallel_group_summary list" where
  "parallel_group_summaries s =
     (let grouped = foldl push_job [] (hvals (s_jobs s))
      in concat (map (\<lambda>g. case hget grouped g of
                            Some js \<Rightarrow> [build_parallel_group_summary g js] | None \<Rightarrow> []) (sort (hkeys grouped))))"

section \<open>Payloads\<close>

definition pair_json :: "string \<Rightarrow> string \<Rightarrow> string \<times> string \<Rightarrow> json" where
  "pair_json k1 k2 = (\<lambda>(a, b). JObj [(k1, JStr b), (k2, JStr a)])"

definition snapshot_payload :: "background_state_store \<Rightarrow> json" where
  "snapshot_payload s = JObj
     [(''active_sessions'', JArr (map (pair_json ''job_id'' ''session_id'')
         (sorted_string_pairs (s_active_sessions s)))),
      (''control_plane'', s_control_plane s),
      (''jobs'', JArr (map job_json (sorted_jobs (s_jobs s)))),
      (''pending_session_takeovers'', JArr (map (pair_json ''incoming_job_id'' ''session_id'')
         (sorted_string_pairs (s_pending_session_takeovers s))))]"

definition member_or :: "json \<Rightarrow> json \<Rightarrow> string \<Rightarrow> json" where
  "member_or d v k = (case jget v k of Some x \<Rightarrow> x | None \<Rightarrow> d)"

definition health_payload :: "background_state_store \<Rightarrow> json" where
  "health_payload s = (let cp = s_control_plane s in JObj
     [(''active_job_count'', jnat (active_job_count s)),
      (''backend_family'', member_or JNull cp ''backend_family''),
      (''control_plane_authority'', member_or JNull cp ''authority''),
      (''control_plane_delegate_kind'', member_or JNull cp ''delegate_kind''),
      (''control_plane_projection'', member_or JNull cp ''projection''),
      (''control_plane_role'', member_or JNull cp ''role''),
      (''job_count'', jnat (length (s_jobs s))),
      (''max_background_jobs'', jnat (resolved_capacity_limit None s)),
      (''max_background_jobs_limit'', jnat MAX_BACKGROUND_JOBS_LIMIT),
      (''parallel_group_count'', jnat (length (parallel_group_summaries s))),
      (''pending_session_takeovers'', jnat (length (s_pending_session_takeovers s))),
      (''runtime_control_plane_authority'', member_or JNull cp ''runtime_control_plane_authority''),
      (''runtime_control_plane_schema_version'', member_or JNull cp ''runtime_control_plane_schema_version''),
      (''state_path'', member_or JNull cp ''state_path''),
      (''supports_atomic_replace'', member_or (JBool False) cp ''supports_atomic_replace''),
      (''supports_compaction'', member_or (JBool False) cp ''supports_compaction''),
      (''supports_consistent_append'', member_or (JBool False) cp ''supports_consistent_append''),
      (''supports_remote_event_transport'', member_or (JBool False) cp ''supports_remote_event_transport''),
      (''supports_snapshot_delta'', member_or (JBool False) cp ''supports_snapshot_delta''),
      (''supports_sqlite_wal'', member_or (JBool False) cp ''supports_sqlite_wal''),
      (''terminal_job_count'', jnat (terminal_job_count s))])"

end
