(* ===== verification/Job_Service.thy ===== *)
theory Job_Service
  imports Job_Store
begin

text \<open>
  Loading and persisting the job store and the request handler
  (\<^verbatim>\<open>background_state/persist.rs\<close>, and \<^verbatim>\<open>load\<close>, \<^verbatim>\<open>persist\<close>, \<^verbatim>\<open>apply_mutation\<close> and
  \<^verbatim>\<open>arbitrate_session_takeover\<close> of \<^verbatim>\<open>background_state/store.rs\<close>). The world holds the state
  files, the payload tables and the process-wide time of the last reaping.
\<close>

section \<open>World and clock\<close>

record job_world =
  w_file :: "string \<Rightarrow> string option"
  w_db :: "string \<Rightarrow> (string \<Rightarrow> string option) option"
  w_last_reaped :: "int option"

text \<open>
  The readings of the clock during one request: the two of \<^verbatim>\<open>load\<close> and the two of
  \<^verbatim>\<open>now_iso\<close> when a job is created.
\<close>

record job_clock =
  c_guard :: int
  c_reap :: int
  c_iso :: "string \<times> string"

section \<open>Reading and writing the document\<close>

definition parse_persisted :: "job_env \<Rightarrow> string \<Rightarrow> (job_error, persisted_background_state option) result" where
  "parse_persisted e text =
     (case Option.bind (e_text_json e text) persisted_of_json of
        None \<Rightarrow> Inl (error_kind.Json, StateMalformed)
      | Some p \<Rightarrow> Inr (Some p))"

definition read_sqlite_state ::
  "job_env \<Rightarrow> job_world \<Rightarrow> string \<Rightarrow> string \<Rightarrow> (job_error, persisted_background_state option) result" where
  "read_sqlite_state e w path db =
     (case w_db w db of
        None \<Rightarrow> Inr None
      | Some rows \<Rightarrow>
          (case path_parent (path_components path) of
             None \<Rightarrow> Inl (Validation, NoParent)
           | Some base \<Rightarrow>
               bind_result (sqlite_storage_key e base (path_components path)) (\<lambda>stable.
                 let legacy = (case e_canonicalize e (path_components path) of
                                 None \<Rightarrow> path | Some p \<Rightarrow> path_text p)
                 in if \<not> e_db_opens e db then Inl (Validation, DatabaseFailed)
                    else if \<not> e_db_queries e db then Inl (Validation, DatabaseFailed)
                    else (case (case rows stable of Some t \<Rightarrow> Some t | None \<Rightarrow> rows legacy) of
                            None \<Rightarrow> Inr None
                          | Some text \<Rightarrow> parse_persisted e text))))"

definition read_persisted_state ::
  "job_env \<Rightarrow> job_world \<Rightarrow> string \<Rightarrow> string \<Rightarrow> string option \<Rightarrow> string option \<Rightarrow>
   (job_error, persisted_background_state option) result" where
  "read_persisted_state e w path family db_path payload =
     (let f = normalized_backend_family family in
      if f \<in> {''filesystem'', ''file''} then
        (case w_file w path of
           None \<Rightarrow> Inr None
         | Some text \<Rightarrow> if \<not> e_readable e path then Inl (Io, FileUnreadable) else parse_persisted e text)
      else if f = ''memory'' then
        (case payload of None \<Rightarrow> Inr None | Some text \<Rightarrow> parse_persisted e text)
      else if f \<in> {''sqlite'', ''sqlite3''} then
        (case db_path of None \<Rightarrow> Inl (Validation, MissingDbPath) | Some db \<Rightarrow> read_sqlite_state e w path db)
      else Inl (Unsupported, UnsupportedFamily))"

definition write_sqlite_state ::
  "job_env \<Rightarrow> job_world \<Rightarrow> string \<Rightarrow> string \<Rightarrow> string \<Rightarrow> job_world \<times> (job_error, unit) result" where
  "write_sqlite_state e w path db payload =
     (case path_parent (path_components path) of
        None \<Rightarrow> (w, Inl (Validation, NoParent))
      | Some base \<Rightarrow>
          (case sqlite_storage_key e base (path_components path) of
             Inl err \<Rightarrow> (w, Inl err)
           | Inr key \<Rightarrow>
               if \<not> e_db_opens e db then (w, Inl (Validation, DatabaseFailed))
               else
                 let rows = (case w_db w db of None \<Rightarrow> Map.empty | Some r \<Rightarrow> r)
                 in if \<not> e_db_writes e db
                    then (w\<lparr>w_db := (w_db w)(db \<mapsto> rows)\<rparr>, Inl (Validation, DatabaseFailed))
                    else (w\<lparr>w_db := (w_db w)(db \<mapsto> rows(key \<mapsto> payload))\<rparr>, Inr ())))"

definition write_persisted_state ::
  "job_env \<Rightarrow> job_world \<Rightarrow> string \<Rightarrow> string \<Rightarrow> string option \<Rightarrow> string \<Rightarrow> job_world \<times> (job_error, unit) result" where
  "write_persisted_state e w path family db_path payload =
     (let f = normalized_backend_family family in
      if f \<in> {''filesystem'', ''file''} then
        (if e_write_ok e path then (w\<lparr>w_file := (w_file w)(path \<mapsto> payload)\<rparr>, Inr ())
         else (w, Inl (Io, WriteFailed)))
      else if f \<in> {''sqlite'', ''sqlite3''} then
        (case db_path of None \<Rightarrow> (w, Inl (Validation, MissingDbPath))
         | Some db \<Rightarrow> write_sqlite_state e w path db payload)
      else (w, Inl (Unsupported, UnsupportedFamily)))"

text \<open>A memory store returns the text instead of writing it.\<close>

definition persist ::
  "job_env \<Rightarrow> job_world \<Rightarrow> background_state_store \<Rightarrow> job_world \<times> (job_error, string option) result" where
  "persist e w s =
     (let payload = serialized_payload e s in
      if s_backend_family s = ''memory'' then (w, Inr (Some payload))
      else (case write_persisted_state e w (s_state_path s) (s_backend_family s) (s_sqlite_db_path s) payload of
              (w', Inl err) \<Rightarrow> (w', Inl err)
            | (w', Inr _) \<Rightarrow> (w', Inr None)))"

section \<open>Loading\<close>

definition REAP_CACHE_TTL_SECS :: int where
  "REAP_CACHE_TTL_SECS = 60"

text \<open>\<^verbatim>\<open>Duration::num_seconds\<close>, which rounds towards zero.\<close>

definition num_seconds :: "int \<Rightarrow> int" where
  "num_seconds n = (if 0 \<le> n then n div 1000000000 else - ((- n) div 1000000000))"

definition reap_due :: "int \<Rightarrow> int option \<Rightarrow> bool" where
  "reap_due now prior =
     (case prior of Some t \<Rightarrow> \<not> num_seconds (now - t) < REAP_CACHE_TTL_SECS | None \<Rightarrow> True)"

definition reap_all :: "job_env \<Rightarrow> int \<Rightarrow> background_state_store \<Rightarrow> background_state_store" where
  "reap_all e now s =
     (case reap_stale_active_jobs e now s of (n1, s) \<Rightarrow>
      case reap_stale_terminal_jobs e now s of (n2, s) \<Rightarrow>
      case reap_ghost_status_jobs e now s of (n3, s) \<Rightarrow>
        if n1 + n2 + n3 > 0 then s\<lparr>s_reaped_dirty := True\<rparr> else s)"

definition empty_store :: "background_state_request \<Rightarrow> string \<Rightarrow> json \<Rightarrow> string \<Rightarrow> background_state_store" where
  "empty_store q family cp path = \<lparr>s_state_path = path,
     s_backend_family = normalized_backend_family family, s_sqlite_db_path = q_sqlite_db_path q,
     s_control_plane = cp, s_jobs = [], s_active_sessions = [], s_pending_session_takeovers = [],
     s_reaped_dirty = False\<rparr>"

text \<open>The store as the document has it, before any reaping.\<close>

definition load_document ::
  "job_env \<Rightarrow> job_world \<Rightarrow> background_state_request \<Rightarrow> (job_error, background_state_store) result" where
  "load_document e w q =
     (case q_state_path q of
        None \<Rightarrow> Inl (Validation, MissingArgument ''state_path'')
      | Some path \<Rightarrow>
          let family = (case q_backend_family q of None \<Rightarrow> ''filesystem'' | Some f \<Rightarrow> f) in
          bind_result (build_state_control_plane (q_control_plane_descriptor q) family path) (\<lambda>cp.
          bind_result (read_persisted_state e w path family (q_sqlite_db_path q) (q_state_payload_text q)) (\<lambda>p.
            let s = empty_store q family cp path
            in Inr (case p of None \<Rightarrow> s | Some p \<Rightarrow> merge_persisted p s))))"

definition load_store ::
  "job_env \<Rightarrow> job_clock \<Rightarrow> job_world \<Rightarrow> background_state_request \<Rightarrow>
   (job_world \<times> (job_error, background_state_store) result) option" where
  "load_store e c w q =
     (case load_document e w q of
        Inl err \<Rightarrow> Some (w, Inl err)
      | Inr s \<Rightarrow>
          if reap_due (c_guard c) (w_last_reaped w) then
            map_option (\<lambda>s. (w\<lparr>w_last_reaped := Some (c_guard c)\<rparr>, Inr s))
              (compact_terminal_over_capacity (q_capacity_limit q) (reap_all e (c_reap c) s))
          else Some (w, Inr s))"

definition flush_reap_if_dirty ::
  "job_env \<Rightarrow> job_world \<Rightarrow> background_state_store \<Rightarrow> job_world \<times> background_state_store" where
  "flush_reap_if_dirty e w s =
     (if \<not> s_reaped_dirty s then (w, s)
      else (case persist e w s of
              (w', Inr _) \<Rightarrow> (w', s\<lparr>s_reaped_dirty := False\<rparr>)
            | (w', Inl _) \<Rightarrow> (w', s)))"

section \<open>Operations\<close>

definition apply_mutation ::
  "job_env \<Rightarrow> job_clock \<Rightarrow> job_world \<Rightarrow> string \<Rightarrow> background_job_status_mutation \<Rightarrow> background_state_store \<Rightarrow>
   job_world \<times> (job_error, background_run_status \<times> string option \<times> background_state_store) result" where
  "apply_mutation e c w jid m s =
     (case mutate_job (c_iso c) jid m s of
        Inl err \<Rightarrow> (w, Inl err)
      | Inr (updated, s') \<Rightarrow>
          (case persist e w s' of
             (w', Inl err) \<Rightarrow> (w', Inl err)
           | (w', Inr text) \<Rightarrow> (w', Inr (updated, text, s'))))"

definition arbitration_record ::
  "string \<Rightarrow> string \<Rightarrow> string \<Rightarrow> background_state_store \<Rightarrow> string \<times> bool \<times> background_state_store \<Rightarrow>
   background_session_takeover_arbitration" where
  "arbitration_record opn sid incoming s r =
     (case r of (outcome, changed, s') \<Rightarrow> \<lparr>
       t_schema_version = BACKGROUND_SESSION_TAKEOVER_ARBITRATION_SCHEMA_VERSION,
       t_operation = opn, t_session_id = sid, t_incoming_job_id = incoming,
       t_previous_active_job_id = hget (s_active_sessions s) sid,
       t_previous_pending_job_id = hget (s_pending_session_takeovers s) sid,
       t_active_job_id = hget (s_active_sessions s') sid,
       t_pending_job_id = hget (s_pending_session_takeovers s') sid,
       t_outcome = outcome, t_changed = changed\<rparr>)"

definition arbitrate_session_takeover ::
  "job_env \<Rightarrow> job_clock \<Rightarrow> job_world \<Rightarrow> string \<Rightarrow> string \<Rightarrow> string \<Rightarrow> background_state_store \<Rightarrow>
   job_world \<times> (job_error, background_session_takeover_arbitration \<times> string option \<times> background_state_store) result" where
  "arbitrate_session_takeover e c w opn sid incoming s =
     (case arbitrate (fst (c_iso c)) opn sid incoming s of
        Inl err \<Rightarrow> (w, Inl err)
      | Inr (outcome, changed, s') \<Rightarrow>
          (case (if changed then persist e w s' else (w, Inr None)) of
             (w', Inl err) \<Rightarrow> (w', Inl err)
           | (w', Inr text) \<Rightarrow>
               (w', Inr (arbitration_record opn sid incoming s (outcome, changed, s'), text, s'))))"

section \<open>Handlers\<close>

type_synonym response = "(string \<times> json) list"

definition base_response :: "string \<Rightarrow> background_state_store \<Rightarrow> response" where
  "base_response opn s =
     [(''authority'', JStr BACKGROUND_STATE_STORE_AUTHORITY),
      (''health'', health_payload s),
      (''operation'', JStr opn),
      (''schema_version'', JStr BACKGROUND_STATE_STORE_SCHEMA_VERSION),
      (''state'', snapshot_payload s)]"

definition with_payload_text :: "string option \<Rightarrow> response \<Rightarrow> response" where
  "with_payload_text text r =
     (case text of None \<Rightarrow> r | Some t \<Rightarrow> jput ''persisted_payload_text'' (JStr t) r)"

definition with_state :: "background_state_store \<Rightarrow> response \<Rightarrow> response" where
  "with_state s r = jput ''health'' (health_payload s) (jput ''state'' (snapshot_payload s) r)"

definition required :: "string \<Rightarrow> 'a option \<Rightarrow> (job_error, 'a) result" where
  "required name x = (case x of None \<Rightarrow> Inl (Validation, MissingArgument name) | Some a \<Rightarrow> Inr a)"

definition apply_mutation_handler ::
  "job_env \<Rightarrow> job_clock \<Rightarrow> job_world \<Rightarrow> background_state_store \<Rightarrow> background_state_request \<Rightarrow> response \<Rightarrow>
   job_world \<times> (job_error, response) result" where
  "apply_mutation_handler e c w s q r =
     (case bind_result (required ''job_id'' (q_job_id q)) (\<lambda>i.
           bind_result (required ''mutation'' (q_mutation q)) (\<lambda>m. Inr (i, m))) of
        Inl err \<Rightarrow> (w, Inl err)
      | Inr (i, m) \<Rightarrow>
          (case apply_mutation e c w i m s of
             (w', Inl err) \<Rightarrow> (w', Inl err)
           | (w', Inr (job, text, s')) \<Rightarrow>
               (w', Inr (with_state s' (with_payload_text text (jput ''job'' (job_json job) r))))))"

definition get_handler :: "background_state_store \<Rightarrow> background_state_request \<Rightarrow> response \<Rightarrow> (job_error, response) result" where
  "get_handler s q r =
     bind_result (required ''job_id'' (q_job_id q)) (\<lambda>i. Inr (jput ''job'' (jopt job_json (get_job s i)) r))"

definition get_active_job_handler ::
  "background_state_store \<Rightarrow> background_state_request \<Rightarrow> response \<Rightarrow> (job_error, response) result" where
  "get_active_job_handler s q r =
     bind_result (required ''session_id'' (q_session_id q)) (\<lambda>sid.
       Inr (jput ''active_job_id'' (jopt JStr (active_job s sid)) r))"

definition takeover_response ::
  "job_world \<times> (job_error, background_session_takeover_arbitration \<times> string option \<times> background_state_store) result \<Rightarrow>
   response \<Rightarrow> job_world \<times> (job_error, response) result" where
  "takeover_response x r =
     (case x of
        (w', Inl err) \<Rightarrow> (w', Inl err)
      | (w', Inr (t, text, s')) \<Rightarrow>
          (w', Inr (with_state s' (with_payload_text text (jput ''takeover'' (takeover_json t) r)))))"

definition arbitrate_session_takeover_handler ::
  "job_env \<Rightarrow> job_clock \<Rightarrow> job_world \<Rightarrow> background_state_store \<Rightarrow> background_state_request \<Rightarrow> response \<Rightarrow>
   job_world \<times> (job_error, response) result" where
  "arbitrate_session_takeover_handler e c w s q r =
     (case bind_result (required ''arbitration_operation'' (q_arbitration_operation q)) (\<lambda>opn.
           bind_result (required ''session_id'' (q_session_id q)) (\<lambda>sid.
           bind_result (required ''incoming_job_id'' (q_incoming_job_id q)) (\<lambda>i. Inr (opn, sid, i)))) of
        Inl err \<Rightarrow> (w, Inl err)
      | Inr (opn, sid, i) \<Rightarrow> takeover_response (arbitrate_session_takeover e c w opn sid i s) r)"

definition reserve_claim_release_handler ::
  "job_env \<Rightarrow> job_clock \<Rightarrow> job_world \<Rightarrow> background_state_store \<Rightarrow> background_state_request \<Rightarrow> response \<Rightarrow>
   job_world \<times> (job_error, response) result" where
  "reserve_claim_release_handler e c w s q r =
     (case bind_result (required ''session_id'' (q_session_id q)) (\<lambda>sid.
           bind_result (required ''incoming_job_id'' (q_incoming_job_id q)) (\<lambda>i. Inr (sid, i))) of
        Inl err \<Rightarrow> (w, Inl err)
      | Inr (sid, i) \<Rightarrow> takeover_response (arbitrate_session_takeover e c w (q_operation q) sid i s) r)"

definition parallel_group_summary_handler ::
  "background_state_store \<Rightarrow> background_state_request \<Rightarrow> response \<Rightarrow> (job_error, response) result" where
  "parallel_group_summary_handler s q r =
     bind_result (required ''parallel_group_id'' (q_parallel_group_id q)) (\<lambda>g.
       Inr (jput ''parallel_group_summary'' (jopt group_summary_json (parallel_group_summary s g)) r))"

definition parallel_group_summaries_handler :: "background_state_store \<Rightarrow> response \<Rightarrow> response" where
  "parallel_group_summaries_handler s r =
     jput ''parallel_group_summaries'' (JArr (map group_summary_json (parallel_group_summaries s))) r"

section \<open>Requests\<close>

definition is_mutating_background_operation :: "string \<Rightarrow> bool" where
  "is_mutating_background_operation opn \<longleftrightarrow>
     opn \<in> {''apply_mutation'', ''arbitrate_session_takeover'', ''reserve'', ''claim'', ''release''}"

definition dispatch ::
  "job_env \<Rightarrow> job_clock \<Rightarrow> job_world \<Rightarrow> background_state_store \<Rightarrow> background_state_request \<Rightarrow>
   job_world \<times> (job_error, response) result" where
  "dispatch e c w s q =
     (let r = base_response (q_operation q) s; opn = q_operation q in
      if opn = ''snapshot'' then (w, Inr r)
      else if opn = ''apply_mutation'' then apply_mutation_handler e c w s q r
      else if opn = ''get'' then (w, get_handler s q r)
      else if opn = ''get_active_job'' then (w, get_active_job_handler s q r)
      else if opn = ''arbitrate_session_takeover'' then arbitrate_session_takeover_handler e c w s q r
      else if opn \<in> {''reserve'', ''claim'', ''release''} then reserve_claim_release_handler e c w s q r
      else if opn = ''parallel_group_summary'' then (w, parallel_group_summary_handler s q r)
      else if opn = ''parallel_group_summaries'' then (w, Inr (parallel_group_summaries_handler s r))
      else if opn = ''health'' then (w, Inr r)
      else (w, Inl (Unsupported, UnsupportedOperation opn)))"

definition needs_path_lock :: "background_state_request \<Rightarrow> bool" where
  "needs_path_lock q \<longleftrightarrow>
     normalized_backend_family (case q_backend_family q of None \<Rightarrow> ''filesystem'' | Some f \<Rightarrow> f) \<in>
       {''filesystem'', ''file'', ''sqlite'', ''sqlite3''}"

definition handle_request ::
  "job_env \<Rightarrow> job_clock \<Rightarrow> job_world \<Rightarrow> background_state_request \<Rightarrow>
   (job_world \<times> (job_error, response) result) option" where
  "handle_request e c w q =
     (if q_schema_version q \<noteq> BACKGROUND_STATE_REQUEST_SCHEMA_VERSION
      then Some (w, Inl (Validation, UnknownRequestVersion (q_schema_version q)))
      else case (if needs_path_lock q then Option.bind (q_state_path q) (e_lock_error e) else None) of
        Some kind \<Rightarrow> Some (w, Inl (kind, LockFailed))
      | None \<Rightarrow> map_option (\<lambda>(w, loaded).
             case loaded of
               Inl err \<Rightarrow> (w, Inl err)
             | Inr s \<Rightarrow>
                 (case (if is_mutating_background_operation (q_operation q)
                        then flush_reap_if_dirty e w s else (w, s)) of
                    (w, s) \<Rightarrow> dispatch e c w s q))
           (load_store e c w q))"

definition handle_background_state_operation ::
  "job_env \<Rightarrow> job_clock \<Rightarrow> job_world \<Rightarrow> json \<Rightarrow> (job_world \<times> (job_error, json) result) option" where
  "handle_background_state_operation e c w v =
     (case request_of_json v of
        None \<Rightarrow> Some (w, Inl (Validation, MalformedRequest))
      | Some q \<Rightarrow> map_option (\<lambda>(w, r). (w, map_sum id JObj r)) (handle_request e c w q))"

end
