(* ===== verification/Job_Sessions.thy ===== *)
theory Job_Sessions
  imports Job_Service
begin

text \<open>
  Sessions of the job store: who owns a session after a mutation, when a mutation is refused,
  and how a session changes hands.
\<close>

section \<open>Well-formed stores\<close>

text \<open>The maps have distinct keys and a job is stored under its own id.\<close>

definition store_ok :: "background_state_store \<Rightarrow> bool" where
  "store_ok s \<longleftrightarrow> hmap_ok (s_jobs s) \<and> hmap_ok (s_active_sessions s) \<and>
     hmap_ok (s_pending_session_takeovers s) \<and> (\<forall>(i, j) \<in> set (s_jobs s). j_job_id j = i)"

text \<open>Every owner of a session is an active job.\<close>

definition sessions_live :: "background_state_store \<Rightarrow> bool" where
  "sessions_live s \<longleftrightarrow> (\<forall>sid i. hget (s_active_sessions s) sid = Some i \<longrightarrow> job_active (s_jobs s) i)"

lemma store_ok_keyed: "store_ok s \<Longrightarrow> hget (s_jobs s) i = Some j \<Longrightarrow> j_job_id j = i"
  unfolding store_ok_def by (auto dest: hget_Some_in)

lemma store_okI:
  assumes "hmap_ok (s_jobs s)" "hmap_ok (s_active_sessions s)" "hmap_ok (s_pending_session_takeovers s)"
    "\<And>i j. hget (s_jobs s) i = Some j \<Longrightarrow> j_job_id j = i"
  shows "store_ok s"
  using assms in_hget_Some unfolding store_ok_def by fastforce

lemma store_ok_maps:
  assumes "store_ok s"
  shows "hmap_ok (s_jobs s)" "hmap_ok (s_active_sessions s)" "hmap_ok (s_pending_session_takeovers s)"
  using assms by (simp_all add: store_ok_def)

section \<open>Effects of the session operations\<close>

lemma reserve_session_Inr:
  "reserve_session jid sess status s = Inr s' \<longleftrightarrow>
     (case sess of
        Some sid \<Rightarrow>
          if is_active_status status
          then hget (s_active_sessions s) sid \<in> {None, Some jid} \<and>
               s' = s\<lparr>s_active_sessions := hput sid jid (s_active_sessions s)\<rparr>
          else s' = s
      | None \<Rightarrow> s' = s)"
  unfolding reserve_session_def by (auto split: option.splits)

lemma reserve_session_Inl:
  "reserve_session jid sess status s = Inl err \<longleftrightarrow>
     (\<exists>sid owner. sess = Some sid \<and> is_active_status status \<and> hget (s_active_sessions s) sid = Some owner \<and>
        owner \<noteq> jid \<and> err = (Validation, SessionActive sid owner))"
  unfolding reserve_session_def by (auto split: option.splits)

lemma drop_own_session_fields [simp]:
  "s_jobs (drop_own_session jid sid s) = s_jobs s"
  "s_pending_session_takeovers (drop_own_session jid sid s) = s_pending_session_takeovers s"
  "hget (s_active_sessions (drop_own_session jid sid s)) x =
     (if x = sid \<and> hget (s_active_sessions s) sid = Some jid then None else hget (s_active_sessions s) x)"
  by (auto simp: drop_own_session_def hmap_simps)

lemma release_previous_session_fields [simp]:
  "s_jobs (release_previous_session jid prev nxt s) = s_jobs s"
  "s_pending_session_takeovers (release_previous_session jid prev nxt s) = s_pending_session_takeovers s"
  "hget (s_active_sessions (release_previous_session jid prev nxt s)) x =
     (if prev = Some x \<and> nxt \<noteq> Some x \<and> hget (s_active_sessions s) x = Some jid then None
      else hget (s_active_sessions s) x)"
  by (auto simp: release_previous_session_def split: option.splits)

lemma finalize_session_fields [simp]:
  "s_jobs (finalize_session jid sess st s) = s_jobs s"
  "s_pending_session_takeovers (finalize_session jid sess st s) = s_pending_session_takeovers s"
  "hget (s_active_sessions (finalize_session jid sess st s)) x =
     (if sess = Some x \<and> is_terminal_status st \<and> hget (s_active_sessions s) x = Some jid then None
      else hget (s_active_sessions s) x)"
  by (auto simp: finalize_session_def split: option.splits)

lemma session_maps_ok [machine_intros]:
  "hmap_ok (s_active_sessions s) \<Longrightarrow> hmap_ok (s_active_sessions (drop_own_session jid sid s))"
  "hmap_ok (s_active_sessions s) \<Longrightarrow> hmap_ok (s_active_sessions (release_previous_session jid prev nxt s))"
  "hmap_ok (s_active_sessions s) \<Longrightarrow> hmap_ok (s_active_sessions (finalize_session jid prev st s))"
  by (simp_all add: drop_own_session_def release_previous_session_def finalize_session_def hdel_ok
      split: option.splits)

section \<open>Mutations\<close>

text \<open>The session a mutation resolves to, and the session the job had.\<close>

definition previous_session :: "string \<Rightarrow> background_state_store \<Rightarrow> string option" where
  "previous_session jid s = Option.bind (hget (s_jobs s) jid) j_session_id"

definition resolved_session :: "string \<Rightarrow> background_job_status_mutation \<Rightarrow> background_state_store \<Rightarrow> string option" where
  "resolved_session jid m s = or_else (m_session_id m) (previous_session jid s)"

definition updated_job ::
  "string \<times> string \<Rightarrow> string \<Rightarrow> background_job_status_mutation \<Rightarrow> background_state_store \<Rightarrow> background_run_status" where
  "updated_job now jid m s =
     mutation_apply now (m\<lparr>m_session_id := resolved_session jid m s\<rparr>) jid (hget (s_jobs s) jid)"

lemma updated_job_simps [simp]:
  "j_status (updated_job now jid m s) = m_status m"
  "j_session_id (updated_job now jid m s) = resolved_session jid m s"
proof -
  show "j_status (updated_job now jid m s) = m_status m" by (simp add: updated_job_def)
  show "j_session_id (updated_job now jid m s) = resolved_session jid m s"
    by (cases "hget (s_jobs s) jid"; cases "m_session_id m"; cases "previous_session jid s")
      (simp_all add: updated_job_def resolved_session_def previous_session_def)
qed

lemma updated_job_id: "store_ok s \<Longrightarrow> j_job_id (updated_job now jid m s) = jid"
  by (cases "hget (s_jobs s) jid") (auto simp: updated_job_def dest: store_ok_keyed)

text \<open>The owner of a session after an accepted mutation.\<close>

definition owner_after ::
  "string \<Rightarrow> background_job_status_mutation \<Rightarrow> background_state_store \<Rightarrow> string \<Rightarrow> string option" where
  "owner_after jid m s sid =
     (if resolved_session jid m s = Some sid
      then if is_active_status (m_status m) then Some jid
           else if is_terminal_status (m_status m) \<and> hget (s_active_sessions s) sid = Some jid then None
           else hget (s_active_sessions s) sid
      else if previous_session jid s = Some sid \<and> hget (s_active_sessions s) sid = Some jid then None
      else hget (s_active_sessions s) sid)"

definition mutation_accepted :: "string \<Rightarrow> background_job_status_mutation \<Rightarrow> background_state_store \<Rightarrow> bool" where
  "mutation_accepted jid m s \<longleftrightarrow>
     m_status m \<in> set (successors (map_option j_status (hget (s_jobs s) jid))) \<and>
     (is_active_status (m_status m) \<longrightarrow>
       (\<forall>sid. resolved_session jid m s = Some sid \<longrightarrow> hget (s_active_sessions s) sid \<in> {None, Some jid}))"

lemma mutate_job_Inr:
  assumes "mutate_job now jid m s = Inr (job, s')"
  shows "mutation_accepted jid m s" "job = updated_job now jid m s"
    "s_jobs s' = hput jid job (s_jobs s)"
    "s_pending_session_takeovers s' = s_pending_session_takeovers s"
    "hget (s_active_sessions s') sid = owner_after jid m s sid"
    "hmap_ok (s_active_sessions s) \<Longrightarrow> hmap_ok (s_active_sessions s')"
proof -
  let ?sess = "resolved_session jid m s"
  obtain s1 where
    v: "m_status m \<in> set (successors (map_option j_status (hget (s_jobs s) jid)))" and
    r: "reserve_session jid ?sess (m_status m) s = Inr s1" and
    job: "job = updated_job now jid m s" and
    s': "s' = finalize_session jid ?sess (m_status m)
           (release_previous_session jid (previous_session jid s) ?sess (s1\<lparr>s_jobs := hput jid job (s_jobs s1)\<rparr>))"
    using assms unfolding mutate_job_def Let_def bind_result_Inr_iff
    by (auto simp: resolved_session_def previous_session_def updated_job_def)
  have s1: "s_jobs s1 = s_jobs s" "s_pending_session_takeovers s1 = s_pending_session_takeovers s"
    using r unfolding reserve_session_Inr by (auto split: option.splits if_splits)
  show "mutation_accepted jid m s"
    using v r unfolding mutation_accepted_def reserve_session_Inr by (auto split: option.splits if_splits)
  show "job = updated_job now jid m s" by (rule job)
  show "s_jobs s' = hput jid job (s_jobs s)"
    "s_pending_session_takeovers s' = s_pending_session_takeovers s" by (simp_all add: s' s1)
  have "hget (s_active_sessions s1) = (case ?sess of None \<Rightarrow> hget (s_active_sessions s)
      | Some x \<Rightarrow> if is_active_status (m_status m) then (hget (s_active_sessions s))(x \<mapsto> jid)
                 else hget (s_active_sessions s))"
    using r unfolding reserve_session_Inr by (auto simp: hmap_simps split: option.splits if_splits)
  then show "hget (s_active_sessions s') sid = owner_after jid m s sid"
    by (auto simp: s' owner_after_def dest: active_not_terminal split: option.splits)
  have "hmap_ok (s_active_sessions s1)" if "hmap_ok (s_active_sessions s)"
    using r that unfolding reserve_session_Inr by (auto intro: hput_ok split: option.splits if_splits)
  then show "hmap_ok (s_active_sessions s) \<Longrightarrow> hmap_ok (s_active_sessions s')"
    unfolding s' by (intro session_maps_ok) simp
qed

lemma mutate_job_Inl:
  "mutate_job now jid m s = Inl err \<longleftrightarrow>
     (let st = map_option j_status (hget (s_jobs s) jid) in
      if m_status m \<notin> set (successors st) then err = (Validation, InvalidTransition st (m_status m))
      else \<exists>sid owner. resolved_session jid m s = Some sid \<and> is_active_status (m_status m) \<and>
             hget (s_active_sessions s) sid = Some owner \<and> owner \<noteq> jid \<and>
             err = (Validation, SessionActive sid owner))"
  unfolding mutate_job_def Let_def bind_result_Inl_iff validate_transition_def
  by (auto simp: resolved_session_def previous_session_def reserve_session_Inl)

lemma mutate_job_accepted: "(\<exists>r. mutate_job now jid m s = Inr r) \<longleftrightarrow> mutation_accepted jid m s"
proof (cases "mutate_job now jid m s")
  case (Inl err)
  then have "\<not> mutation_accepted jid m s"
    unfolding mutate_job_Inl mutation_accepted_def Let_def by (auto split: if_splits)
  then show ?thesis using Inl by simp
next
  case (Inr r)
  then show ?thesis using mutate_job_Inr(1) by (cases r) auto
qed

lemma mutate_job_ok:
  assumes "store_ok s" "mutate_job now jid m s = Inr (job, s')"
  shows "store_ok s'"
  using assms store_ok_maps [OF assms(1)] mutate_job_Inr [OF assms(2)]
  by (intro store_okI) (auto simp: hput_ok hmap_simps updated_job_id dest: store_ok_keyed split: if_splits)

text \<open>
  The other fields of a job after a mutation: what the mutation gives, else what the job had, else
  the default of a new job.
\<close>

definition optional_kept ::
  "'a option \<Rightarrow> (background_run_status \<Rightarrow> 'a option) \<Rightarrow> background_run_status option \<Rightarrow> background_run_status \<Rightarrow> bool" where
  "optional_kept given f old job \<longleftrightarrow>
     (\<forall>x. given = Some x \<longrightarrow> f job = Some x) \<and>
     (given = None \<longrightarrow> (\<forall>j. old = Some j \<longrightarrow> f job = f j) \<and> (old = None \<longrightarrow> f job = None))"

definition value_kept ::
  "'a \<Rightarrow> 'a option \<Rightarrow> (background_run_status \<Rightarrow> 'a) \<Rightarrow> background_run_status option \<Rightarrow> background_run_status \<Rightarrow> bool" where
  "value_kept d given f old job \<longleftrightarrow>
     (\<forall>x. given = Some x \<longrightarrow> f job = x) \<and>
     (given = None \<longrightarrow> (\<forall>j. old = Some j \<longrightarrow> f job = f j) \<and> (old = None \<longrightarrow> f job = d))"

definition other_fields ::
  "string \<times> string \<Rightarrow> background_job_status_mutation \<Rightarrow> background_run_status option \<Rightarrow> background_run_status \<Rightarrow> bool" where
  "other_fields now m old job \<longleftrightarrow>
     (\<forall>j. old = Some j \<longrightarrow> j_created_at job = j_created_at j \<and> j_updated_at job = fst now) \<and>
     (old = None \<longrightarrow> j_created_at job = fst now \<and> j_updated_at job = snd now) \<and>
     optional_kept (m_parallel_group_id m) j_parallel_group_id old job \<and>
     optional_kept (m_lane_id m) j_lane_id old job \<and>
     optional_kept (m_parent_job_id m) j_parent_job_id old job \<and>
     optional_kept (m_result m) j_result old job \<and>
     optional_kept (m_error m) j_error old job \<and>
     optional_kept (m_timeout_seconds m) j_timeout_seconds old job \<and>
     optional_kept (m_claimed_by m) j_claimed_by old job \<and>
     optional_kept (m_claimed_at m) j_claimed_at old job \<and>
     optional_kept (m_max_backoff_seconds m) j_max_backoff_seconds old job \<and>
     optional_kept (m_backoff_seconds m) j_backoff_seconds old job \<and>
     optional_kept (m_next_retry_at m) j_next_retry_at old job \<and>
     optional_kept (m_retry_scheduled_at m) j_retry_scheduled_at old job \<and>
     optional_kept (m_retry_claimed_at m) j_retry_claimed_at old job \<and>
     optional_kept (m_interrupt_requested_at m) j_interrupt_requested_at old job \<and>
     optional_kept (m_interrupted_at m) j_interrupted_at old job \<and>
     optional_kept (m_last_attempt_started_at m) j_last_attempt_started_at old job \<and>
     optional_kept (m_last_attempt_finished_at m) j_last_attempt_finished_at old job \<and>
     optional_kept (m_last_failure_at m) j_last_failure_at old job \<and>
     value_kept DEFAULT_BACKGROUND_JOB_MULTITASK_STRATEGY (m_multitask_strategy m) j_multitask_strategy old job \<and>
     value_kept DEFAULT_BACKGROUND_JOB_ATTEMPT (m_attempt m) j_attempt old job \<and>
     value_kept DEFAULT_BACKGROUND_JOB_RETRY_COUNT (m_retry_count m) j_retry_count old job \<and>
     value_kept DEFAULT_BACKGROUND_JOB_MAX_ATTEMPTS (m_max_attempts m) j_max_attempts old job \<and>
     value_kept DEFAULT_BACKGROUND_JOB_BACKOFF_BASE_SECONDS (m_backoff_base_seconds m) j_backoff_base_seconds old job \<and>
     value_kept DEFAULT_BACKGROUND_JOB_BACKOFF_MULTIPLIER (m_backoff_multiplier m) j_backoff_multiplier old job"

lemma optional_kept_intros [intro]:
  "optional_kept given f None job" if "f job = given"
  using that by (simp add: optional_kept_def)

lemma optional_kept_merge [intro]: "f job = or_else given (f j) \<Longrightarrow> optional_kept given f (Some j) job"
  by (simp add: optional_kept_def or_else_def)

lemma updated_job_fields: "other_fields now m (hget (s_jobs s) jid) (updated_job now jid m s)"
proof (cases "hget (s_jobs s) jid")
  case None
  then show ?thesis
    by (cases now) (auto simp: other_fields_def value_kept_def updated_job_def mutation_apply_def mutation_new_def)
next
  case (Some j)
  then show ?thesis
    by (auto simp: other_fields_def value_kept_def updated_job_def mutation_apply_def mutation_merge_def)
qed

text \<open>
  C14: The effect of a mutation. It is accepted exactly if the transition table allows the
  status and, for an active status, the session the job ends up with is free or its own. The
  job is then stored with the new status and that session, and every other field is the one given, else
  the one it had, else the default; no other job changes. An
  active job owns its session afterwards, a finished one does not; a session the job left is
  given up; no other session changes hands. A refused mutation names the transition or the
  session and its owner.
\<close>

theorem mutation_effect:
  assumes "store_ok s"
  shows "case mutate_job now jid m s of
      Inl err \<Rightarrow> \<not> mutation_accepted jid m s \<and>
        (err = (Validation, InvalidTransition (map_option j_status (hget (s_jobs s) jid)) (m_status m)) \<or>
         (\<exists>sid owner. err = (Validation, SessionActive sid owner) \<and> owner \<noteq> jid \<and>
            hget (s_active_sessions s) sid = Some owner \<and> resolved_session jid m s = Some sid))
    | Inr (job, s') \<Rightarrow> mutation_accepted jid m s \<and> store_ok s' \<and>
        j_status job = m_status m \<and> j_job_id job = jid \<and> j_session_id job = resolved_session jid m s \<and>
        other_fields now m (hget (s_jobs s) jid) job \<and>
        hget (s_jobs s') = (hget (s_jobs s))(jid \<mapsto> job) \<and>
        (\<forall>sid. hget (s_active_sessions s') sid =
           (if j_session_id job = Some sid \<and> is_active_status (j_status job) then Some jid
            else if j_session_id job = Some sid \<or> previous_session jid s = Some sid then
              (if hget (s_active_sessions s) sid = Some jid then None else hget (s_active_sessions s) sid)
            else hget (s_active_sessions s) sid))"
proof (cases "mutate_job now jid m s")
  case (Inl err)
  then have "\<not> mutation_accepted jid m s" using mutate_job_accepted [of now jid m s] by auto
  then show ?thesis using Inl [unfolded mutate_job_Inl Let_def] by (auto simp: Inl split: if_splits)
next
  case (Inr r)
  obtain job s' where r: "r = (job, s')" by force
  note eff = mutate_job_Inr [OF Inr [unfolded r]]
  have "is_active_status (m_status m) \<or> is_terminal_status (m_status m)"
    using eff(1) successors_known unfolding mutation_accepted_def by blast
  then have "hget (s_active_sessions s') sid =
      (if resolved_session jid m s = Some sid \<and> is_active_status (m_status m) then Some jid
       else if resolved_session jid m s = Some sid \<or> previous_session jid s = Some sid then
         (if hget (s_active_sessions s) sid = Some jid then None else hget (s_active_sessions s) sid)
       else hget (s_active_sessions s) sid)" for sid
    unfolding eff(5) owner_after_def by (auto dest: active_not_terminal)
  then show ?thesis
    using eff mutate_job_ok [OF assms Inr [unfolded r]] updated_job_id [OF assms] updated_job_fields
    by (simp add: Inr r hmap_simps)
qed

text \<open>A small store: one running job that owns a session, and a finished one.\<close>

definition demo_job :: "string \<Rightarrow> string \<Rightarrow> string option \<Rightarrow> string \<Rightarrow> background_run_status" where
  "demo_job i st sess t =
     (claimed_placeholder t i [])\<lparr>j_status := st, j_session_id := sess, j_retry_claimed_at := None\<rparr>"

lemma demo_job_simps [simp]:
  "j_job_id (demo_job i st sess t) = i" "j_status (demo_job i st sess t) = st"
  "j_session_id (demo_job i st sess t) = sess" "j_updated_at (demo_job i st sess t) = t"
  "j_parallel_group_id (demo_job i st sess t) = None" "j_error (demo_job i st sess t) = None"
  by (simp_all add: demo_job_def claimed_placeholder_def)

definition demo_store :: background_state_store where
  "demo_store = \<lparr>s_state_path = ''state.json'', s_backend_family = ''memory'', s_sqlite_db_path = None,
     s_control_plane = JObj [], s_jobs = [(''a'', demo_job ''a'' ''running'' (Some ''s'') ''t1''),
       (''b'', demo_job ''b'' ''completed'' None ''t0'')],
     s_active_sessions = [(''s'', ''a'')], s_pending_session_takeovers = [], s_reaped_dirty = False\<rparr>"

definition demo_mutation :: "string \<Rightarrow> string option \<Rightarrow> background_job_status_mutation" where
  "demo_mutation st sess = \<lparr>m_status = st, m_session_id = sess, m_parallel_group_id = None,
     m_lane_id = None, m_parent_job_id = None, m_multitask_strategy = None, m_result = None,
     m_error = None, m_timeout_seconds = None, m_claimed_by = None, m_attempt = None,
     m_retry_count = None, m_max_attempts = None, m_claimed_at = None, m_backoff_base_seconds = None,
     m_backoff_multiplier = None, m_max_backoff_seconds = None, m_backoff_seconds = None,
     m_next_retry_at = None, m_retry_scheduled_at = None, m_retry_claimed_at = None,
     m_interrupt_requested_at = None, m_interrupted_at = None, m_last_attempt_started_at = None,
     m_last_attempt_finished_at = None, m_last_failure_at = None\<rparr>"

lemma demo_mutation_simps [simp]:
  "m_status (demo_mutation st sess) = st" "m_session_id (demo_mutation st sess) = sess"
  by (simp_all add: demo_mutation_def)

lemma demo_store_ok [simp]: "store_ok demo_store"
  by (simp add: store_ok_def demo_store_def hmap_ok_def)

lemma demo_store_live [simp]: "sessions_live demo_store"
  by (simp add: sessions_live_def demo_store_def job_active_def status_defs)

theorem mutation_effect_witness:
  "(\<exists>job s'. mutate_job (''n'', ''n'') ''a'' (demo_mutation ''completed'' None) demo_store = Inr (job, s') \<and>
     j_status job = ''completed'' \<and> hget (s_active_sessions s') ''s'' = None) \<and>
   mutate_job (''n'', ''n'') ''c'' (demo_mutation ''queued'' (Some ''s'')) demo_store =
     Inl (Validation, SessionActive ''s'' ''a'')"
proof
  have acc: "mutation_accepted ''a'' (demo_mutation ''completed'' None) demo_store"
    by (simp add: mutation_accepted_def demo_store_def successors_rows status_defs)
  then obtain job s' where mj: "mutate_job (''n'', ''n'') ''a'' (demo_mutation ''completed'' None) demo_store = Inr (job, s')"
    using mutate_job_accepted by (metis surj_pair)
  have "hget (s_active_sessions demo_store) ''s'' = Some ''a''" "\<not> is_active_status ''completed''"
    "previous_session ''a'' demo_store = Some ''s''"
    by (simp_all add: demo_store_def status_defs previous_session_def)
  with mutation_effect [OF demo_store_ok, where now = "(''n'', ''n'')" and jid = "''a''"
    and m = "demo_mutation ''completed'' None"] mj
  show "\<exists>job s'. mutate_job (''n'', ''n'') ''a'' (demo_mutation ''completed'' None) demo_store = Inr (job, s') \<and>
     j_status job = ''completed'' \<and> hget (s_active_sessions s') ''s'' = None"
    by (auto split: if_splits)
  show "mutate_job (''n'', ''n'') ''c'' (demo_mutation ''queued'' (Some ''s'')) demo_store =
     Inl (Validation, SessionActive ''s'' ''a'')"
    unfolding mutate_job_Inl
    by (simp add: demo_store_def successors_def status_defs resolved_session_def)
qed

section \<open>Takeover\<close>

text \<open>What a successful takeover request may do to the two session maps and to the jobs.\<close>

definition takeover_effect ::
  "string \<Rightarrow> string \<Rightarrow> string \<Rightarrow> background_state_store \<Rightarrow> background_state_store \<Rightarrow> bool" where
  "takeover_effect opn sid incoming s s' \<longleftrightarrow>
     (let owner = hget (s_active_sessions s) sid; owner' = hget (s_active_sessions s') sid;
          waiting = hget (s_pending_session_takeovers s) sid;
          waiting' = hget (s_pending_session_takeovers s') sid
      in (\<forall>x. x \<noteq> sid \<longrightarrow> hget (s_active_sessions s') x = hget (s_active_sessions s) x \<and>
             hget (s_pending_session_takeovers s') x = hget (s_pending_session_takeovers s) x) \<and>
         (owner' \<noteq> owner \<longrightarrow>
            (opn = ''claim'' \<and> owner = None \<and> owner' = Some incoming) \<or>
            (opn = ''release'' \<and> owner = Some incoming \<and> owner' = None \<and> hget (s_jobs s) incoming = None)) \<and>
         (opn = ''claim'' \<longrightarrow> waiting = Some incoming \<and> owner' = Some incoming \<and> waiting' = None) \<and>
         (waiting' \<noteq> waiting \<longrightarrow>
            (opn = ''reserve'' \<and> waiting = None \<and> waiting' = Some incoming \<and> owner \<noteq> None \<and> owner \<noteq> Some incoming) \<or>
            (opn \<in> {''claim'', ''release''} \<and> waiting = Some incoming \<and> waiting' = None)) \<and>
         (\<forall>i. hget (s_jobs s') i \<noteq> hget (s_jobs s) i \<longrightarrow>
            opn = ''claim'' \<and> i = incoming \<and> hget (s_jobs s) i = None \<and>
            (\<exists>now. hget (s_jobs s') i = Some (claimed_placeholder now incoming sid))))"

lemma arbitrate_reserve_effect:
  "arbitrate_reserve sid incoming s = Inr (out, ch, s') \<Longrightarrow> takeover_effect ''reserve'' sid incoming s s'"
  unfolding arbitrate_reserve_def Let_def takeover_effect_def
  by (auto simp: hmap_simps split: if_splits option.splits)

lemma arbitrate_claim_effect:
  "arbitrate_claim now sid incoming s = Inr (out, ch, s') \<Longrightarrow> takeover_effect ''claim'' sid incoming s s'"
  unfolding arbitrate_claim_def Let_def takeover_effect_def
  by (auto simp: hmap_simps split: if_splits)

lemma arbitrate_release_effect:
  "arbitrate_release sid incoming s = (out, ch, s') \<Longrightarrow> takeover_effect ''release'' sid incoming s s'"
  unfolding arbitrate_release_def Let_def takeover_effect_def
  by (auto simp: hmap_simps split: if_splits)

text \<open>
  A takeover gives a session only to the job that holds its reservation, by a claim, and only
  when nobody owns it. Another job's reservation can neither be replaced nor claimed; an owner
  cannot be evicted; a release gives up only one's own reservation, or a session owned by a
  job that does not exist. Other sessions and existing jobs are untouched, and the only job a
  takeover creates is the placeholder of a claim.
\<close>

theorem takeover_only_by_claim:
  assumes "arbitrate now opn sid incoming s = Inr (out, ch, s')"
  shows "takeover_effect opn sid incoming s s'"
  using assms unfolding arbitrate_def
  by (auto split: if_splits intro: arbitrate_reserve_effect arbitrate_claim_effect arbitrate_release_effect)

theorem takeover_only_by_claim_witness:
  "\<exists>s'. arbitrate ''n'' ''reserve'' ''s'' ''c'' demo_store = Inr (''pending'', True, s') \<and>
     takeover_effect ''reserve'' ''s'' ''c'' demo_store s'"
proof -
  have "arbitrate ''n'' ''reserve'' ''s'' ''c'' demo_store = Inr (''pending'', True,
      demo_store\<lparr>s_pending_session_takeovers := [(''s'', ''c'')]\<rparr>)"
    by (simp add: arbitrate_def arbitrate_reserve_def demo_store_def)
  from this takeover_only_by_claim [OF this] show ?thesis by blast
qed

text \<open>Two claims of one session cannot both succeed, whatever the state.\<close>

lemma second_claim_refused:
  assumes "arbitrate now ''claim'' sid i s = Inr (out, ch, s')"
  shows "arbitrate now' ''claim'' sid k s' = Inl (Validation, NotReserved sid k)"
proof -
  have "takeover_effect ''claim'' sid i s s'"
    using assms by (simp add: arbitrate_def arbitrate_claim_effect)
  then have "hget (s_pending_session_takeovers s') sid = None" by (simp add: takeover_effect_def Let_def)
  then show ?thesis by (simp add: arbitrate_def arbitrate_claim_def Let_def)
qed

section \<open>A whole hand-over\<close>

lemma finished_owner_releases:
  assumes "mutate_job now a m s = Inr (job, s')" "is_terminal_status (m_status m)"
    "hget (s_active_sessions s) sid = Some a" "resolved_session a m s = Some sid \<or> previous_session a s = Some sid"
  shows "hget (s_active_sessions s') sid = None"
  using assms(2-4) active_not_terminal unfolding mutate_job_Inr(5) [OF assms(1)] owner_after_def by auto

text \<open>
  The hand-over of a session works end to end. While a job owns the session another job
  can reserve it, and nobody else can; when the owner then finishes, the waiting job's claim
  succeeds and makes it the owner, with no reservation left.
\<close>

theorem takeover_handoff:
  assumes "hget (s_active_sessions s) sid = Some a" "hget (s_pending_session_takeovers s) sid = None"
    "b \<noteq> a" "previous_session a s = Some sid" "is_terminal_status (m_status m)"
    "mutation_accepted a m s"
  shows "\<exists>s1 job s2 s3. arbitrate t ''reserve'' sid b s = Inr (''pending'', True, s1) \<and>
      (\<forall>c. c \<noteq> b \<longrightarrow> arbitrate t ''reserve'' sid c s1 = Inl (Validation, TakeoverPending sid b)) \<and>
      mutate_job now a m s1 = Inr (job, s2) \<and>
      arbitrate t ''claim'' sid b s2 = Inr (''claimed'', True, s3) \<and>
      hget (s_active_sessions s3) sid = Some b \<and> hget (s_pending_session_takeovers s3) sid = None \<and>
      hget (s_jobs s3) a = Some job"
proof -
  define s1 where "s1 = s\<lparr>s_pending_session_takeovers := hput sid b (s_pending_session_takeovers s)\<rparr>"
  have res: "arbitrate t ''reserve'' sid b s = Inr (''pending'', True, s1)"
    using assms(1-3) by (simp add: arbitrate_def arbitrate_reserve_def s1_def)
  have others: "arbitrate t ''reserve'' sid c s1 = Inl (Validation, TakeoverPending sid b)" if "c \<noteq> b" for c
    using that by (simp add: arbitrate_def arbitrate_reserve_def s1_def hmap_simps)
  have same: "s_jobs s1 = s_jobs s" "s_active_sessions s1 = s_active_sessions s" by (simp_all add: s1_def)
  then have "mutation_accepted a m s1"
    using assms(6) by (simp add: mutation_accepted_def resolved_session_def previous_session_def)
  then obtain job s2 where mut: "mutate_job now a m s1 = Inr (job, s2)"
    using mutate_job_accepted by (metis surj_pair)
  have free: "hget (s_active_sessions s2) sid = None"
    using finished_owner_releases [OF mut assms(5)] assms(1,4) by (simp add: same previous_session_def)
  have wait: "hget (s_pending_session_takeovers s2) sid = Some b"
    unfolding mutate_job_Inr(4) [OF mut] by (simp add: s1_def hmap_simps)
  have job: "hget (s_jobs s2) a = Some job"
    unfolding mutate_job_Inr(3) [OF mut] by (simp add: hmap_simps)
  obtain s3 where claim: "arbitrate t ''claim'' sid b s2 = Inr (''claimed'', True, s3)"
    using free wait by (simp add: arbitrate_def arbitrate_claim_def Let_def)
  then have eff: "takeover_effect ''claim'' sid b s2 s3"
    by (simp add: arbitrate_def arbitrate_claim_effect)
  have "hget (s_active_sessions s3) sid = Some b \<and> hget (s_pending_session_takeovers s3) sid = None \<and>
      hget (s_jobs s3) a = Some job"
    using eff job assms(3) unfolding takeover_effect_def Let_def by metis
  then show ?thesis using res others mut claim by blast
qed

theorem takeover_handoff_witness:
  "\<exists>s1 job s2 s3. arbitrate ''t'' ''reserve'' ''s'' ''c'' demo_store = Inr (''pending'', True, s1) \<and>
     mutate_job (''n'', ''n'') ''a'' (demo_mutation ''failed'' None) s1 = Inr (job, s2) \<and>
     arbitrate ''t'' ''claim'' ''s'' ''c'' s2 = Inr (''claimed'', True, s3) \<and>
     hget (s_active_sessions s3) ''s'' = Some ''c''"
proof -
  have "hget (s_active_sessions demo_store) ''s'' = Some ''a''"
    "hget (s_pending_session_takeovers demo_store) ''s'' = None"
    "previous_session ''a'' demo_store = Some ''s''"
    "is_terminal_status (m_status (demo_mutation ''failed'' None))"
    "mutation_accepted ''a'' (demo_mutation ''failed'' None) demo_store"
    by (simp_all add: demo_store_def previous_session_def status_defs mutation_accepted_def successors_rows)
  from takeover_handoff [OF this(1,2) _ this(3-5), of "''c''" "''t''" "(''n'', ''n'')"] show ?thesis by auto
qed

text \<open>
  A reservation does not keep a third job out. Once the owner has finished, a job that
  never reserved the session takes it by an ordinary status mutation, because mutations look
  only at the owner; the claim of the job that holds the reservation is then refused.
\<close>

theorem reservation_bypassed:
  assumes "hget (s_active_sessions s) sid = None" "hget (s_pending_session_takeovers s) sid = Some b"
    "hget (s_jobs s) c = None" "c \<noteq> b" "m_session_id m = Some sid" "m_status m = ''running''"
  shows "\<exists>job s'. mutate_job now c m s = Inr (job, s') \<and> hget (s_active_sessions s') sid = Some c \<and>
      arbitrate t ''claim'' sid b s' = Inl (Validation, StillActive sid c)"
proof -
  have "mutation_accepted c m s"
    using assms by (simp add: mutation_accepted_def successors_def resolved_session_def previous_session_def)
  then obtain job s' where mut: "mutate_job now c m s = Inr (job, s')"
    using mutate_job_accepted by (metis surj_pair)
  have own: "hget (s_active_sessions s') sid = Some c"
    using assms by (simp add: mutate_job_Inr(5) [OF mut] owner_after_def resolved_session_def status_defs)
  have "hget (s_pending_session_takeovers s') sid = Some b"
    using assms(2) mutate_job_Inr(4) [OF mut] by simp
  with own have "arbitrate t ''claim'' sid b s' = Inl (Validation, StillActive sid c)"
    using assms(4) by (simp add: arbitrate_def arbitrate_claim_def Let_def)
  with mut own show ?thesis by blast
qed

theorem reservation_bypassed_witness:
  "\<exists>s job s'. hget (s_pending_session_takeovers s) ''s'' = Some ''b'' \<and>
     mutate_job (''n'', ''n'') ''c'' (demo_mutation ''running'' (Some ''s'')) s = Inr (job, s') \<and>
     hget (s_active_sessions s') ''s'' = Some ''c''"
proof -
  let ?s = "demo_store\<lparr>s_active_sessions := [], s_pending_session_takeovers := [(''s'', ''b'')]\<rparr>"
  have "hget (s_active_sessions ?s) ''s'' = None" "hget (s_pending_session_takeovers ?s) ''s'' = Some ''b''"
    "hget (s_jobs ?s) ''c'' = None" by (simp_all add: demo_store_def)
  from this(2) reservation_bypassed [OF this, of "demo_mutation ''running'' (Some ''s'')" "(''n'', ''n'')" "''t''"]
  have "hget (s_pending_session_takeovers ?s) ''s'' = Some ''b'' \<and>
     (\<exists>job s'. mutate_job (''n'', ''n'') ''c'' (demo_mutation ''running'' (Some ''s'')) ?s = Inr (job, s') \<and>
        hget (s_active_sessions s') ''s'' = Some ''c'')" by auto
  then show ?thesis by blast
qed

end
