(* ===== verification/Job_Loading.thy ===== *)
theory Job_Loading
  imports Job_Sessions
begin

text \<open>
  What a loaded store satisfies: the effect of the reaper and of the merge of a persisted
  document, the termination and the effect of compaction, the round trip through a document,
  and the life of a job along sequences of store operations.
\<close>

section \<open>Lists of updates\<close>

lemma hget_foldl_hmodify:
  "distinct ids \<Longrightarrow> hget (foldl (\<lambda>m i. hmodify i f m) m ids) k =
     (if k \<in> set ids then map_option f (hget m k) else hget m k)"
  by (induction ids arbitrary: m) (auto simp: hmap_simps option.map_comp)

lemma hmap_ok_foldl_hmodify: "hmap_ok m \<Longrightarrow> hmap_ok (foldl (\<lambda>m i. hmodify i f m) m ids)"
  by (induction ids arbitrary: m) (auto intro: hmodify_ok)

lemma hget_foldl_hmodify_pairs:
  "distinct (map fst ps) \<Longrightarrow> hget (foldl (\<lambda>m (i, x). hmodify i (f x) m) m ps) k =
     (case map_of ps k of Some x \<Rightarrow> map_option (f x) (hget m k) | None \<Rightarrow> hget m k)"
proof (induction ps arbitrary: m)
  case (Cons p ps)
  obtain i x where p: "p = (i, x)" by force
  have "map_of ps i = None" using Cons.prems by (simp add: p map_of_eq_None_iff)
  then show ?case using Cons by (auto simp: p hmap_simps split: option.splits)
qed simp

lemma hmap_ok_foldl_hmodify_pairs: "hmap_ok m \<Longrightarrow> hmap_ok (foldl (\<lambda>m (i, x). hmodify i (f x) m) m ps)"
  by (induction ps arbitrary: m) (auto intro: hmodify_ok split: prod.splits)

lemma hget_foldl_hdel: "hget (foldl (\<lambda>m i. hdel i m) m ids) k = (if k \<in> set ids then None else hget m k)"
  by (induction ids arbitrary: m) (auto simp: hmap_simps)

lemma hmap_ok_foldl_hdel: "hmap_ok m \<Longrightarrow> hmap_ok (foldl (\<lambda>m i. hdel i m) m ids)"
  by (induction ids arbitrary: m) (auto intro: hdel_ok)

lemma hdel_filter: "hdel k m = filter (\<lambda>(i, _). i \<noteq> k) m"
  by (induction m) auto

lemma foldl_hdel_filter: "foldl (\<lambda>m i. hdel i m) m ids = filter (\<lambda>(i, _). i \<notin> set ids) m"
proof (induction ids arbitrary: m)
  case (Cons i ids)
  have "filter (\<lambda>(k, _). k \<notin> set ids) (filter (\<lambda>(k, _). k \<noteq> i) m) = filter (\<lambda>(k, _). k \<notin> set (i # ids)) m"
    unfolding filter_filter by (rule filter_cong) auto
  then show ?case using Cons by (simp add: hdel_filter)
qed simp

lemma selected_ids:
  assumes "hmap_ok m"
  shows "distinct (map fst (filter P m))"
    "k \<in> set (map fst (filter (\<lambda>(_, j). Q j) m)) \<longleftrightarrow> (\<exists>j. hget m k = Some j \<and> Q j)"
  using assms hget_iff_in [OF assms]
  by (auto simp: hmap_ok_def distinct_map_filter image_iff)

section \<open>Reaping\<close>

lemma release_jobs_fields [simp]:
  "s_jobs (release_jobs ids s) = s_jobs s" "s_reaped_dirty (release_jobs ids s) = s_reaped_dirty s"
  "s_control_plane (release_jobs ids s) = s_control_plane s"
  by (simp_all add: release_jobs_def)

lemma release_jobs_sessions:
  assumes "store_ok s"
  shows "hget (s_active_sessions (release_jobs ids s)) sid =
      (case hget (s_active_sessions s) sid of
         Some i \<Rightarrow> if i \<in> set ids then None else Some i | None \<Rightarrow> None)"
    "hget (s_pending_session_takeovers (release_jobs ids s)) sid =
      (case hget (s_pending_session_takeovers s) sid of
         Some i \<Rightarrow> if i \<in> set ids then None else Some i | None \<Rightarrow> None)"
  using store_ok_maps [OF assms] by (simp_all add: release_jobs_def hmap_simps split: option.splits)

lemma release_jobs_ok: "store_ok s \<Longrightarrow> store_ok (release_jobs ids s)"
  by (simp add: store_ok_def release_jobs_def hretain_ok)

lemma with_jobs_ok:
  assumes "store_ok s" "hmap_ok jobs" "\<And>i j. hget jobs i = Some j \<Longrightarrow> j_job_id j = i"
  shows "store_ok (s\<lparr>s_jobs := jobs\<rparr>)"
  using assms store_ok_maps [OF assms(1)] by (intro store_okI) auto

text \<open>A stale active job, a job overdue for removal, and a job of unknown status.\<close>

definition stale_active :: "job_env \<Rightarrow> int \<Rightarrow> background_run_status \<Rightarrow> bool" where
  "stale_active e now j \<longleftrightarrow> is_active_status (j_status j) \<and> older_than e (now - nanos STALE_ACTIVE_HEARTBEAT_TTL_SECS) j"

definition stale_terminal :: "job_env \<Rightarrow> int \<Rightarrow> background_run_status \<Rightarrow> bool" where
  "stale_terminal e now j \<longleftrightarrow>
     is_terminal_status (j_status j) \<and> older_than e (now - nanos STALE_TERMINAL_JOB_TTL_SECS) j"

definition ghost :: "background_run_status \<Rightarrow> bool" where
  "ghost j \<longleftrightarrow> \<not> is_active_status (j_status j) \<and> \<not> is_terminal_status (j_status j)"

lemma reap_stale_active_jobs_effect:
  assumes ok: "store_ok s" and r: "reap_stale_active_jobs e now s = (n, s')"
  shows "store_ok s'"
    "hget (s_jobs s') i = (case hget (s_jobs s) i of
       None \<Rightarrow> None
     | Some j \<Rightarrow> Some (if stale_active e now j
         then interrupt_job (e_to_rfc3339 e now) (stale_message (j_status j)) j else j))"
    "hget (s_active_sessions s') sid = (case hget (s_active_sessions s) sid of
       None \<Rightarrow> None
     | Some i \<Rightarrow> (case hget (s_jobs s) i of
         Some j \<Rightarrow> if stale_active e now j then None else Some i | None \<Rightarrow> Some i))"
    "n > 0 \<longleftrightarrow> (\<exists>i j. hget (s_jobs s) i = Some j \<and> stale_active e now j)"
    "s_control_plane s' = s_control_plane s"
proof -
  define ids where "ids = stale_active_ids e now s"
  note maps = store_ok_maps [OF ok]
  have mem: "k \<in> set ids \<longleftrightarrow> (\<exists>j. hget (s_jobs s) k = Some j \<and> stale_active e now j)" for k
    unfolding ids_def stale_active_ids_def stale_active_def by (rule selected_ids(2) [OF maps(1)])
  have dist: "distinct ids" unfolding ids_def stale_active_ids_def by (rule selected_ids(1) [OF maps(1)])
  let ?f = "\<lambda>j. interrupt_job (e_to_rfc3339 e now) (stale_message (j_status j)) j"
  define jobs where "jobs = foldl (\<lambda>m i. hmodify i ?f m) (s_jobs s) ids"
  have s': "s' = (if ids = [] then s\<lparr>s_jobs := jobs\<rparr> else release_jobs ids (s\<lparr>s_jobs := jobs\<rparr>))" and n: "n = length ids"
    using r unfolding reap_stale_active_jobs_def Let_def ids_def [symmetric] jobs_def [symmetric] by auto
  have jobs: "hget jobs k = (if k \<in> set ids then map_option ?f (hget (s_jobs s) k) else hget (s_jobs s) k)" for k
    unfolding jobs_def by (rule hget_foldl_hmodify [OF dist])
  have ok1: "store_ok (s\<lparr>s_jobs := jobs\<rparr>)"
  proof (rule with_jobs_ok [OF ok])
    show "hmap_ok jobs" unfolding jobs_def by (rule hmap_ok_foldl_hmodify [OF maps(1)])
    show "j_job_id j = k" if "hget jobs k = Some j" for k j
      using that store_ok_keyed [OF ok] by (auto simp: jobs interrupt_job_def split: if_splits)
  qed
  then show "store_ok s'" by (simp add: s' release_jobs_ok)
  show "hget (s_jobs s') i = (case hget (s_jobs s) i of None \<Rightarrow> None
     | Some j \<Rightarrow> Some (if stale_active e now j then ?f j else j))"
    using mem [of i] by (cases "ids = []") (auto simp: s' jobs split: option.split)
  show "hget (s_active_sessions s') sid = (case hget (s_active_sessions s) sid of None \<Rightarrow> None
     | Some i \<Rightarrow> (case hget (s_jobs s) i of
         Some j \<Rightarrow> if stale_active e now j then None else Some i | None \<Rightarrow> Some i))"
  proof (cases "ids = []")
    case True
    then have "\<not> (\<exists>j. hget (s_jobs s) k = Some j \<and> stale_active e now j)" for k using mem by simp
    then show ?thesis using True by (auto simp: s' split: option.splits)
  next
    case False
    then show ?thesis
      by (simp add: s' release_jobs_sessions [OF ok1] mem split: option.splits)
  qed
  show "n > 0 \<longleftrightarrow> (\<exists>i j. hget (s_jobs s) i = Some j \<and> stale_active e now j)"
    unfolding n length_greater_0_conv using mem by (metis list.set_intros(1) neq_Nil_conv empty_iff list.set(1))
  show "s_control_plane s' = s_control_plane s" by (simp add: s')
qed

lemma reap_stale_terminal_jobs_effect:
  assumes ok: "store_ok s" and r: "reap_stale_terminal_jobs e now s = (n, s')"
  shows "store_ok s'"
    "hget (s_jobs s') i = (case hget (s_jobs s) i of
       None \<Rightarrow> None | Some j \<Rightarrow> if stale_terminal e now j then None else Some j)"
    "s_active_sessions s' = s_active_sessions s" "s_control_plane s' = s_control_plane s"
    "n > 0 \<longleftrightarrow> (\<exists>i j. hget (s_jobs s) i = Some j \<and> stale_terminal e now j)"
proof -
  define ids where "ids = stale_terminal_ids e now s"
  note maps = store_ok_maps [OF ok]
  have mem: "k \<in> set ids \<longleftrightarrow> (\<exists>j. hget (s_jobs s) k = Some j \<and> stale_terminal e now j)" for k
    unfolding ids_def stale_terminal_ids_def stale_terminal_def by (rule selected_ids(2) [OF maps(1)])
  have s': "s' = s\<lparr>s_jobs := foldl (\<lambda>m i. hdel i m) (s_jobs s) ids\<rparr>" and n: "n = length ids"
    using r by (simp_all add: reap_stale_terminal_jobs_def Let_def ids_def)
  show jobs: "hget (s_jobs s') i = (case hget (s_jobs s) i of
       None \<Rightarrow> None | Some j \<Rightarrow> if stale_terminal e now j then None else Some j)" for i
    by (simp add: s' hget_foldl_hdel mem split: option.split)
  show "store_ok s'"
    using store_ok_keyed [OF ok] unfolding s'
    by (intro with_jobs_ok [OF ok] hmap_ok_foldl_hdel maps) (auto simp: hget_foldl_hdel split: if_splits)
  show "s_active_sessions s' = s_active_sessions s" "s_control_plane s' = s_control_plane s" by (simp_all add: s')
  show "n > 0 \<longleftrightarrow> (\<exists>i j. hget (s_jobs s) i = Some j \<and> stale_terminal e now j)"
    unfolding n length_greater_0_conv using mem by (metis list.set_intros(1) neq_Nil_conv empty_iff list.set(1))
qed

lemma reap_ghost_status_jobs_effect:
  assumes ok: "store_ok s" and r: "reap_ghost_status_jobs e now s = (n, s')"
  shows "store_ok s'"
    "hget (s_jobs s') i = (case hget (s_jobs s) i of
       None \<Rightarrow> None
     | Some j \<Rightarrow> Some (if ghost j then interrupt_job (e_to_rfc3339 e now) (ghost_message (j_status j)) j else j))"
    "hget (s_active_sessions s') sid = (case hget (s_active_sessions s) sid of
       None \<Rightarrow> None
     | Some i \<Rightarrow> (case hget (s_jobs s) i of Some j \<Rightarrow> if ghost j then None else Some i | None \<Rightarrow> Some i))"
    "n > 0 \<longleftrightarrow> (\<exists>i j. hget (s_jobs s) i = Some j \<and> ghost j)"
    "s_control_plane s' = s_control_plane s"
proof -
  define ps where "ps = ghost_pairs s"
  note maps = store_ok_maps [OF ok]
  have ids: "map fst ps = map fst (filter (\<lambda>(_, j). ghost j) (s_jobs s))"
    by (simp add: ps_def ghost_pairs_def ghost_def comp_def case_prod_beta)
  have mem: "k \<in> set (map fst ps) \<longleftrightarrow> (\<exists>j. hget (s_jobs s) k = Some j \<and> ghost j)" for k
    unfolding ids by (rule selected_ids(2) [OF maps(1)])
  have dist: "distinct (map fst ps)" unfolding ids by (rule selected_ids(1) [OF maps(1)])
  have lookup: "map_of ps k = (case hget (s_jobs s) k of
      Some j \<Rightarrow> if ghost j then Some (j_status j) else None | None \<Rightarrow> None)" for k
  proof (cases "map_of ps k")
    case None
    then have "k \<notin> set (map fst ps)" by (simp add: map_of_eq_None_iff)
    then show ?thesis using None mem by (auto split: option.split)
  next
    case (Some x)
    then have "(k, x) \<in> set ps" by (rule map_of_SomeD)
    then obtain j where "(k, j) \<in> set (s_jobs s)" "x = j_status j" "ghost j"
      unfolding ps_def ghost_pairs_def ghost_def by auto
    then have "hget (s_jobs s) k = Some j" using in_hget_Some [OF maps(1)] by blast
    then show ?thesis using Some \<open>x = j_status j\<close> \<open>ghost j\<close> by simp
  qed
  let ?f = "\<lambda>x. interrupt_job (e_to_rfc3339 e now) (ghost_message x)"
  define jobs where "jobs = foldl (\<lambda>m (i, x). hmodify i (?f x) m) (s_jobs s) ps"
  have n: "n = length ps" and
    s': "s' = (if ps = [] then s else release_jobs (map fst ps) (s\<lparr>s_jobs := jobs\<rparr>))"
    using r by (auto simp: reap_ghost_status_jobs_def Let_def ps_def jobs_def split: if_splits)
  have jobs: "hget jobs k = (case hget (s_jobs s) k of None \<Rightarrow> None
     | Some j \<Rightarrow> Some (if ghost j then ?f (j_status j) j else j))" for k
    unfolding jobs_def hget_foldl_hmodify_pairs [OF dist] lookup by (simp split: option.split)
  have ok1: "store_ok (s\<lparr>s_jobs := jobs\<rparr>)"
  proof (rule with_jobs_ok [OF ok])
    show "hmap_ok jobs" unfolding jobs_def by (rule hmap_ok_foldl_hmodify_pairs [OF maps(1)])
    show "j_job_id j = k" if "hget jobs k = Some j" for k j
      using that store_ok_keyed [OF ok] by (auto simp: jobs interrupt_job_def split: if_splits option.splits)
  qed
  then show "store_ok s'" using ok by (simp add: s' release_jobs_ok)
  have none: "\<not> (\<exists>j. hget (s_jobs s) k = Some j \<and> ghost j)" if "ps = []" for k
    using mem that by simp
  show "hget (s_jobs s') i = (case hget (s_jobs s) i of None \<Rightarrow> None
     | Some j \<Rightarrow> Some (if ghost j then ?f (j_status j) j else j))"
    using none by (auto simp: s' jobs split: option.splits)
  show "hget (s_active_sessions s') sid = (case hget (s_active_sessions s) sid of None \<Rightarrow> None
     | Some i \<Rightarrow> (case hget (s_jobs s) i of Some j \<Rightarrow> if ghost j then None else Some i | None \<Rightarrow> Some i))"
  proof (cases "ps = []")
    case True
    then show ?thesis using none by (auto simp: s' split: option.splits)
  next
    case False
    then show ?thesis
      by (simp add: s' release_jobs_sessions [OF ok1] mem del: set_map split: option.splits)
  qed
  show "n > 0 \<longleftrightarrow> (\<exists>i j. hget (s_jobs s) i = Some j \<and> ghost j)"
    unfolding n length_greater_0_conv using mem
    by (metis list.map_disc_iff list.set_intros(1) neq_Nil_conv empty_iff list.set(1))
  show "s_control_plane s' = s_control_plane s" by (simp add: s')
qed

section \<open>Compaction\<close>

abbreviation keyed :: "(string, background_run_status) hmap \<Rightarrow> bool" where
  "keyed m \<equiv> hmap_ok m \<and> (\<forall>(i, j) \<in> set m. j_job_id j = i)"

lemma store_ok_iff: "store_ok s \<longleftrightarrow> keyed (s_jobs s) \<and> hmap_ok (s_active_sessions s) \<and>
    hmap_ok (s_pending_session_takeovers s)"
  by (auto simp: store_ok_def)

lemma foldl_hdel_snd: "foldl (\<lambda>m (_, i). hdel i m) m rows = foldl (\<lambda>m i. hdel i m) m (map snd rows)"
  by (induction rows arbitrary: m) auto

lemma keyed_filter: "keyed m \<Longrightarrow> keyed (filter P m)"
  by (auto simp: hmap_ok_def distinct_map_filter)

lemma terminal_rows_ids:
  assumes "keyed m"
  shows "mset (map snd (terminal_rows m)) = mset (map fst (filter (\<lambda>(_, j). is_terminal_status (j_status j)) m))"
proof -
  have "map (snd \<circ> (\<lambda>j. (j_updated_at j, j_job_id j))) (filter (\<lambda>j. is_terminal_status (j_status j)) (hvals m)) =
      map fst (filter (\<lambda>(_, j). is_terminal_status (j_status j)) m)"
    using assms by (auto simp: filter_map comp_def case_prod_unfold intro!: map_cong)
  moreover have "mset (map snd (sort xs)) = mset (map snd xs)" for xs :: "(string \<times> string) list"
    by (metis mset_map mset_sort)
  ultimately show ?thesis unfolding terminal_rows_def by (simp add: comp_def del: mset_map)
qed

lemma terminal_rows_facts:
  assumes "keyed m"
  shows "distinct (map snd (terminal_rows m))"
    "set (map snd (terminal_rows m)) = {i. \<exists>j. hget m i = Some j \<and> is_terminal_status (j_status j)}"
    "length (terminal_rows m) = length (filter (\<lambda>j. is_terminal_status (j_status j)) (hvals m))"
proof -
  note ms = terminal_rows_ids [OF assms]
  have "distinct (map fst (filter (\<lambda>(_, j). is_terminal_status (j_status j)) m))"
    using assms by (simp add: hmap_ok_def distinct_map_filter)
  then show "distinct (map snd (terminal_rows m))" using mset_eq_imp_distinct_iff [OF ms] by simp
  show "set (map snd (terminal_rows m)) = {i. \<exists>j. hget m i = Some j \<and> is_terminal_status (j_status j)}"
    using mset_eq_setD [OF ms] selected_ids(2) [of m _ "\<lambda>j. is_terminal_status (j_status j)"] assms by blast
  show "length (terminal_rows m) = length (filter (\<lambda>j. is_terminal_status (j_status j)) (hvals m))"
    by (simp add: terminal_rows_def)
qed

lemma length_without:
  assumes "hmap_ok m" "distinct ids" "set ids \<subseteq> set (hkeys m)"
  shows "length (filter (\<lambda>(i, _). i \<notin> set ids) m) + length ids = length m"
proof -
  have "length (filter (\<lambda>(i, _). i \<in> set ids) m) = card (set (map fst (filter (\<lambda>(i, _). i \<in> set ids) m)))"
    using assms(1) by (subst distinct_card) (simp_all add: hmap_ok_def distinct_map_filter)
  also have "set (map fst (filter (\<lambda>(i, _). i \<in> set ids) m)) = set ids"
    using assms(3) by force
  finally have "length (filter (\<lambda>(i, _). i \<in> set ids) m) = length ids"
    using assms(2) by (simp add: distinct_card)
  then show ?thesis
    using sum_length_filter_compl [of "\<lambda>(i, _). i \<in> set ids" m] by (simp add: case_prod_unfold)
qed

text \<open>The jobs one pass of the loop removes, and what is left.\<close>

definition compaction_victims :: "nat \<Rightarrow> (string, background_run_status) hmap \<Rightarrow> string list" where
  "compaction_victims limit m = map snd (take (length m - limit) (terminal_rows m))"

lemma take_min_length: "take (min n (length xs)) xs = take n xs"
  by (cases "n \<le> length xs") (simp_all add: min_def)

lemma compact_loop_once:
  assumes "keyed m"
  shows "compact_loop limit m r =
     Some (if compaction_victims limit m = [] then (m, r)
           else (filter (\<lambda>(i, _). i \<notin> set (compaction_victims limit m)) m, True))"
proof (cases "compaction_victims limit m = []")
  case True
  then have "length m \<le> limit \<or> terminal_rows m = []" by (auto simp: compaction_victims_def)
  then show ?thesis using True by (subst compact_loop.simps) auto
next
  case False
  define m' where "m' = filter (\<lambda>(i, _). i \<notin> set (compaction_victims limit m)) m"
  note facts = terminal_rows_facts [OF assms]
  have prefix_ids: "compaction_victims limit m = take (length m - limit) (map snd (terminal_rows m))"
    by (simp add: compaction_victims_def take_map)
  have dist: "distinct (compaction_victims limit m)" unfolding prefix_ids using facts(1) by (rule distinct_take)
  have terms: "set (compaction_victims limit m) \<subseteq> set (map snd (terminal_rows m))"
    unfolding prefix_ids by (rule set_take_subset)
  moreover have "i \<in> set (hkeys m)" if "hget m i = Some j" for i j
    using that hget_None_iff [of m i] by auto
  ultimately have sub: "set (compaction_victims limit m) \<subseteq> set (hkeys m)"
    unfolding facts(2) by blast
  have k': "keyed m'" unfolding m'_def by (rule keyed_filter [OF assms])
  have len: "length m' + length (compaction_victims limit m) = length m"
    unfolding m'_def using assms by (intro length_without dist sub) simp
  have stopped: "length m' \<le> limit \<or> terminal_rows m' = []"
  proof (cases "length m - limit \<le> length (terminal_rows m)")
    case True
    then have "length (compaction_victims limit m) = length m - limit" by (simp add: prefix_ids)
    with len show ?thesis by linarith
  next
    case False
    then have "set (compaction_victims limit m) = {i. \<exists>j. hget m i = Some j \<and> is_terminal_status (j_status j)}"
      by (simp add: prefix_ids flip: facts(2))
    then have "\<nexists>i j. hget m' i = Some j \<and> is_terminal_status (j_status j)"
      using k' assms by (auto simp: hget_iff_in) (auto simp: m'_def hget_iff_in)
    then have "set (map snd (terminal_rows m')) = {}" unfolding terminal_rows_facts(2) [OF k'] by simp
    then show ?thesis by simp
  qed
  have "\<not> length m \<le> limit" "terminal_rows m \<noteq> []" using False by (auto simp: compaction_victims_def)
  then have "compact_loop limit m r = compact_loop limit m' True"
    by (subst compact_loop.simps)
      (simp add: take_min_length foldl_hdel_snd foldl_hdel_filter m'_def compaction_victims_def)
  also have "\<dots> = Some (m', True)" using stopped by (subst compact_loop.simps) auto
  finally show ?thesis using False by (simp add: m'_def)
qed

lemma terminal_rows_mem:
  assumes "keyed m"
  shows "(t, i) \<in> set (terminal_rows m) \<longleftrightarrow>
    (\<exists>j. hget m i = Some j \<and> is_terminal_status (j_status j) \<and> j_updated_at j = t)"
proof -
  have "(t, i) \<in> set (terminal_rows m) \<longleftrightarrow>
      (\<exists>(k, j) \<in> set m. is_terminal_status (j_status j) \<and> t = j_updated_at j \<and> i = j_job_id j)"
    by (auto simp: terminal_rows_def image_iff)
  also have "\<dots> \<longleftrightarrow> (\<exists>j. (i, j) \<in> set m \<and> is_terminal_status (j_status j) \<and> t = j_updated_at j)"
    using assms by fastforce
  finally show ?thesis using assms by (auto simp: hget_iff_in)
qed

lemma compaction_victims_facts:
  assumes "keyed m"
  shows "i \<in> set (compaction_victims limit m) \<Longrightarrow> \<exists>j. hget m i = Some j \<and> is_terminal_status (j_status j)"
    "length (compaction_victims limit m) = min (length m - limit) (length (filter (\<lambda>j. is_terminal_status (j_status j)) (hvals m)))"
    "length (filter (\<lambda>(k, _). k \<notin> set (compaction_victims limit m)) m) =
       length m - length (compaction_victims limit m)"
    "i \<in> set (compaction_victims limit m) \<Longrightarrow> hget m i = Some j \<Longrightarrow> hget m k = Some l \<Longrightarrow>
       is_terminal_status (j_status l) \<Longrightarrow> k \<notin> set (compaction_victims limit m) \<Longrightarrow>
       (j_updated_at j, i) < (j_updated_at l, k)"
proof -
  let ?rows = "terminal_rows m" and ?n = "length m - limit"
  note facts = terminal_rows_facts [OF assms]
  have ids: "compaction_victims limit m = take ?n (map snd ?rows)" by (simp add: compaction_victims_def take_map)
  have sub: "set (compaction_victims limit m) \<subseteq> set (map snd ?rows)" unfolding ids by (rule set_take_subset)
  then show vic: "\<exists>j. hget m i = Some j \<and> is_terminal_status (j_status j)"
    if "i \<in> set (compaction_victims limit m)" for i
    using that unfolding facts(2) by blast
  show "length (compaction_victims limit m) = min ?n (length (filter (\<lambda>j. is_terminal_status (j_status j)) (hvals m)))"
    by (simp add: ids facts(3) min.commute)
  have keys: "set (compaction_victims limit m) \<subseteq> set (hkeys m)"
    using vic hget_None_iff [of m] by (metis option.distinct(1) subsetI)
  have "distinct (compaction_victims limit m)" unfolding ids using facts(1) by (rule distinct_take)
  then show "length (filter (\<lambda>(k, _). k \<notin> set (compaction_victims limit m)) m) = length m - length (compaction_victims limit m)"
    using length_without [OF _ _ keys] assms by linarith
  show "(j_updated_at j, i) < (j_updated_at l, k)"
    if i: "i \<in> set (compaction_victims limit m)" and j: "hget m i = Some j" and l: "hget m k = Some l"
      and t: "is_terminal_status (j_status l)" and k: "k \<notin> set (compaction_victims limit m)"
  proof -
    from i obtain u where u: "(u, i) \<in> set (take ?n ?rows)" by (auto simp: compaction_victims_def)
    then have "(u, i) \<in> set ?rows" by (rule in_set_takeD)
    then have "u = j_updated_at j" using j by (simp add: terminal_rows_mem [OF assms])
    moreover have "(j_updated_at l, k) \<in> set ?rows" using l t by (simp add: terminal_rows_mem [OF assms])
    then have "(j_updated_at l, k) \<in> set (take ?n ?rows) \<union> set (drop ?n ?rows)"
      by (metis append_take_drop_id set_append)
    with k have "(j_updated_at l, k) \<in> set (drop ?n ?rows)" by (force simp: compaction_victims_def)
    moreover have "sorted (take ?n ?rows @ drop ?n ?rows)" by (simp add: terminal_rows_def)
    ultimately have "(j_updated_at j, i) \<le> (j_updated_at l, k)"
      using u unfolding sorted_append by blast
    moreover have "i \<noteq> k" using i k by blast
    ultimately show ?thesis by (simp add: less_le)
  qed
qed

lemma hget_filter_keys: "hget (filter (\<lambda>(k, _). k \<notin> S) m) i = (if i \<in> S then None else hget m i)"
  by (induction m) auto

lemma compact_result:
  assumes "store_ok s"
  shows "compact_terminal_over_capacity cap s =
    (let vs = compaction_victims (resolved_capacity_limit cap s) (s_jobs s) in
     Some (s\<lparr>s_jobs := filter (\<lambda>(i, _). i \<notin> set vs) (s_jobs s), s_reaped_dirty := s_reaped_dirty s \<or> vs \<noteq> []\<rparr>))"
  using assms unfolding compact_terminal_over_capacity_def store_ok_iff
  by (auto simp: compact_loop_once Let_def)

text \<open>
  C28: Compaction ends on every store, drops no job that is not finished, drops only as many
  finished ones as it takes to get down to the limit, and drops the oldest first: a finished
  job that stays was updated later than each one dropped (ties by id). The number of jobs
  left is the limit, unless the unfinished jobs alone exceed it.
\<close>

theorem compaction_effect:
  assumes "store_ok s"
  shows "let limit = resolved_capacity_limit cap s in \<exists>s'. compact_terminal_over_capacity cap s = Some s' \<and> store_ok s' \<and> 1 \<le> limit \<and> limit \<le> 64 \<and>
      length (s_jobs s') = (if length (s_jobs s) \<le> limit then length (s_jobs s)
                            else max limit (length (s_jobs s) - terminal_job_count s)) \<and>
      (\<forall>i. hget (s_jobs s') i \<noteq> hget (s_jobs s) i \<longrightarrow>
         hget (s_jobs s') i = None \<and> (\<exists>j. hget (s_jobs s) i = Some j \<and> is_terminal_status (j_status j) \<and>
           (\<forall>k l. hget (s_jobs s') k = Some l \<and> is_terminal_status (j_status l) \<longrightarrow>
              (j_updated_at j, i) < (j_updated_at l, k)))) \<and>
      s_active_sessions s' = s_active_sessions s"
proof -
  define limit where "limit = resolved_capacity_limit cap s"
  define vs where "vs = compaction_victims limit (s_jobs s)"
  define s' where "s' = s\<lparr>s_jobs := filter (\<lambda>(i, _). i \<notin> set vs) (s_jobs s), s_reaped_dirty := s_reaped_dirty s \<or> vs \<noteq> []\<rparr>"
  have k: "keyed (s_jobs s)" using assms by (simp add: store_ok_iff)
  note vic = compaction_victims_facts [OF k, where limit = limit, folded vs_def]
  have c: "compact_terminal_over_capacity cap s = Some s'"
    unfolding compact_result [OF assms(1)] by (simp add: Let_def limit_def s'_def vs_def)
  have jobs: "hget (s_jobs s') i = (if i \<in> set vs then None else hget (s_jobs s) i)" for i
    by (simp add: s'_def hget_filter_keys)
  have ok: "store_ok s'" using assms keyed_filter [OF k] by (simp add: s'_def store_ok_iff)
  have len: "length (s_jobs s') = (if length (s_jobs s) \<le> limit then length (s_jobs s)
      else max limit (length (s_jobs s) - terminal_job_count s))"
    using vic(2,3) unfolding terminal_job_count_def [symmetric] by (auto simp: s'_def min_def max_def)
  have lim: "1 \<le> limit \<and> limit \<le> 64"
    by (simp add: limit_def resolved_capacity_limit_def MAX_BACKGROUND_JOBS_LIMIT_def Let_def)
  have gone: "hget (s_jobs s') i = None \<and> (\<exists>j. hget (s_jobs s) i = Some j \<and> is_terminal_status (j_status j) \<and>
      (\<forall>k l. hget (s_jobs s') k = Some l \<and> is_terminal_status (j_status l) \<longrightarrow> (j_updated_at j, i) < (j_updated_at l, k)))"
    if "hget (s_jobs s') i \<noteq> hget (s_jobs s) i" for i
  proof -
    have i: "i \<in> set vs" using that jobs by metis
    then obtain j where j: "hget (s_jobs s) i = Some j" "is_terminal_status (j_status j)" using vic(1) by blast
    have "(j_updated_at j, i) < (j_updated_at l, k)"
      if "hget (s_jobs s') k = Some l" "is_terminal_status (j_status l)" for k l
      using vic(4) [OF i j(1)] that unfolding jobs by (metis option.distinct(1))
    with i j jobs show ?thesis by auto
  qed
  have "s_active_sessions s' = s_active_sessions s" by (simp add: s'_def)
  then show ?thesis unfolding Let_def limit_def [symmetric] using c ok len lim gone by blast
qed

theorem compaction_effect_witness:
  "\<exists>s'. compact_terminal_over_capacity (Some 1) demo_store = Some s' \<and> length (s_jobs s') = 1"
proof -
  have "resolved_capacity_limit (Some 1) demo_store = 1" "length (s_jobs demo_store) = 2"
    "terminal_job_count demo_store = 1"
    by (simp_all add: resolved_capacity_limit_def MAX_BACKGROUND_JOBS_LIMIT_def demo_store_def
        terminal_job_count_def status_defs)
  with compaction_effect [OF demo_store_ok, of "Some 1"] show ?thesis by (auto simp: Let_def)
qed

section \<open>Merging a document\<close>

lemma merge_persisted_ok:
  assumes "hmap_ok (s_active_sessions s)"
  shows "store_ok (merge_persisted p s)"
proof (rule store_okI)
  have "hmap_ok (rebuild_active_sessions jobs)" for jobs by (simp add: rebuild_active_sessions_def)
  then show "hmap_ok (s_active_sessions (merge_persisted p s))"
    by (simp add: merge_persisted_def Let_def hretain_ok)
  show "j_job_id j = i" if "hget (s_jobs (merge_persisted p s)) i = Some j" for i j
    using that by (auto simp: merge_persisted_def Let_def hget_hcollect dest!: map_of_SomeD)
qed (simp_all add: merge_persisted_def Let_def)

lemma merge_persisted_live: "sessions_live (merge_persisted p s)"
proof -
  have "hmap_ok (rebuild_active_sessions jobs)" for jobs by (simp add: rebuild_active_sessions_def)
  then show ?thesis
    by (auto simp: sessions_live_def merge_persisted_def Let_def hget_hretain split: option.splits if_splits)
qed

lemma empty_store_fields [simp]:
  "s_jobs (empty_store q family cp path) = []" "s_active_sessions (empty_store q family cp path) = []"
  "s_pending_session_takeovers (empty_store q family cp path) = []"
  "s_reaped_dirty (empty_store q family cp path) = False"
  "s_state_path (empty_store q family cp path) = path"
  "s_backend_family (empty_store q family cp path) = normalized_backend_family family"
  "s_sqlite_db_path (empty_store q family cp path) = q_sqlite_db_path q"
  "s_control_plane (empty_store q family cp path) = cp"
  by (simp_all add: empty_store_def)

lemma load_document_ok:
  assumes "load_document e w q = Inr s"
  shows "store_ok s" "sessions_live s"
proof -
  obtain path where path: "q_state_path q = Some path"
    using assms by (auto simp: load_document_def split: option.splits)
  obtain family cp p where s: "s = (case p of None \<Rightarrow> empty_store q family cp path
      | Some p \<Rightarrow> merge_persisted p (empty_store q family cp path))"
    using assms unfolding load_document_def path option.case Let_def bind_result_Inr_iff by auto
  have "store_ok (empty_store q family cp path)" "sessions_live (empty_store q family cp path)"
    by (simp_all add: store_ok_def sessions_live_def)
  then show "store_ok s" "sessions_live s"
    by (simp_all add: s merge_persisted_ok merge_persisted_live split: option.split)
qed

section \<open>A full pass of the reaper\<close>

text \<open>What a reaping pass does to one job.\<close>

definition reaped :: "job_env \<Rightarrow> int \<Rightarrow> background_run_status \<Rightarrow> background_run_status option" where
  "reaped e now j =
     (if stale_active e now j then Some (interrupt_job (e_to_rfc3339 e now) (stale_message (j_status j)) j)
      else if stale_terminal e now j then None
      else if ghost j then Some (interrupt_job (e_to_rfc3339 e now) (ghost_message (j_status j)) j)
      else Some j)"

lemma interrupted_job_simps [simp]:
  "j_status (interrupt_job t msg j) = ''interrupted''" "j_updated_at (interrupt_job t msg j) = t"
  "j_session_id (interrupt_job t msg j) = j_session_id j" "j_job_id (interrupt_job t msg j) = j_job_id j"
  by (simp_all add: interrupt_job_def)

lemma interrupted_terminal [simp]: "is_terminal_status ''interrupted''" "\<not> is_active_status ''interrupted''"
  by (simp_all add: status_defs)

text \<open>chrono reads back the timestamp it printed.\<close>

definition reads_back :: "job_env \<Rightarrow> int \<Rightarrow> bool" where
  "reads_back e now \<longleftrightarrow> e_parse_rfc3339 e (e_to_rfc3339 e now) = Some now"

lemma freshly_interrupted: "reads_back e now \<Longrightarrow> \<not> stale_terminal e now (interrupt_job (e_to_rfc3339 e now) msg j)"
  by (simp add: stale_terminal_def older_than_def reads_back_def nanos_def STALE_TERMINAL_JOB_TTL_SECS_def)

lemma reap_all_effect:
  assumes ok: "store_ok s" and rb: "reads_back e now"
  shows "store_ok (reap_all e now s)"
    "hget (s_jobs (reap_all e now s)) i = Option.bind (hget (s_jobs s) i) (reaped e now)"
    "sessions_live s \<Longrightarrow> hget (s_active_sessions (reap_all e now s)) sid =
       (case hget (s_active_sessions s) sid of None \<Rightarrow> None
        | Some i \<Rightarrow> if (\<exists>j. hget (s_jobs s) i = Some j \<and> stale_active e now j) then None else Some i)"
    "s_reaped_dirty (reap_all e now s) \<or> hget (s_jobs (reap_all e now s)) i = hget (s_jobs s) i"
proof -
  obtain n1 s1 where r1: "reap_stale_active_jobs e now s = (n1, s1)" by force
  obtain n2 s2 where r2: "reap_stale_terminal_jobs e now s1 = (n2, s2)" by force
  obtain n3 s3 where r3: "reap_ghost_status_jobs e now s2 = (n3, s3)" by force
  note a = reap_stale_active_jobs_effect [OF ok r1]
  note b = reap_stale_terminal_jobs_effect [OF a(1) r2]
  note c = reap_ghost_status_jobs_effect [OF b(1) r3]
  have all: "reap_all e now s = (if n1 + n2 + n3 > 0 then s3\<lparr>s_reaped_dirty := True\<rparr> else s3)"
    by (simp add: reap_all_def r1 r2 r3)
  have fields: "s_jobs (reap_all e now s) = s_jobs s3" "s_active_sessions (reap_all e now s) = s_active_sessions s3"
    by (simp_all add: all)
  show "store_ok (reap_all e now s)" using c(1) by (simp add: all store_ok_def)
  have ng: "\<not> ghost (interrupt_job t msg j)" for t msg j by (simp add: ghost_def)
  have gh: "\<not> ghost j" if "stale_active e now j \<or> stale_terminal e now j" for j
    using that by (auto simp: ghost_def stale_active_def stale_terminal_def)
  show jobs: "hget (s_jobs (reap_all e now s)) i = Option.bind (hget (s_jobs s) i) (reaped e now)" for i
    unfolding fields c(2) b(2) a(2)
    by (auto simp: reaped_def freshly_interrupted [OF rb] ng split: option.split)
  show "s_reaped_dirty (reap_all e now s) \<or> hget (s_jobs (reap_all e now s)) i = hget (s_jobs s) i"
  proof (cases "n1 + n2 + n3 > 0")
    case False
    then have "n1 = 0" "n2 = 0" "n3 = 0" by simp_all
    then have "hget (s_jobs s1) i = hget (s_jobs s) i"
      using a(4) a(2) [of i] by (cases "hget (s_jobs s) i") simp_all
    moreover have "hget (s_jobs s2) i = hget (s_jobs s1) i"
      using \<open>n2 = 0\<close> b(5) b(2) [of i] by (cases "hget (s_jobs s1) i") simp_all
    moreover have "hget (s_jobs s3) i = hget (s_jobs s2) i"
      using \<open>n3 = 0\<close> c(4) c(2) [of i] by (cases "hget (s_jobs s2) i") simp_all
    ultimately show ?thesis by (simp add: fields)
  qed (simp add: all)
  assume live: "sessions_live s"
  show "hget (s_active_sessions (reap_all e now s)) sid = (case hget (s_active_sessions s) sid of None \<Rightarrow> None
        | Some i \<Rightarrow> if (\<exists>j. hget (s_jobs s) i = Some j \<and> stale_active e now j) then None else Some i)"
  proof (cases "hget (s_active_sessions s) sid")
    case None
    then show ?thesis by (simp add: fields c(3) b(3) a(3))
  next
    case (Some i)
    with live obtain j where j: "hget (s_jobs s) i = Some j" "is_active_status (j_status j)"
      by (auto simp: sessions_live_def job_active_def split: option.splits)
    then have "\<not> ghost j" "\<not> stale_terminal e now j"
      by (auto simp: ghost_def stale_terminal_def dest: active_not_terminal)
    then show ?thesis using Some j by (simp add: fields c(3) b(2,3) a(2,3))
  qed
qed

lemma reap_all_live:
  assumes "store_ok s" "reads_back e now" "sessions_live s"
  shows "sessions_live (reap_all e now s)"
  unfolding sessions_live_def
proof (intro allI impI)
  fix sid i assume own: "hget (s_active_sessions (reap_all e now s)) sid = Some i"
  then have o: "hget (s_active_sessions s) sid = Some i" and
    ns: "\<not> (\<exists>j. hget (s_jobs s) i = Some j \<and> stale_active e now j)"
    unfolding reap_all_effect(3) [OF assms] by (auto split: option.splits if_splits)
  from o assms(3) obtain j where j: "hget (s_jobs s) i = Some j" "is_active_status (j_status j)"
    by (auto simp: sessions_live_def job_active_def split: option.splits)
  then have "reaped e now j = Some j"
    using ns by (auto simp: reaped_def ghost_def stale_terminal_def dest: active_not_terminal)
  then show "job_active (s_jobs (reap_all e now s)) i"
    using j by (simp add: job_active_def reap_all_effect(2) [OF assms(1,2)])
qed

lemma dirty_ok [simp]: "store_ok (s\<lparr>s_reaped_dirty := d\<rparr>) = store_ok s"
  by (simp add: store_ok_def)

lemma reap_all_ok:
  assumes "store_ok s"
  shows "store_ok (reap_all e now s)"
proof -
  obtain n1 s1 where r1: "reap_stale_active_jobs e now s = (n1, s1)" by force
  obtain n2 s2 where r2: "reap_stale_terminal_jobs e now s1 = (n2, s2)" by force
  obtain n3 s3 where r3: "reap_ghost_status_jobs e now s2 = (n3, s3)" by force
  have "store_ok s3"
    using assms reap_stale_active_jobs_effect(1) [OF _ r1] reap_stale_terminal_jobs_effect(1) [OF _ r2]
      reap_ghost_status_jobs_effect(1) [OF _ r3] by blast
  then show ?thesis by (simp add: reap_all_def r1 r2 r3)
qed

section \<open>Loading\<close>

text \<open>The store a request sees, as a function of the document.\<close>

definition loaded :: "job_env \<Rightarrow> job_clock \<Rightarrow> job_world \<Rightarrow> background_state_request \<Rightarrow> background_state_store \<Rightarrow> background_state_store" where
  "loaded e c w q s =
     (if reap_due (c_guard c) (w_last_reaped w)
      then the (compact_terminal_over_capacity (q_capacity_limit q) (reap_all e (c_reap c) s)) else s)"

definition after_load :: "job_clock \<Rightarrow> job_world \<Rightarrow> job_world" where
  "after_load c w = (if reap_due (c_guard c) (w_last_reaped w) then w\<lparr>w_last_reaped := Some (c_guard c)\<rparr> else w)"

lemma load_store_eq:
  "load_store e c w q =
     Some (case load_document e w q of
             Inl err \<Rightarrow> (w, Inl err) | Inr s \<Rightarrow> (after_load c w, Inr (loaded e c w q s)))"
proof (cases "load_document e w q")
  case (Inr s)
  then have "store_ok (reap_all e (c_reap c) s)" using load_document_ok(1) reap_all_ok by blast
  then show ?thesis
    by (auto simp: load_store_def Inr loaded_def after_load_def compact_result Let_def)
qed (simp add: load_store_def)

lemma after_load_fields [simp]: "w_file (after_load c w) = w_file w" "w_db (after_load c w) = w_db w"
  by (simp_all add: after_load_def)

lemma loaded_sound:
  assumes doc: "load_document e w q = Inr s" and rb: "reads_back e (c_reap c)"
  shows "store_ok (loaded e c w q s)" "sessions_live (loaded e c w q s)"
    "reap_due (c_guard c) (w_last_reaped w) \<Longrightarrow> hget (s_jobs (loaded e c w q s)) i = Some j \<Longrightarrow>
       \<not> stale_active e (c_reap c) j \<and> \<not> stale_terminal e (c_reap c) j \<and> \<not> ghost j"
proof -
  note ok = load_document_ok [OF doc]
  let ?r = "reap_all e (c_reap c) s"
  note r = reap_all_effect [OF ok(1) rb]
  define vs where "vs = compaction_victims (resolved_capacity_limit (q_capacity_limit q) ?r) (s_jobs ?r)"
  have k: "keyed (s_jobs ?r)" using r(1) by (simp add: store_ok_iff)
  define s' where "s' = ?r\<lparr>s_jobs := filter (\<lambda>(i, _). i \<notin> set vs) (s_jobs ?r),
    s_reaped_dirty := s_reaped_dirty ?r \<or> vs \<noteq> []\<rparr>"
  have c: "compact_terminal_over_capacity (q_capacity_limit q) ?r = Some s'"
    unfolding compact_result [OF r(1)] Let_def vs_def [symmetric] s'_def by (rule refl)
  have jobs: "hget (s_jobs s') i = (if i \<in> set vs then None else hget (s_jobs ?r) i)" for i
    by (simp add: s'_def hget_filter_keys)
  have s'_ok: "store_ok s'" using r(1) keyed_filter [OF k] by (simp add: s'_def store_ok_iff)
  have sess: "s_active_sessions s' = s_active_sessions ?r" by (simp add: s'_def)
  have kept: "hget (s_jobs ?r) i = Some j" if "hget (s_jobs s') i = Some j" for i j
    using that by (simp add: jobs split: if_splits)
  have "job_active (s_jobs s') i" if "job_active (s_jobs ?r) i" for i
    using that compaction_victims_facts(1) [OF k, of i, folded vs_def] active_not_terminal
    by (auto simp: job_active_def jobs vs_def split: option.splits)
  then have "sessions_live s'"
    using reap_all_live [OF ok(1) rb ok(2)] unfolding sessions_live_def sess by blast
  then show "sessions_live (loaded e c w q s)" using ok by (simp add: loaded_def c)
  show "store_ok (loaded e c w q s)" using ok s'_ok by (simp add: loaded_def c)
  show "\<not> stale_active e (c_reap c) j \<and> \<not> stale_terminal e (c_reap c) j \<and> \<not> ghost j"
    if due: "reap_due (c_guard c) (w_last_reaped w)" and j: "hget (s_jobs (loaded e c w q s)) i = Some j"
  proof -
    have "hget (s_jobs ?r) i = Some j" using j due kept by (simp add: loaded_def c)
    then obtain x where x: "reaped e (c_reap c) x = Some j" unfolding r(2) by (auto simp: bind_eq_Some_conv)
    have "\<not> stale_active e (c_reap c) (interrupt_job t msg y)" "\<not> ghost (interrupt_job t msg y)" for t msg y
      by (simp_all add: stale_active_def ghost_def)
    with x freshly_interrupted [OF rb] show ?thesis
      by (auto simp: reaped_def split: if_splits)
  qed
qed

text \<open>
  C17: Every store a request works on is sound: ids are distinct, each job is stored under its
  own id, and every session is owned by an active job of the store, whatever the document
  contained. If the reaper was due, no job is left that is active without a recent heartbeat,
  overdue for removal, or of an unknown status. Loading always ends and never writes.
\<close>

theorem load_store_sound:
  assumes "reads_back e (c_reap c)"
  shows "\<exists>w' r. load_store e c w q = Some (w', r) \<and> w_file w' = w_file w \<and> w_db w' = w_db w \<and>
      (\<forall>s. r = Inr s \<longrightarrow> store_ok s \<and> sessions_live s \<and>
         (reap_due (c_guard c) (w_last_reaped w) \<longrightarrow>
            (\<forall>i j. hget (s_jobs s) i = Some j \<longrightarrow>
               \<not> stale_active e (c_reap c) j \<and> \<not> stale_terminal e (c_reap c) j \<and> \<not> ghost j)))"
proof (cases "load_document e w q")
  case (Inl err)
  then show ?thesis by (simp add: load_store_eq)
next
  case (Inr s)
  show ?thesis using loaded_sound [OF Inr assms] by (simp add: load_store_eq Inr)
qed

text \<open>Surroundings for concrete requests: timestamps are one character per nanosecond.\<close>

definition demo_env :: job_env where
  "demo_env = \<lparr>e_parse_rfc3339 = (\<lambda>s. Some (int (length s))), e_to_rfc3339 = (\<lambda>n. replicate (nat n) CHR ''t''),
     e_json_text = (\<lambda>_. []), e_text_json = (\<lambda>_. None), e_canonicalize = (\<lambda>p. Some (''/'' # p)),
     e_exists = (\<lambda>_. False), e_readable = (\<lambda>_. True), e_write_ok = (\<lambda>_. True), e_db_opens = (\<lambda>_. True),
     e_db_queries = (\<lambda>_. True), e_db_writes = (\<lambda>_. True), e_lock_error = (\<lambda>_. None)\<rparr>"

definition demo_clock :: "int \<Rightarrow> job_clock" where
  "demo_clock n = \<lparr>c_guard = n, c_reap = n, c_iso = (''n'', ''n'')\<rparr>"

definition demo_world :: job_world where
  "demo_world = \<lparr>w_file = (\<lambda>_. None), w_db = (\<lambda>_. None), w_last_reaped = None\<rparr>"

definition demo_request :: "string \<Rightarrow> background_state_request" where
  "demo_request opn = \<lparr>q_schema_version = BACKGROUND_STATE_REQUEST_SCHEMA_VERSION, q_operation = opn,
     q_state_path = Some ''d/state.json'', q_backend_family = Some ''memory'', q_sqlite_db_path = None,
     q_state_payload_text = None, q_control_plane_descriptor = None, q_job_id = None,
     q_arbitration_operation = None, q_mutation = None, q_session_id = None, q_incoming_job_id = None,
     q_parallel_group_id = None, q_capacity_limit = None\<rparr>"

lemma demo_reads_back: "0 \<le> n \<Longrightarrow> reads_back demo_env (c_reap (demo_clock n))"
  by (simp add: reads_back_def demo_env_def demo_clock_def)

theorem load_store_sound_witness:
  "\<exists>w' r. load_store demo_env (demo_clock 5) demo_world (demo_request ''health'') = Some (w', r) \<and>
     w_file w' = w_file demo_world"
proof -
  have "reads_back demo_env (c_reap (demo_clock 5))" by (rule demo_reads_back) simp
  from load_store_sound [OF this] show ?thesis by blast
qed

end
