(* ===== verification/Job_Life.thy ===== *)
theory Job_Life
  imports Job_Loading
begin

text \<open>
  The life of one job as the store's operations allow it: an abstract machine on its status
  (or its absence), and the proof that every operation of the store is a step of it.
\<close>

section \<open>The abstract machine\<close>

text \<open>
  A job comes into being with a known status, moves as the transition table allows, is
  interrupted by the reaper if it is not finished, and disappears only when it is finished.
\<close>

inductive life_step :: "string option \<Rightarrow> string option \<Rightarrow> bool" where
  same: "life_step v v"
| created: "is_active_status n \<or> is_terminal_status n \<Longrightarrow> life_step None (Some n)"
| moved: "status_step p n \<Longrightarrow> life_step (Some p) (Some n)"
| reaped: "\<not> is_terminal_status p \<Longrightarrow> life_step (Some p) (Some ''interrupted'')"
| dropped: "is_terminal_status p \<Longrightarrow> life_step (Some p) None"

inductive_simps life_step_simps: "life_step (Some p) (Some n)" "life_step (Some p) None" "life_step None v"

definition status_of :: "background_state_store \<Rightarrow> string \<Rightarrow> string option" where
  "status_of s i = map_option j_status (hget (s_jobs s) i)"

section \<open>The operations of the store\<close>

inductive store_step :: "job_env \<Rightarrow> background_state_store \<Rightarrow> background_state_store \<Rightarrow> bool" for e where
  mutate: "mutate_job now i m s = Inr (j, s') \<Longrightarrow> store_step e s s'"
| arbitrate: "arbitrate now opn sid i s = Inr (out, ch, s') \<Longrightarrow> store_step e s s'"
| reap: "reads_back e now \<Longrightarrow> store_step e s (reap_all e now s)"
| compact: "compact_terminal_over_capacity cap s = Some s' \<Longrightarrow> store_step e s s'"

lemma arbitrate_ok:
  assumes "store_ok s" "arbitrate now opn sid i s = Inr (out, ch, s')"
  shows "store_ok s'"
proof (rule store_okI)
  have "takeover_effect opn sid i s s'"
    using assms(2) unfolding arbitrate_def
    by (auto split: if_splits intro: arbitrate_reserve_effect arbitrate_claim_effect arbitrate_release_effect)
  then have jobs: "hget (s_jobs s') k = hget (s_jobs s) k \<or>
      (\<exists>t. k = i \<and> hget (s_jobs s') k = Some (claimed_placeholder t i sid))" for k
    unfolding takeover_effect_def Let_def by metis
  show "j_job_id j = k" if "hget (s_jobs s') k = Some j" for k j
    using jobs [of k] that store_ok_keyed [OF assms(1)] by (auto simp: claimed_placeholder_def)
  show "hmap_ok (s_jobs s')" "hmap_ok (s_active_sessions s')" "hmap_ok (s_pending_session_takeovers s')"
    using assms(2) store_ok_maps [OF assms(1)]
    unfolding arbitrate_def arbitrate_reserve_def arbitrate_claim_def arbitrate_release_def Let_def
    by (auto simp: hput_ok hdel_ok split: if_splits option.splits)
qed

interpretation well_formed: invariant_machine "store_step e" store_ok for e
proof unfold_locales
  fix s t assume "store_ok s" "store_step e s t"
  from this(2,1) show "store_ok t"
  proof cases
    case (compact cap)
    then show ?thesis
      using \<open>store_ok s\<close> keyed_filter [of "s_jobs s"] by (auto simp: compact_result Let_def store_ok_iff)
  qed (use \<open>store_ok s\<close> in \<open>auto intro: mutate_job_ok arbitrate_ok reap_all_ok\<close>)
qed

lemma status_after_reap:
  assumes "store_ok s" "reads_back e now"
  shows "life_step (status_of s i) (status_of (reap_all e now s) i)"
proof (cases "hget (s_jobs s) i")
  case None
  then show ?thesis by (simp add: status_of_def reap_all_effect(2) [OF assms] life_step.same)
next
  case (Some j)
  have "\<not> is_terminal_status (j_status j)" if "stale_active e now j \<or> ghost j"
    using that by (auto simp: stale_active_def ghost_def dest: active_not_terminal)
  moreover have "is_terminal_status (j_status j)" if "stale_terminal e now j"
    using that by (simp add: stale_terminal_def)
  ultimately show ?thesis
    by (auto simp: status_of_def reap_all_effect(2) [OF assms] Some reaped_def intro: life_step.intros)
qed

text \<open>
  C6: Every operation of the store (mutation, takeover, reaping, compaction) is, for every
  job, a step of the abstract machine, and leaves the store well formed. So a job never
  leaves a finished status except by disappearing, never takes an unknown status, and never
  disappears unfinished.
\<close>

theorem store_refines_life:
  assumes "store_ok s" "store_step e s s'"
  shows "life_step (status_of s i) (status_of s' i) \<and> store_ok s'"
proof
  show "store_ok s'" using well_formed.step_inv assms by blast
  show "life_step (status_of s i) (status_of s' i)"
    using assms(2)
  proof cases
    case (mutate now k m j)
    note eff = mutate_job_Inr [OF mutate]
    have next': "j_status j \<in> set (successors (status_of s k))"
      using eff(1,2) by (simp add: mutation_accepted_def status_of_def)
    show ?thesis
    proof (cases "i = k")
      case True
      then have after: "status_of s' i = Some (j_status j)" by (simp add: status_of_def eff(3) hmap_simps)
      show ?thesis
      proof (cases "status_of s i")
        case None
        then show ?thesis using next' True after successors_known [of "j_status j" None]
          by (simp add: life_step.created)
      next
        case (Some p)
        then show ?thesis using next' True after by (simp add: life_step.moved status_step_iff)
      qed
    next
      case False
      then show ?thesis by (simp add: status_of_def eff(3) hmap_simps life_step.same)
    qed
  next
    case (arbitrate now opn sid k out ch)
    then have "takeover_effect opn sid k s s'" unfolding arbitrate_def
      by (auto split: if_splits intro: arbitrate_reserve_effect arbitrate_claim_effect arbitrate_release_effect)
    then have "hget (s_jobs s') i = hget (s_jobs s) i \<or>
        hget (s_jobs s) i = None \<and> (\<exists>t. hget (s_jobs s') i = Some (claimed_placeholder t k sid))"
      unfolding takeover_effect_def Let_def by metis
    moreover have "life_step None (Some ''retry_claimed'')" by (rule life_step.created) (simp add: status_defs)
    ultimately show ?thesis
      by (auto simp: status_of_def claimed_placeholder_def intro: life_step.same)
  next
    case (reap now)
    then show ?thesis using status_after_reap [OF assms(1)] by simp
  next
    case (compact cap)
    have k: "keyed (s_jobs s)" using assms(1) by (simp add: store_ok_iff)
    have "hget (s_jobs s') i = hget (s_jobs s) i \<or>
        hget (s_jobs s') i = None \<and> (\<exists>j. hget (s_jobs s) i = Some j \<and> is_terminal_status (j_status j))"
      using compact compaction_victims_facts(1) [OF k, of i]
      by (auto simp: compact_result [OF assms(1)] Let_def hget_filter_keys split: if_splits)
    then show ?thesis by (auto simp: status_of_def intro: life_step.intros)
  qed
qed

theorem store_refines_life_witness:
  "\<exists>s'. store_step demo_env demo_store s' \<and> life_step (status_of demo_store ''a'') (status_of s' ''a'')"
proof -
  have "store_step demo_env demo_store (reap_all demo_env 5 demo_store)"
    by (rule store_step.reap) (simp add: reads_back_def demo_env_def)
  from this store_refines_life [OF demo_store_ok this] show ?thesis by blast
qed

section \<open>Who owns a session\<close>

text \<open>
  The three ways in which the owner of a session changes in one step: a free session is taken, by
  a claim of the job that reserved it or by a job that becomes active in it; and an owner gives
  its session up, by a mutation of its own, by its release when it no longer exists, or by being reaped.
\<close>

definition session_taken :: "string \<Rightarrow> string \<Rightarrow> background_state_store \<Rightarrow> background_state_store \<Rightarrow> bool" where
  "session_taken sid i s s' \<longleftrightarrow>
     (\<exists>now out ch. arbitrate now ''claim'' sid i s = Inr (out, ch, s') \<and>
        hget (s_pending_session_takeovers s) sid = Some i \<and> hget (s_pending_session_takeovers s') sid = None) \<or>
     (\<exists>now m j. mutate_job now i m s = Inr (j, s') \<and> resolved_session i m s = Some sid \<and> is_active_status (m_status m))"

definition session_left ::
  "job_env \<Rightarrow> string \<Rightarrow> string \<Rightarrow> background_state_store \<Rightarrow> background_state_store \<Rightarrow> bool" where
  "session_left e sid i s s' \<longleftrightarrow>
     (\<exists>now m j. mutate_job now i m s = Inr (j, s') \<and>
        \<not> (resolved_session i m s = Some sid \<and> is_active_status (m_status m))) \<or>
     (\<exists>now out ch. arbitrate now ''release'' sid i s = Inr (out, ch, s') \<and> hget (s_jobs s) i = None) \<or>
     (\<exists>now j. s' = reap_all e now s \<and> hget (s_jobs s) i = Some j \<and> stale_active e now j)"

lemma arbitrate_effect:
  "arbitrate now opn sid i s = Inr (out, ch, s') \<Longrightarrow> takeover_effect opn sid i s s'"
  unfolding arbitrate_def
  by (auto split: if_splits intro: arbitrate_reserve_effect arbitrate_claim_effect arbitrate_release_effect)

lemma session_intros:
  "mutate_job now i m s = Inr (j, s') \<Longrightarrow> resolved_session i m s = Some sid \<Longrightarrow> is_active_status (m_status m) \<Longrightarrow> session_taken sid i s s'"
  "arbitrate t ''claim'' sid i s = Inr (out, ch, s') \<Longrightarrow> hget (s_pending_session_takeovers s) sid = Some i \<Longrightarrow>
     hget (s_pending_session_takeovers s') sid = None \<Longrightarrow> session_taken sid i s s'"
  "mutate_job now i m s = Inr (j, s') \<Longrightarrow> \<not> (resolved_session i m s = Some sid \<and> is_active_status (m_status m)) \<Longrightarrow> session_left e sid i s s'"
  "arbitrate t ''release'' sid i s = Inr (out, ch, s') \<Longrightarrow> hget (s_jobs s) i = None \<Longrightarrow> session_left e sid i s s'"
  unfolding session_taken_def session_left_def by blast+

lemma mutation_owner:
  assumes "mutate_job now k m s = Inr (j, s')" "hget (s_active_sessions s') sid \<noteq> hget (s_active_sessions s) sid"
  shows "hget (s_active_sessions s) sid = None \<and> hget (s_active_sessions s') sid = Some k \<and> session_taken sid k s s' \<or>
    hget (s_active_sessions s) sid = Some k \<and> hget (s_active_sessions s') sid = None \<and> session_left e sid k s s'"
proof -
  note eff = mutate_job_Inr(1,5) [OF assms(1)]
  show ?thesis
  proof (cases "resolved_session k m s = Some sid \<and> is_active_status (m_status m)")
    case True
    then have "hget (s_active_sessions s') sid = Some k" "hget (s_active_sessions s) sid \<in> {None, Some k}"
      using eff by (auto simp: owner_after_def mutation_accepted_def)
    then show ?thesis using session_intros(1) [OF assms(1)] True assms(2) by auto
  next
    case False
    then have "hget (s_active_sessions s) sid = Some k" "hget (s_active_sessions s') sid = None"
      using eff assms(2) by (auto simp: owner_after_def split: if_splits)
    then show ?thesis using session_intros(3) [OF assms(1) False] by blast
  qed
qed

lemma takeover_owner:
  assumes "arbitrate now opn x k s = Inr (out, ch, s')" "hget (s_active_sessions s') sid \<noteq> hget (s_active_sessions s) sid"
  shows "hget (s_active_sessions s) sid = None \<and> hget (s_active_sessions s') sid = Some k \<and> session_taken sid k s s' \<or>
    hget (s_active_sessions s) sid = Some k \<and> hget (s_active_sessions s') sid = None \<and> session_left e sid k s s'"
proof -
  have t: "takeover_effect opn x k s s'" by (rule arbitrate_effect [OF assms(1)])
  have x: "sid = x" using t assms(2) unfolding takeover_effect_def Let_def by blast
  have c: "(opn = ''claim'' \<and> hget (s_active_sessions s) x = None \<and> hget (s_active_sessions s') x = Some k) \<or>
      (opn = ''release'' \<and> hget (s_active_sessions s) x = Some k \<and> hget (s_active_sessions s') x = None \<and> hget (s_jobs s) k = None)"
    "opn = ''claim'' \<longrightarrow> hget (s_pending_session_takeovers s) x = Some k \<and> hget (s_pending_session_takeovers s') x = None"
    using t assms(2) unfolding takeover_effect_def Let_def x by blast+
  from c(1) show ?thesis
  proof
    assume o: "opn = ''claim'' \<and> hget (s_active_sessions s) x = None \<and> hget (s_active_sessions s') x = Some k"
    then have "session_taken x k s s'" using session_intros(2) assms(1) c(2) by blast
    with o show ?thesis by (simp add: x)
  next
    assume o: "opn = ''release'' \<and> hget (s_active_sessions s) x = Some k \<and> hget (s_active_sessions s') x = None \<and> hget (s_jobs s) k = None"
    then have "session_left e x k s s'" using session_intros(4) assms(1) by blast
    with o show ?thesis by (simp add: x)
  qed
qed

text \<open>
  C25: No step of the store hands a session from one owner to another. A free session is taken only by a
  claim of the job that reserved it, or by a job whose own mutation makes it active in the
  session (which does not look at reservations); an owner loses its session only by its own mutation, by
  being reaped, or by a release when it does not exist. A takeover can neither replace nor claim
  another job's reservation, nor evict an owner, nor change an existing job.
\<close>

theorem session_handover:
  assumes "store_ok s" "sessions_live s" "store_step e s s'"
  shows "(hget (s_active_sessions s') sid = hget (s_active_sessions s) sid \<or>
      (\<exists>i. hget (s_active_sessions s) sid = None \<and> hget (s_active_sessions s') sid = Some i \<and> session_taken sid i s s') \<or>
      (\<exists>i. hget (s_active_sessions s) sid = Some i \<and> hget (s_active_sessions s') sid = None \<and> session_left e sid i s s')) \<and>
    (\<forall>now opn x i out ch. arbitrate now opn x i s = Inr (out, ch, s') \<longrightarrow> takeover_effect opn x i s s')"
proof
  show "\<forall>now opn x i out ch. arbitrate now opn x i s = Inr (out, ch, s') \<longrightarrow> takeover_effect opn x i s s'"
    using arbitrate_effect by blast
  show "hget (s_active_sessions s') sid = hget (s_active_sessions s) sid \<or>
      (\<exists>i. hget (s_active_sessions s) sid = None \<and> hget (s_active_sessions s') sid = Some i \<and> session_taken sid i s s') \<or>
      (\<exists>i. hget (s_active_sessions s) sid = Some i \<and> hget (s_active_sessions s') sid = None \<and> session_left e sid i s s')"
    using assms(3)
  proof cases
    case (mutate now i m j)
    then show ?thesis using mutation_owner by blast
  next
    case (arbitrate now opn x i out ch)
    then show ?thesis using takeover_owner by blast
  next
    case (reap now)
    then show ?thesis using reap_all_effect(3) [OF assms(1) reap(2) assms(2), of sid]
      by (auto simp: session_left_def split: option.splits if_splits)
  next
    case (compact cap)
    then show ?thesis by (auto simp: compact_result [OF assms(1)] Let_def)
  qed
qed

theorem session_handover_witness:
  "\<exists>s'. arbitrate ''n'' ''reserve'' ''s'' ''c'' demo_store = Inr (''pending'', True, s') \<and>
     takeover_effect ''reserve'' ''s'' ''c'' demo_store s' \<and> hget (s_active_sessions s') ''s'' = Some ''a''"
proof -
  let ?s = "demo_store\<lparr>s_pending_session_takeovers := [(''s'', ''c'')]\<rparr>"
  have r: "arbitrate ''n'' ''reserve'' ''s'' ''c'' demo_store = Inr (''pending'', True, ?s)"
    by (simp add: arbitrate_def arbitrate_reserve_def demo_store_def)
  have "takeover_effect ''reserve'' ''s'' ''c'' demo_store ?s"
    using session_handover [OF demo_store_ok demo_store_live store_step.arbitrate [OF r, of demo_env], of "''s''"] r by blast
  with r show ?thesis by (simp add: demo_store_def)
qed

end
