(* ===== verification/Job_Requests.thy ===== *)
theory Job_Requests
  imports Job_Loading
begin

text \<open>
  Requests on the job store: the round trip through the persisted document, independence of
  the order of hash maps, what a request may write, the life of a job across operations, and
  three behaviours that concrete requests exhibit.
\<close>

section \<open>Round trip and map order\<close>

lemma sort_same_map: "hmap_ok m \<Longrightarrow> hmap_ok m' \<Longrightarrow> hget m = hget m' \<Longrightarrow>
    sorted_string_pairs m = sorted_string_pairs m'"
  unfolding sorted_string_pairs_def
  unfolding sorted_list_of_multiset_mset [symmetric] by (metis hmap_perm)

lemma jobs_same_map:
  assumes "keyed m" "keyed m'" "hget m = hget m'"
  shows "sorted_jobs m = sorted_jobs m'"
proof -
  have ms: "mset (hvals m) = mset (hvals m')"
    using hmap_perm [of m m'] assms by (metis mset_map)
  have "inj_on j_job_id (set (hvals m))"
  proof (rule inj_onI)
    fix x y assume "x \<in> set (hvals m)" "y \<in> set (hvals m)" "j_job_id x = j_job_id y"
    then obtain i k where "(i, x) \<in> set m" "(k, y) \<in> set m" by auto
    moreover have "j_job_id x = i" "j_job_id y = k" using assms(1) calculation by blast+
    ultimately have "hget m i = Some x" "hget m i = Some y"
      using in_hget_Some [of m i x] in_hget_Some [of m i y] assms(1) \<open>j_job_id x = j_job_id y\<close> by simp_all
    then show "x = y" by simp
  qed
  then show ?thesis unfolding sorted_jobs_def
    using ms by (intro sort_key_inj_key_eq) simp_all
qed

text \<open>
  What is shown and what is written depends only on the contents of the maps, not on the
  order in which the hash maps iterate: two stores with the same jobs, sessions, reservations
  and control plane give the same snapshot and the same persisted text.
\<close>

theorem snapshot_order_independent:
  assumes "store_ok s" "store_ok s'" "hget (s_jobs s) = hget (s_jobs s')"
    "hget (s_active_sessions s) = hget (s_active_sessions s')"
    "hget (s_pending_session_takeovers s) = hget (s_pending_session_takeovers s')"
    "s_control_plane s = s_control_plane s'"
  shows "snapshot_payload s = snapshot_payload s' \<and> serialized_payload e s = serialized_payload e s'"
proof -
  have "sorted_jobs (s_jobs s) = sorted_jobs (s_jobs s')"
    using assms(1-3) by (intro jobs_same_map) (simp_all add: store_ok_iff)
  moreover have "sorted_string_pairs (s_active_sessions s) = sorted_string_pairs (s_active_sessions s')"
    "sorted_string_pairs (s_pending_session_takeovers s) = sorted_string_pairs (s_pending_session_takeovers s')"
    using assms(4,5) store_ok_maps [OF assms(1)] store_ok_maps [OF assms(2)] by (auto intro: sort_same_map)
  ultimately show ?thesis
    using assms(6) by (simp add: snapshot_payload_def serialized_payload_def persisted_of_store_def)
qed

theorem snapshot_order_independent_witness:
  "snapshot_payload demo_store = snapshot_payload (demo_store\<lparr>s_jobs := rev (s_jobs demo_store)\<rparr>)"
proof -
  let ?s = "demo_store\<lparr>s_jobs := rev (s_jobs demo_store)\<rparr>"
  have "store_ok ?s" by (simp add: store_ok_def demo_store_def hmap_ok_def)
  moreover have "hget (s_jobs demo_store) = hget (s_jobs ?s)" by (auto simp: demo_store_def)
  ultimately show ?thesis using snapshot_order_independent [OF demo_store_ok, of ?s] by simp
qed

lemma hget_hcollect_perm:
  assumes "hmap_ok m" "mset kvs = mset m"
  shows "hget (hcollect kvs) = hget m"
proof -
  have ok: "hmap_ok kvs"
    using assms mset_eq_imp_distinct_iff [of "hkeys kvs" "hkeys m"] by (simp add: hmap_ok_def)
  have "hget (hcollect kvs) = hget kvs" using ok by (simp add: hget_hcollect_distinct hmap_ok_def)
  also have "\<dots> = hget m"
    using mset_eq_setD [OF assms(2)] ok assms(1) by (simp add: hmap_ok_def map_of_inject_set)
  finally show ?thesis .
qed

lemma reload_jobs:
  assumes "keyed m"
  shows "hget (hcollect (map (\<lambda>j. (j_job_id j, j)) (sorted_jobs m))) = hget m"
proof (rule hget_hcollect_perm)
  have "map (\<lambda>j. (j_job_id j, j)) (hvals m) = m"
    unfolding map_map comp_def using assms by (intro map_idI) auto
  moreover have "mset (map (\<lambda>j. (j_job_id j, j)) (sorted_jobs m)) = mset (map (\<lambda>j. (j_job_id j, j)) (hvals m))"
    unfolding sorted_jobs_def mset_map mset_sort by (rule refl)
  ultimately show "mset (map (\<lambda>j. (j_job_id j, j)) (sorted_jobs m)) = mset m"
    by (simp only:)
qed (use assms in simp)

lemma reload_pairs: "hmap_ok m \<Longrightarrow> hget (hcollect (sorted_string_pairs m)) = hget m"
  by (rule hget_hcollect_perm) (simp_all add: sorted_string_pairs_def)

lemma job_active_cong: "hget m = hget m' \<Longrightarrow> job_active m i = job_active m' i"
  by (simp add: job_active_def)

text \<open>Merging the parsed document of a store yields its jobs, owners and live reservations.\<close>

lemma merge_roundtrip:
  assumes "store_ok s" "sessions_live s" "s_active_sessions s \<noteq> []"
    "\<forall>i j. hget (s_jobs s) i = Some j \<longrightarrow> job_writable j" "s_control_plane s \<noteq> JNull"
    "e_text_json e (serialized_payload e s) = Some (persisted_json (persisted_of_store s))"
  shows "\<exists>p. parse_persisted e (serialized_payload e s) = Inr (Some p) \<and>
      (let s' = merge_persisted p s0 in
         hget (s_jobs s') = hget (s_jobs s) \<and>
         hget (s_active_sessions s') = hget (s_active_sessions s) \<and>
         (\<forall>sid i. hget (s_pending_session_takeovers s) sid = Some i \<longrightarrow>
            (job_active (s_jobs s) i \<or> session_known (s_jobs s) sid) \<longrightarrow>
            hget (s_pending_session_takeovers s') sid = Some i))"
proof -
  let ?p = "persisted_of_store s"
  have k: "keyed (s_jobs s)" using assms(1) by (simp add: store_ok_iff)
  note maps = store_ok_maps [OF assms(1)]
  have vals: "set (sorted_jobs (s_jobs s)) = set (hvals (s_jobs s))" by (simp add: sorted_jobs_def)
  have "job_writable j" if "j \<in> set (hvals (s_jobs s))" for j
    using that assms(4) set_hvals [OF maps(1)] by blast
  then have "\<forall>j \<in> set (p_jobs ?p). job_writable j" by (simp add: persisted_of_store_def vals)
  moreover have "p_control_plane ?p \<noteq> Some JNull" using assms(5) by (simp add: persisted_of_store_def)
  ultimately have parse: "parse_persisted e (serialized_payload e s) = Inr (Some ?p)"
    using assms(6) persisted_roundtrip [of ?p] by (simp add: parse_persisted_def)
  let ?s' = "merge_persisted ?p s0"
  define jobs where "jobs = hcollect (map (\<lambda>j. (j_job_id j, j)) (sorted_jobs (s_jobs s)))"
  have j: "hget jobs = hget (s_jobs s)" unfolding jobs_def by (rule reload_jobs [OF k])
  have act: "job_active jobs i = job_active (s_jobs s) i" for i by (rule job_active_cong [OF j])
  have known: "session_known jobs sid = session_known (s_jobs s) sid" for sid
  proof -
    have "hmap_ok jobs" by (simp add: jobs_def)
    then have "set (hvals jobs) = set (hvals (s_jobs s))"
      using set_hvals [OF maps(1)] set_hvals [of jobs] unfolding j by blast
    then show ?thesis by (simp only: session_known_def)
  qed
  have ne: "sorted_string_pairs (s_active_sessions s) \<noteq> []"
    using assms(3) unfolding sorted_string_pairs_def by (metis length_0_conv length_sort)
  have pairs: "map ((\<lambda>a. (as_session_id a, as_job_id a)) \<circ> (\<lambda>(sid, i). \<lparr>as_session_id = sid, as_job_id = i\<rparr>)) xs = xs"
    "map ((\<lambda>r. (pt_session_id r, pt_incoming_job_id r)) \<circ> (\<lambda>(sid, i). \<lparr>pt_session_id = sid, pt_incoming_job_id = i\<rparr>)) xs = xs"
    for xs by (induction xs) auto
  have J: "s_jobs ?s' = jobs"
    and A: "s_active_sessions ?s' =
      hretain (\<lambda>_ i. job_active jobs i) (hcollect (sorted_string_pairs (s_active_sessions s)))"
    using ne by (simp_all add: merge_persisted_def Let_def persisted_of_store_def jobs_def pairs)
  have owners: "hget (s_active_sessions ?s') sid = hget (s_active_sessions s) sid" for sid
    using assms(2) unfolding A sessions_live_def
    by (auto simp: hget_hretain reload_pairs [OF maps(2)] act split: option.splits)
  have P: "s_pending_session_takeovers ?s' =
      hcollect (filter (\<lambda>(sid, i). job_active jobs i \<or> session_known jobs sid)
        (sorted_string_pairs (s_pending_session_takeovers s)))"
    by (simp add: merge_persisted_def Let_def persisted_of_store_def jobs_def filter_map comp_def
        case_prod_unfold)
  have "hget (s_pending_session_takeovers ?s') sid = Some i"
    if "hget (s_pending_session_takeovers s) sid = Some i"
      "job_active (s_jobs s) i \<or> session_known (s_jobs s) sid" for sid i
  proof -
    let ?f = "filter (\<lambda>(sid, i). job_active jobs i \<or> session_known jobs sid)
        (sorted_string_pairs (s_pending_session_takeovers s))"
    have "hmap_ok (sorted_string_pairs (s_pending_session_takeovers s))"
      using maps(3) mset_eq_imp_distinct_iff [of "hkeys (sort (s_pending_session_takeovers s))" "hkeys (s_pending_session_takeovers s)"]
      by (simp add: hmap_ok_def sorted_string_pairs_def)
    then have ok: "hmap_ok ?f" by (simp add: hmap_ok_def distinct_map_filter)
    have "(sid, i) \<in> set ?f" using that hget_Some_in by (fastforce simp: act known sorted_string_pairs_def)
    then have "hget ?f sid = Some i" by (rule in_hget_Some [OF ok])
    then show ?thesis using ok unfolding P by (simp add: hget_hcollect_distinct hmap_ok_def)
  qed
  then show ?thesis using parse owners j J by (auto simp: Let_def)
qed

text \<open>Reading finds the text that persisting has written, whatever the back end.\<close>

lemma read_after_write_sqlite:
  assumes "write_sqlite_state e w0 path db text = (w, Inr v)" "e_db_queries e db"
  shows "read_sqlite_state e w path db = parse_persisted e text"
proof -
  obtain base where b: "path_parent (path_components path) = Some base"
    using assms(1) by (cases "path_parent (path_components path)") (auto simp: write_sqlite_state_def)
  obtain key where k: "sqlite_storage_key e base (path_components path) = Inr key"
    using assms(1) b by (cases "sqlite_storage_key e base (path_components path)") (auto simp: write_sqlite_state_def)
  define rows where "rows = (case w_db w0 db of None \<Rightarrow> Map.empty | Some r \<Rightarrow> r)"
  have "e_db_opens e db" "w = w0\<lparr>w_db := (w_db w0)(db \<mapsto> rows(key \<mapsto> text))\<rparr>"
    using assms(1) unfolding write_sqlite_state_def b k option.case sum.case rows_def [symmetric] Let_def by (auto split: if_splits)
  then show ?thesis using assms(2) by (simp add: read_sqlite_state_def b k)
qed

lemma read_after_persist:
  assumes "persist e w0 s = (w, Inr out)" "e_readable e (s_state_path s)"
    "\<forall>db. s_sqlite_db_path s = Some db \<longrightarrow> e_db_queries e db"
  shows "read_persisted_state e w (s_state_path s) (s_backend_family s) (s_sqlite_db_path s) out =
    parse_persisted e (serialized_payload e s)"
proof (cases "s_backend_family s = ''memory''")
  case True
  have "normalized_backend_family ''memory'' = ''memory''" by code_simp
  then show ?thesis using True assms(1) by (auto simp: persist_def read_persisted_state_def)
next
  case False
  let ?f = "normalized_backend_family (s_backend_family s)" and ?t = "serialized_payload e s"
  obtain v where v: "write_persisted_state e w0 (s_state_path s) (s_backend_family s) (s_sqlite_db_path s) ?t = (w, Inr v)"
    using False assms(1) by (auto simp: persist_def Let_def split: prod.splits sum.splits)
  consider (fs) "?f \<in> {''filesystem'', ''file''}" | (sqlite) "?f \<in> {''sqlite'', ''sqlite3''}"
    using v by (auto simp: write_persisted_state_def Let_def split: if_splits)
  then show ?thesis
  proof cases
    case fs
    then have "w = w0\<lparr>w_file := (w_file w0)(s_state_path s \<mapsto> ?t)\<rparr>"
      using v by (auto simp: write_persisted_state_def Let_def split: if_splits)
    then show ?thesis using fs assms(2) by (simp add: read_persisted_state_def Let_def)
  next
    case sqlite
    then obtain db where db: "s_sqlite_db_path s = Some db" "write_sqlite_state e w0 (s_state_path s) db ?t = (w, Inr v)"
      using v by (cases "s_sqlite_db_path s") (auto simp: write_persisted_state_def Let_def)
    show ?thesis using sqlite read_after_write_sqlite [OF db(2)] assms(3) by (auto simp: read_persisted_state_def Let_def db(1))
  qed
qed

text \<open>
  C32: A store that is persisted and loaded again, by a request for the same place and back end, is
  loaded with the same jobs and session owners, and with every reservation whose waiting job is active or whose
  session occurs in some job; when the reaper is due, it works on exactly that store. Provided
  that serde reads back the text it wrote, the numbers of the jobs are finite, the owners are active jobs
  and some session is owned (without an owner the owners are rebuilt from the jobs).
\<close>

theorem store_roundtrip:
  assumes "store_ok s" "sessions_live s" "s_active_sessions s \<noteq> []"
    "\<forall>i j. hget (s_jobs s) i = Some j \<longrightarrow> job_writable j" "s_control_plane s \<noteq> JNull"
    "e_text_json e (serialized_payload e s) = Some (persisted_json (persisted_of_store s))"
    and "persist e w0 s = (w, Inr out)" "e_readable e (s_state_path s)"
    "\<forall>db. s_sqlite_db_path s = Some db \<longrightarrow> e_db_queries e db"
    and "q_state_path q = Some (s_state_path s)" "q_backend_family q = Some (s_backend_family s)"
    "q_sqlite_db_path q = s_sqlite_db_path s" "q_state_payload_text q = out"
    "build_state_control_plane (q_control_plane_descriptor q) (s_backend_family s) (s_state_path s) = Inr cp"
  shows "\<exists>s'. load_document e w q = Inr s' \<and>
      hget (s_jobs s') = hget (s_jobs s) \<and>
      hget (s_active_sessions s') = hget (s_active_sessions s) \<and>
      (\<forall>sid i. hget (s_pending_session_takeovers s) sid = Some i \<longrightarrow>
         (job_active (s_jobs s) i \<or> session_known (s_jobs s) sid) \<longrightarrow>
         hget (s_pending_session_takeovers s') sid = Some i) \<and>
      load_store e c w q = Some (after_load c w, Inr (if reap_due (c_guard c) (w_last_reaped w)
        then the (compact_terminal_over_capacity (q_capacity_limit q) (reap_all e (c_reap c) s')) else s'))"
proof -
  let ?s0 = "empty_store q (s_backend_family s) cp (s_state_path s)"
  obtain p where p: "parse_persisted e (serialized_payload e s) = Inr (Some p)"
      "hget (s_jobs (merge_persisted p ?s0)) = hget (s_jobs s)"
      "hget (s_active_sessions (merge_persisted p ?s0)) = hget (s_active_sessions s)"
      "\<forall>sid i. hget (s_pending_session_takeovers s) sid = Some i \<longrightarrow>
         (job_active (s_jobs s) i \<or> session_known (s_jobs s) sid) \<longrightarrow>
         hget (s_pending_session_takeovers (merge_persisted p ?s0)) sid = Some i"
    using merge_roundtrip [OF assms(1-6), of ?s0] by (auto simp: Let_def)
  have doc: "load_document e w q = Inr (merge_persisted p ?s0)"
    using read_after_persist [OF assms(7-9)] assms(10-14) p(1) by (simp add: load_document_def)
  then have "load_store e c w q = Some (after_load c w, Inr (loaded e c w q (merge_persisted p ?s0)))"
    by (simp add: load_store_eq)
  then show ?thesis using doc p(2-4) unfolding loaded_def by blast
qed

theorem store_roundtrip_witness:
  "\<exists>e w out q s'. persist e demo_world demo_store = (w, Inr out) \<and> load_document e w q = Inr s' \<and>
     hget (s_active_sessions s') ''s'' = Some ''a''"
proof -
  let ?e = "demo_env\<lparr>e_text_json := (\<lambda>_. Some (persisted_json (persisted_of_store demo_store)))\<rparr>"
  let ?out = "serialized_payload ?e demo_store"
  let ?q = "(demo_request ''health'')\<lparr>q_state_path := Some ''state.json'', q_state_payload_text := Some ?out\<rparr>"
  have "job_writable (demo_job i st sess t)" for i st sess t
    by (simp add: job_writable_def demo_job_def claimed_placeholder_def
        DEFAULT_BACKGROUND_JOB_BACKOFF_BASE_SECONDS_def DEFAULT_BACKGROUND_JOB_BACKOFF_MULTIPLIER_def)
  then have w: "\<forall>i j. hget (s_jobs demo_store) i = Some j \<longrightarrow> job_writable j" by (auto simp: demo_store_def)
  have d: "s_active_sessions demo_store \<noteq> []" "s_control_plane demo_store \<noteq> JNull" "s_state_path demo_store = ''state.json''"
    "s_backend_family demo_store = ''memory''" "s_sqlite_db_path demo_store = None"
    by (simp_all add: demo_store_def)
  have p: "persist ?e demo_world demo_store = (demo_world, Inr (Some ?out))" by (simp add: persist_def d)
  have "\<exists>cp. build_state_control_plane None ''memory'' ''state.json'' = Inr cp"
    by (simp add: build_state_control_plane_def backend_capabilities_def Let_def) code_simp
  then obtain cp where "build_state_control_plane (q_control_plane_descriptor ?q) (s_backend_family demo_store) (s_state_path demo_store) = Inr cp"
    by (auto simp: demo_request_def d)
  then obtain s' where "load_document ?e demo_world ?q = Inr s'" "hget (s_active_sessions s') = hget (s_active_sessions demo_store)"
    using store_roundtrip [OF demo_store_ok demo_store_live d(1) w d(2) _ p, of ?q cp "demo_clock 5"]
    by (auto simp: demo_request_def demo_env_def d)
  moreover have "hget (s_active_sessions demo_store) ''s'' = Some ''a''" by (simp add: demo_store_def)
  ultimately show ?thesis using p by metis
qed

section \<open>What a request writes\<close>

text \<open>Two worlds with the same files and tables, but for the file and the table rows of one store.\<close>

definition same_elsewhere :: "background_state_request \<Rightarrow> job_world \<Rightarrow> job_world \<Rightarrow> bool" where
  "same_elsewhere q w w' \<longleftrightarrow>
     (\<forall>p. Some p \<noteq> q_state_path q \<longrightarrow> w_file w' p = w_file w p) \<and>
     (\<forall>d. Some d \<noteq> q_sqlite_db_path q \<longrightarrow> w_db w' d = w_db w d) \<and>
     (\<forall>d. w_db w d \<noteq> None \<longrightarrow> w_db w' d \<noteq> None)"

lemma same_elsewhere_refl [simp]: "w_file w' = w_file w \<Longrightarrow> w_db w' = w_db w \<Longrightarrow> same_elsewhere q w w'"
  by (simp add: same_elsewhere_def)

lemma same_elsewhere_trans: "same_elsewhere q u v \<Longrightarrow> same_elsewhere q v w \<Longrightarrow> same_elsewhere q u w"
  unfolding same_elsewhere_def by metis

text \<open>The store belongs to the request: its path and database are the request's.\<close>

definition store_of :: "background_state_request \<Rightarrow> background_state_store \<Rightarrow> bool" where
  "store_of q s \<longleftrightarrow> q_state_path q = Some (s_state_path s) \<and> q_sqlite_db_path q = s_sqlite_db_path s"

lemma write_sqlite_frame:
  "write_sqlite_state e w path db payload = (w', r) \<Longrightarrow>
     w_file w' = w_file w \<and> (\<forall>d. d \<noteq> db \<longrightarrow> w_db w' d = w_db w d) \<and> (w_db w db \<noteq> None \<longrightarrow> w_db w' db \<noteq> None)"
  by (auto simp: write_sqlite_state_def Let_def split: option.splits sum.splits if_splits)

lemma write_persisted_frame:
  assumes "write_persisted_state e w path family db payload = (w', r)"
  shows "(\<forall>p. p \<noteq> path \<longrightarrow> w_file w' p = w_file w p) \<and> (\<forall>d. Some d \<noteq> db \<longrightarrow> w_db w' d = w_db w d) \<and>
    (\<forall>d. w_db w d \<noteq> None \<longrightarrow> w_db w' d \<noteq> None)"
proof (cases db)
  case None
  then show ?thesis using assms by (auto simp: write_persisted_state_def Let_def split: if_splits)
next
  case (Some d)
  have "w_file w' = w_file w \<and> (\<forall>d'. d' \<noteq> d \<longrightarrow> w_db w' d' = w_db w d') \<and> (w_db w d \<noteq> None \<longrightarrow> w_db w' d \<noteq> None)"
    if "write_sqlite_state e w path d payload = (w', r)"
    using that by (rule write_sqlite_frame)
  then show ?thesis using assms unfolding write_persisted_state_def Let_def Some
    by (simp split: if_splits) (metis job_world.select_convs fun_upd_apply job_world.surjective job_world.update_convs(1))+
qed

lemma persist_frame:
  assumes "store_of q s" "persist e w s = (w', r)"
  shows "same_elsewhere q w w'"
proof (cases "s_backend_family s = ''memory''")
  case True
  then show ?thesis using assms by (auto simp: persist_def Let_def)
next
  case False
  then obtain r' where wr: "write_persisted_state e w (s_state_path s) (s_backend_family s) (s_sqlite_db_path s)
      (serialized_payload e s) = (w', r')"
    using assms(2) by (auto simp: persist_def Let_def split: prod.splits sum.splits)
  show ?thesis
    using write_persisted_frame [OF wr] assms(1) by (simp add: store_of_def same_elsewhere_def)
qed

lemma merge_persisted_keeps [simp]:
  "s_state_path (merge_persisted p s) = s_state_path s"
  "s_sqlite_db_path (merge_persisted p s) = s_sqlite_db_path s"
  by (simp_all add: merge_persisted_def Let_def)

lemma load_document_store_of:
  assumes "load_document e w q = Inr s"
  shows "store_of q s"
proof -
  obtain path where path: "q_state_path q = Some path"
    using assms by (auto simp: load_document_def split: option.splits)
  show ?thesis
    using assms unfolding load_document_def path option.case Let_def bind_result_Inr_iff
    by (auto simp: store_of_def path split: option.splits)
qed

lemma reap_keeps:
  "s_state_path (reap_all e now s) = s_state_path s" "s_sqlite_db_path (reap_all e now s) = s_sqlite_db_path s"
  by (simp_all add: reap_all_def reap_stale_active_jobs_def reap_stale_terminal_jobs_def
      reap_ghost_status_jobs_def release_jobs_def Let_def)

lemma loaded_store_of:
  assumes "load_document e w q = Inr s"
  shows "store_of q (loaded e c w q s)"
proof -
  have "store_ok (reap_all e (c_reap c) s)" using load_document_ok(1) [OF assms] by (rule reap_all_ok)
  then show ?thesis
    using load_document_store_of [OF assms]
    by (simp add: loaded_def compact_result Let_def store_of_def reap_keeps)
qed

lemma mutate_job_keeps:
  assumes "mutate_job now i m s = Inr (j, s')"
  shows "s_state_path s' = s_state_path s \<and> s_sqlite_db_path s' = s_sqlite_db_path s"
proof -
  have r: "s_state_path t = s_state_path s \<and> s_sqlite_db_path t = s_sqlite_db_path s"
    if "reserve_session i x st s = Inr t" for t x st
    using that unfolding reserve_session_Inr by (auto split: option.splits if_splits)
  have d: "s_state_path (drop_own_session k x t) = s_state_path t"
    "s_sqlite_db_path (drop_own_session k x t) = s_sqlite_db_path t" for k x t
    by (simp_all add: drop_own_session_def)
  show ?thesis
    using assms r unfolding mutate_job_def Let_def bind_result_Inr_iff
    by (auto simp: release_previous_session_def finalize_session_def d split: option.splits)
qed

lemma arbitrate_keeps:
  assumes "arbitrate now opn sid i s = Inr (out, ch, s')"
  shows "s_state_path s' = s_state_path s \<and> s_sqlite_db_path s' = s_sqlite_db_path s"
  using assms unfolding arbitrate_def arbitrate_reserve_def arbitrate_claim_def arbitrate_release_def Let_def
  by (auto split: if_splits option.splits)

lemma apply_mutation_frame:
  assumes "store_of q s" "apply_mutation e c w i m s = (w', r)"
  shows "same_elsewhere q w w'"
proof (cases "mutate_job (c_iso c) i m s")
  case (Inl err)
  then show ?thesis using assms by (simp add: apply_mutation_def)
next
  case (Inr x)
  obtain j s' where x: "x = (j, s')" by force
  have "store_of q s'" using assms(1) mutate_job_keeps [OF Inr [unfolded x]] by (simp add: store_of_def)
  then show ?thesis
    using assms(2) persist_frame [of q s' e w w'] by (auto simp: apply_mutation_def Inr x split: prod.splits sum.splits)
qed

lemma arbitrate_session_takeover_frame:
  assumes "store_of q s" "arbitrate_session_takeover e c w opn sid i s = (w', r)"
  shows "same_elsewhere q w w'"
proof (cases "arbitrate (fst (c_iso c)) opn sid i s")
  case (Inl err)
  then show ?thesis using assms by (simp add: arbitrate_session_takeover_def)
next
  case (Inr x)
  obtain out ch s' where x: "x = (out, ch, s')" by (cases x) auto
  have "store_of q s'" using assms(1) arbitrate_keeps [OF Inr [unfolded x]] by (simp add: store_of_def)
  then show ?thesis
    using assms(2) persist_frame [of q s' e w w']
    by (auto simp: arbitrate_session_takeover_def Inr x split: prod.splits sum.splits if_splits)
qed

lemma takeover_response_world: "fst (takeover_response x r) = fst x"
  by (auto simp: takeover_response_def split: prod.splits sum.splits)

lemma dispatch_frame:
  assumes "store_of q s" "dispatch e c w s q = (w', r)"
  shows "same_elsewhere q w w'"
proof -
  have "same_elsewhere q w (fst (apply_mutation_handler e c w s q x))" for x
    using apply_mutation_frame [OF assms(1)]
    by (auto simp: apply_mutation_handler_def split: sum.splits prod.splits)
  moreover have "same_elsewhere q w (fst (arbitrate_session_takeover_handler e c w s q x))"
    "same_elsewhere q w (fst (reserve_claim_release_handler e c w s q x))" for x
    using arbitrate_session_takeover_frame [OF assms(1), of e c w]
    by (auto simp: arbitrate_session_takeover_handler_def reserve_claim_release_handler_def takeover_response_world
        split: sum.splits prod.splits) (metis prod.collapse)+
  ultimately show ?thesis
    using assms(2) unfolding dispatch_def Let_def by (auto split: if_splits simp: prod_eq_iff dest: sym)
qed

lemma dispatch_read_only:
  "\<not> is_mutating_background_operation (q_operation q) \<Longrightarrow> dispatch e c w s q = (w', r) \<Longrightarrow> w' = w"
  by (auto simp: dispatch_def Let_def is_mutating_background_operation_def split: if_splits)

lemma handle_request_eq:
  "handle_request e c w q =
     Some (if q_schema_version q \<noteq> BACKGROUND_STATE_REQUEST_SCHEMA_VERSION
           then (w, Inl (Validation, UnknownRequestVersion (q_schema_version q)))
           else case (if needs_path_lock q then Option.bind (q_state_path q) (e_lock_error e) else None) of
             Some kind \<Rightarrow> (w, Inl (kind, LockFailed))
           | None \<Rightarrow> (case load_document e w q of
               Inl err \<Rightarrow> (w, Inl err)
             | Inr d \<Rightarrow>
                 (case (if is_mutating_background_operation (q_operation q)
                        then flush_reap_if_dirty e (after_load c w) (loaded e c w q d)
                        else (after_load c w, loaded e c w q d)) of
                    (w, s) \<Rightarrow> dispatch e c w s q)))"
  unfolding handle_request_def load_store_eq by (simp split: option.split sum.split)

lemma flush_frame:
  assumes "store_of q s" "flush_reap_if_dirty e w s = (w', s')"
  shows "same_elsewhere q w w' \<and> store_of q s'"
proof -
  obtain w1 r where p: "persist e w s = (w1, r)" by force
  have eq: "flush_reap_if_dirty e w s = (if \<not> s_reaped_dirty s then (w, s)
      else (w1, case r of Inr _ \<Rightarrow> s\<lparr>s_reaped_dirty := False\<rparr> | Inl _ \<Rightarrow> s))"
    by (simp add: flush_reap_if_dirty_def p split: sum.split)
  have "store_of q (snd (flush_reap_if_dirty e w s))"
    using assms(1) by (simp add: eq store_of_def split: sum.split)
  moreover have "same_elsewhere q w (fst (flush_reap_if_dirty e w s))"
    using persist_frame [OF assms(1) p] by (simp add: eq)
  ultimately show ?thesis by (simp add: assms(2))
qed

text \<open>
  Every request is answered, and touches nothing but its own store: no other state file
  and no other database changes, no database disappears, and an operation that is not one of
  the five mutating ones leaves all files and databases as they are.
\<close>

theorem request_frame:
  "\<exists>w' r. handle_request e c w q = Some (w', r) \<and> same_elsewhere q w w' \<and>
     (\<not> is_mutating_background_operation (q_operation q) \<longrightarrow> w_file w' = w_file w \<and> w_db w' = w_db w)"
proof -
  obtain x where "handle_request e c w q = Some x" by (rule that [OF handle_request_eq])
  then obtain w' r where h: "handle_request e c w q = Some (w', r)" by (cases x) simp
  have "same_elsewhere q w w' \<and>
     (\<not> is_mutating_background_operation (q_operation q) \<longrightarrow> w_file w' = w_file w \<and> w_db w' = w_db w)"
  proof (cases "load_document e w q")
    case (Inl err)
    then have "w' = w" using h by (auto simp: handle_request_eq split: if_splits option.splits)
    then show ?thesis by simp
  next
    case (Inr d)
    note so = loaded_store_of [OF Inr, of c]
    show ?thesis
    proof (cases "w' = w")
      case False
      then obtain w1 s1 where w1: "(if is_mutating_background_operation (q_operation q)
          then flush_reap_if_dirty e (after_load c w) (loaded e c w q d)
          else (after_load c w, loaded e c w q d)) = (w1, s1)" "dispatch e c w1 s1 q = (w', r)"
        using h by (auto simp: handle_request_eq Inr split: if_splits option.splits prod.splits)
      have load: "same_elsewhere q w (after_load c w)" by simp
      show ?thesis
      proof (cases "is_mutating_background_operation (q_operation q)")
        case True
        then show ?thesis
          using w1 flush_frame [OF so, of e "after_load c w" w1 s1] dispatch_frame [of q s1 e c w1 w' r] load
          by (metis same_elsewhere_trans)
      next
        case False
        then show ?thesis using w1 dispatch_read_only [OF False, of e c w1 s1 w' r] by auto
      qed
    qed simp
  qed
  with h show ?thesis by blast
qed

theorem request_frame_witness:
  "\<exists>w' r. handle_request demo_env (demo_clock 5) demo_world (demo_request ''snapshot'') = Some (w', r) \<and>
     w_file w' = w_file demo_world"
proof -
  have "\<not> is_mutating_background_operation (q_operation (demo_request ''snapshot''))"
    by (simp add: is_mutating_background_operation_def demo_request_def)
  with request_frame [of demo_env "demo_clock 5" demo_world "demo_request ''snapshot''"] show ?thesis by blast
qed

section \<open>Reading back what was written\<close>

text \<open>
  The document a store wrote is the document the next load reads: after a successful write
  the file or the table row with the store's key holds the text, whichever durable back end is
  used and whatever its name's spelling.
\<close>

theorem written_document_is_read:
  assumes "write_persisted_state e w path family db text = (w', Inr ())" "e_readable e path"
    "\<forall>d. db = Some d \<longrightarrow> e_db_queries e d"
  shows "read_persisted_state e w' path family db payload = parse_persisted e text"
proof (cases "normalized_backend_family family \<in> {''filesystem'', ''file''}")
  case True
  then show ?thesis
    using assms(1,2) by (auto simp: write_persisted_state_def read_persisted_state_def Let_def split: if_splits)
next
  case False
  then obtain d where d: "db = Some d" "normalized_backend_family family \<in> {''sqlite'', ''sqlite3''}"
    and wr: "write_sqlite_state e w path d text = (w', Inr ())"
    using assms(1) by (auto simp: write_persisted_state_def Let_def split: if_splits option.splits)
  then obtain base key where "path_parent (path_components path) = Some base"
    "sqlite_storage_key e base (path_components path) = Inr key" "e_db_opens e d"
    "\<exists>rows. w_db w' d = Some rows \<and> rows key = Some text"
    by (auto simp: write_sqlite_state_def Let_def split: option.splits sum.splits if_splits)
  then have "read_sqlite_state e w' path d = parse_persisted e text"
    using assms(3) d(1) by (auto simp: read_sqlite_state_def)
  then show ?thesis using d by (auto simp: read_persisted_state_def Let_def)
qed

text \<open>
  With the SQLite back end a store given by a relative path cannot be written unless a
  file happens to exist at that path: the directory is made absolute but the path of the
  state, which lives in the database and not on disk, is not, so it never lies under it.
\<close>

theorem sqlite_relative_path_rejected:
  assumes "path_components path = p" "hd p \<noteq> ''/''" "path_parent p = Some base"
    "e_canonicalize e base = Some (''/'' # r)" "\<not> e_exists e p"
  shows "write_sqlite_state e w path db text = (w, Inl (Validation, OutsideRoot))"
proof -
  have "path_strip_prefix (''/'' # r) p = None"
    using assms(2,3) by (cases p) (auto simp: path_strip_prefix_def path_parent_def)
  then show ?thesis
    using assms by (simp add: write_sqlite_state_def sqlite_storage_key_def)
qed

theorem sqlite_relative_path_rejected_witness:
  "write_sqlite_state demo_env demo_world ''d/s.json'' ''db'' ''x'' = (demo_world, Inl (Validation, OutsideRoot))"
proof -
  have "path_components ''d/s.json'' = [''d'', ''s.json'']" by (simp add: path_components_def)
  from sqlite_relative_path_rejected [OF this, of "[''d'']" demo_env "[''d'']" demo_world "''db''" "''x''"]
  show ?thesis by (simp add: path_parent_def demo_env_def)
qed

text \<open>A write to an absolute path under a directory without symbolic links succeeds.\<close>

lemma normalized_sqlite: "normalized_backend_family ''sqlite'' = ''sqlite''"
  by code_simp

lemma normalized_memory: "normalized_backend_family ''memory'' = ''memory''"
  by code_simp

theorem written_document_is_read_witness:
  "\<exists>w'. write_persisted_state (demo_env\<lparr>e_canonicalize := Some\<rparr>) demo_world ''/d/s.json'' ''sqlite'' (Some ''db'') ''x'' = (w', Inr ()) \<and>
     read_persisted_state (demo_env\<lparr>e_canonicalize := Some\<rparr>) w' ''/d/s.json'' ''sqlite'' (Some ''db'') None =
       parse_persisted (demo_env\<lparr>e_canonicalize := Some\<rparr>) ''x''"
proof -
  let ?e = "demo_env\<lparr>e_canonicalize := Some\<rparr>"
  have "path_components ''/d/s.json'' = [''/'', ''d'', ''s.json'']" by (simp add: path_components_def)
  then obtain w' where w': "write_persisted_state ?e demo_world ''/d/s.json'' ''sqlite'' (Some ''db'') ''x'' = (w', Inr ())"
    by (simp add: write_persisted_state_def normalized_sqlite write_sqlite_state_def path_parent_def
        sqlite_storage_key_def path_strip_prefix_def demo_env_def Let_def)
  have "e_readable ?e ''/d/s.json''" "\<forall>d. Some ''db'' = Some d \<longrightarrow> e_db_queries ?e d"
    by (simp_all add: demo_env_def)
  from w' written_document_is_read [OF w' this] show ?thesis by metis
qed

section \<open>The reaper and its cache\<close>

lemma dispatch_get:
  "q_operation q = ''get'' \<Longrightarrow> q_job_id q = Some i \<Longrightarrow>
   dispatch e c w s q = (w, Inr (jput ''job'' (jopt job_json (get_job s i)) (base_response ''get'' s)))"
  by (simp add: dispatch_def Let_def get_handler_def required_def)

lemma handle_get:
  assumes "q_schema_version q = BACKGROUND_STATE_REQUEST_SCHEMA_VERSION"
    "needs_path_lock q \<longrightarrow> Option.bind (q_state_path q) (e_lock_error e) = None"
    "q_operation q = ''get''" "q_job_id q = Some i" "load_document e w q = Inr d"
  shows "handle_request e c w q = Some (after_load c w,
     Inr (jput ''job'' (jopt job_json (get_job (loaded e c w q d) i)) (base_response ''get'' (loaded e c w q d))))"
  using assms(2,3) by (auto simp: handle_request_eq assms(1,5) is_mutating_background_operation_def
      dispatch_get [OF assms(3,4)])

lemma load_document_cong:
  assumes "w_file w' = w_file w" "w_db w' = w_db w"
  shows "load_document e w' q = load_document e w q"
proof -
  have "read_persisted_state e w' = read_persisted_state e w"
    unfolding read_persisted_state_def read_sqlite_state_def assms by (rule refl)
  then show ?thesis unfolding load_document_def by (rule ssubst) (rule refl)
qed

text \<open>
  A reading request that reaps shows a result the next one takes back. The job of a dead
  worker is shown as interrupted (or is gone, if compaction dropped it) by the first
  \<^verbatim>\<open>get\<close>, which writes nothing; for the next minute the reaper is off, so a second
  \<^verbatim>\<open>get\<close> shows the same job as active again.
\<close>

theorem reaped_job_reappears:
  assumes "q_schema_version q = BACKGROUND_STATE_REQUEST_SCHEMA_VERSION"
    "needs_path_lock q \<longrightarrow> Option.bind (q_state_path q) (e_lock_error e) = None"
    "q_operation q = ''get''" "q_job_id q = Some i"
    "load_document e w q = Inr d" "hget (s_jobs d) i = Some j" "stale_active e (c_reap c) j"
    "reads_back e (c_reap c)" "reap_due (c_guard c) (w_last_reaped w)"
    "num_seconds (c_guard c' - c_guard c) < 60"
  shows "\<exists>w1 r1 r2. handle_request e c w q = Some (w1, Inr r1) \<and>
      handle_request e c' w1 q = Some (w1, Inr r2) \<and> w_file w1 = w_file w \<and> w_db w1 = w_db w \<and>
      map_of r1 ''job'' \<in> {Some JNull,
        Some (job_json (interrupt_job (e_to_rfc3339 e (c_reap c)) (stale_message (j_status j)) j))} \<and>
      map_of r2 ''job'' = Some (job_json j) \<and> is_active_status (j_status j)"
proof -
  let ?w1 = "after_load c w"
  have d2: "load_document e ?w1 q = Inr d" using load_document_cong [of ?w1 w] assms(5) by simp
  have off: "\<not> reap_due (c_guard c') (w_last_reaped ?w1)"
    using assms(9,10) by (simp add: after_load_def reap_due_def REAP_CACHE_TTL_SECS_def)
  then have l2: "loaded e c' ?w1 q d = d" "after_load c' ?w1 = ?w1" by (simp_all add: loaded_def after_load_def)
  have r: "hget (s_jobs (reap_all e (c_reap c) d)) i =
      Some (interrupt_job (e_to_rfc3339 e (c_reap c)) (stale_message (j_status j)) j)"
    using reap_all_effect(2) [OF load_document_ok(1) [OF assms(5)] assms(8), of i] assms(6,7) by (simp add: reaped_def)
  have "loaded e c w q d =
      the (compact_terminal_over_capacity (q_capacity_limit q) (reap_all e (c_reap c) d))"
    using assms(9) by (simp add: loaded_def)
  then have l1: "get_job (loaded e c w q d) i \<in> {None, hget (s_jobs (reap_all e (c_reap c) d)) i}"
    by (simp add: compact_result [OF reap_all_ok [OF load_document_ok(1) [OF assms(5)]]] Let_def get_job_def hget_filter_keys)
  have get2: "get_job d i = Some j" using assms(6) by (simp add: get_job_def)
  have first: "handle_request e c w q = Some (?w1, Inr (jput ''job'' (jopt job_json (get_job (loaded e c w q d) i))
      (base_response ''get'' (loaded e c w q d))))"
    by (rule handle_get [OF assms(1-5)])
  have second: "handle_request e c' ?w1 q = Some (?w1, Inr (jput ''job'' (jopt job_json (Some j)) (base_response ''get'' d)))"
    using handle_get [OF assms(1-4) d2, of c'] by (simp add: l2 get2)
  have "is_active_status (j_status j)" using assms(7) by (simp add: stale_active_def)
  then show ?thesis
    using first second l1 r by (auto simp: map_of_jput jopt_def)
qed

definition stale_world :: "job_env" where
  "stale_world = demo_env\<lparr>e_text_json := (\<lambda>_. Some (persisted_json (persisted_of_store demo_store)))\<rparr>"

definition get_request :: background_state_request where
  "get_request = (demo_request ''get'')\<lparr>q_job_id := Some ''a'', q_state_payload_text := Some ''doc''\<rparr>"

lemma demo_job_writable: "job_writable (demo_job i st sess t)"
  by (simp add: job_writable_def demo_job_def claimed_placeholder_def
      DEFAULT_BACKGROUND_JOB_BACKOFF_BASE_SECONDS_def DEFAULT_BACKGROUND_JOB_BACKOFF_MULTIPLIER_def)

lemma demo_persisted: "persisted_of_json (persisted_json (persisted_of_store demo_store)) = Some (persisted_of_store demo_store)"
  by (rule persisted_roundtrip)
    (auto simp: persisted_of_store_def sorted_jobs_def demo_store_def demo_job_writable)

lemma memory_control_plane: "\<exists>cp. build_state_control_plane None ''memory'' path = Inr cp"
  by (simp add: build_state_control_plane_def backend_capabilities_def normalized_memory Let_def)

lemma load_demo:
  "\<exists>d. load_document stale_world demo_world get_request = Inr d \<and>
     hget (s_jobs d) ''a'' = Some (demo_job ''a'' ''running'' (Some ''s'') ''t1'')"
proof -
  obtain cp where cp: "build_state_control_plane None ''memory'' ''d/state.json'' = Inr cp"
    using memory_control_plane by blast
  have "parse_persisted stale_world ''doc'' = Inr (Some (persisted_of_store demo_store))"
    by (simp add: parse_persisted_def stale_world_def demo_persisted)
  then have "load_document stale_world demo_world get_request =
      Inr (merge_persisted (persisted_of_store demo_store) (empty_store get_request ''memory'' cp ''d/state.json''))"
    using cp by (simp add: load_document_def get_request_def demo_request_def read_persisted_state_def
        normalized_memory Let_def)
  moreover have "hget (s_jobs (merge_persisted (persisted_of_store demo_store) s)) = hget (s_jobs demo_store)" for s
    using reload_jobs [of "s_jobs demo_store"] demo_store_ok
    by (simp add: merge_persisted_def Let_def persisted_of_store_def store_ok_iff)
  ultimately show ?thesis by (simp add: demo_store_def)
qed

theorem reaped_job_reappears_witness:
  "\<exists>w1 r1 r2 c c'. handle_request stale_world c demo_world get_request = Some (w1, Inr r1) \<and>
     handle_request stale_world c' w1 get_request = Some (w1, Inr r2) \<and>
     map_of r2 ''job'' = Some (job_json (demo_job ''a'' ''running'' (Some ''s'') ''t1''))"
proof -
  let ?c = "demo_clock (nanos 7200)"
  let ?j = "demo_job ''a'' ''running'' (Some ''s'') ''t1''"
  obtain d where d: "load_document stale_world demo_world get_request = Inr d" "hget (s_jobs d) ''a'' = Some ?j"
    using load_demo by blast
  have "stale_active stale_world (c_reap ?c) ?j" "reads_back stale_world (c_reap ?c)"
    by (simp_all add: stale_active_def older_than_def stale_world_def demo_env_def demo_clock_def nanos_def
        status_defs STALE_ACTIVE_HEARTBEAT_TTL_SECS_def reads_back_def)
  moreover have "reap_due (c_guard ?c) (w_last_reaped demo_world)" "num_seconds (c_guard ?c - c_guard ?c) < 60"
    by (simp_all add: reap_due_def demo_world_def num_seconds_def)
  moreover have "\<not> needs_path_lock get_request"
    by (simp add: needs_path_lock_def get_request_def demo_request_def normalized_memory)
  moreover have "q_schema_version get_request = BACKGROUND_STATE_REQUEST_SCHEMA_VERSION"
    "q_operation get_request = ''get''" "q_job_id get_request = Some ''a''"
    by (simp_all add: get_request_def demo_request_def)
  ultimately show ?thesis using reaped_job_reappears [of get_request stale_world "''a''" demo_world d ?j ?c ?c] d
    by auto
qed

end
