(* ===== verification/Proof_Dag.thy ===== *)
theory Proof_Dag
  imports Serde Text
begin

text \<open>
  The AND-OR proof DAG (\<^verbatim>\<open>core/research-harness/src/proof_dag.rs\<close>): a blueprint of nodes and
  their verification results, its decomposition, verification and backtracking, the prose cap
  and the consistency checks. The proof engines the leaves call, the two regular expressions
  and the clock are parameters.
\<close>

section \<open>Data\<close>

datatype verification_status = Pass | Fail | Warn | Skip

datatype verification_backend = InequalityEngine | Asymptotic | SymPy | Z3 | Lean | ManualProse

datatype dag_node =
    OrNode string string "string list"
  | AndNode string string "string list"
  | Leaf string string verification_backend

fun node_id :: "dag_node \<Rightarrow> string" where
  "node_id (OrNode i _ _) = i"
| "node_id (AndNode i _ _) = i"
| "node_id (Leaf i _ _) = i"

fun node_label :: "dag_node \<Rightarrow> string" where
  "node_label (OrNode _ l _) = l"
| "node_label (AndNode _ l _) = l"
| "node_label (Leaf _ c _) = c"

fun node_children :: "dag_node \<Rightarrow> string list" where
  "node_children (OrNode _ _ cs) = cs"
| "node_children (AndNode _ _ cs) = cs"
| "node_children (Leaf _ _ _) = []"

fun is_leaf :: "dag_node \<Rightarrow> bool" where
  "is_leaf (Leaf _ _ _) = True"
| "is_leaf _ = False"

fun node_backend :: "dag_node \<Rightarrow> verification_backend option" where
  "node_backend (Leaf _ _ b) = Some b"
| "node_backend _ = None"

definition is_automated :: "verification_backend \<Rightarrow> bool" where
  "is_automated b \<longleftrightarrow> b \<noteq> ManualProse"

record verification_result_ext =
  r_status :: verification_status
  r_validated_at_round :: u64
  r_stale :: bool
  r_detail :: string
  r_verified_at :: string

definition result_new :: "verification_status \<Rightarrow> u64 \<Rightarrow> verification_result_ext" where
  "result_new s n = \<lparr>r_status = s, r_validated_at_round = n, r_stale = False, r_detail = [], r_verified_at = []\<rparr>"

definition with_detail :: "string \<Rightarrow> string \<Rightarrow> verification_result_ext \<Rightarrow> verification_result_ext" where
  "with_detail now d r = r\<lparr>r_detail := d, r_verified_at := now\<rparr>"

definition mark_stale :: "verification_result_ext \<Rightarrow> verification_result_ext" where
  "mark_stale r = r\<lparr>r_stale := True\<rparr>"

type_synonym dag_nodes = "(string, dag_node) hmap"

type_synonym dag_results = "(string, verification_result_ext) hmap"

record blueprint =
  bp_name :: string
  bp_goal :: string
  bp_root :: string
  bp_nodes :: dag_nodes
  bp_status :: dag_results
  bp_round :: u64

fun status_priority :: "verification_status \<Rightarrow> nat" where
  "status_priority Pass = 0"
| "status_priority Warn = 1"
| "status_priority Skip = 2"
| "status_priority Fail = 3"

definition blueprint_new :: "string \<Rightarrow> string \<Rightarrow> blueprint" where
  "blueprint_new goal name = \<lparr>bp_name = name, bp_goal = goal, bp_root = ''root'',
     bp_nodes = [(''root'', OrNode ''root'' (''Prove: '' @ goal) [])],
     bp_status = [(''root'', result_new Skip 0)], bp_round = 0\<rparr>"

section \<open>Decomposition\<close>

datatype dag_error = NodeNotFound string | LeafDecomposed string | EmptyParentId | EmptyChildId
  | OnlyManualProse | DuplicateChildren "string list" | ProseCapExceeded nat nat
  | DagArgument string | DagMalformed | DagSchema string | DagSchemaNotString | DagStoreFull
  | DagUnknown | UnknownAction string

fun duplicate_ids :: "string list \<Rightarrow> string list \<Rightarrow> string list" where
  "duplicate_ids seen [] = []"
| "duplicate_ids seen (i # is) = (if i \<in> set seen then i # duplicate_ids seen is else duplicate_ids (i # seen) is)"

definition insert_child :: "string \<Rightarrow> u64 \<Rightarrow> dag_node \<Rightarrow> dag_nodes \<times> dag_results \<Rightarrow> dag_nodes \<times> dag_results" where
  "insert_child now rnd c = (\<lambda>(ns, st).
     (hput (node_id c) c ns, hput (node_id c) (with_detail now ''not_yet_verified'' (result_new Skip rnd)) st))"

definition decompose ::
  "string \<Rightarrow> string \<Rightarrow> dag_node list \<Rightarrow> bool \<Rightarrow> blueprint \<Rightarrow> (dag_error, blueprint) result" where
  "decompose now parent_id children is_and bp =
     (case hget (bp_nodes bp) parent_id of
        None \<Rightarrow> Inl (NotFound, NodeNotFound parent_id)
      | Some parent \<Rightarrow>
          if is_leaf parent then Inl (Validation, LeafDecomposed parent_id)
          else if parent_id = [] then Inl (Validation, EmptyParentId)
          else if \<exists>c \<in> set children. node_id c = [] then Inl (Validation, EmptyChildId)
          else if is_and \<and> list_all (\<lambda>c. node_backend c = Some ManualProse) children
          then Inl (Validation, OnlyManualProse)
          else
            (let ids = map node_id children in
             if duplicate_ids [] ids \<noteq> [] then Inl (Validation, DuplicateChildren (duplicate_ids [] ids))
             else
               (case fold (insert_child now (bp_round bp)) children (bp_nodes bp, bp_status bp) of
                  (ns, st) \<Rightarrow>
                    Inr (bp\<lparr>bp_nodes := hput parent_id
                               (if is_and then AndNode parent_id (node_label parent) ids
                                else OrNode parent_id (node_label parent) ids) ns,
                           bp_status := st\<rparr>))))"

section \<open>Leaves\<close>

text \<open>The engines, the regular expressions and the clock.\<close>

record dag_env =
  v_inequality :: "string \<Rightarrow> nat \<Rightarrow> verification_status \<times> string"
  v_z3_available :: bool
  v_z3_prove :: "string \<Rightarrow> verification_status \<times> string"
  v_sympy_identity :: "string \<Rightarrow> string \<Rightarrow> verification_status \<times> string"
  v_sympy_simplify :: "string \<Rightarrow> string"
  v_magnitude :: "string \<Rightarrow> string \<Rightarrow> string \<Rightarrow> verification_status \<times> string"
  v_lean :: "string \<Rightarrow> verification_status \<times> string"
  v_names :: "string \<Rightarrow> string list"
  v_inequality_parts :: "string \<Rightarrow> (string \<times> string \<times> string) option"
  v_now :: string

text \<open>The verdict of an engine that may pass, fail, or leave a warning.\<close>

definition engine_verdict :: "string \<Rightarrow> verification_status \<times> string \<Rightarrow> verification_status \<times> string" where
  "engine_verdict name r = (case r of (s, d) \<Rightarrow>
     (case s of Pass \<Rightarrow> Pass | Fail \<Rightarrow> Fail | _ \<Rightarrow> Warn, name @ '': '' @ d))"

definition attempt_inequality_verify :: "dag_env \<Rightarrow> string \<Rightarrow> verification_status \<times> string" where
  "attempt_inequality_verify env claim =
     (if claim = [] then (Skip, ''inequality: empty claim'')
      else engine_verdict ''inequality'' (v_inequality env claim 5000))"

definition is_logical :: "string \<Rightarrow> bool" where
  "is_logical claim \<longleftrightarrow> contains_text claim ''Implies'' \<or> contains_text claim ''ForAll'' \<or>
     contains_text claim ''Exists'' \<or> contains_text claim ''And('' \<or> contains_text claim ''Or('' \<or>
     contains_text claim ''Not(''"

definition attempt_z3_verify :: "dag_env \<Rightarrow> string \<Rightarrow> verification_status \<times> string" where
  "attempt_z3_verify env claim =
     (if claim = [] then (Skip, ''z3: empty claim'')
      else
        (let fallback = engine_verdict ''z3_inequality'' (v_inequality env claim 10000) in
         if is_logical claim \<or> v_z3_available env
         then (case v_z3_prove env claim of
                 (Pass, d) \<Rightarrow> (Pass, ''z3_prove: '' @ d)
               | (Fail, d) \<Rightarrow> if is_logical claim then (Fail, ''z3_prove_fail: '' @ d) else fallback
               | _ \<Rightarrow> fallback)
         else fallback))"

text \<open>The arrow and the bracket that separate the parts of a simplification's report.\<close>

definition arrow :: string where
  "arrow = [CHR '' '', CHR 0xE2, CHR 0x86, CHR 0x92, CHR '' '']"

definition simplified_part :: "string \<Rightarrow> string" where
  "simplified_part details =
     (case split_once arrow details of
        None \<Rightarrow> []
      | Some (_, rest) \<Rightarrow>
          let second = (case split_once arrow rest of None \<Rightarrow> rest | Some (a, _) \<Rightarrow> a)
          in trim (case split_once '' ('' second of None \<Rightarrow> second | Some (a, _) \<Rightarrow> a))"

definition attempt_sympy_verify :: "dag_env \<Rightarrow> string \<Rightarrow> verification_status \<times> string" where
  "attempt_sympy_verify env claim =
     (if claim = [] then (Skip, ''sympy: empty claim'')
      else case split_once ''=='' claim of
        Some (l, r) \<Rightarrow> engine_verdict ''sympy_verify'' (v_sympy_identity env (trim l) (trim r))
      | None \<Rightarrow>
          if contains_text claim ''>='' \<or> contains_text claim ''<='' \<or> contains_text claim ''!=''
          then (Warn, ''sympy: relational expression '' @ [CHR 0x27] @ claim @ [CHR 0x27] @
                 '' cannot be verified as identity '' @ [CHR 0xE2, CHR 0x80, CHR 0x94] @
                 '' simplified to: '' @ v_sympy_simplify env claim)
          else case split_once ''='' claim of
            Some (l, r) \<Rightarrow> engine_verdict ''sympy_verify'' (v_sympy_identity env (trim l) (trim r))
          | None \<Rightarrow>
              (let details = v_sympy_simplify env claim; simplified = simplified_part details in
               if simplified = ''0'' \<or> simplified = ''0.0''
               then (Pass, ''sympy_simplify: '' @ details @ '' (identically zero)'')
               else (Warn, ''sympy: single expression without '' @ [CHR 0x27] @ ''='' @ [CHR 0x27] @
                       '', simplified to '' @ [CHR 0x27] @ simplified @ [CHR 0x27] @ '' '' @
                       [CHR 0xE2, CHR 0x80, CHR 0x94] @ '' use lhs = rhs form for strong verification'')))"

definition math_keywords :: "string list" where
  "math_keywords =
     [''sin'', ''cos'', ''tan'', ''sinh'', ''cosh'', ''tanh'', ''asin'', ''acos'', ''atan'', ''atan2'',
      ''asinh'', ''acosh'', ''atanh'', ''sqrt'', ''abs'', ''exp'', ''log'', ''ln'', ''log2'', ''log10'',
      ''erf'', ''erfc'', ''gamma'', ''digamma'', ''ceil'', ''floor'', ''round'', ''sign'', ''sgn'',
      ''min'', ''max'', ''pow'', ''mod'', ''rem'', ''pi'', ''e'', ''And'', ''Or'', ''Not'', ''Implies'',
      ''True'', ''False'']"

definition attempt_asymptotic_verify :: "dag_env \<Rightarrow> string \<Rightarrow> verification_status \<times> string" where
  "attempt_asymptotic_verify env claim =
     (if claim = [] then (Skip, ''asymptotic: empty claim'')
      else
        (let var = (case find (\<lambda>v. v \<notin> set math_keywords) (v_names env claim) of Some v \<Rightarrow> v | None \<Rightarrow> ''x'')
         in case v_magnitude env claim var ''oo'' of
              (s, d) \<Rightarrow> (if s = Pass then Pass else Warn,
                ''asymptotic('' @ var @ [CHR 0xE2, CHR 0x86, CHR 0x92] @ ''oo): '' @ d)))"

definition attempt_lean_verify :: "dag_env \<Rightarrow> string \<Rightarrow> verification_status \<times> string" where
  "attempt_lean_verify env claim =
     (if claim = [] then (Skip, ''lean: empty claim'') else engine_verdict ''lean'' (v_lean env claim))"

fun leaf_verdict :: "dag_env \<Rightarrow> verification_backend \<Rightarrow> string \<Rightarrow> verification_status \<times> string" where
  "leaf_verdict env ManualProse claim = (Skip, ''verification_impossible: ManualProse cannot be automated'')"
| "leaf_verdict env InequalityEngine claim = attempt_inequality_verify env claim"
| "leaf_verdict env Z3 claim = attempt_z3_verify env claim"
| "leaf_verdict env SymPy claim = attempt_sympy_verify env claim"
| "leaf_verdict env Asymptotic claim = attempt_asymptotic_verify env claim"
| "leaf_verdict env Lean claim = attempt_lean_verify env claim"

definition leaf_result :: "dag_env \<Rightarrow> u64 \<Rightarrow> verification_backend \<Rightarrow> string \<Rightarrow> verification_result_ext" where
  "leaf_result env rnd b claim =
     (case leaf_verdict env b claim of (s, d) \<Rightarrow> with_detail (v_now env) d (result_new s rnd))"

section \<open>Verification\<close>

text \<open>
  The recursion keeps the ids on the current call path; a node met again on its own path
  counts as failed. Only leaves write a result. The two loops over children are functions of
  their own: the alternatives with the best result so far, the conjuncts with the flags
  \<^verbatim>\<open>all_pass\<close> and \<^verbatim>\<open>all_skip\<close> and the worst status.
\<close>

type_synonym dag_answer = "(dag_error, verification_result_ext) result \<times> dag_results"

definition better :: "verification_result_ext option \<Rightarrow> verification_result_ext \<Rightarrow> verification_result_ext" where
  "better best r = (case best of
     None \<Rightarrow> r
   | Some b \<Rightarrow> if status_priority (r_status b) \<ge> status_priority (r_status r) then b else r)"

definition conj_result :: "u64 \<Rightarrow> bool \<Rightarrow> bool \<Rightarrow> verification_status \<Rightarrow> verification_result_ext" where
  "conj_result rnd all_pass all_skip worst =
     (if all_skip then result_new Skip rnd
      else if all_pass then result_new Pass rnd else result_new worst rnd)"

lemma path_grows:
  assumes "i \<notin> set path" "hget ns i = Some n"
  shows "card (set (hkeys ns) - set (i # path)) < card (set (hkeys ns) - set path)"
proof (rule psubset_card_mono)
  have "i \<in> set (hkeys ns)" using assms(2) hget_None_iff [of ns i] by auto
  then show "set (hkeys ns) - set (i # path) \<subset> set (hkeys ns) - set path" using assms(1) by auto
qed simp

function verify_node :: "dag_env \<Rightarrow> dag_nodes \<Rightarrow> u64 \<Rightarrow> string list \<Rightarrow> string \<Rightarrow> dag_results \<Rightarrow> dag_answer"
  and verify_or :: "dag_env \<Rightarrow> dag_nodes \<Rightarrow> u64 \<Rightarrow> string list \<Rightarrow> string list \<Rightarrow> verification_result_ext option \<Rightarrow>
    dag_results \<Rightarrow> dag_answer"
  and verify_and :: "dag_env \<Rightarrow> dag_nodes \<Rightarrow> u64 \<Rightarrow> string list \<Rightarrow> string list \<Rightarrow> bool \<Rightarrow> bool \<Rightarrow>
    verification_status \<Rightarrow> dag_results \<Rightarrow> dag_answer" where
  "verify_node env ns rnd path i st =
     (if i \<in> set path then (Inr (result_new Fail rnd), st)
      else case hget ns i of
        None \<Rightarrow> (Inl (NotFound, NodeNotFound i), st)
      | Some (Leaf _ claim b) \<Rightarrow>
          (let r = leaf_result env rnd b claim in (Inr r, hput i r st))
      | Some (OrNode _ _ cs) \<Rightarrow> verify_or env ns rnd (i # path) cs None st
      | Some (AndNode _ _ cs) \<Rightarrow> verify_and env ns rnd (i # path) cs True True Pass st)"
| "verify_or env ns rnd path [] best st =
     (Inr (case best of Some b \<Rightarrow> b | None \<Rightarrow> result_new Fail rnd), st)"
| "verify_or env ns rnd path (c # cs) best st =
     (case verify_node env ns rnd path c st of
        (Inl e, st') \<Rightarrow> (Inl e, st')
      | (Inr r, st') \<Rightarrow>
          if r_status r = Pass then (Inr (result_new Pass rnd), st')
          else verify_or env ns rnd path cs (Some (better best r)) st')"
| "verify_and env ns rnd path [] all_pass all_skip worst st =
     (Inr (conj_result rnd all_pass all_skip worst), st)"
| "verify_and env ns rnd path (c # cs) all_pass all_skip worst st =
     (case verify_node env ns rnd path c st of
        (Inl e, st') \<Rightarrow> (Inl e, st')
      | (Inr r, st') \<Rightarrow>
          (case r_status r of
             Fail \<Rightarrow> verify_and env ns rnd path cs False False Fail st'
           | Warn \<Rightarrow> verify_and env ns rnd path cs False False Warn st'
           | Skip \<Rightarrow> verify_and env ns rnd path cs all_pass all_skip worst st'
           | Pass \<Rightarrow> verify_and env ns rnd path cs all_pass False worst st'))"
  by pat_completeness auto
termination
  by (relation "measures
      [\<lambda>x. case x of Inl (_, ns, _, path, _) \<Rightarrow> card (set (hkeys ns) - set path)
         | Inr (Inl (_, ns, _, path, _)) \<Rightarrow> card (set (hkeys ns) - set path)
         | Inr (Inr (_, ns, _, path, _)) \<Rightarrow> card (set (hkeys ns) - set path),
       \<lambda>x. case x of Inl _ \<Rightarrow> 0 | Inr (Inl (_, _, _, _, cs, _)) \<Rightarrow> Suc (length cs)
         | Inr (Inr (_, _, _, _, cs, _)) \<Rightarrow> Suc (length cs)]")
    (auto dest!: path_grows)

declare verify_node.simps [simp del] verify_or.simps [simp del] verify_and.simps [simp del]

definition verify :: "dag_env \<Rightarrow> blueprint \<Rightarrow> (dag_error, unit) result \<times> blueprint" where
  "verify env bp =
     (let rnd = bp_round bp + 1;
          st = map (\<lambda>(i, r). (i, mark_stale r)) (bp_status bp)
      in case verify_node env (bp_nodes bp) rnd [] (bp_root bp) st of
           (Inl e, st') \<Rightarrow> (Inl e, bp\<lparr>bp_round := rnd, bp_status := st'\<rparr>)
         | (Inr r, st') \<Rightarrow> (Inr (), bp\<lparr>bp_round := rnd, bp_status := hput (bp_root bp) r st'\<rparr>))"

section \<open>Backtracking\<close>

text \<open>The descendants, collected with a stack whose top is the head of the list.\<close>

function collect_descendants :: "dag_nodes \<Rightarrow> string list \<Rightarrow> string list \<Rightarrow> string list" where
  "collect_descendants ns seen [] = rev seen"
| "collect_descendants ns seen (c # stack) =
     (if c \<in> set seen then collect_descendants ns seen stack
      else collect_descendants ns (c # seen)
             ((case hget ns c of Some n \<Rightarrow> rev (node_children n) | None \<Rightarrow> []) @ stack))"
  by pat_completeness auto
termination
proof (relation "measures [\<lambda>(ns, seen, stack). card (set (hkeys ns) - set seen), \<lambda>(ns, seen, stack). length stack]")
  fix ns :: dag_nodes and seen stack :: "string list" and c
  assume c: "c \<notin> set seen"
  show "((ns, c # seen, (case hget ns c of Some n \<Rightarrow> rev (node_children n) | None \<Rightarrow> []) @ stack), ns, seen, c # stack)
      \<in> measures [\<lambda>(ns, seen, stack). card (set (hkeys ns) - set seen), \<lambda>(ns, seen, stack). length stack]"
  proof (cases "hget ns c")
    case None
    then have "set (hkeys ns) - set (c # seen) = set (hkeys ns) - set seen"
      unfolding hget_None_iff by auto
    then show ?thesis by (simp add: None)
  next
    case (Some n)
    then show ?thesis using path_grows [OF c Some] by simp
  qed
qed auto

definition backtrack :: "string \<Rightarrow> string list \<Rightarrow> blueprint \<Rightarrow> (dag_error, blueprint) result" where
  "backtrack i visited bp =
     (if i \<in> set visited then Inr bp
      else case hget (bp_nodes bp) i of
        None \<Rightarrow> Inl (NotFound, NodeNotFound i)
      | Some n \<Rightarrow>
          (let gone = collect_descendants (bp_nodes bp) [] (rev (node_children n))
           in Inr (bp\<lparr>bp_nodes := hput i (OrNode i (node_label n) [])
                        (foldl (\<lambda>m c. hdel c m) (bp_nodes bp) gone),
                     bp_status := foldl (\<lambda>m c. hdel c m) (bp_status bp) gone\<rparr>)))"

section \<open>Leaves and the prose cap\<close>

text \<open>
  The recursive walks over the leaves have no guard against cycles, so they may not return.
  The pending calls are kept as a list; the counts are those of all and of manual leaves.
\<close>

partial_function (option) count_leaves ::
  "dag_nodes \<Rightarrow> string list \<Rightarrow> nat \<Rightarrow> nat \<Rightarrow> (nat \<times> nat) option" where
  "count_leaves ns pending leaves manual =
     (case pending of
        [] \<Rightarrow> Some (leaves, manual)
      | i # rest \<Rightarrow>
          (case hget ns i of
             None \<Rightarrow> count_leaves ns rest leaves manual
           | Some (Leaf _ _ b) \<Rightarrow>
               count_leaves ns rest (leaves + 1) (if b = ManualProse then manual + 1 else manual)
           | Some n \<Rightarrow> count_leaves ns (node_children n @ rest) leaves manual))"

definition leaf_counts :: "blueprint \<Rightarrow> (nat \<times> nat) option" where
  "leaf_counts bp = count_leaves (bp_nodes bp) [bp_root bp] 0 0"

definition prose_ratio :: "nat \<Rightarrow> nat \<Rightarrow> f64" where
  "prose_ratio leaves manual = 
     (if leaves = 0 then Fin 0
      else case f64_of_int (int leaves) of Fin d \<Rightarrow> f64_div_pos (f64_of_int (int manual)) d | x \<Rightarrow> x)"

definition manual_prose_ratio :: "blueprint \<Rightarrow> f64 option" where
  "manual_prose_ratio bp = map_option (\<lambda>(t, m). prose_ratio t m) (leaf_counts bp)"

definition validate_manual_prose_ratio :: "f64 \<Rightarrow> blueprint \<Rightarrow> (dag_error, unit) result option" where
  "validate_manual_prose_ratio max_pct bp = map_option (\<lambda>(t, m).
     if f64_less max_pct (prose_ratio t m) then Inl (Validation, ProseCapExceeded m t) else Inr ())
     (leaf_counts bp)"

section \<open>Checks\<close>

definition verified :: "dag_results \<Rightarrow> string \<Rightarrow> bool" where
  "verified st c = (case hget st c of Some r \<Rightarrow> r_status r = Pass \<or> r_status r = Warn | None \<Rightarrow> False)"

definition check_step_dependencies :: "blueprint \<Rightarrow> (string \<times> string list) list" where
  "check_step_dependencies bp =
     concat (map (\<lambda>(i, n).
       (let missing = filter (\<lambda>c. \<not> verified (bp_status bp) c) (node_children n)
        in if missing \<noteq> [] then [(i, missing)] else [])) (bp_nodes bp))"

partial_function (option) leaf_claims :: "dag_nodes \<Rightarrow> string list \<Rightarrow> string list \<Rightarrow> string list option" where
  "leaf_claims ns pending claims =
     (case pending of
        [] \<Rightarrow> Some claims
      | i # rest \<Rightarrow>
          (case hget ns i of
             None \<Rightarrow> leaf_claims ns rest claims
           | Some (Leaf _ claim _) \<Rightarrow> leaf_claims ns rest (claims @ [claim])
           | Some n \<Rightarrow> leaf_claims ns (node_children n @ rest) claims))"

definition opposite_pairs :: "(string \<times> string) list" where
  "opposite_pairs = [(''>'', ''<''), (''>'', ''<=''), (''>='', ''<''), (''<'', ''>''), (''<='', ''>''),
     (''<'', ''>=''), (''=='', ''!=''), (''!='', ''=='')]"

definition claims_contradict :: "dag_env \<Rightarrow> string \<Rightarrow> string \<Rightarrow> bool" where
  "claims_contradict env a b =
     (case (v_inequality_parts env a, v_inequality_parts env b) of
        (Some (la, oa, ra), Some (lb, ob, rb)) \<Rightarrow>
          trim la = trim lb \<and> trim ra = trim rb \<and> (oa, ob) \<in> set opposite_pairs
      | _ \<Rightarrow> False)"

fun all_some :: "'a option list \<Rightarrow> 'a list option" where
  "all_some [] = Some []"
| "all_some (None # xs) = None"
| "all_some (Some x # xs) = map_option ((#) x) (all_some xs)"

text \<open>The pairs of branches in order, and for each pair the contradicting claims.\<close>

fun branch_conflicts :: "dag_env \<Rightarrow> string list list \<Rightarrow> (string \<times> string) list" where
  "branch_conflicts env [] = []"
| "branch_conflicts env (b # bs) =
     concat (map (\<lambda>b'. concat (map (\<lambda>ca. map (\<lambda>cb. (ca, cb)) (filter (claims_contradict env ca) b')) b)) bs) @
     branch_conflicts env bs"

definition or_node_conflicts :: "dag_env \<Rightarrow> dag_nodes \<Rightarrow> dag_node \<Rightarrow> (string \<times> string) list option" where
  "or_node_conflicts env ns n =
     (case n of
        OrNode _ _ cs \<Rightarrow> map_option (branch_conflicts env) (all_some (map (\<lambda>c. leaf_claims ns [c] []) cs))
      | _ \<Rightarrow> Some [])"

definition check_or_consistency :: "dag_env \<Rightarrow> blueprint \<Rightarrow> (string \<times> string) list option" where
  "check_or_consistency env bp =
     map_option concat (all_some (map (\<lambda>(i, n). or_node_conflicts env (bp_nodes bp) n) (bp_nodes bp)))"

end
