(* ===== verification/Proof_Dag_Json.thy ===== *)
theory Proof_Dag_Json
  imports Proof_Dag
begin

text \<open>
  Serialised blueprints (\<^verbatim>\<open>core/research-harness/src/proof_dag_serialize.rs\<close>), the status
  summary, and the tools on the named store of blueprints
  (\<^verbatim>\<open>core/research-harness/src/mcp_tools/proof_dag.rs\<close>). A text is represented by the JSON
  value it holds; answers are those values.
\<close>

section \<open>Serialised form\<close>

definition statuses :: "(string \<times> verification_status) list" where
  "statuses = [(''pass'', Pass), (''fail'', Fail), (''warn'', Warn), (''skip'', Skip)]"

definition backends :: "(string \<times> verification_backend) list" where
  "backends = [(''InequalityEngine'', InequalityEngine), (''Asymptotic'', Asymptotic), (''SymPy'', SymPy),
     (''Z3'', Z3), (''Lean'', Lean), (''ManualProse'', ManualProse)]"

definition inner_json :: "string \<Rightarrow> string \<Rightarrow> string list \<Rightarrow> json" where
  "inner_json i l cs = JObj [(''children'', JArr (map JStr cs)), (''id'', JStr i), (''label'', JStr l)]"

fun node_json :: "dag_node \<Rightarrow> json" where
  "node_json (OrNode i l cs) = JObj [(''OrNode'', inner_json i l cs)]"
| "node_json (AndNode i l cs) = JObj [(''AndNode'', inner_json i l cs)]"
| "node_json (Leaf i c b) = JObj [(''Leaf'', JObj
     [(''backend'', ser_enum backends b), (''claim'', JStr c), (''id'', JStr i)])]"

text \<open>A structure without defaults: an object that may have other members, or a full array.\<close>

fun de_full :: "string list \<Rightarrow> json \<Rightarrow> (string \<times> json) list option" where
  "de_full names (JObj m) = Some m"
| "de_full names (JArr xs) = (if length xs = length names then Some (zip names xs) else None)"
| "de_full names _ = None"

definition inner_of_json :: "(string \<Rightarrow> string \<Rightarrow> string list \<Rightarrow> dag_node) \<Rightarrow> json \<Rightarrow> dag_node option" where
  "inner_of_json mk v =
     Option.bind (de_full [''id'', ''label'', ''children''] v) (\<lambda>m.
     Option.bind (de_req as_str m ''id'') (\<lambda>i.
     Option.bind (de_req as_str m ''label'') (\<lambda>l.
     Option.bind (de_req (de_list as_str) m ''children'') (\<lambda>cs. Some (mk i l cs)))))"

definition leaf_of_json :: "json \<Rightarrow> dag_node option" where
  "leaf_of_json v =
     Option.bind (de_full [''id'', ''claim'', ''backend''] v) (\<lambda>m.
     Option.bind (de_req as_str m ''id'') (\<lambda>i.
     Option.bind (de_req as_str m ''claim'') (\<lambda>c.
     Option.bind (de_req (de_enum backends) m ''backend'') (\<lambda>b. Some (Leaf i c b)))))"

fun node_of_json :: "json \<Rightarrow> dag_node option" where
  "node_of_json (JObj [(k, v)]) =
     (if k = ''OrNode'' then inner_of_json OrNode v
      else if k = ''AndNode'' then inner_of_json AndNode v
      else if k = ''Leaf'' then leaf_of_json v else None)"
| "node_of_json _ = None"

definition result_json :: "verification_result_ext \<Rightarrow> json" where
  "result_json r = JObj
     [(''detail'', JStr (r_detail r)), (''stale'', JBool (r_stale r)),
      (''status'', ser_enum statuses (r_status r)),
      (''validated_at_round'', ser_word (r_validated_at_round r)),
      (''verified_at'', JStr (r_verified_at r))]"

definition result_of_json :: "json \<Rightarrow> verification_result_ext option" where
  "result_of_json v =
     Option.bind (de_full [''status'', ''validated_at_round'', ''stale'', ''detail'', ''verified_at''] v) (\<lambda>m.
     Option.bind (de_req (de_enum statuses) m ''status'') (\<lambda>s.
     Option.bind (de_req de_word m ''validated_at_round'') (\<lambda>n.
     Option.bind (de_req as_bool m ''stale'') (\<lambda>st.
     Option.bind (de_req as_str m ''detail'') (\<lambda>d.
     Option.bind (de_req as_str m ''verified_at'') (\<lambda>t.
     Some \<lparr>r_status = s, r_validated_at_round = n, r_stale = st, r_detail = d, r_verified_at = t\<rparr>))))))"

text \<open>A hash map as an object in key order, and back.\<close>

definition map_json :: "('a \<Rightarrow> json) \<Rightarrow> (string, 'a) hmap \<Rightarrow> json" where
  "map_json f m = JObj (foldl (\<lambda>o' (k, v). jput k (f v) o') [] m)"

fun de_members :: "(json \<Rightarrow> 'a option) \<Rightarrow> (string \<times> json) list \<Rightarrow> (string \<times> 'a) list option" where
  "de_members f [] = Some []"
| "de_members f ((k, v) # m) =
     (case f v of
        None \<Rightarrow> None
      | Some a \<Rightarrow> (case de_members f m of None \<Rightarrow> None | Some as \<Rightarrow> Some ((k, a) # as)))"

definition map_of_json :: "(json \<Rightarrow> 'a option) \<Rightarrow> json \<Rightarrow> (string, 'a) hmap option" where
  "map_of_json f v = Option.bind (as_object v) (de_members f)"

definition blueprint_json :: "blueprint \<Rightarrow> json" where
  "blueprint_json bp = JObj
     [(''goal'', JStr (bp_goal bp)), (''name'', JStr (bp_name bp)),
      (''nodes'', map_json node_json (bp_nodes bp)), (''root'', JStr (bp_root bp)),
      (''round'', ser_word (bp_round bp)), (''status'', map_json result_json (bp_status bp))]"

definition blueprint_of_json :: "json \<Rightarrow> blueprint option" where
  "blueprint_of_json v =
     Option.bind (de_full [''name'', ''goal'', ''root'', ''nodes'', ''status'', ''round''] v) (\<lambda>m.
     Option.bind (de_req as_str m ''name'') (\<lambda>n.
     Option.bind (de_req as_str m ''goal'') (\<lambda>g.
     Option.bind (de_req as_str m ''root'') (\<lambda>r.
     Option.bind (de_req (map_of_json node_of_json) m ''nodes'') (\<lambda>ns.
     Option.bind (de_req (map_of_json result_of_json) m ''status'') (\<lambda>st.
     Option.bind (de_req de_word m ''round'') (\<lambda>k.
     Some \<lparr>bp_name = n, bp_goal = g, bp_root = r, bp_nodes = ns, bp_status = st, bp_round = k\<rparr>)))))))"

definition SERIALIZATION_SCHEMA_VERSION :: string where
  "SERIALIZATION_SCHEMA_VERSION = ''proof-dag-v1''"

definition serialize_blueprint :: "blueprint \<Rightarrow> json" where
  "serialize_blueprint bp =
     JObj [(''blueprint'', blueprint_json bp), (''schema_version'', JStr SERIALIZATION_SCHEMA_VERSION)]"

definition deserialize_blueprint :: "json \<Rightarrow> (dag_error, blueprint) result" where
  "deserialize_blueprint wrapper =
     (let proceed = (\<lambda>schema.
        if schema \<noteq> SERIALIZATION_SCHEMA_VERSION then Inl (Validation, DagSchema schema)
        else case jget wrapper ''blueprint'' of
          None \<Rightarrow> Inl (Validation, DagArgument ''blueprint'')
        | Some v \<Rightarrow> (case blueprint_of_json v of Some bp \<Rightarrow> Inr bp | None \<Rightarrow> Inl (error_kind.Json, DagMalformed)))
      in case jget wrapper ''schema_version'' of
           Some (JStr s) \<Rightarrow> proceed s
         | Some _ \<Rightarrow> Inl (Validation, DagSchemaNotString)
         | None \<Rightarrow> proceed ''unknown'')"

definition apply_update :: "dag_env \<Rightarrow> json \<Rightarrow> blueprint \<Rightarrow> (dag_error, unit) result \<times> blueprint" where
  "apply_update env update bp =
     (case jget_with as_str update ''action'' of
        None \<Rightarrow> (Inl (Validation, DagArgument ''action''), bp)
      | Some action \<Rightarrow>
          if action = ''verify'' then verify env bp
          else if action = ''backtrack'' then
            (case jget_with as_str update ''node_id'' of
               None \<Rightarrow> (Inl (Validation, DagArgument ''node_id''), bp)
             | Some i \<Rightarrow> (case backtrack i [] bp of Inl e \<Rightarrow> (Inl e, bp) | Inr bp' \<Rightarrow> (Inr (), bp')))
          else (Inl (Validation, UnknownAction action), bp))"

section \<open>Status summary\<close>

fun status_debug :: "verification_status \<Rightarrow> string" where
  "status_debug Pass = ''Pass''"
| "status_debug Fail = ''Fail''"
| "status_debug Warn = ''Warn''"
| "status_debug Skip = ''Skip''"

fun backend_debug :: "verification_backend \<Rightarrow> string" where
  "backend_debug InequalityEngine = ''InequalityEngine''"
| "backend_debug Asymptotic = ''Asymptotic''"
| "backend_debug SymPy = ''SymPy''"
| "backend_debug Z3 = ''Z3''"
| "backend_debug Lean = ''Lean''"
| "backend_debug ManualProse = ''ManualProse''"

fun node_type :: "dag_node \<Rightarrow> string" where
  "node_type (OrNode _ _ _) = ''OR''"
| "node_type (AndNode _ _ _) = ''AND''"
| "node_type (Leaf _ _ _) = ''LEAF''"

definition node_summary :: "dag_results \<Rightarrow> string \<times> dag_node \<Rightarrow> json" where
  "node_summary st = (\<lambda>(i, n). let r = hget st i in JObj
     [(''backend'', jopt (\<lambda>b. JStr (backend_debug b)) (node_backend n)),
      (''detail'', JStr (case r of Some x \<Rightarrow> r_detail x | None \<Rightarrow> [])),
      (''id'', JStr i),
      (''label'', JStr (node_label n)),
      (''round'', ser_word (case r of Some x \<Rightarrow> r_validated_at_round x | None \<Rightarrow> 0)),
      (''stale'', JBool (case r of Some x \<Rightarrow> r_stale x | None \<Rightarrow> True)),
      (''status'', JStr (case r of Some x \<Rightarrow> status_debug (r_status x) | None \<Rightarrow> ''unknown'')),
      (''type'', JStr (node_type n)),
      (''verified_at'', JStr (case r of Some x \<Rightarrow> r_verified_at x | None \<Rightarrow> []))])"

text \<open>The constant \<^verbatim>\<open>0.30\<close> as the double nearest to it.\<close>

definition prose_cap :: f64 where
  "prose_cap = round_f64 (3 / 10)"

definition status_summary :: "blueprint \<Rightarrow> json option" where
  "status_summary bp = map_option (\<lambda>(leaves, manual).
     let ratio = prose_ratio leaves manual in JObj
       [(''goal'', JStr (bp_goal bp)),
        (''manual_prose_cap_ok'', JBool (f64_le ratio prose_cap)),
        (''manual_prose_leaves'', jnat manual),
        (''manual_prose_ratio'', ser_f64 ratio),
        (''name'', JStr (bp_name bp)),
        (''node_count'', jnat (length (bp_nodes bp))),
        (''nodes'', JArr (map (node_summary (bp_status bp)) (bp_nodes bp))),
        (''round'', ser_word (bp_round bp)),
        (''total_leaves'', jnat leaves)]) (leaf_counts bp)"

section \<open>Tools\<close>

type_synonym dag_store = "(string, blueprint) hmap"

definition MAX_DAGS :: nat where
  "MAX_DAGS = 64"

definition MAX_ARRAY_ELEMENTS :: nat where
  "MAX_ARRAY_ELEMENTS = 10000"

definition dag_name :: "json \<Rightarrow> string" where
  "dag_name args = (case jget_with as_str args ''name'' of Some n \<Rightarrow> n | None \<Rightarrow> ''default'')"

definition tool_math_proof_dag_init :: "json \<Rightarrow> dag_store \<Rightarrow> dag_store \<times> (dag_error, json) result" where
  "tool_math_proof_dag_init args store =
     (case jget_with as_str args ''goal'' of
        None \<Rightarrow> (store, Inl (Validation, DagArgument ''goal''))
      | Some goal \<Rightarrow>
          (let name = (case jget_with as_str args ''name'' of Some n \<Rightarrow> n | None \<Rightarrow> ''proof'');
               bp = blueprint_new goal name
           in if length store \<ge> MAX_DAGS \<and> hget store (dag_name args) = None
              then (store, Inl (Validation, DagStoreFull))
              else (hput (dag_name args) bp store, Inr (serialize_blueprint bp))))"

definition tool_math_proof_dag_decompose ::
  "string \<Rightarrow> json \<Rightarrow> dag_store \<Rightarrow> dag_store \<times> (dag_error, json) result" where
  "tool_math_proof_dag_decompose now args store =
     (case jget_with as_str args ''parent_id'' of
        None \<Rightarrow> (store, Inl (Validation, DagArgument ''parent_id''))
      | Some parent \<Rightarrow>
          (case jget_with as_array args ''children'' of
             None \<Rightarrow> (store, Inl (Validation, DagArgument ''children''))
           | Some vs \<Rightarrow>
               if length vs > MAX_ARRAY_ELEMENTS then (store, Inl (Validation, DagArgument ''children too large''))
               else (case de_list node_of_json (JArr vs) of
                  None \<Rightarrow> (store, Inl (error_kind.Json, DagMalformed))
                | Some children \<Rightarrow>
                    (case hget store (dag_name args) of
                       None \<Rightarrow> (store, Inl (Validation, DagUnknown))
                     | Some bp \<Rightarrow>
                         (case decompose now parent children
                                 (case jget_with as_bool args ''and'' of Some b \<Rightarrow> b | None \<Rightarrow> False) bp of
                            Inl e \<Rightarrow> (store, Inl e)
                          | Inr bp' \<Rightarrow> (hput (dag_name args) bp' store, Inr (serialize_blueprint bp')))))))"

text \<open>
  The answer of the verifying tool; it may not return, because it counts the leaves. The
  wording of the warning about manual prose is a parameter.
\<close>

definition tool_math_proof_dag_verify ::
  "dag_env \<Rightarrow> (nat \<Rightarrow> nat \<Rightarrow> string) \<Rightarrow> json \<Rightarrow> dag_store \<Rightarrow> (dag_store \<times> (dag_error, json) result) option" where
  "tool_math_proof_dag_verify env warning args store =
     (case hget store (dag_name args) of
        None \<Rightarrow> Some (store, Inl (Validation, DagUnknown))
      | Some bp \<Rightarrow>
          (case verify env bp of
             (Inl e, bp') \<Rightarrow> Some (hput (dag_name args) bp' store, Inl e)
           | (Inr _, bp') \<Rightarrow>
               Option.bind (validate_manual_prose_ratio prose_cap bp') (\<lambda>cap.
                 case cap of
                   Inr _ \<Rightarrow> Some (hput (dag_name args) bp' store, Inr (serialize_blueprint bp'))
                 | Inl (_, err) \<Rightarrow> map_option (\<lambda>summary. (hput (dag_name args) bp' store,
                     Inr (JObj [(''manual_prose_warning'', JStr (case err of
                       ProseCapExceeded m t \<Rightarrow> warning m t | _ \<Rightarrow> [])), (''result'', summary)])))
                     (status_summary bp'))))"

definition tool_math_proof_dag_status ::
  "json \<Rightarrow> dag_store \<Rightarrow> ((dag_error, json) result) option" where
  "tool_math_proof_dag_status args store =
     (case hget store (dag_name args) of
        None \<Rightarrow> Some (Inl (Validation, DagUnknown))
      | Some bp \<Rightarrow> map_option Inr (status_summary bp))"

section \<open>Round trip\<close>

lemma statuses_roundtrip [simp]: "de_enum statuses (ser_enum statuses s) = Some s"
  by (cases s) (simp_all add: statuses_def ser_enum_def)

lemma backends_roundtrip [simp]: "de_enum backends (ser_enum backends b) = Some b"
  by (cases b) (simp_all add: backends_def ser_enum_def)

lemma node_roundtrip: "node_of_json (node_json n) = Some n"
  by (cases n) (simp_all add: inner_json_def inner_of_json_def leaf_of_json_def de_req_def)

lemma result_roundtrip: "result_of_json (result_json r) = Some r"
  by (simp add: result_json_def result_of_json_def de_req_def)

lemma de_members_map:
  assumes "\<And>a. f (g a) = Some a"
  shows "de_members f (map (\<lambda>(k, a). (k, g a)) m) = Some m"
  using assms by (induction m) auto

end
