(* ===== verification/Proof_Dag_Facts.thy ===== *)
theory Proof_Dag_Facts
  imports Proof_Dag_Json
begin

text \<open>
  What verification of a proof DAG establishes and what it does not; the walks over the leaves;
  decomposition and backtracking.
\<close>

section \<open>Provability\<close>

text \<open>
  The meaning of a blueprint: a leaf is proved by its engine, an alternative by one child, a
  conjunction by all of its children (at least one).
\<close>

inductive proved :: "dag_env \<Rightarrow> dag_nodes \<Rightarrow> string \<Rightarrow> bool" for env ns where
  leaf: "hget ns i = Some (Leaf k claim b) \<Longrightarrow> fst (leaf_verdict env b claim) = Pass \<Longrightarrow> proved env ns i"
| alternative: "hget ns i = Some (OrNode k l cs) \<Longrightarrow> c \<in> set cs \<Longrightarrow> proved env ns c \<Longrightarrow> proved env ns i"
| conjunction: "hget ns i = Some (AndNode k l cs) \<Longrightarrow> cs \<noteq> [] \<Longrightarrow> (\<And>c. c \<in> set cs \<Longrightarrow> proved env ns c) \<Longrightarrow>
    proved env ns i"

inductive_simps proved_simps: "proved env ns i"

lemma proved_leaf: "hget ns i = Some (Leaf k claim b) \<Longrightarrow> proved env ns i \<longleftrightarrow> fst (leaf_verdict env b claim) = Pass"
  by (subst proved_simps) auto

lemma proved_or: "hget ns i = Some (OrNode k l cs) \<Longrightarrow> proved env ns i \<longleftrightarrow> (\<exists>c \<in> set cs. proved env ns c)"
  by (subst proved_simps) auto

lemma proved_and: "hget ns i = Some (AndNode k l cs) \<Longrightarrow> proved env ns i \<longleftrightarrow> cs \<noteq> [] \<and> (\<forall>c \<in> set cs. proved env ns c)"
  by (subst proved_simps) auto

text \<open>No leaf is skipped by its engine and no conjunction is empty.\<close>

definition decided :: "dag_env \<Rightarrow> dag_nodes \<Rightarrow> bool" where
  "decided env ns \<longleftrightarrow> (\<forall>i n. hget ns i = Some n \<longrightarrow>
     (case n of Leaf _ claim b \<Rightarrow> fst (leaf_verdict env b claim) \<noteq> Skip | AndNode _ _ cs \<Rightarrow> cs \<noteq> [] | _ \<Rightarrow> True))"

text \<open>A ranking of the nodes under which children rank below their parents, and all exist.\<close>

definition ranked :: "(string \<Rightarrow> nat) \<Rightarrow> dag_nodes \<Rightarrow> bool" where
  "ranked rk ns \<longleftrightarrow> (\<forall>i n. hget ns i = Some n \<longrightarrow> (\<forall>c \<in> set (node_children n). hget ns c \<noteq> None \<and> rk c < rk i))"

lemma leaf_result_status [simp]: "r_status (leaf_result env rnd b claim) = fst (leaf_verdict env b claim)"
  by (simp add: leaf_result_def with_detail_def result_new_def split: prod.split)

lemma result_new_status [simp]: "r_status (result_new s n) = s"
  by (simp add: result_new_def)

lemma better_status: "r_status (better best r) = r_status r \<or> (\<exists>b. best = Some b \<and> r_status (better best r) = r_status b)"
  by (auto simp: better_def split: option.split)

lemma conj_result_status:
  "r_status (conj_result rnd all_pass all_skip worst) = (if all_skip then Skip else if all_pass then Pass else worst)"
  by (simp add: conj_result_def)

section \<open>Soundness and completeness of verification\<close>

lemma verify_sound_aux:
  "verify_node env ns rnd path i st = (Inr r, st') \<Longrightarrow> decided env ns \<Longrightarrow>
     r_status r \<noteq> Skip \<and> (r_status r = Pass \<longrightarrow> proved env ns i)"
  "verify_or env ns rnd path cs best st = (Inr r, st') \<Longrightarrow> decided env ns \<Longrightarrow>
     (\<forall>b. best = Some b \<longrightarrow> r_status b \<noteq> Skip \<and> r_status b \<noteq> Pass) \<Longrightarrow>
     r_status r \<noteq> Skip \<and> (r_status r = Pass \<longrightarrow> (\<exists>c \<in> set cs. proved env ns c))"
  "verify_and env ns rnd path cs all_pass all_skip worst st = (Inr r, st') \<Longrightarrow> decided env ns \<Longrightarrow>
     (\<not> all_pass \<longrightarrow> worst = Fail \<or> worst = Warn) \<Longrightarrow>
     (r_status r = Skip \<longrightarrow> cs = [] \<and> all_skip) \<and> (r_status r = Pass \<longrightarrow> all_pass \<and> (\<forall>c \<in> set cs. proved env ns c))"
proof (induction env ns rnd path i st and env ns rnd path cs best st and env ns rnd path cs all_pass all_skip worst st
    arbitrary: r st' and r st' and r st' rule: verify_node_verify_or_verify_and.induct)
  case (1 env ns rnd path i st)
  show ?case
  proof (cases "i \<in> set path")
    case True
    then show ?thesis using "1.prems" by (auto simp: verify_node.simps)
  next
    case False
    then obtain n where n: "hget ns i = Some n" using "1.prems" by (auto simp: verify_node.simps split: option.splits)
    have dec: "case n of Leaf _ claim b \<Rightarrow> fst (leaf_verdict env b claim) \<noteq> Skip | AndNode _ _ cs \<Rightarrow> cs \<noteq> [] | _ \<Rightarrow> True"
      using "1.prems"(2) n by (simp add: decided_def)
    show ?thesis
    proof (cases n)
      case (OrNode k l cs)
      then show ?thesis using "1.IH"(1) [OF False n OrNode] "1.prems" False n
        by (simp add: verify_node.simps proved_or [OF n [unfolded OrNode]])
    next
      case (AndNode k l cs)
      then show ?thesis using "1.IH"(2) [OF False n AndNode] "1.prems" False n dec
        by (simp add: verify_node.simps proved_and [OF n [unfolded AndNode]])
    next
      case (Leaf k claim b)
      then show ?thesis using "1.prems" False n dec
        by (auto simp: verify_node.simps proved_leaf [OF n [unfolded Leaf]] Let_def)
    qed
  qed
next
  case (2 env ns rnd path best st)
  then show ?case by (auto simp: verify_or.simps split: option.splits)
next
  case (3 env ns rnd path c cs best st)
  obtain a st1 where v: "verify_node env ns rnd path c st = (a, st1)" by force
  then obtain rc where a: "a = Inr rc" using "3.prems"(1) by (cases a) (auto simp: verify_or.simps)
  note c = "3.IH"(1) [OF v [unfolded a] "3.prems"(2)]
  show ?case
  proof (cases "r_status rc = Pass")
    case True
    then show ?thesis using "3.prems" c by (auto simp: verify_or.simps v a)
  next
    case False
    have "\<forall>b. Some (better best rc) = Some b \<longrightarrow> r_status b \<noteq> Skip \<and> r_status b \<noteq> Pass"
      using "3.prems"(3) c False better_status [of best rc] by auto
    then show ?thesis using "3.IH"(2) [OF v [symmetric] a False _ "3.prems"(2)] "3.prems"(1) False
      by (auto simp: verify_or.simps v a)
  qed
next
  case (4 env ns rnd path all_pass all_skip worst st)
  then show ?case by (auto simp: verify_and.simps conj_result_status split: if_splits)
next
  case (5 env ns rnd path c cs all_pass all_skip worst st)
  obtain a st1 where v: "verify_node env ns rnd path c st = (a, st1)" by force
  then obtain rc where a: "a = Inr rc" using "5.prems"(1) by (cases a) (auto simp: verify_and.simps)
  note c = "5.IH"(1) [OF v [unfolded a] "5.prems"(2)]
  note rest = "5.IH"(2-5) [OF v [symmetric] a]
  show ?case
    using "5.prems" c rest by (cases "r_status rc") (auto simp: verify_and.simps v a)
qed

lemma verify_complete_aux:
  "ranked rk ns \<Longrightarrow> hget ns i \<noteq> None \<Longrightarrow> \<forall>p \<in> set path. rk i < rk p \<Longrightarrow>
     \<exists>r st'. verify_node env ns rnd path i st = (Inr r, st') \<and> (proved env ns i \<longrightarrow> r_status r = Pass)"
  "ranked rk ns \<Longrightarrow> \<forall>c \<in> set cs. hget ns c \<noteq> None \<and> (\<forall>p \<in> set path. rk c < rk p) \<Longrightarrow>
     \<exists>r st'. verify_or env ns rnd path cs best st = (Inr r, st') \<and>
       ((\<exists>c \<in> set cs. proved env ns c) \<longrightarrow> r_status r = Pass)"
  "ranked rk ns \<Longrightarrow> \<forall>c \<in> set cs. hget ns c \<noteq> None \<and> (\<forall>p \<in> set path. rk c < rk p) \<Longrightarrow>
     \<exists>r st'. verify_and env ns rnd path cs all_pass all_skip worst st = (Inr r, st') \<and>
       (all_pass \<and> (cs \<noteq> [] \<or> \<not> all_skip) \<and> (\<forall>c \<in> set cs. proved env ns c) \<longrightarrow> r_status r = Pass)"
proof (induction env ns rnd path i st and env ns rnd path cs best st and env ns rnd path cs all_pass all_skip worst st
    rule: verify_node_verify_or_verify_and.induct)
  case (1 env ns rnd path i st)
  obtain n where n: "hget ns i = Some n" using "1.prems"(2) by auto
  have fresh: "i \<notin> set path" using "1.prems"(3) by auto
  have kids: "\<forall>c \<in> set (node_children n). hget ns c \<noteq> None \<and> (\<forall>p \<in> set (i # path). rk c < rk p)"
    using "1.prems" n by (fastforce simp: ranked_def)
  show ?case
  proof (cases n)
    case (OrNode k l cs)
    then show ?thesis using "1.IH"(1) [OF fresh n OrNode] "1.prems"(1) fresh n kids
      by (simp add: verify_node.simps proved_or [OF n [unfolded OrNode]])
  next
    case (AndNode k l cs)
    then show ?thesis using "1.IH"(2) [OF fresh n AndNode] "1.prems"(1) fresh n kids
      by (simp add: verify_node.simps proved_and [OF n [unfolded AndNode]])
  next
    case (Leaf k claim b)
    then show ?thesis using fresh n by (auto simp: verify_node.simps proved_leaf [OF n [unfolded Leaf]] Let_def)
  qed
next
  case (2 env ns rnd path best st)
  then show ?case by (auto simp: verify_or.simps)
next
  case (3 env ns rnd path c cs best st)
  obtain rc st1 where v: "verify_node env ns rnd path c st = (Inr rc, st1)" "proved env ns c \<longrightarrow> r_status rc = Pass"
    using "3.IH"(1) "3.prems" by auto
  show ?case using "3.IH"(2) [OF v(1) [symmetric] refl] "3.prems" v by (cases "r_status rc = Pass") (auto simp: verify_or.simps)
next
  case (4 env ns rnd path all_pass all_skip worst st)
  then show ?case by (auto simp: verify_and.simps conj_result_status)
next
  case (5 env ns rnd path c cs all_pass all_skip worst st)
  obtain rc st1 where v: "verify_node env ns rnd path c st = (Inr rc, st1)" "proved env ns c \<longrightarrow> r_status rc = Pass"
    using "5.IH"(1) "5.prems" by auto
  have k: "\<forall>c \<in> set cs. hget ns c \<noteq> None \<and> (\<forall>p \<in> set path. rk c < rk p)" using "5.prems"(2) by simp
  note rest = "5.IH"(2-5) [OF v(1) [symmetric] refl]
  show ?case using rest [OF _ "5.prems"(1) k] v by (cases "r_status rc") (auto simp: verify_and.simps)
qed

lemma verify_writes_leaves:
  "verify_node env ns rnd path i st = (a, st') \<Longrightarrow> (\<forall>k l b. hget ns j \<noteq> Some (Leaf k l b)) \<Longrightarrow> hget st' j = hget st j"
  "verify_or env ns rnd path cs best st = (a, st') \<Longrightarrow> (\<forall>k l b. hget ns j \<noteq> Some (Leaf k l b)) \<Longrightarrow> hget st' j = hget st j"
  "verify_and env ns rnd path cs all_pass all_skip worst st = (a, st') \<Longrightarrow> (\<forall>k l b. hget ns j \<noteq> Some (Leaf k l b)) \<Longrightarrow>
     hget st' j = hget st j"
proof (induction env ns rnd path i st and env ns rnd path cs best st and env ns rnd path cs all_pass all_skip worst st
    arbitrary: a st' and a st' and a st' rule: verify_node_verify_or_verify_and.induct)
  case (1 env ns rnd path i st)
  then show ?case
    by (cases "hget ns i"; cases "the (hget ns i)") (auto simp: verify_node.simps hmap_simps Let_def split: if_splits)
next
  case (3 env ns rnd path c cs best st)
  then show ?case
    by (cases "verify_node env ns rnd path c st"; cases "fst (verify_node env ns rnd path c st)")
      (auto simp: verify_or.simps split: if_splits)
next
  case (5 env ns rnd path c cs all_pass all_skip worst st)
  obtain x st1 where v: "verify_node env ns rnd path c st = (x, st1)" by force
  show ?case
  proof (cases x)
    case (Inl e)
    then show ?thesis using "5.IH"(1) [OF v] "5.prems" by (simp add: verify_and.simps v)
  next
    case (Inr rc)
    note rest = "5.IH"(2-5) [OF v [symmetric] Inr]
    show ?thesis using "5.IH"(1) [OF v] rest "5.prems"
      by (cases "r_status rc") (auto simp: verify_and.simps v Inr)
  qed
qed (auto simp: verify_or.simps verify_and.simps)

lemma verify_Inr:
  assumes "verify env bp = (Inr u, bp')"
  obtains r st where
    "verify_node env (bp_nodes bp) (bp_round bp + 1) [] (bp_root bp) (map (\<lambda>(i, r). (i, mark_stale r)) (bp_status bp)) = (Inr r, st)"
    "bp' = bp\<lparr>bp_round := bp_round bp + 1, bp_status := hput (bp_root bp) r st\<rparr>"
  using assms by (auto simp: verify_def Let_def split: prod.splits sum.splits)

lemma hget_map_stale: "hget (map (\<lambda>(i, r). (i, mark_stale r)) m) i = map_option mark_stale (hget m i)"
  by (induction m) auto

end
