(* ===== verification/Proof_Dag_Properties.thy ===== *)
theory Proof_Dag_Properties
  imports Proof_Dag_Facts
begin

text \<open>
  The properties of the proof DAG: what a verification round decides, what decomposition and
  backtracking do to the graph, when the walks over the leaves return, and the round trip of
  a serialised blueprint.
\<close>

section \<open>A round of verification\<close>

lemma verify_round:
  assumes "ranked rk (bp_nodes bp)" "hget (bp_nodes bp) (bp_root bp) \<noteq> None"
  obtains r st where
    "verify_node env (bp_nodes bp) (bp_round bp + 1) [] (bp_root bp) (map (\<lambda>(i, r). (i, mark_stale r)) (bp_status bp)) = (Inr r, st)"
    "verify env bp = (Inr (), bp\<lparr>bp_round := bp_round bp + 1, bp_status := hput (bp_root bp) r st\<rparr>)"
    "proved env (bp_nodes bp) (bp_root bp) \<longrightarrow> r_status r = Pass"
  using verify_complete_aux(1) [OF assms, where path = "[]" and rnd = "bp_round bp + 1" and env = env
      and st = "map (\<lambda>(i, r). (i, mark_stale r)) (bp_status bp)"]
  by (auto simp: verify_def Let_def)

text \<open>The status a verified blueprint records for a node.\<close>

definition status_of :: "blueprint \<Rightarrow> string \<Rightarrow> verification_status option" where
  "status_of bp i = map_option r_status (hget (bp_status bp) i)"

lemma verify_root_status:
  assumes "verify env bp = (Inr u, bp')"
  obtains r st where
    "verify_node env (bp_nodes bp) (bp_round bp + 1) [] (bp_root bp) (map (\<lambda>(i, r). (i, mark_stale r)) (bp_status bp)) = (Inr r, st)"
    "status_of bp' (bp_root bp) = Some (r_status r)" "bp_nodes bp' = bp_nodes bp" "bp_root bp' = bp_root bp"
  using assms by (elim verify_Inr) (auto simp: status_of_def hmap_simps)

text \<open>
  C3: On an acyclic blueprint whose children all exist, where no engine skips its leaf and no
  conjunction is empty, a round of verification returns and the root passes exactly when the
  goal is proved: by its engine, by one alternative, or by all conjuncts.
\<close>

theorem verify_decides:
  assumes "ranked rk (bp_nodes bp)" "hget (bp_nodes bp) (bp_root bp) \<noteq> None" "decided env (bp_nodes bp)"
  shows "\<exists>bp'. verify env bp = (Inr (), bp') \<and> bp_nodes bp' = bp_nodes bp \<and> bp_round bp' = bp_round bp + 1 \<and>
    (status_of bp' (bp_root bp) = Some Pass \<longleftrightarrow> proved env (bp_nodes bp) (bp_root bp))"
proof -
  obtain r st where r:
      "verify_node env (bp_nodes bp) (bp_round bp + 1) [] (bp_root bp) (map (\<lambda>(i, r). (i, mark_stale r)) (bp_status bp)) = (Inr r, st)"
      "verify env bp = (Inr (), bp\<lparr>bp_round := bp_round bp + 1, bp_status := hput (bp_root bp) r st\<rparr>)"
      "proved env (bp_nodes bp) (bp_root bp) \<longrightarrow> r_status r = Pass"
    using verify_round [OF assms(1,2)] .
  show ?thesis using r verify_sound_aux(1) [OF r(1) assms(3)] by (auto simp: status_of_def hmap_simps)
qed

definition sample_env :: dag_env where
  "sample_env = \<lparr>v_inequality = (\<lambda>c n. (if c = ''good'' then Pass else if c = ''bad'' then Fail else Warn, c)),
     v_z3_available = False, v_z3_prove = (\<lambda>c. (Warn, c)), v_sympy_identity = (\<lambda>a b. (if a = b then Pass else Fail, a)),
     v_sympy_simplify = id, v_magnitude = (\<lambda>c v w. (Pass, c)), v_lean = (\<lambda>c. (Warn, c)), v_names = (\<lambda>c. []),
     v_inequality_parts = (\<lambda>c. None), v_now = ''now''\<rparr>"

definition sample_blueprint :: "dag_nodes \<Rightarrow> blueprint" where
  "sample_blueprint ns = \<lparr>bp_name = ''proof'', bp_goal = ''goal'', bp_root = ''root'', bp_nodes = ns, bp_status = [], bp_round = 3\<rparr>"

definition sample_nodes :: dag_nodes where
  "sample_nodes = [(''root'', OrNode ''root'' ''Prove'' [''a'', ''b'']), (''a'', Leaf ''a'' ''bad'' InequalityEngine),
     (''b'', AndNode ''b'' ''both'' [''c'', ''d'']), (''c'', Leaf ''c'' ''good'' InequalityEngine),
     (''d'', Leaf ''d'' ''good'' InequalityEngine)]"

lemmas sample_verdicts = sample_env_def attempt_inequality_verify_def engine_verdict_def

lemma sample_nodes_ok:
  "decided sample_env sample_nodes"
  "ranked (\<lambda>i. if i = ''root'' then 2 else if i = ''b'' then 1 else 0) sample_nodes"
  by (auto simp: decided_def ranked_def sample_nodes_def sample_verdicts split: if_splits)

lemma sample_nodes_proved: "proved sample_env sample_nodes ''root''"
proof -
  have c: "proved sample_env sample_nodes ''c''" by (subst proved_simps) (simp add: sample_nodes_def sample_verdicts)
  have d: "proved sample_env sample_nodes ''d''" by (subst proved_simps) (simp add: sample_nodes_def sample_verdicts)
  have "hget sample_nodes ''b'' = Some (AndNode ''b'' ''both'' [''c'', ''d''])"
      "hget sample_nodes ''root'' = Some (OrNode ''root'' ''Prove'' [''a'', ''b''])"
    by (simp_all add: sample_nodes_def)
  then show ?thesis using c d by (simp add: proved_or proved_and)
qed

lemma sample_verifies:
  "\<exists>bp'. verify sample_env (sample_blueprint sample_nodes) = (Inr (), bp') \<and> status_of bp' ''root'' = Some Pass"
proof -
  have "ranked (\<lambda>i. if i = ''root'' then 2 else if i = ''b'' then 1 else 0) (bp_nodes (sample_blueprint sample_nodes))"
      "hget (bp_nodes (sample_blueprint sample_nodes)) (bp_root (sample_blueprint sample_nodes)) \<noteq> None"
    using sample_nodes_ok by (simp_all add: sample_blueprint_def) (simp add: sample_nodes_def)
  from verify_complete_aux(1) [OF this, where path = "[]" and rnd = 4 and env = sample_env and st = "[]"] show ?thesis
    using sample_nodes_proved by (auto simp: status_of_def hmap_simps sample_blueprint_def verify_def Let_def)
qed

lemma verify_decides_witness:
  "\<exists>bp'. verify sample_env (sample_blueprint sample_nodes) = (Inr (), bp') \<and> status_of bp' ''root'' = Some Pass"
  using verify_decides [of "\<lambda>i. if i = ''root'' then 2 else if i = ''b'' then 1 else 0" "sample_blueprint sample_nodes" sample_env]
    sample_nodes_ok sample_nodes_proved
  by (auto simp: sample_blueprint_def sample_nodes_def)

text \<open>
  C16: Even on a graph with cycles or missing nodes, a root that passes is proved, provided no
  leaf is skipped and no conjunction is empty: a node met again below itself counts as failed.
\<close>

theorem verify_sound:
  assumes "verify env bp = (Inr u, bp')" "decided env (bp_nodes bp)" "status_of bp' (bp_root bp) = Some Pass"
  shows "proved env (bp_nodes bp) (bp_root bp)"
proof -
  obtain r st where
      "verify_node env (bp_nodes bp) (bp_round bp + 1) [] (bp_root bp) (map (\<lambda>(i, r). (i, mark_stale r)) (bp_status bp)) = (Inr r, st)"
      "status_of bp' (bp_root bp) = Some (r_status r)"
    using verify_root_status [OF assms(1)] by metis
  then show ?thesis using verify_sound_aux(1) [OF _ assms(2)] assms(3) by auto
qed

definition cyclic_nodes :: dag_nodes where
  "cyclic_nodes = [(''root'', OrNode ''root'' ''Prove'' [''root'', ''a'']), (''a'', Leaf ''a'' ''good'' InequalityEngine)]"

lemma verify_sound_witness: "proved sample_env cyclic_nodes ''root''"
proof -
  let ?bp = "sample_blueprint cyclic_nodes"
  have d: "decided sample_env (bp_nodes ?bp)"
    by (auto simp: sample_blueprint_def cyclic_nodes_def decided_def sample_verdicts split: if_splits)
  have "status_of (snd (verify sample_env ?bp)) (bp_root ?bp) = Some Pass" "fst (verify sample_env ?bp) = Inr ()"
    by (simp_all add: verify_def sample_blueprint_def cyclic_nodes_def verify_node.simps verify_or.simps
        result_new_def leaf_result_def with_detail_def sample_verdicts status_of_def better_def Let_def)
  then have "proved sample_env (bp_nodes ?bp) (bp_root ?bp)"
    by (intro verify_sound [OF _ d, of "()" "snd (verify sample_env ?bp)"]) (auto simp: prod_eq_iff)
  then show ?thesis by (simp add: sample_blueprint_def)
qed

section \<open>What verification does not establish\<close>

lemma verify_leaf:
  "hget ns i = Some (Leaf k claim b) \<Longrightarrow> i \<notin> set path \<Longrightarrow>
     verify_node env ns rnd path i st = (Inr (leaf_result env rnd b claim), hput i (leaf_result env rnd b claim) st)"
  by (simp add: verify_node.simps Let_def)

text \<open>The status of a conjunction of two leaves.\<close>

definition pair_status :: "verification_status \<Rightarrow> verification_status \<Rightarrow> verification_status" where
  "pair_status x y = (if y = Fail \<or> y = Warn then y else if x = Fail \<or> x = Warn then x
     else if x = Skip \<and> y = Skip then Skip else Pass)"

lemma verify_pair:
  assumes "hget (bp_nodes bp) (bp_root bp) = Some (AndNode k l [a, b])" "a \<noteq> bp_root bp" "b \<noteq> bp_root bp"
    "hget (bp_nodes bp) a = Some (Leaf ka ca ea)" "hget (bp_nodes bp) b = Some (Leaf kb cb eb)"
  shows "\<exists>bp'. verify env bp = (Inr (), bp') \<and>
    status_of bp' (bp_root bp) = Some (pair_status (fst (leaf_verdict env ea ca)) (fst (leaf_verdict env eb cb)))"
proof -
  have "\<exists>r st. verify_and env (bp_nodes bp) rnd [bp_root bp] [a, b] True True Pass st0 = (Inr r, st) \<and>
      r_status r = pair_status (fst (leaf_verdict env ea ca)) (fst (leaf_verdict env eb cb))" for rnd st0
    using assms(2-5) by (cases "fst (leaf_verdict env ea ca)"; cases "fst (leaf_verdict env eb cb)")
      (simp_all add: verify_and.simps verify_leaf conj_result_def pair_status_def)
  then obtain r st where "verify_and env (bp_nodes bp) (bp_round bp + 1) [bp_root bp] [a, b] True True Pass
        (map (\<lambda>(i, r). (i, mark_stale r)) (bp_status bp)) = (Inr r, st)"
      "r_status r = pair_status (fst (leaf_verdict env ea ca)) (fst (leaf_verdict env eb cb))" by blast
  then show ?thesis using assms(1) by (simp add: verify_def Let_def verify_node.simps status_of_def hmap_simps)
qed

text \<open>
  A conjunction of a proved leaf and one kept as manual prose passes, though it is not
  proved: a skipped conjunct is neither counted as passed nor as failed.
\<close>

theorem skipped_conjunct_passes:
  assumes "hget (bp_nodes bp) (bp_root bp) = Some (AndNode k l [a, b])" "a \<noteq> bp_root bp" "b \<noteq> bp_root bp"
    "hget (bp_nodes bp) a = Some (Leaf ka ca ea)" "fst (leaf_verdict env ea ca) = Pass"
    "hget (bp_nodes bp) b = Some (Leaf kb cb ManualProse)"
  shows "(\<exists>bp'. verify env bp = (Inr (), bp') \<and> status_of bp' (bp_root bp) = Some Pass) \<and>
    \<not> proved env (bp_nodes bp) (bp_root bp)"
proof
  have "\<not> proved env (bp_nodes bp) b" by (simp add: proved_leaf [OF assms(6)])
  then show "\<not> proved env (bp_nodes bp) (bp_root bp)" by (simp add: proved_and [OF assms(1)])
  show "\<exists>bp'. verify env bp = (Inr (), bp') \<and> status_of bp' (bp_root bp) = Some Pass"
    using verify_pair [OF assms(1-4,6), of env] by (simp add: pair_status_def assms(5))
qed

definition and_nodes :: "string \<Rightarrow> verification_backend \<Rightarrow> string \<Rightarrow> verification_backend \<Rightarrow> dag_nodes" where
  "and_nodes ca ea cb eb = [(''root'', AndNode ''root'' ''Prove'' [''a'', ''b'']), (''a'', Leaf ''a'' ca ea), (''b'', Leaf ''b'' cb eb)]"

lemma skipped_conjunct_passes_witness:
  "\<exists>bp'. verify sample_env (sample_blueprint (and_nodes ''good'' InequalityEngine ''by hand'' ManualProse)) = (Inr (), bp') \<and>
     status_of bp' ''root'' = Some Pass"
  using skipped_conjunct_passes [of "sample_blueprint (and_nodes ''good'' InequalityEngine ''by hand'' ManualProse)"
      "''root''" "''Prove''" "''a''" "''b''" "''a''" "''good''" InequalityEngine sample_env "''b''" "''by hand''"]
  by (simp add: sample_blueprint_def and_nodes_def sample_verdicts)

text \<open>
  The status of a conjunction that does not pass is that of its last conjunct with a
  failure or a warning, so a failed conjunct before a warned one is reported as a warning.
\<close>

theorem conjunction_reports_last:
  assumes "hget (bp_nodes bp) (bp_root bp) = Some (AndNode k l [a, b])" "a \<noteq> bp_root bp" "b \<noteq> bp_root bp"
    "hget (bp_nodes bp) a = Some (Leaf ka ca ea)" "hget (bp_nodes bp) b = Some (Leaf kb cb eb)"
    "fst (leaf_verdict env eb cb) = Fail \<or> fst (leaf_verdict env eb cb) = Warn"
  shows "\<exists>bp'. verify env bp = (Inr (), bp') \<and> status_of bp' (bp_root bp) = Some (fst (leaf_verdict env eb cb))"
  using verify_pair [OF assms(1-5), of env] assms(6) by (auto simp: pair_status_def)

lemma conjunction_reports_last_witness:
  "\<exists>bp'. verify sample_env (sample_blueprint (and_nodes ''bad'' InequalityEngine ''open'' InequalityEngine)) = (Inr (), bp') \<and>
     status_of bp' ''root'' = Some Warn"
  using conjunction_reports_last [of "sample_blueprint (and_nodes ''bad'' InequalityEngine ''open'' InequalityEngine)"
      "''root''" "''Prove''" "''a''" "''b''" "''a''" "''bad''" InequalityEngine "''b''" "''open''" InequalityEngine sample_env]
  by (simp add: sample_blueprint_def and_nodes_def sample_verdicts)

text \<open>
  C40: A round of verification records results for the leaves and the root only: any other
  node's result is the old one marked stale, so a step that depends on an intermediate node
  not yet verified is still reported as unmet after the round, whatever its outcome.
\<close>

theorem inner_nodes_stay_unmet:
  assumes "verify env bp = (Inr u, bp')" "hget (bp_nodes bp) p = Some n" "i \<in> set (node_children n)"
    "\<forall>k c b. hget (bp_nodes bp) i \<noteq> Some (Leaf k c b)" "i \<noteq> bp_root bp"
  shows "hget (bp_status bp') i = map_option mark_stale (hget (bp_status bp) i) \<and>
    (verified (bp_status bp) i \<or> (\<exists>ms. (p, ms) \<in> set (check_step_dependencies bp') \<and> i \<in> set ms))"
proof -
  obtain r st where v:
      "verify_node env (bp_nodes bp) (bp_round bp + 1) [] (bp_root bp) (map (\<lambda>(i, r). (i, mark_stale r)) (bp_status bp)) = (Inr r, st)"
      "bp' = bp\<lparr>bp_round := bp_round bp + 1, bp_status := hput (bp_root bp) r st\<rparr>"
    using verify_Inr [OF assms(1)] .
  have s: "hget (bp_status bp') i = map_option mark_stale (hget (bp_status bp) i)"
    using verify_writes_leaves(1) [OF v(1) assms(4)] assms(5) by (simp add: v(2) hmap_simps hget_map_stale)
  have "(p, n) \<in> set (bp_nodes bp')" using hget_Some_in [OF assms(2)] by (simp add: v(2))
  then have "\<exists>ms. (p, ms) \<in> set (check_step_dependencies bp') \<and> i \<in> set ms" if "\<not> verified (bp_status bp') i"
    using assms(3) that by (force simp: check_step_dependencies_def Let_def filter_empty_conv)
  moreover have "verified (bp_status bp') i = verified (bp_status bp) i"
    by (simp add: verified_def s mark_stale_def split: option.splits)
  ultimately show ?thesis using s by blast
qed

lemma inner_nodes_stay_unmet_witness:
  "\<exists>bp' ms. verify sample_env (sample_blueprint sample_nodes) = (Inr (), bp') \<and> status_of bp' ''root'' = Some Pass \<and>
     (''root'', ms) \<in> set (check_step_dependencies bp') \<and> ''b'' \<in> set ms"
proof -
  obtain bp' where v: "verify sample_env (sample_blueprint sample_nodes) = (Inr (), bp')" "status_of bp' ''root'' = Some Pass"
    using sample_verifies by blast
  show ?thesis
    using inner_nodes_stay_unmet [OF v(1), of "''root''" "OrNode ''root'' ''Prove'' [''a'', ''b'']" "''b''"] v
    by (auto simp: sample_blueprint_def sample_nodes_def verified_def)
qed

end
