(* ===== verification/Proof_Dag_Editing.thy ===== *)
theory Proof_Dag_Editing
  imports Proof_Dag_Properties
begin

text \<open>
  Editing a proof DAG: which nodes backtracking removes, when the walks over the leaves return
  and what they count, which decompositions keep a blueprint acyclic, the round trip of its
  serialised form, and the bound on the store of blueprints.
\<close>

section \<open>Backtracking\<close>

definition kids :: "dag_nodes \<Rightarrow> string \<Rightarrow> string list" where
  "kids ns i = (case hget ns i of Some n \<Rightarrow> node_children n | None \<Rightarrow> [])"

text \<open>The nodes below a node: its children, their children, and so on.\<close>

inductive descends :: "dag_nodes \<Rightarrow> string \<Rightarrow> string \<Rightarrow> bool" for ns i where
  child: "c \<in> set (kids ns i) \<Longrightarrow> descends ns i c"
| step: "descends ns i c \<Longrightarrow> d \<in> set (kids ns c) \<Longrightarrow> descends ns i d"

lemma case_kids: "(case hget ns c of Some n \<Rightarrow> rev (node_children n) | None \<Rightarrow> []) = rev (kids ns c)"
  by (simp add: kids_def split: option.split)

lemmas collect_induct = collect_descendants.induct [unfolded case_kids]

lemma collect_step:
  "collect_descendants ns seen (c # stack) =
     (if c \<in> set seen then collect_descendants ns seen stack
      else collect_descendants ns (c # seen) (rev (kids ns c) @ stack))"
  by (simp add: case_kids)

lemma collect_sound:
  "x \<in> set (collect_descendants ns seen stack) \<Longrightarrow> \<forall>y \<in> set seen \<union> set stack. P y \<Longrightarrow>
     \<forall>y. P y \<longrightarrow> (\<forall>z \<in> set (kids ns y). P z) \<Longrightarrow> P x"
proof (induction ns seen stack rule: collect_induct)
  case (2 ns seen c stack)
  show ?case
  proof (cases "c \<in> set seen")
    case True
    then show ?thesis using "2.IH"(1) "2.prems" by (auto simp: collect_step)
  next
    case False
    have "\<forall>y \<in> set (c # seen) \<union> set (rev (kids ns c) @ stack). P y" using "2.prems"(2,3) by auto
    then show ?thesis using "2.IH"(2) [OF False _ _ "2.prems"(3)] "2.prems"(1) False unfolding collect_step by simp
  qed
qed simp

lemma collect_complete:
  "(\<forall>y \<in> set seen. set (kids ns y) \<subseteq> set seen \<union> set stack) \<Longrightarrow>
     set seen \<union> set stack \<subseteq> set (collect_descendants ns seen stack) \<and>
     (\<forall>y \<in> set (collect_descendants ns seen stack). set (kids ns y) \<subseteq> set (collect_descendants ns seen stack))"
proof (induction ns seen stack rule: collect_induct)
  case (2 ns seen c stack)
  show ?case
  proof (cases "c \<in> set seen")
    case True
    then have "\<forall>y \<in> set seen. set (kids ns y) \<subseteq> set seen \<union> set stack" using "2.prems" by auto
    then show ?thesis using "2.IH"(1) [OF True] True unfolding collect_step by auto
  next
    case False
    have "\<forall>y \<in> set (c # seen). set (kids ns y) \<subseteq> set (c # seen) \<union> set (rev (kids ns c) @ stack)"
      using "2.prems" by auto
    then show ?thesis using "2.IH"(2) [OF False] False unfolding collect_step by auto
  qed
qed auto

declare collect_descendants.simps [simp del]

lemma collect_descends:
  "hget ns i = Some n \<Longrightarrow> x \<in> set (collect_descendants ns [] (rev (node_children n))) \<longleftrightarrow> descends ns i x"
proof
  let ?D = "collect_descendants ns [] (rev (node_children n))"
  assume n: "hget ns i = Some n"
  then have k: "kids ns i = node_children n" by (simp add: kids_def)
  have d: "\<forall>y \<in> set [] \<union> set (rev (node_children n)). descends ns i y"
      "\<forall>y. descends ns i y \<longrightarrow> (\<forall>z \<in> set (kids ns y). descends ns i z)"
    using k by (auto intro: descends.child descends.step)
  show "descends ns i x" if "x \<in> set ?D" by (rule collect_sound [OF that d])
  have c: "set (node_children n) \<subseteq> set ?D" "\<forall>y \<in> set ?D. set (kids ns y) \<subseteq> set ?D"
    using collect_complete [of "[]" ns "rev (node_children n)"] by auto
  show "x \<in> set ?D" if "descends ns i x"
    using that by induction (use c k in auto)
qed

lemma hget_delete_all: "hget (foldl (\<lambda>m c. hdel c m) m cs) j = (if j \<in> set cs then None else hget m j)"
  by (induction cs arbitrary: m) (auto simp: hmap_simps)

lemma backtrack_lookup:
  assumes "backtrack i [] bp = Inr bp'"
  shows "\<exists>n. hget (bp_nodes bp) i = Some n \<and>
    (\<forall>j. hget (bp_nodes bp') j = (if j = i then Some (OrNode i (node_label n) [])
       else if descends (bp_nodes bp) i j then None else hget (bp_nodes bp) j)) \<and>
    (\<forall>j. hget (bp_status bp') j = (if descends (bp_nodes bp) i j then None else hget (bp_status bp) j)) \<and>
    bp_root bp' = bp_root bp \<and> bp_round bp' = bp_round bp"
proof -
  obtain n where n: "hget (bp_nodes bp) i = Some n" using assms by (auto simp: backtrack_def split: option.splits)
  then show ?thesis using assms
    by (auto simp: backtrack_def Let_def hmap_simps hget_delete_all collect_descends [OF n])
qed

text \<open>
  C31: Backtracking removes exactly the nodes below the node, with their results, and makes the
  node an alternative without children that keeps its label; nothing else changes.
\<close>

theorem backtrack_removes_descendants:
  assumes "backtrack i [] bp = Inr bp'"
  shows "\<exists>n. hget (bp_nodes bp) i = Some n \<and>
    (\<forall>j. hget (bp_nodes bp') j = (if j = i then Some (OrNode i (node_label n) [])
       else if descends (bp_nodes bp) i j then None else hget (bp_nodes bp) j)) \<and>
    (\<forall>j. hget (bp_status bp') j = (if descends (bp_nodes bp) i j then None else hget (bp_status bp) j)) \<and>
    bp_root bp' = bp_root bp \<and> bp_round bp' = bp_round bp"
  by (rule backtrack_lookup [OF assms])

definition shared_nodes :: dag_nodes where
  "shared_nodes = [(''root'', AndNode ''root'' ''Prove'' [''a'', ''b'']), (''a'', OrNode ''a'' ''left'' [''c'']),
     (''b'', OrNode ''b'' ''right'' [''c'']), (''c'', Leaf ''c'' ''lemma'' Z3)]"

definition shared_blueprint :: blueprint where
  "shared_blueprint = \<lparr>bp_name = ''proof'', bp_goal = ''goal'', bp_root = ''root'', bp_nodes = shared_nodes,
     bp_status = [(''c'', result_new Pass 1)], bp_round = 1\<rparr>"

definition shared_cut :: blueprint where
  "shared_cut = shared_blueprint\<lparr>bp_status := [], bp_nodes :=
     [(''root'', AndNode ''root'' ''Prove'' [''a'', ''b'']), (''a'', OrNode ''a'' ''left'' []), (''b'', OrNode ''b'' ''right'' [''c''])]\<rparr>"

lemma shared_backtrack: "backtrack ''a'' [] shared_blueprint = Inr shared_cut"
  by (simp add: backtrack_def shared_blueprint_def shared_nodes_def shared_cut_def Let_def collect_step kids_def
      collect_descendants.simps)

lemma shared_descends: "descends (bp_nodes shared_blueprint) ''a'' c \<longleftrightarrow> c = ''c''"
proof
  show "c = ''c''" if "descends (bp_nodes shared_blueprint) ''a'' c"
    using that by induction (auto simp: shared_blueprint_def shared_nodes_def kids_def)
qed (auto intro!: descends.child simp: shared_blueprint_def shared_nodes_def kids_def)

lemma backtrack_removes_descendants_witness:
  "hget (bp_nodes shared_cut) ''c'' = None \<and> hget (bp_status shared_cut) ''c'' = None \<and>
   hget (bp_nodes shared_cut) ''a'' = Some (OrNode ''a'' ''left'' [])"
  using backtrack_removes_descendants [OF shared_backtrack] shared_descends
  by (auto simp: shared_blueprint_def shared_nodes_def)

text \<open>
  Backtracking a node below which there is a node that others also use leaves their
  references to it dangling, and a verification that meets such a reference is an error.
\<close>

theorem backtrack_leaves_dangling:
  assumes "backtrack i [] bp = Inr bp'" "descends (bp_nodes bp) i c" "c \<noteq> i"
    "hget (bp_nodes bp) p = Some n" "c \<in> set (node_children n)" "p \<noteq> i" "\<not> descends (bp_nodes bp) i p"
  shows "hget (bp_nodes bp') p = Some n \<and> hget (bp_nodes bp') c = None \<and>
    verify_node env (bp_nodes bp') rnd [p] c st = (Inl (NotFound, NodeNotFound c), st)"
proof -
  have "hget (bp_nodes bp') p = Some n" "hget (bp_nodes bp') c = None"
    using backtrack_lookup [OF assms(1)] assms by metis+
  moreover have "c \<noteq> p" using assms(2,7) by metis
  ultimately show ?thesis by (simp add: verify_node.simps)
qed

lemma backtrack_leaves_dangling_witness:
  "hget (bp_nodes shared_cut) ''b'' = Some (OrNode ''b'' ''right'' [''c'']) \<and> hget (bp_nodes shared_cut) ''c'' = None"
  using backtrack_leaves_dangling [OF shared_backtrack, of "''c''" "''b''" "OrNode ''b'' ''right'' [''c'']"] shared_descends
  by (simp add: shared_blueprint_def shared_nodes_def)

section \<open>Walks over the leaves\<close>

text \<open>The backends of the leaves below a node, counted once for each path, to a given depth.\<close>

fun leaves_below :: "nat \<Rightarrow> dag_nodes \<Rightarrow> string \<Rightarrow> verification_backend list" where
  "leaves_below 0 ns i = []"
| "leaves_below (Suc d) ns i =
     (case hget ns i of
        None \<Rightarrow> []
      | Some (Leaf _ _ b) \<Rightarrow> [b]
      | Some n \<Rightarrow> concat (map (leaves_below d ns) (node_children n)))"

definition manual_leaves :: "verification_backend list \<Rightarrow> nat" where
  "manual_leaves bs = length (filter (\<lambda>b. b = ManualProse) bs)"

lemma manual_leaves_simps [simp]:
  "manual_leaves [] = 0"
  "manual_leaves (b # bs) = (if b = ManualProse then 1 else 0) + manual_leaves bs"
  "manual_leaves (bs @ cs) = manual_leaves bs + manual_leaves cs"
  by (simp_all add: manual_leaves_def)

lemma count_leaves_below:
  assumes "ranked rk ns"
  shows "\<forall>i \<in> set pending. rk i < d \<Longrightarrow>
    count_leaves ns (pending @ rest) leaves manual =
      (let bs = concat (map (leaves_below d ns) pending)
       in count_leaves ns rest (leaves + length bs) (manual + manual_leaves bs))"
proof (induction d arbitrary: pending rest leaves manual)
  case (Suc d)
  note deeper = Suc.IH
  show ?case using Suc.prems
  proof (induction pending arbitrary: leaves manual)
    case (Cons i pending)
    have rest: "count_leaves ns (pending @ rest) leaves manual =
        count_leaves ns rest (leaves + length (concat (map (leaves_below (Suc d) ns) pending)))
          (manual + manual_leaves (concat (map (leaves_below (Suc d) ns) pending)))" for leaves manual
      using Cons.IH Cons.prems by (simp add: Let_def del: leaves_below.simps)
    have below: "count_leaves ns (cs @ pending @ rest) leaves manual =
        count_leaves ns (pending @ rest) (leaves + length (concat (map (leaves_below d ns) cs)))
          (manual + manual_leaves (concat (map (leaves_below d ns) cs)))"
      if "hget ns i = Some n" "node_children n = cs" for n cs
      using deeper [of cs "pending @ rest" leaves manual] assms that Cons.prems
      by (fastforce simp: ranked_def Let_def simp del: leaves_below.simps)
    show ?case
    proof (cases "hget ns i")
      case None
      then have "leaves_below (Suc d) ns i = []" by simp
      then show ?thesis by (subst count_leaves.simps) (simp add: None rest Let_def del: leaves_below.simps)
    next
      case (Some n)
      show ?thesis
      proof (cases n)
        case (Leaf k c b)
        then have "leaves_below (Suc d) ns i = [b]" using Some by simp
        then show ?thesis
          by (subst count_leaves.simps) (simp add: Some Leaf rest Let_def del: leaves_below.simps)
      next
        case (OrNode k l cs)
        then have "leaves_below (Suc d) ns i = concat (map (leaves_below d ns) cs)" using Some by simp
        then show ?thesis using below [OF Some, of cs] OrNode
          by (subst count_leaves.simps) (simp add: Some rest Let_def add_ac del: leaves_below.simps)
      next
        case (AndNode k l cs)
        then have "leaves_below (Suc d) ns i = concat (map (leaves_below d ns) cs)" using Some by simp
        then show ?thesis using below [OF Some, of cs] AndNode
          by (subst count_leaves.simps) (simp add: Some rest Let_def add_ac del: leaves_below.simps)
      qed
    qed
  qed simp
qed simp

text \<open>
  On an acyclic blueprint the count of leaves returns, and counts every leaf once for each
  path from the root to it, and likewise the leaves kept as manual prose.
\<close>

theorem leaf_counts_terminates:
  assumes "ranked rk (bp_nodes bp)" "rk (bp_root bp) < d"
  shows "leaf_counts bp = Some (length (leaves_below d (bp_nodes bp) (bp_root bp)),
    manual_leaves (leaves_below d (bp_nodes bp) (bp_root bp)))"
  using count_leaves_below [OF assms(1), of "[bp_root bp]" d "[]" 0 0] assms(2)
  by (simp add: leaf_counts_def Let_def count_leaves.simps [of _ "[]"])

lemma leaf_counts_terminates_witness: "leaf_counts shared_blueprint = Some (2, 0)"
  using leaf_counts_terminates [of "\<lambda>i. if i = ''root'' then 2 else if i = ''c'' then 0 else 1" shared_blueprint 3]
  by (auto simp: shared_blueprint_def shared_nodes_def ranked_def eval_nat_numeral split: if_splits)

lemma count_leaves_loops:
  assumes "count_leaves ns pending leaves manual = Some y"
  shows "i \<in> set (kids ns i) \<longrightarrow> i \<notin> set pending"
proof (rule count_leaves.raw_induct [where P = "\<lambda>ns pending l m y. i \<in> set (kids ns i) \<longrightarrow> i \<notin> set pending", OF _ assms])
  fix count :: "dag_nodes \<Rightarrow> string list \<Rightarrow> nat \<Rightarrow> nat \<Rightarrow> (nat \<times> nat) option" and ns pending leaves manual y
  assume deeper: "\<And>ns pending leaves manual y. count ns pending leaves manual = Some y \<Longrightarrow>
      i \<in> set (kids ns i) \<longrightarrow> i \<notin> set pending"
    and this_call: "(case pending of [] \<Rightarrow> Some (leaves, manual) | j # rest \<Rightarrow>
        (case hget ns j of None \<Rightarrow> count ns rest leaves manual
         | Some (Leaf _ _ b) \<Rightarrow> count ns rest (leaves + 1) (if b = ManualProse then manual + 1 else manual)
         | Some n \<Rightarrow> count ns (node_children n @ rest) leaves manual)) = Some y"
  show "i \<in> set (kids ns i) \<longrightarrow> i \<notin> set pending"
  proof (cases pending)
    case (Cons j rest)
    then obtain l m where call: "count ns (kids ns j @ rest) l m = Some y"
      using this_call by (cases "hget ns j"; cases "the (hget ns j)") (auto simp: kids_def)
    then show ?thesis using deeper [OF call] Cons by auto
  qed simp
qed

text \<open>
  A child may be given the id of the node it refines. If that is the root, the node then
  is its own child and the count of leaves never returns, so neither does the status summary.
\<close>

theorem self_decomposition_diverges:
  assumes "decompose now p cs is_and bp = Inr bp'" "p \<in> node_id ` set cs" "bp_root bp = p"
  shows "leaf_counts bp' = None \<and> status_summary bp' = None"
proof -
  have "p \<in> set (kids (bp_nodes bp') p)" "bp_root bp' = p"
    using assms by (auto simp: decompose_def Let_def kids_def hmap_simps image_def split: option.splits if_splits prod.splits)
  then have "leaf_counts bp' = None"
    using count_leaves_loops [of "bp_nodes bp'" "[p]" 0 0 _ p] by (cases "leaf_counts bp'") (auto simp: leaf_counts_def)
  then show ?thesis by (simp add: status_summary_def)
qed

definition self_blueprint :: blueprint where
  "self_blueprint = (blueprint_new ''goal'' ''proof'')
     \<lparr>bp_nodes := [(''root'', OrNode ''root'' ''Prove: goal'' [''root''])],
      bp_status := [(''root'', with_detail ''now'' ''not_yet_verified'' (result_new Skip 0))]\<rparr>"

lemma self_blueprint_decomposes:
  "decompose ''now'' ''root'' [Leaf ''root'' ''x'' Z3] False (blueprint_new ''goal'' ''proof'') = Inr self_blueprint"
  by (simp add: decompose_def blueprint_new_def insert_child_def self_blueprint_def)

lemma self_decomposition_diverges_witness: "leaf_counts self_blueprint = None"
  using self_decomposition_diverges [OF self_blueprint_decomposes] by (simp add: self_blueprint_def blueprint_new_def)

section \<open>Decomposition\<close>

lemma insert_child_nodes: "fst (insert_child now rnd c m) = hput (node_id c) c (fst m)"
  by (cases m) (simp add: insert_child_def)

lemma fold_insert_child:
  "hget (fst (fold (insert_child now rnd) cs (ns, st))) i =
     (case find (\<lambda>c. node_id c = i) (rev cs) of Some c \<Rightarrow> Some c | None \<Rightarrow> hget ns i)"
proof (induction cs rule: rev_induct)
  case (snoc c cs)
  then show ?case by (simp add: insert_child_nodes hmap_simps)
qed simp

lemma decompose_nodes:
  assumes "decompose now p cs is_and bp = Inr bp'"
  shows "\<exists>n. hget (bp_nodes bp) p = Some n \<and> bp_root bp' = bp_root bp \<and> (\<forall>i. hget (bp_nodes bp') i =
     (if i = p then Some (if is_and then AndNode p (node_label n) (map node_id cs) else OrNode p (node_label n) (map node_id cs))
      else case find (\<lambda>c. node_id c = i) (rev cs) of Some c \<Rightarrow> Some c | None \<Rightarrow> hget (bp_nodes bp) i))"
proof -
  obtain n where n: "hget (bp_nodes bp) p = Some n" using assms by (auto simp: decompose_def split: option.splits)
  obtain ns st where f: "fold (insert_child now (bp_round bp)) cs (bp_nodes bp, bp_status bp) = (ns, st)" by force
  have "bp' = bp\<lparr>bp_nodes := hput p (if is_and then AndNode p (node_label n) (map node_id cs)
      else OrNode p (node_label n) (map node_id cs)) ns, bp_status := st\<rparr>"
    using assms by (auto simp: decompose_def n f Let_def split: if_splits)
  then show ?thesis using n fold_insert_child [of now "bp_round bp" cs "bp_nodes bp" "bp_status bp"] f
    by (simp add: hmap_simps)
qed

lemma find_id: "find (\<lambda>c. node_id c = i) cs = Some c \<Longrightarrow> c \<in> set cs \<and> node_id c = i"
  by (induction cs) (auto split: if_splits)

lemma find_id_None: "find (\<lambda>c. node_id c = i) cs = None \<longleftrightarrow> i \<notin> node_id ` set cs"
  by (auto simp: find_None_iff)

text \<open>The children of a decomposition are new and have no children of their own.\<close>

definition fresh_children :: "dag_node list \<Rightarrow> blueprint \<Rightarrow> bool" where
  "fresh_children cs bp \<longleftrightarrow> (\<forall>c \<in> set cs. node_children c = [] \<and> hget (bp_nodes bp) (node_id c) = None)"

lemma decompose_ranked:
  assumes "decompose now p cs is_and bp = Inr bp'" "ranked rk (bp_nodes bp)" "fresh_children cs bp"
  shows "ranked (\<lambda>i. if i \<in> node_id ` set cs then 0 else Suc (rk i)) (bp_nodes bp')"
  unfolding ranked_def
proof (intro allI impI ballI)
  fix i n c assume i: "hget (bp_nodes bp') i = Some n" and c: "c \<in> set (node_children n)"
  obtain m where m: "hget (bp_nodes bp) p = Some m" and look: "\<forall>i. hget (bp_nodes bp') i =
     (if i = p then Some (if is_and then AndNode p (node_label m) (map node_id cs) else OrNode p (node_label m) (map node_id cs))
      else case find (\<lambda>c. node_id c = i) (rev cs) of Some c \<Rightarrow> Some c | None \<Rightarrow> hget (bp_nodes bp) i)"
    using decompose_nodes [OF assms(1)] by blast
  have p: "p \<notin> node_id ` set cs" using assms(3) m by (auto simp: fresh_children_def)
  consider "i = p" "c \<in> node_id ` set cs" | "i \<noteq> p" "i \<notin> node_id ` set cs" "hget (bp_nodes bp) i = Some n"
  proof (cases "i = p")
    case True
    then show ?thesis using that(1) i c look by (auto split: if_splits)
  next
    case False
    show ?thesis
    proof (cases "find (\<lambda>c. node_id c = i) (rev cs)")
      case None
      then show ?thesis using that(2) False i look find_id_None [of i "rev cs"] by simp
    next
      case (Some d)
      then have "n = d" using i look False by simp
      then show ?thesis using find_id [OF Some] assms(3) c by (simp add: fresh_children_def)
    qed
  qed
  then show "hget (bp_nodes bp') c \<noteq> None \<and> (if c \<in> node_id ` set cs then 0 else Suc (rk c)) <
      (if i \<in> node_id ` set cs then 0 else Suc (rk i))"
  proof cases
    case 1
    then have "find (\<lambda>d. node_id d = c) (rev cs) \<noteq> None" by (simp add: find_id_None)
    then show ?thesis using 1 look p by auto
  next
    case 2
    then have "hget (bp_nodes bp) c \<noteq> None" "rk c < rk i" using assms(2) c by (auto simp: ranked_def)
    then show ?thesis using 2 look by (auto split: option.split)
  qed
qed

text \<open>
  Blueprints grown from a new one by decompositions into fresh childless nodes, with rounds of
  verification between them.
\<close>

inductive grown :: "blueprint \<Rightarrow> bool" where
  new: "grown (blueprint_new goal name)"
| decomposed: "grown bp \<Longrightarrow> fresh_children cs bp \<Longrightarrow> decompose now p cs is_and bp = Inr bp' \<Longrightarrow> grown bp'"
| checked: "grown bp \<Longrightarrow> verify env bp = (Inr u, bp') \<Longrightarrow> grown bp'"

lemma grown_ranked: "grown bp \<Longrightarrow> \<exists>rk. ranked rk (bp_nodes bp) \<and> hget (bp_nodes bp) (bp_root bp) \<noteq> None"
proof (induction rule: grown.induct)
  case (new goal name)
  show ?case by (auto simp: blueprint_new_def ranked_def split: if_splits)
next
  case (decomposed bp cs now p is_and bp')
  then obtain rk where "ranked rk (bp_nodes bp)" by blast
  then show ?case using decompose_ranked [OF decomposed.hyps(3) _ decomposed.hyps(2)] decomposed.IH
      decompose_nodes [OF decomposed.hyps(3)] by (fastforce split: option.splits)
next
  case (checked bp env u bp')
  then show ?case by (elim verify_Inr) auto
qed

text \<open>
  C22: A blueprint grown by decompositions into fresh nodes and rounds of verification always
  verifies without an error, counts its leaves and answers with a status summary.
\<close>

theorem grown_verifies:
  assumes "grown bp"
  shows "\<exists>bp' summary. verify env bp = (Inr (), bp') \<and> grown bp' \<and> status_summary bp' = Some summary"
proof -
  obtain rk where rk: "ranked rk (bp_nodes bp)" "hget (bp_nodes bp) (bp_root bp) \<noteq> None"
    using grown_ranked [OF assms] by blast
  obtain r st where "verify_node env (bp_nodes bp) (bp_round bp + 1) [] (bp_root bp)
      (map (\<lambda>(i, r). (i, mark_stale r)) (bp_status bp)) = (Inr r, st)"
    using verify_complete_aux(1) [OF rk, where path = "[]" and env = env and rnd = "bp_round bp + 1"
        and st = "map (\<lambda>(i, r). (i, mark_stale r)) (bp_status bp)"] by auto
  then obtain bp' where v: "verify env bp = (Inr (), bp')" by (simp add: verify_def Let_def)
  then have g: "grown bp'" using assms grown.checked by blast
  then obtain rk' where "ranked rk' (bp_nodes bp')" using grown_ranked by blast
  then obtain m where "leaf_counts bp' = Some m"
    using count_leaves_below [of rk' "bp_nodes bp'" "[bp_root bp']" "Suc (rk' (bp_root bp'))" "[]" 0 0]
    by (simp add: leaf_counts_def Let_def count_leaves.simps [of _ "[]"])
  then show ?thesis using v g by (simp add: status_summary_def)
qed

lemma grown_verifies_witness:
  "\<exists>bp' summary. verify sample_env (blueprint_new ''goal'' ''proof'') = (Inr (), bp') \<and> grown bp' \<and> status_summary bp' = Some summary"
  by (rule grown_verifies [OF grown.new])

section \<open>Serialised blueprints\<close>

lemma de_members_jput:
  assumes "f (g a) = Some a" "de_members f m = Some r"
  shows "\<exists>r'. de_members f (jput k (g a) m) = Some r' \<and> hget r' = (hget r)(k \<mapsto> a)"
  using assms(2)
proof (induction m arbitrary: r)
  case Nil
  then show ?case using assms(1) by (auto simp: fun_eq_iff)
next
  case (Cons kv m)
  obtain k' v where kv: "kv = (k', v)" by force
  obtain a' r0 where r0: "f v = Some a'" "de_members f m = Some r0" "r = (k', a') # r0"
    using Cons.prems by (auto simp: kv split: option.splits)
  obtain r' where "de_members f (jput k (g a) m) = Some r'" "hget r' = (hget r0)(k \<mapsto> a)"
    using Cons.IH [OF r0(2)] by blast
  then show ?case using r0 assms(1) by (auto simp: kv fun_eq_iff)
qed

lemma map_roundtrip:
  assumes "\<And>a. f (g a) = Some a" "hmap_ok m"
  shows "\<exists>r. map_of_json f (map_json g m) = Some r \<and> hget r = hget m"
proof -
  have "\<exists>r. de_members f (foldl (\<lambda>o' (k, v). jput k (g v) o') [] (rev xs)) = Some r \<and> hget r = hget xs" for xs
  proof (induction xs)
    case (Cons kv xs)
    obtain k a where kv: "kv = (k, a)" by force
    show ?case using Cons de_members_jput [of f g a, OF assms(1)] by (fastforce simp: kv)
  qed simp
  from this [of "rev m"] obtain r where "de_members f (foldl (\<lambda>o' (k, v). jput k (g v) o') [] m) = Some r" "hget r = hget (rev m)"
    by auto
  moreover have "hget (rev m) = hget m"
    using assms(2) hget_hcollect [of m] hget_hcollect_distinct [of m] by (simp add: hmap_ok_def)
  ultimately show ?thesis by (simp add: map_of_json_def map_json_def)
qed

text \<open>
  A blueprint read back from its serialised form is the blueprint written: the same name,
  goal, root and round, and the same node and result under every id.
\<close>

theorem blueprint_roundtrip:
  assumes "hmap_ok (bp_nodes bp)" "hmap_ok (bp_status bp)"
  shows "\<exists>bp'. deserialize_blueprint (serialize_blueprint bp) = Inr bp' \<and>
    hget (bp_nodes bp') = hget (bp_nodes bp) \<and> hget (bp_status bp') = hget (bp_status bp) \<and>
    bp_name bp' = bp_name bp \<and> bp_goal bp' = bp_goal bp \<and> bp_root bp' = bp_root bp \<and> bp_round bp' = bp_round bp"
proof -
  obtain ns st where "map_of_json node_of_json (map_json node_json (bp_nodes bp)) = Some ns" "hget ns = hget (bp_nodes bp)"
      "map_of_json result_of_json (map_json result_json (bp_status bp)) = Some st" "hget st = hget (bp_status bp)"
    using map_roundtrip [of node_of_json node_json, OF node_roundtrip assms(1)]
      map_roundtrip [of result_of_json result_json, OF result_roundtrip assms(2)] by blast
  then show ?thesis
    by (simp add: deserialize_blueprint_def serialize_blueprint_def Let_def blueprint_json_def blueprint_of_json_def de_req_def)
qed

lemma blueprint_roundtrip_witness:
  "\<exists>bp'. deserialize_blueprint (serialize_blueprint shared_blueprint) = Inr bp' \<and>
     hget (bp_nodes bp') ''c'' = Some (Leaf ''c'' ''lemma'' Z3)"
  using blueprint_roundtrip [of shared_blueprint] by (auto simp: shared_blueprint_def shared_nodes_def hmap_ok_def)

section \<open>The store of blueprints\<close>

text \<open>
  The tools keep the store of blueprints keyed without repetition and at most 64 large.
\<close>

theorem dag_store_bounded:
  assumes "hmap_ok store" "length store \<le> MAX_DAGS"
    "store' = fst (tool_math_proof_dag_init args store) \<or>
     store' = fst (tool_math_proof_dag_decompose now args store) \<or>
     map_option fst (tool_math_proof_dag_verify env warning args store) = Some store'"
  shows "hmap_ok store' \<and> length store' \<le> MAX_DAGS"
proof -
  have put: "hmap_ok (hput n bp store) \<and> length (hput n bp store) \<le> MAX_DAGS"
    if "hget store n \<noteq> None \<or> length store < MAX_DAGS" for n bp
    using that assms(1,2) hget_None_iff [of store n] by (auto simp: hput_ok hput_length)
  show ?thesis using assms(3)
  proof (elim disjE)
    assume "store' = fst (tool_math_proof_dag_init args store)"
    then show ?thesis using assms(1,2) put [of "dag_name args"]
      by (auto simp: tool_math_proof_dag_init_def Let_def not_le split: option.splits if_splits)
  next
    assume "store' = fst (tool_math_proof_dag_decompose now args store)"
    then show ?thesis using assms(1,2) put [of "dag_name args"]
      by (auto simp: tool_math_proof_dag_decompose_def split: option.splits if_splits sum.splits)
  next
    assume v: "map_option fst (tool_math_proof_dag_verify env warning args store) = Some store'"
    show ?thesis
    proof (cases "hget store (dag_name args)")
      case None
      then show ?thesis using v assms(1,2) by (auto simp: tool_math_proof_dag_verify_def)
    next
      case (Some bp)
      obtain a bp' where "verify env bp = (a, bp')" by force
      then have "store' = hput (dag_name args) bp' store" using v Some
        by (cases a; cases "validate_manual_prose_ratio prose_cap bp'"; cases "the (validate_manual_prose_ratio prose_cap bp')")
          (auto simp: tool_math_proof_dag_verify_def)
      then show ?thesis using put [of "dag_name args"] Some by simp
    qed
  qed
qed

lemma dag_store_bounded_witness:
  "length (fst (tool_math_proof_dag_init (JObj [(''goal'', JStr ''g'')]) [])) \<le> MAX_DAGS"
  using dag_store_bounded [of "[]" "fst (tool_math_proof_dag_init (JObj [(''goal'', JStr ''g'')]) [])"
      "JObj [(''goal'', JStr ''g'')]" "[]" sample_env "\<lambda>_ _. []"]
  by (simp add: hmap_ok_def)

end
