(* ===== verification/Files.thy ===== *)
theory Files
  imports Serde Text
begin

text \<open>
  Files that hold JSON, maps of them, the paths that name them and the ids that may be part of a
  path (\<^verbatim>\<open>core/core-state-utils/src/path_guard.rs\<close>).
\<close>

section \<open>Files\<close>

text \<open>A file is missing, cannot be read, holds something that does not parse, or holds a value.\<close>

datatype json_file = Missing | Unreadable | NotJson | Holds json

text \<open>A file in a map of files; one that is not in it is missing.\<close>

definition file_at :: "(string, json_file) hmap \<Rightarrow> string \<Rightarrow> json_file" where
  "file_at m k = or_default Missing (hget m k)"

definition path_join :: "string \<Rightarrow> string \<Rightarrow> string" where
  "path_join p q =
     (if take 1 q = ''/'' then q else if p = [] \<or> ends_with p ''/'' then p @ q else p @ ''/'' @ q)"

section \<open>Task ids\<close>

definition safe_task_id_component :: "string \<Rightarrow> string option" where
  "safe_task_id_component task_id =
     (let tid = trim task_id in
      if tid = [] \<or> tid = ''.'' \<or> tid = ''..'' \<or> contains_text tid ''..'' \<or> CHR ''/'' \<in> set tid \<or>
         CHR 0x5C \<in> set tid \<or> CHR 0x00 \<in> set tid
      then None else Some tid)"

text \<open>A safe id is trimmed, and is its own safe form.\<close>

lemma safe_id_Some: "safe_task_id_component t = Some u \<Longrightarrow> u = trim t \<and> u \<noteq> []"
  by (auto simp: safe_task_id_component_def Let_def split: if_splits)

lemma safe_id_safe: "safe_task_id_component t = Some u \<Longrightarrow> safe_task_id_component u = Some u"
  by (auto simp: safe_task_id_component_def Let_def split: if_splits)

section \<open>Separators\<close>

definition trim_slashes :: "string \<Rightarrow> string" where
  "trim_slashes s =
     rev (dropWhile (\<lambda>c. c = CHR ''/'') (rev (dropWhile (\<lambda>c. c = CHR ''/'') s)))"

definition forward_slashes :: "string \<Rightarrow> string" where
  "forward_slashes s = map (\<lambda>c. if c = CHR 0x5C then CHR ''/'' else c) s"

text \<open>The parts between slashes of either kind.\<close>

fun split_path :: "string \<Rightarrow> string list" where
  "split_path [] = [[]]"
| "split_path (c # cs) =
     (if c = CHR ''/'' \<or> c = CHR 0x5C then [] # split_path cs
      else case split_path cs of [] \<Rightarrow> [[c]] | s # ss \<Rightarrow> (c # s) # ss)"

fun join_path :: "string list \<Rightarrow> string" where
  "join_path [] = []"
| "join_path [s] = s"
| "join_path (s # ss) = s @ ''/'' @ join_path ss"

end
