(* ===== verification/Loop_Types.thy ===== *)
theory Loop_Types
  imports Files
begin

text \<open>
  The data of the loop engine (\<^verbatim>\<open>core/goal-engine/src/types.rs\<close>): phases, safety levels, signals,
  registry entries, actions, closeout aggregates, the persisted run state and the errors.
  The run state and the records of a run are kept as values; the signal file and the lock
  file, which other programs write, are kept as the JSON they hold.
\<close>

section \<open>Phases and levels\<close>

datatype loop_phase = Pending | Discovering | Preflight | Running | Paused | Verifying
  | Completed | Escalated | Interrupted

definition phase_is_terminal :: "loop_phase \<Rightarrow> bool" where
  "phase_is_terminal p \<longleftrightarrow> p = Completed \<or> p = Interrupted"

fun valid_transitions :: "loop_phase \<Rightarrow> loop_phase list" where
  "valid_transitions Pending = [Discovering, Interrupted]"
| "valid_transitions Discovering = [Preflight, Interrupted]"
| "valid_transitions Preflight = [Running, Interrupted]"
| "valid_transitions Running = [Verifying, Paused, Interrupted]"
| "valid_transitions Paused = [Running, Interrupted]"
| "valid_transitions Verifying = [Completed, Escalated, Interrupted]"
| "valid_transitions Completed = []"
| "valid_transitions Escalated = [Completed, Interrupted]"
| "valid_transitions Interrupted = []"

fun phase_str :: "loop_phase \<Rightarrow> string" where
  "phase_str Pending = ''pending''"
| "phase_str Discovering = ''discovering''"
| "phase_str Preflight = ''preflight''"
| "phase_str Running = ''running''"
| "phase_str Paused = ''paused''"
| "phase_str Verifying = ''verifying''"
| "phase_str Completed = ''completed''"
| "phase_str Escalated = ''escalated''"
| "phase_str Interrupted = ''interrupted''"

datatype safety_level = L1ReportOnly | L2AssistedFix | L3Unattended

fun level_str :: "safety_level \<Rightarrow> string" where
  "level_str L1ReportOnly = ''L1''"
| "level_str L2AssistedFix = ''L2''"
| "level_str L3Unattended = ''L3''"

section \<open>Signals\<close>

datatype kill_signal_action = Kill | Pause | PauseWithFeedback string | Resume | Redirect string

record kill_signal_payload =
  sg_schema_version :: string
  sg_loop_id :: string
  sg_action :: kill_signal_action
  sg_action_id :: "string option"
  sg_armed_at :: u64
  sg_armed_at_iso :: string

definition default_signal_schema_v2 :: string where
  "default_signal_schema_v2 = ''loop-signal-v2''"

text \<open>A signal made at a time: the clock in seconds and as text.\<close>

definition new_signal :: "u64 \<times> string \<Rightarrow> string \<Rightarrow> kill_signal_action \<Rightarrow> string option \<Rightarrow> kill_signal_payload" where
  "new_signal now lid a aid = \<lparr>sg_schema_version = default_signal_schema_v2, sg_loop_id = lid,
     sg_action = a, sg_action_id = aid, sg_armed_at = fst now, sg_armed_at_iso = snd now\<rparr>"

definition new_kill :: "u64 \<times> string \<Rightarrow> string \<Rightarrow> kill_signal_payload" where
  "new_kill now lid = new_signal now lid Kill None"

definition new_pause :: "u64 \<times> string \<Rightarrow> string \<Rightarrow> string \<Rightarrow> kill_signal_payload" where
  "new_pause now lid aid = new_signal now lid Pause (Some aid)"

definition new_pause_with_feedback :: "u64 \<times> string \<Rightarrow> string \<Rightarrow> string \<Rightarrow> string \<Rightarrow> kill_signal_payload" where
  "new_pause_with_feedback now lid aid feedback = new_signal now lid (PauseWithFeedback feedback) (Some aid)"

definition new_resume :: "u64 \<times> string \<Rightarrow> string \<Rightarrow> kill_signal_payload" where
  "new_resume now lid = new_signal now lid Resume None"

definition new_redirect :: "u64 \<times> string \<Rightarrow> string \<Rightarrow> string \<Rightarrow> kill_signal_payload" where
  "new_redirect now lid goal = new_signal now lid (Redirect goal) None"

fun signal_action_json :: "kill_signal_action \<Rightarrow> json" where
  "signal_action_json Kill = JStr ''kill''"
| "signal_action_json Pause = JStr ''pause''"
| "signal_action_json (PauseWithFeedback f) = JObj [(''pause_with_feedback'', JObj [(''feedback'', JStr f)])]"
| "signal_action_json Resume = JStr ''resume''"
| "signal_action_json (Redirect g) = JObj [(''redirect'', JObj [(''new_goal'', JStr g)])]"

text \<open>An externally tagged enumeration: a name, or an object that maps the name to the content.\<close>

fun signal_action_of_json :: "json \<Rightarrow> kill_signal_action option" where
  "signal_action_of_json (JStr s) =
     (if s = ''kill'' then Some Kill else if s = ''pause'' then Some Pause
      else if s = ''resume'' then Some Resume else None)"
| "signal_action_of_json (JObj [(s, v)]) =
     (if s = ''pause_with_feedback'' then
        Option.bind (de_struct [''feedback''] [] v) (\<lambda>m. map_option PauseWithFeedback (de_req as_str m ''feedback''))
      else if s = ''redirect'' then
        Option.bind (de_struct [''new_goal''] [] v) (\<lambda>m. map_option Redirect (de_req as_str m ''new_goal''))
      else if v = JNull then
        (if s = ''kill'' then Some Kill else if s = ''pause'' then Some Pause
         else if s = ''resume'' then Some Resume else None)
      else None)"
| "signal_action_of_json _ = None"

definition signal_json :: "kill_signal_payload \<Rightarrow> json" where
  "signal_json p = JObj
     [(''action'', signal_action_json (sg_action p)), (''action_id'', jopt JStr (sg_action_id p)),
      (''armed_at'', ser_word (sg_armed_at p)), (''armed_at_iso'', JStr (sg_armed_at_iso p)),
      (''loop_id'', JStr (sg_loop_id p)), (''schema_version'', JStr (sg_schema_version p))]"

definition signal_of_json :: "json \<Rightarrow> kill_signal_payload option" where
  "signal_of_json v =
     Option.bind (de_struct [''schema_version'', ''loop_id'', ''action'', ''action_id'', ''armed_at'', ''armed_at_iso'']
        [''schema_version'', ''action'', ''action_id''] v) (\<lambda>m.
     Option.bind (de_dflt as_str default_signal_schema_v2 m ''schema_version'') (\<lambda>s.
     Option.bind (de_req as_str m ''loop_id'') (\<lambda>lid.
     Option.bind (de_dflt signal_action_of_json Kill m ''action'') (\<lambda>a.
     Option.bind (de_dflt (de_opt as_str) None m ''action_id'') (\<lambda>aid.
     Option.bind (de_req de_word m ''armed_at'') (\<lambda>t.
     Option.bind (de_req as_str m ''armed_at_iso'') (\<lambda>iso.
     Some \<lparr>sg_schema_version = s, sg_loop_id = lid, sg_action = a, sg_action_id = aid,
       sg_armed_at = t, sg_armed_at_iso = iso\<rparr>)))))))"

lemma signal_action_roundtrip [simp]: "signal_action_of_json (signal_action_json a) = Some a"
  by (cases a) (simp_all add: de_req_def)

lemma signal_roundtrip: "signal_of_json (signal_json p) = Some p"
  by (simp add: signal_of_json_def signal_json_def de_req_def de_dflt_def)

section \<open>Profiles and the registry\<close>

record cost_budget_config =
  cb_tokens_per_run :: "u64 option"
  cb_daily_tokens :: "u64 option"

record escalation_config =
  es_on_closeout_fail :: "string option"
  es_on_verify_fail :: "string option"
  es_on_budget_exceeded :: "string option"
  es_on_unexpected_error :: "string option"

record loop_profile_config =
  lp_profile :: string
  lp_loop_capable :: bool
  lp_closeout_mode :: string
  lp_review_gate :: string
  lp_spawn_first_nudge :: bool
  lp_cost_budget :: "cost_budget_config option"
  lp_escalation :: "escalation_config option"
  lp_interactive_capable :: bool
  lp_pause_timeout_secs :: "nat option"

definition cost_budget_of_json :: "json \<Rightarrow> cost_budget_config option" where
  "cost_budget_of_json v =
     Option.bind (de_struct [''tokens_per_run'', ''daily_tokens''] [''tokens_per_run'', ''daily_tokens''] v) (\<lambda>m.
     Option.bind (de_dflt (de_opt de_word) None m ''tokens_per_run'') (\<lambda>t.
     Option.bind (de_dflt (de_opt de_word) None m ''daily_tokens'') (\<lambda>d.
     Some \<lparr>cb_tokens_per_run = t, cb_daily_tokens = d\<rparr>)))"

definition escalation_fields :: "string list" where
  "escalation_fields = [''on_closeout_fail'', ''on_verify_fail'', ''on_budget_exceeded'', ''on_unexpected_error'']"

definition escalation_of_json :: "json \<Rightarrow> escalation_config option" where
  "escalation_of_json v =
     Option.bind (de_struct escalation_fields escalation_fields v) (\<lambda>m.
     Option.bind (de_dflt (de_opt as_str) None m ''on_closeout_fail'') (\<lambda>c.
     Option.bind (de_dflt (de_opt as_str) None m ''on_verify_fail'') (\<lambda>f.
     Option.bind (de_dflt (de_opt as_str) None m ''on_budget_exceeded'') (\<lambda>b.
     Option.bind (de_dflt (de_opt as_str) None m ''on_unexpected_error'') (\<lambda>e.
     Some \<lparr>es_on_closeout_fail = c, es_on_verify_fail = f, es_on_budget_exceeded = b, es_on_unexpected_error = e\<rparr>)))))"

text \<open>The profile of a name in the runtime registry, if the file holds a JSON text.\<close>

definition from_runtime_registry :: "json option \<Rightarrow> string \<Rightarrow> loop_profile_config option" where
  "from_runtime_registry registry pname =
     Option.bind registry (\<lambda>val.
     Option.bind (jget val ''lifecycle_profiles'') (\<lambda>profiles.
     Option.bind (jget profiles pname) (\<lambda>v.
     Some \<lparr>lp_profile = pname,
       lp_loop_capable = or_default False (jget_with as_bool v ''loop_capable''),
       lp_closeout_mode = or_default ''advisory'' (jget_with as_str v ''closeout_mode''),
       lp_review_gate = or_default ''suppressed'' (jget_with as_str v ''review_gate''),
       lp_spawn_first_nudge = or_default False (jget_with as_bool v ''spawn_first_nudge''),
       lp_cost_budget = Option.bind (jget v ''cost_budget'') cost_budget_of_json,
       lp_escalation = Option.bind (jget v ''escalation'') escalation_of_json,
       lp_interactive_capable = or_default False (jget_with as_bool v ''interactive_capable''),
       lp_pause_timeout_secs = jget_with as_u64 v ''pause_timeout_secs''\<rparr>)))"

definition is_hard_block :: "loop_profile_config \<Rightarrow> bool" where
  "is_hard_block p \<longleftrightarrow> lp_closeout_mode p = ''hard-block''"

record research_config =
  rc_barrier_threshold :: u32
  rc_escalation_target :: string
  rc_max_research_time_min :: u32
  rc_auto_resume :: bool
  rc_require_human_approval :: bool
  rc_freshness_window_min :: u32

record loop_trigger_config =
  tr_type :: string
  tr_schedule :: "string option"
  tr_timezone :: "string option"

record loop_action =
  la_action_id :: string
  la_type :: string
  la_scope_paths :: "string list"
  la_safety :: string
  la_description :: "string option"
  la_consumed_action_ids :: "string list"

record loop_registry_entry =
  le_loop_id :: string
  le_profile :: string
  le_trigger :: loop_trigger_config
  le_skill :: "string option"
  le_scope_based_safety :: "(string \<times> string) list option"
  le_default_safety :: "string option"
  le_scope_conflict_resolution :: "string option"
  le_cost_budget :: "cost_budget_config option"
  le_notification :: "json option"
  le_research_enabled :: bool
  le_research :: "research_config option"
  le_verify_quality_gate :: "bool option"
  le_verify_closeout_gate :: "bool option"
  le_static_actions :: "loop_action list option"
  le_subagent_protocol :: "string option"

section \<open>Runs\<close>

record loop_action_record =
  ar_schema_version :: string
  ar_loop_id :: string
  ar_run_id :: string
  ar_action_id :: string
  ar_safety_level :: string
  ar_closeout :: json

record aggregate_action_entry =
  ae_action_id :: string
  ae_safety_level :: string
  ae_execution :: string
  ae_closeout_path :: "string option"
  ae_verification :: "string option"
  ae_commit_sha :: "string option"
  ae_merged :: "bool option"

record loop_closeout_aggregate =
  ag_schema_version :: string
  ag_run_id :: string
  ag_loop_id :: string
  ag_overall_status :: string
  ag_actions :: "aggregate_action_entry list"
  ag_escalated :: bool
  ag_partial :: bool
  ag_qg_blockers :: "string list"

record drift_check_result =
  dc_checked_at :: string
  dc_review_cycle :: u32
  dc_drift_detected :: bool
  dc_drift_score :: f64
  dc_drift_type :: string
  dc_original_len :: nat
  dc_current_len :: nat

record anti_drift_state =
  ad_review_cycle_count :: u32
  ad_check_interval :: u32
  ad_original_goal_snapshot :: "string option"
  ad_last_drift_check :: "drift_check_result option"
  ad_drift_check_history :: "drift_check_result list"
  ad_last_amended_at :: "string option"

definition anti_drift_default :: anti_drift_state where
  "anti_drift_default = \<lparr>ad_review_cycle_count = 0, ad_check_interval = 3, ad_original_goal_snapshot = None,
     ad_last_drift_check = None, ad_drift_check_history = [], ad_last_amended_at = None\<rparr>"

record discovery_result =
  dr_actions_found :: u32
  dr_actions :: "loop_action list"

record unconsumed_finding =
  uf_finding_hash :: string
  uf_source_action :: string
  uf_finding :: string

record run_history_entry =
  rh_run_id :: string
  rh_phase :: string
  rh_result :: string

record circuit_breaker =
  cb_consecutive_failures :: u32
  cb_kill_switch_armed :: bool
  cb_kill_switch_triggered_at :: "string option"

record current_run =
  cr_run_id :: string
  cr_started_at :: string
  cr_discovery :: "discovery_result option"
  cr_unconsumed_findings :: "unconsumed_finding list"
  cr_dispatch :: "(string, string) hmap"
  cr_closeout_aggregate :: "loop_closeout_aggregate option"
  cr_report_path :: "string option"

record loop_run_state =
  rs_schema_version :: string
  rs_loop_id :: string
  rs_profile :: string
  rs_phase :: string
  rs_last_heartbeat :: string
  rs_current_run :: "current_run option"
  rs_history :: "run_history_entry list"
  rs_circuit_breaker :: circuit_breaker
  rs_anti_drift :: anti_drift_state
  rs_last_refreshed_at :: string

datatype subagent_protocol = V0 | V1

text \<open>The protocol of an entry; the last argument tells whether the environment asks for V1.\<close>

definition protocol_resolve :: "string option \<Rightarrow> bool \<Rightarrow> subagent_protocol" where
  "protocol_resolve entry env_v1 =
     (if entry = Some ''v1'' \<or> entry = Some ''V1'' then V1 else if env_v1 then V1 else V0)"

record subagent_output =
  so_schema_version :: string
  so_action_id :: string
  so_success :: bool
  so_closeout :: "json option"
  so_error :: "string option"

record pause_state =
  ps_schema_version :: string
  ps_loop_id :: string
  ps_run_id :: string
  ps_action_id :: string
  ps_action :: loop_action
  ps_handoff :: string
  ps_feedback :: "string option"
  ps_created_at :: string
  ps_agent_binary :: string
  ps_deadline_remaining_secs :: "u64 option"

definition PAUSE_STATE_SCHEMA_VERSION :: string where
  "PAUSE_STATE_SCHEMA_VERSION = ''loop-pause-state-v1''"

section \<open>Errors\<close>

text \<open>Errors of the engine with their messages; the text of an operating system error is a parameter.\<close>

datatype loop_error = ProfileMismatch | UnknownProfile string | KillSignaled string | Timeout u64
  | SpawnFailed string | SerdeError string | IoError string | ActionFailed string
  | ResearchEscalation string | BudgetExceeded | PauseSignaled string | PausedError string
  | PauseKilled string | Redirected string | PhaseTransition string string

text \<open>The variant of the framework's error an engine error becomes.\<close>

fun framework_error :: "loop_error \<Rightarrow> error_kind" where
  "framework_error ProfileMismatch = Validation"
| "framework_error (UnknownProfile _) = Validation"
| "framework_error (ActionFailed _) = Validation"
| "framework_error (Timeout _) = Validation"
| "framework_error (KillSignaled _) = Hook"
| "framework_error (ResearchEscalation _) = Hook"
| "framework_error (SpawnFailed _) = Io"
| "framework_error (IoError _) = Io"
| "framework_error (SerdeError _) = Validation"
| "framework_error BudgetExceeded = Config"
| "framework_error (PauseSignaled _) = Hook"
| "framework_error (PausedError _) = Hook"
| "framework_error (PauseKilled _) = Hook"
| "framework_error (Redirected _) = Hook"
| "framework_error (PhaseTransition _ _) = Hook"

end
