(* ===== verification/Loop_State.thy ===== *)
theory Loop_State
  imports Loop_Types
begin

text \<open>
  The run state of a loop (\<^verbatim>\<open>core/goal-engine/src/state.rs\<close>): its creation, the two phase
  transitions, the start and the end of a run. Times are the clock's texts.
\<close>

section \<open>Operations\<close>

definition LOOP_RUN_STATE_SCHEMA_VERSION :: string where
  "LOOP_RUN_STATE_SCHEMA_VERSION = ''loop-run-state-v1''"

definition MAX_HISTORY_ENTRIES :: nat where
  "MAX_HISTORY_ENTRIES = 100"

definition LOOP_LOCK_MAX_AGE_SECS :: u64 where
  "LOOP_LOCK_MAX_AGE_SECS = 3600"

definition circuit_breaker_default :: circuit_breaker where
  "circuit_breaker_default = \<lparr>cb_consecutive_failures = 0, cb_kill_switch_armed = False, cb_kill_switch_triggered_at = None\<rparr>"

definition create_initial_state :: "string \<Rightarrow> string \<Rightarrow> string \<Rightarrow> loop_run_state" where
  "create_initial_state now lid profile = \<lparr>rs_schema_version = LOOP_RUN_STATE_SCHEMA_VERSION, rs_loop_id = lid,
     rs_profile = profile, rs_phase = phase_str Pending, rs_last_heartbeat = now, rs_current_run = None,
     rs_history = [], rs_circuit_breaker = circuit_breaker_default, rs_anti_drift = anti_drift_default,
     rs_last_refreshed_at = now\<rparr>"

text \<open>The phases both transitions look the current phase up in; \<^verbatim>\<open>Paused\<close> is not among them.\<close>

definition known_phases :: "loop_phase list" where
  "known_phases = [Pending, Discovering, Preflight, Running, Verifying, Completed, Escalated, Interrupted]"

definition current_phase :: "loop_run_state \<Rightarrow> loop_phase option" where
  "current_phase s = find (\<lambda>p. phase_str p = rs_phase s) known_phases"

definition set_phase :: "string \<Rightarrow> loop_phase \<Rightarrow> loop_run_state \<Rightarrow> loop_run_state" where
  "set_phase now p s = s\<lparr>rs_phase := phase_str p, rs_last_heartbeat := now, rs_last_refreshed_at := now\<rparr>"

text \<open>The lenient transition only warns of a transition that is not valid.\<close>

definition transition_phase :: "string \<Rightarrow> loop_phase \<Rightarrow> loop_run_state \<Rightarrow> loop_run_state" where
  "transition_phase now p s = set_phase now p s"

definition transition_warns :: "loop_phase \<Rightarrow> loop_run_state \<Rightarrow> bool" where
  "transition_warns p s \<longleftrightarrow> (case current_phase s of Some c \<Rightarrow> p \<notin> set (valid_transitions c) | None \<Rightarrow> True)"

definition transition_phase_strict :: "string \<Rightarrow> loop_phase \<Rightarrow> loop_run_state \<Rightarrow> loop_error + loop_run_state" where
  "transition_phase_strict now p s =
     (case current_phase s of
        None \<Rightarrow> Inl (PhaseTransition (rs_phase s) (phase_str p))
      | Some c \<Rightarrow>
          if p \<notin> set (valid_transitions c) then Inl (PhaseTransition (phase_str c) (phase_str p))
          else Inr (set_phase now p s))"

definition start_new_run :: "string \<Rightarrow> string \<Rightarrow> loop_run_state \<Rightarrow> loop_run_state" where
  "start_new_run now rid s = s\<lparr>rs_current_run := Some \<lparr>cr_run_id = rid, cr_started_at = now, cr_discovery = None,
     cr_unconsumed_findings = [], cr_dispatch = [], cr_closeout_aggregate = None, cr_report_path = None\<rparr>\<rparr>"

definition keep_last :: "nat \<Rightarrow> 'a list \<Rightarrow> 'a list" where
  "keep_last n xs = (if length xs > n then drop (length xs - n) xs else xs)"

definition finish_run :: "string \<Rightarrow> loop_run_state \<Rightarrow> loop_run_state" where
  "finish_run outcome s =
     (case rs_current_run s of
        None \<Rightarrow> s\<lparr>rs_current_run := None\<rparr>
      | Some r \<Rightarrow> s\<lparr>rs_history := keep_last MAX_HISTORY_ENTRIES
            (rs_history s @ [\<lparr>rh_run_id = cr_run_id r, rh_phase = rs_phase s, rh_result = outcome\<rparr>]),
          rs_current_run := None\<rparr>)"

definition update_heartbeat :: "string \<Rightarrow> loop_run_state \<Rightarrow> loop_run_state" where
  "update_heartbeat now s = s\<lparr>rs_last_heartbeat := now, rs_last_refreshed_at := now\<rparr>"

section \<open>Facts\<close>

lemma phase_str_inject: "phase_str p = phase_str q \<longleftrightarrow> p = q"
  by (cases p; cases q) simp_all

lemma keep_last_length: "length (keep_last n xs) \<le> n"
  by (simp add: keep_last_def)

lemma keep_last_suffix: "\<exists>ys. xs = ys @ keep_last n xs"
  by (auto simp: keep_last_def intro: exI [of _ "take (length xs - n) xs"])

lemma find_phase: "find (\<lambda>p. phase_str p = phase_str q) ps = (if q \<in> set ps then Some q else None)"
  by (induction ps) (auto simp: phase_str_inject)

lemma current_phase_set: "rs_phase s = phase_str p \<Longrightarrow> current_phase s = (if p = Paused then None else Some p)"
  unfolding current_phase_def by (simp add: find_phase) (cases p; simp add: known_phases_def)

text \<open>
  The strict transition accepts exactly the steps of the phase diagram from a phase other
  than paused; it then sets the phase and nothing else but the two times, and otherwise
  reports both phases. A paused loop can neither resume nor be interrupted by it.
\<close>

theorem strict_transition_decides:
  assumes "rs_phase s = phase_str c"
  shows "transition_phase_strict now p s =
    (if c \<noteq> Paused \<and> p \<in> set (valid_transitions c) then Inr (set_phase now p s)
     else Inl (PhaseTransition (phase_str c) (phase_str p)))"
  by (simp add: transition_phase_strict_def current_phase_set [OF assms] assms)

lemma strict_transition_decides_witness:
  "transition_phase_strict ''t'' Running ((create_initial_state ''t'' ''l'' ''interactive'')\<lparr>rs_phase := ''paused''\<rparr>)
     = Inl (PhaseTransition ''paused'' ''running'') \<and> Running \<in> set (valid_transitions Paused)"
  using strict_transition_decides
    [of "(create_initial_state ''t'' ''l'' ''interactive'')\<lparr>rs_phase := ''paused''\<rparr>" Paused "''t''" Running] by simp

end
