(* ===== verification/Loop_Signals.thy ===== *)
theory Loop_Signals
  imports Loop_State
begin

text \<open>
  Signals, pause states and the loop lock (\<^verbatim>\<open>core/goal-engine/src/kill_switch.rs\<close>) on the files
  that hold them. A file is missing, holds bytes that cannot be read or parsed, or holds a
  JSON value; the writing of a file may fail, and then leaves it as it was.
\<close>

section \<open>Files\<close>

text \<open>The files of a loop that carry signals: the signal, the pause state and the lock of the repository.\<close>

record loop_signals =
  sf_signal :: json_file
  sf_pause :: "pause_state option"
  sf_lock :: json_file

definition io_error :: loop_error where
  "io_error = IoError []"

definition serde_error :: loop_error where
  "serde_error = SerdeError []"

section \<open>Signals\<close>

definition is_kill_signal_active :: "loop_signals \<Rightarrow> bool" where
  "is_kill_signal_active f \<longleftrightarrow> sf_signal f \<noteq> Missing"

text \<open>
  The kill signal in its first format, which has no action. The text is put together without
  escaping, so an id with a quote or a backslash gives another text; what that parses to is
  the parameter \<^verbatim>\<open>parse_text\<close>.
\<close>

definition kill_signal_json :: "u64 \<times> string \<Rightarrow> string \<Rightarrow> json" where
  "kill_signal_json now lid =
     JObj [(''armed_at'', ser_word (fst now)), (''armed_at_iso'', JStr (snd now)), (''loop_id'', JStr lid)]"

definition plain_text :: "string \<Rightarrow> bool" where
  "plain_text s \<longleftrightarrow> list_all (\<lambda>c. 32 \<le> (of_char c :: nat) \<and> c \<noteq> CHR 0x22 \<and> c \<noteq> CHR 0x5C) s"

definition write_kill_signal ::
  "(string \<Rightarrow> json_file) \<Rightarrow> bool \<Rightarrow> u64 \<times> string \<Rightarrow> string \<Rightarrow> loop_signals \<Rightarrow> (loop_error + unit) \<times> loop_signals" where
  "write_kill_signal parse_text written now lid f =
     (if written then (Inr (), f\<lparr>sf_signal :=
        if plain_text lid then Holds (kill_signal_json now lid) else parse_text lid\<rparr>)
      else (Inl io_error, f))"

text \<open>Removing a file reports an error only when the file is there and cannot be removed.\<close>

definition clear_kill_signal :: "bool \<Rightarrow> loop_signals \<Rightarrow> (loop_error + unit) \<times> loop_signals" where
  "clear_kill_signal removable f =
     (if sf_signal f = Missing then (Inr (), f)
      else if removable then (Inr (), f\<lparr>sf_signal := Missing\<rparr>) else (Inl io_error, f))"

definition take_kill_signal :: "bool \<Rightarrow> loop_signals \<Rightarrow> (loop_error + bool) \<times> loop_signals" where
  "take_kill_signal removable f =
     (if sf_signal f = Missing then (Inr False, f)
      else if removable then (Inr True, f\<lparr>sf_signal := Missing\<rparr>) else (Inl io_error, f))"

definition write_signal :: "bool \<Rightarrow> kill_signal_payload \<Rightarrow> loop_signals \<Rightarrow> (loop_error + unit) \<times> loop_signals" where
  "write_signal written p f =
     (if written then (Inr (), f\<lparr>sf_signal := Holds (signal_json p)\<rparr>) else (Inl io_error, f))"

definition old_signal :: "string \<Rightarrow> json \<Rightarrow> kill_signal_payload" where
  "old_signal lid v = \<lparr>sg_schema_version = ''loop-signal-v2'',
     sg_loop_id = or_default lid (jget_with as_str v ''loop_id''), sg_action = Kill, sg_action_id = None,
     sg_armed_at = of_nat (or_default 0 (jget_with as_u64 v ''armed_at'')),
     sg_armed_at_iso = or_default [] (jget_with as_str v ''armed_at_iso'')\<rparr>"

text \<open>Reading consumes the signal; the outcome of the removal is ignored.\<close>

definition take_signal ::
  "bool \<Rightarrow> string \<Rightarrow> loop_signals \<Rightarrow> (loop_error + kill_signal_payload option) \<times> loop_signals" where
  "take_signal removable lid f =
     (case sf_signal f of
        Missing \<Rightarrow> (Inr None, f)
      | Unreadable \<Rightarrow> (Inl io_error, f)
      | NotJson \<Rightarrow> (Inl serde_error, if removable then f\<lparr>sf_signal := Missing\<rparr> else f)
      | Holds v \<Rightarrow>
          (Inr (Some (case signal_of_json v of Some p \<Rightarrow> p | None \<Rightarrow> old_signal lid v)),
           if removable then f\<lparr>sf_signal := Missing\<rparr> else f))"

definition write_pause_signal ::
  "bool \<Rightarrow> u64 \<times> string \<Rightarrow> string \<Rightarrow> string \<Rightarrow> string option \<Rightarrow> loop_signals \<Rightarrow> (loop_error + unit) \<times> loop_signals" where
  "write_pause_signal written now lid aid feedback =
     write_signal written (case feedback of
       Some fb \<Rightarrow> new_pause_with_feedback now lid aid fb | None \<Rightarrow> new_pause now lid aid)"

definition write_resume_signal ::
  "bool \<Rightarrow> u64 \<times> string \<Rightarrow> string \<Rightarrow> loop_signals \<Rightarrow> (loop_error + unit) \<times> loop_signals" where
  "write_resume_signal written now lid = write_signal written (new_resume now lid)"

definition write_redirect_signal ::
  "bool \<Rightarrow> u64 \<times> string \<Rightarrow> string \<Rightarrow> string \<Rightarrow> loop_signals \<Rightarrow> (loop_error + unit) \<times> loop_signals" where
  "write_redirect_signal written now lid goal = write_signal written (new_redirect now lid goal)"

section \<open>Pause states\<close>

definition write_pause_state :: "bool \<Rightarrow> pause_state \<Rightarrow> loop_signals \<Rightarrow> (loop_error + unit) \<times> loop_signals" where
  "write_pause_state written p f =
     (if written then (Inr (), f\<lparr>sf_pause := Some p\<rparr>) else (Inl io_error, f))"

definition read_pause_state :: "loop_signals \<Rightarrow> loop_error + pause_state option" where
  "read_pause_state f = Inr (sf_pause f)"

definition clear_pause_state :: "bool \<Rightarrow> loop_signals \<Rightarrow> (loop_error + unit) \<times> loop_signals" where
  "clear_pause_state removable f =
     (if sf_pause f = None then (Inr (), f)
      else if removable then (Inr (), f\<lparr>sf_pause := None\<rparr>) else (Inl io_error, f))"

definition is_pause_state_active :: "loop_signals \<Rightarrow> bool" where
  "is_pause_state_active f \<longleftrightarrow> sf_pause f \<noteq> None"

section \<open>The lock\<close>

record loop_lock =
  lk_loop_id :: string
  lk_run_id :: string
  lk_acquired_at :: string

definition lock_of_json :: "json \<Rightarrow> loop_lock option" where
  "lock_of_json v =
     Option.bind (de_struct [''loop_id'', ''run_id'', ''acquired_at''] [] v) (\<lambda>m.
     Option.bind (de_req as_str m ''loop_id'') (\<lambda>l.
     Option.bind (de_req as_str m ''run_id'') (\<lambda>r.
     Option.bind (de_req as_str m ''acquired_at'') (\<lambda>t.
     Some \<lparr>lk_loop_id = l, lk_run_id = r, lk_acquired_at = t\<rparr>))))"

text \<open>The lock with the second it was acquired; a time that cannot be parsed counts as the epoch.\<close>

definition read_lock_info :: "(string \<Rightarrow> u64 option) \<Rightarrow> loop_signals \<Rightarrow> loop_error + (loop_lock \<times> u64) option" where
  "read_lock_info parse f =
     (case sf_lock f of
        Missing \<Rightarrow> Inr None
      | Unreadable \<Rightarrow> Inl io_error
      | NotJson \<Rightarrow> Inl serde_error
      | Holds v \<Rightarrow> (case lock_of_json v of
          None \<Rightarrow> Inl serde_error
        | Some l \<Rightarrow> Inr (Some (l, or_default 0 (parse (lk_acquired_at l))))))"

definition lock_json :: "string \<Rightarrow> nat \<Rightarrow> string \<Rightarrow> string \<Rightarrow> json" where
  "lock_json t pid lid rid = JObj [(''acquired_at'', JStr t), (''loop_id'', JStr lid), (''pid'', jnat pid),
     (''run_id'', JStr rid), (''started_at'', JStr t)]"

text \<open>
  The exclusive creation of the file, after its directory. It fails if the file is there,
  which a process that acquires at the same time may bring about; when only the writing
  fails the file is left with what was written.
\<close>

datatype lock_creation = Created | Rival json_file | CreateFails | WriteFails json_file

fun create_lock :: "lock_creation \<Rightarrow> json \<Rightarrow> loop_signals \<Rightarrow> (loop_error + unit) \<times> loop_signals" where
  "create_lock Created v f = (Inr (), f\<lparr>sf_lock := Holds v\<rparr>)"
| "create_lock (Rival c) v f = (Inl (ActionFailed ''race''), f\<lparr>sf_lock := c\<rparr>)"
| "create_lock CreateFails v f = (Inl io_error, f)"
| "create_lock (WriteFails c) v f = (Inl io_error, f\<lparr>sf_lock := c\<rparr>)"

definition acquire_lock ::
  "(string \<Rightarrow> u64 option) \<Rightarrow> u64 \<times> string \<Rightarrow> nat \<Rightarrow> bool \<Rightarrow> lock_creation \<Rightarrow> string \<Rightarrow> string \<Rightarrow> loop_signals \<Rightarrow>
    (loop_error + unit) \<times> loop_signals" where
  "acquire_lock parse now pid removable creation lid rid f =
     (case read_lock_info parse f of
        Inl e \<Rightarrow> (Inl e, f)
      | Inr None \<Rightarrow> create_lock creation (lock_json (snd now) pid lid rid) f
      | Inr (Some (l, epoch)) \<Rightarrow>
          if (if fst now \<ge> epoch then fst now - epoch else 0) < LOOP_LOCK_MAX_AGE_SECS
          then (Inl (ActionFailed ''active''), f)
          else if removable then create_lock creation (lock_json (snd now) pid lid rid) (f\<lparr>sf_lock := Missing\<rparr>)
          else (Inl io_error, f))"

definition release_lock :: "bool \<Rightarrow> loop_signals \<Rightarrow> (loop_error + unit) \<times> loop_signals" where
  "release_lock removable f =
     (if sf_lock f = Missing then (Inr (), f)
      else if removable then (Inr (), f\<lparr>sf_lock := Missing\<rparr>) else (Inl io_error, f))"

text \<open>
  The refresh opens the file for appending and writes nothing: the content, which is what a
  later acquisition reads the age from, stays as it is.
\<close>

definition refresh_lock :: "bool \<Rightarrow> loop_signals \<Rightarrow> (loop_error + unit) \<times> loop_signals" where
  "refresh_lock openable f =
     (if sf_lock f = Missing \<or> openable then (Inr (), f) else (Inl io_error, f))"

section \<open>Facts\<close>

lemma lock_roundtrip:
  "lock_of_json (lock_json t pid lid rid) = Some \<lparr>lk_loop_id = lid, lk_run_id = rid, lk_acquired_at = t\<rparr>"
  by (simp add: lock_of_json_def lock_json_def de_req_def)

lemma armed_without_action:
  "plain_text lid \<Longrightarrow> signal_of_json (kill_signal_json now lid) =
     Some \<lparr>sg_schema_version = default_signal_schema_v2, sg_loop_id = lid, sg_action = Kill, sg_action_id = None,
       sg_armed_at = fst now, sg_armed_at_iso = snd now\<rparr>"
  by (simp add: signal_of_json_def kill_signal_json_def de_req_def de_dflt_def)

text \<open>
  A signal is delivered once: the next read returns the signal written last and removes
  it. A signal file of the first format, and any other JSON that is not a signal of the
  second, an unknown action for one, is delivered as a kill.
\<close>

theorem signal_delivered_once:
  "write_signal True p f = (Inr (), g) \<Longrightarrow>
     take_signal True lid g = (Inr (Some p), g\<lparr>sf_signal := Missing\<rparr>) \<and>
     take_signal True lid (g\<lparr>sf_signal := Missing\<rparr>) = (Inr None, g\<lparr>sf_signal := Missing\<rparr>) \<and>
     (plain_text lid \<longrightarrow> (\<exists>q. fst (take_signal True lid (snd (write_kill_signal pt True now lid f))) = Inr (Some q) \<and>
        sg_action q = Kill \<and> sg_loop_id q = lid)) \<and>
     (signal_of_json v = None \<longrightarrow> (\<exists>q. fst (take_signal True lid (f\<lparr>sf_signal := Holds v\<rparr>)) = Inr (Some q) \<and>
        sg_action q = Kill))"
  by (auto simp: write_signal_def take_signal_def signal_roundtrip write_kill_signal_def armed_without_action old_signal_def)

definition no_signals :: loop_signals where
  "no_signals = \<lparr>sf_signal = Missing, sf_pause = None, sf_lock = Missing\<rparr>"

lemma signal_delivered_once_witness:
  "fst (take_signal True ''l'' (snd (write_signal True (new_pause (1, ''t'') ''l'' ''a'') no_signals)))
     = Inr (Some (new_pause (1, ''t'') ''l'' ''a''))"
  using signal_delivered_once [of "new_pause (1, ''t'') ''l'' ''a''" no_signals
      "snd (write_signal True (new_pause (1, ''t'') ''l'' ''a'') no_signals)" "''l''" "\<lambda>_. Missing" "(1, ''t'')" JNull]
  by (simp add: write_signal_def)

text \<open>
  C35: The lock excludes: an acquisition that succeeds found no lock or one at least an hour
  old; until an hour after it every other acquisition fails and changes nothing, and
  refreshing the lock does not prolong that: an hour after it was acquired another loop takes
  it over. A lock file that was only partly written is never taken over, whatever its age.
\<close>

theorem lock_excludes:
  assumes "acquire_lock parse now pid removable creation lid rid f = (Inr (), g)" "parse (snd now) = Some (fst now)"
    "fst now \<le> fst later"
  shows "(sf_lock f = Missing \<or>
      (\<exists>l t. read_lock_info parse f = Inr (Some (l, t)) \<and> LOOP_LOCK_MAX_AGE_SECS \<le> (if t \<le> fst now then fst now - t else 0))) \<and>
    (fst later - fst now < LOOP_LOCK_MAX_AGE_SECS \<longrightarrow>
       acquire_lock parse later pid' removable' creation' lid' rid' g = (Inl (ActionFailed ''active''), g)) \<and>
    (LOOP_LOCK_MAX_AGE_SECS \<le> fst later - fst now \<longrightarrow>
       fst (acquire_lock parse later pid' True Created lid' rid' (snd (refresh_lock True g))) = Inr ()) \<and>
    (\<forall>c. sf_lock (snd (create_lock (WriteFails NotJson) v f)) = NotJson \<and>
       acquire_lock parse later pid' removable' c lid' rid' (snd (create_lock (WriteFails NotJson) v f)) =
         (Inl serde_error, snd (create_lock (WriteFails NotJson) v f)))"
proof -
  have g: "sf_lock g = Holds (lock_json (snd now) pid lid rid)"
    using assms(1) by (cases creation) (auto simp: acquire_lock_def split: sum.splits option.splits if_splits)
  have info: "read_lock_info parse g = Inr (Some (\<lparr>lk_loop_id = lid, lk_run_id = rid, lk_acquired_at = snd now\<rparr>, fst now))"
    by (simp add: read_lock_info_def g lock_roundtrip assms(2) or_default_def)
  have "sf_lock f = Missing \<or> (\<exists>l t. read_lock_info parse f = Inr (Some (l, t)) \<and>
      LOOP_LOCK_MAX_AGE_SECS \<le> (if t \<le> fst now then fst now - t else 0))"
  proof (cases "read_lock_info parse f")
    case (Inl e)
    then show ?thesis using assms(1) by (simp add: acquire_lock_def)
  next
    case (Inr x)
    show ?thesis
    proof (cases x)
      case None
      then show ?thesis using Inr by (auto simp: read_lock_info_def split: json_file.splits option.splits)
    next
      case (Some lt)
      then show ?thesis using Inr assms(1)
        by (cases lt) (auto simp: acquire_lock_def not_less split: if_splits)
    qed
  qed
  then show ?thesis using info assms(3) by (auto simp: acquire_lock_def refresh_lock_def read_lock_info_def)
qed

lemma acquire_free:
  "sf_lock f = Missing \<Longrightarrow> acquire_lock parse now pid removable Created lid rid f =
     (Inr (), f\<lparr>sf_lock := Holds (lock_json (snd now) pid lid rid)\<rparr>)"
  by (simp add: acquire_lock_def read_lock_info_def)

lemma lock_excludes_witness:
  "acquire_lock (\<lambda>_. Some 10) (20, ''u'') 2 True Created ''b'' ''r2''
     (no_signals\<lparr>sf_lock := Holds (lock_json ''t'' 1 ''a'' ''r1'')\<rparr>)
   = (Inl (ActionFailed ''active''), no_signals\<lparr>sf_lock := Holds (lock_json ''t'' 1 ''a'' ''r1'')\<rparr>)"
proof -
  have "acquire_lock (\<lambda>_. Some 10) (10, ''t'') 1 True Created ''a'' ''r1'' no_signals =
      (Inr (), no_signals\<lparr>sf_lock := Holds (lock_json ''t'' 1 ''a'' ''r1'')\<rparr>)"
    by (subst acquire_free) (simp_all add: no_signals_def)
  from lock_excludes [OF this, of "(20, ''u'')" 2 True Created "''b''" "''r2''"] show ?thesis
    by (simp add: LOOP_LOCK_MAX_AGE_SECS_def)
qed

end
