(* ===== verification/Closeout_Rules.thy ===== *)
theory Closeout_Rules
  imports Serde Text
begin

text \<open>
  Closeout records and the rules R1 to R8 they are checked against
  (\<^verbatim>\<open>core/core-state/src/closeout_validation.rs\<close>), with the optional prediction of the goal state
  (\<^verbatim>\<open>core/core-state/src/goal_prediction.rs\<close>). The wording of a violation is kept as its
  arguments.
\<close>

section \<open>Records\<close>

definition CLOSEOUT_RECORD_SCHEMA_VERSION :: string where
  "CLOSEOUT_RECORD_SCHEMA_VERSION = ''closeout-record-v1''"

definition ALLOWED_VERIFICATION_STATUSES :: "string list" where
  "ALLOWED_VERIFICATION_STATUSES = [''passed'', ''failed'', ''partial'', ''not_run'']"

record closeout_command =
  cc_command :: string
  cc_exit_code :: i64
  cc_duration_ms :: "i64 option"
  cc_stdout_summary :: "string option"
  cc_stderr_summary :: "string option"

record closeout_artifact =
  ca_path :: string
  ca_exists :: bool
  ca_size_bytes :: "i64 option"
  ca_checks :: "string list option"

record closeout_record =
  co_schema_version :: string
  co_task_id :: string
  co_started_at :: "string option"
  co_ended_at :: "string option"
  co_changed_files :: "string list"
  co_commands_run :: "closeout_command list"
  co_artifacts_checked :: "closeout_artifact list"
  co_verification_status :: string
  co_blockers :: "string list"
  co_risks :: "string list"
  co_summary :: string
  co_notes :: "string option"

definition closeout_command_of_json :: "json \<Rightarrow> closeout_command option" where
  "closeout_command_of_json v =
     Option.bind (de_fields [''command'', ''exit_code'', ''duration_ms'', ''stdout_summary'', ''stderr_summary''] v) (\<lambda>m.
     Option.bind (de_dflt as_str [] m ''command'') (\<lambda>c.
     Option.bind (de_dflt de_i64 0 m ''exit_code'') (\<lambda>x.
     Option.bind (de_dflt (de_opt de_i64) None m ''duration_ms'') (\<lambda>d.
     Option.bind (de_dflt (de_opt as_str) None m ''stdout_summary'') (\<lambda>so.
     Option.bind (de_dflt (de_opt as_str) None m ''stderr_summary'') (\<lambda>se.
     Some \<lparr>cc_command = c, cc_exit_code = x, cc_duration_ms = d, cc_stdout_summary = so, cc_stderr_summary = se\<rparr>))))))"

definition closeout_artifact_of_json :: "json \<Rightarrow> closeout_artifact option" where
  "closeout_artifact_of_json v =
     Option.bind (de_fields [''path'', ''exists'', ''size_bytes'', ''checks''] v) (\<lambda>m.
     Option.bind (de_dflt as_str [] m ''path'') (\<lambda>p.
     Option.bind (de_dflt as_bool False m ''exists'') (\<lambda>e.
     Option.bind (de_dflt (de_opt de_i64) None m ''size_bytes'') (\<lambda>s.
     Option.bind (de_dflt (de_opt (de_list as_str)) None m ''checks'') (\<lambda>c.
     Some \<lparr>ca_path = p, ca_exists = e, ca_size_bytes = s, ca_checks = c\<rparr>)))))"

definition closeout_fields :: "string list" where
  "closeout_fields = [''schema_version'', ''task_id'', ''started_at'', ''ended_at'', ''changed_files'', ''commands_run'',
     ''artifacts_checked'', ''verification_status'', ''blockers'', ''risks'', ''summary'', ''notes'']"

definition closeout_record_of_json :: "json \<Rightarrow> closeout_record option" where
  "closeout_record_of_json v =
     Option.bind (de_fields closeout_fields v) (\<lambda>m.
     Option.bind (de_dflt as_str [] m ''schema_version'') (\<lambda>x1.
     Option.bind (de_dflt as_str [] m ''task_id'') (\<lambda>x2.
     Option.bind (de_dflt (de_opt as_str) None m ''started_at'') (\<lambda>x3.
     Option.bind (de_dflt (de_opt as_str) None m ''ended_at'') (\<lambda>x4.
     Option.bind (de_dflt (de_list as_str) [] m ''changed_files'') (\<lambda>x5.
     Option.bind (de_dflt (de_list closeout_command_of_json) [] m ''commands_run'') (\<lambda>x6.
     Option.bind (de_dflt (de_list closeout_artifact_of_json) [] m ''artifacts_checked'') (\<lambda>x7.
     Option.bind (de_dflt as_str [] m ''verification_status'') (\<lambda>x8.
     Option.bind (de_dflt (de_list as_str) [] m ''blockers'') (\<lambda>x9.
     Option.bind (de_dflt (de_list as_str) [] m ''risks'') (\<lambda>x10.
     Option.bind (de_dflt as_str [] m ''summary'') (\<lambda>x11.
     Option.bind (de_dflt (de_opt as_str) None m ''notes'') (\<lambda>x12.
     Some \<lparr>co_schema_version = x1, co_task_id = x2, co_started_at = x3, co_ended_at = x4, co_changed_files = x5,
       co_commands_run = x6, co_artifacts_checked = x7, co_verification_status = x8, co_blockers = x9,
       co_risks = x10, co_summary = x11, co_notes = x12\<rparr>)))))))))))))"

section \<open>Violations\<close>

datatype violation_detail = Plain | GotSchema string | NoSchema | OtherTask string string | BadCommandRow nat
  | GotStatus string | ChangedFiles nat | FailedCommand i64 string | EmptyCommand i64 | MissingArtifact string
  | ParseFailed | ExpectedStatus string string | Hypothesis string

record closeout_violation =
  vi_rule :: string
  vi_severity :: string
  vi_category :: string
  vi_detail :: violation_detail

definition soft_rules :: "string list" where
  "soft_rules = [''claimed_done_without_evidence'', ''changed_files_without_command_or_risk'',
     ''verification_passed_with_failed_command'', ''verification_passed_with_missing_artifact'',
     ''not_run_without_blockers_or_risks'', ''claimed_done_with_failed_verification'',
     ''claimed_passed_without_evidence'', ''claimed_passed_without_evidence_index_rows'']"

text \<open>Every rule that is not soft, an unknown one too, is hard.\<close>

definition rule_category :: "string \<Rightarrow> string" where
  "rule_category rule = (if rule \<in> set soft_rules then ''soft'' else ''hard'')"

definition violation_new :: "string \<Rightarrow> string \<Rightarrow> violation_detail \<Rightarrow> closeout_violation" where
  "violation_new rule severity detail =
     \<lparr>vi_rule = rule, vi_severity = severity, vi_category = rule_category rule, vi_detail = detail\<rparr>"

record closeout_response =
  cs_task_id :: string
  cs_closeout_allowed :: bool
  cs_can_proceed :: bool
  cs_claimed_completion :: bool
  cs_violations :: "closeout_violation list"
  cs_missing_evidence :: "string list"
  cs_verification_status :: string

definition closeout_base_response :: "string \<Rightarrow> closeout_response" where
  "closeout_base_response tid = \<lparr>cs_task_id = tid, cs_closeout_allowed = False, cs_can_proceed = False,
     cs_claimed_completion = False, cs_violations = [], cs_missing_evidence = [], cs_verification_status = []\<rparr>"

section \<open>Completion claims\<close>

definition ascii_lower :: "string \<Rightarrow> string" where
  "ascii_lower = map lower_char"

definition COMPLETION_DETECT_EN :: "string list" where
  "COMPLETION_DETECT_EN = [''done'', ''finished'', ''completed'', ''succeeded'', ''passed'']"

definition COMPLETION_DETECT_ZH_PHRASES :: "string list" where
  "COMPLETION_DETECT_ZH_PHRASES =
     [[CHR 0xE5, CHR 0xB7, CHR 0xB2, CHR 0xE5, CHR 0xAE, CHR 0x8C, CHR 0xE6, CHR 0x88, CHR 0x90],
      [CHR 0xE5, CHR 0xB7, CHR 0xB2, CHR 0xE7, CHR 0xBB, CHR 0x8F, CHR 0xE5, CHR 0xAE, CHR 0x8C, CHR 0xE6, CHR 0x88, CHR 0x90],
      [CHR 0xE5, CHR 0x85, CHR 0xA8, CHR 0xE9, CHR 0x83, CHR 0xA8, CHR 0xE5, CHR 0xAE, CHR 0x8C, CHR 0xE6, CHR 0x88, CHR 0x90],
      [CHR 0xE5, CHR 0xAE, CHR 0x8C, CHR 0xE6, CHR 0x88, CHR 0x90, CHR 0xE4, CHR 0xBA, CHR 0x86],
      [CHR 0xE6, CHR 0x90, CHR 0x9E, CHR 0xE5, CHR 0xAE, CHR 0x9A],
      [CHR 0xE4, CHR 0xBB, CHR 0xBB, CHR 0xE5, CHR 0x8A, CHR 0xA1, CHR 0xE5, CHR 0xAE, CHR 0x8C, CHR 0xE6, CHR 0x88, CHR 0x90]]"

definition contains_completion_claim_token :: "string \<Rightarrow> bool" where
  "contains_completion_claim_token text \<longleftrightarrow> text \<noteq> [] \<and>
     (list_ex (\<lambda>kw. contains_text (ascii_lower text) kw) COMPLETION_DETECT_EN \<or>
      list_ex (\<lambda>p. contains_text text p) COMPLETION_DETECT_ZH_PHRASES)"

section \<open>Predictions\<close>

record goal_prediction =
  gp_expected_verification_status :: "string option"
  gp_hypothesis :: "string option"

record prediction_verification =
  pv_matched :: bool
  pv_rule :: string
  pv_detail :: violation_detail
  pv_severity :: string

definition goal_prediction_of_json :: "json \<Rightarrow> goal_prediction option" where
  "goal_prediction_of_json v =
     Option.bind (de_struct [''expected_verification_status'', ''hypothesis''] [''expected_verification_status'', ''hypothesis''] v) (\<lambda>m.
     Option.bind (de_dflt (de_opt as_str) None m ''expected_verification_status'') (\<lambda>e.
     Option.bind (de_dflt (de_opt as_str) None m ''hypothesis'') (\<lambda>h.
     Some \<lparr>gp_expected_verification_status = e, gp_hypothesis = h\<rparr>)))"

text \<open>A trimmed text that is not empty.\<close>

definition nonempty_trimmed :: "string option \<Rightarrow> string option" where
  "nonempty_trimmed x = (case x of Some s \<Rightarrow> if trim s \<noteq> [] then Some (trim s) else None | None \<Rightarrow> None)"

definition prediction_is_nonempty :: "goal_prediction \<Rightarrow> bool" where
  "prediction_is_nonempty p \<longleftrightarrow>
     nonempty_trimmed (gp_expected_verification_status p) \<noteq> None \<or> nonempty_trimmed (gp_hypothesis p) \<noteq> None"

definition read_goal_prediction :: "json \<Rightarrow> goal_prediction option" where
  "read_goal_prediction v =
     first_some (\<lambda>x. case x of
         None \<Rightarrow> None
       | Some pred \<Rightarrow> if pred = JNull then None
           else case goal_prediction_of_json pred of
             Some p \<Rightarrow> if prediction_is_nonempty p then Some p else None
           | None \<Rightarrow> None)
       [Option.bind (jget v ''extra'') (\<lambda>e. jget e ''prediction''),
        Option.bind (jget v ''metadata'') (\<lambda>m. jget m ''prediction''), jget v ''prediction'']"

definition verify_prediction_against_closeout :: "goal_prediction \<Rightarrow> string \<Rightarrow> string \<Rightarrow> prediction_verification list" where
  "verify_prediction_against_closeout p verification_status summary =
     (let actual = ascii_lower (trim verification_status) in
      (case nonempty_trimmed (gp_expected_verification_status p) of
         None \<Rightarrow> []
       | Some e \<Rightarrow>
           (let expected = ascii_lower e in
            if expected \<in> set ALLOWED_VERIFICATION_STATUSES \<and> actual \<noteq> expected then
              [\<lparr>pv_matched = False, pv_rule = ''prediction_verification_status_mismatch'',
                pv_detail = ExpectedStatus expected actual, pv_severity = ''warn''\<rparr>]
            else if actual = expected then
              [\<lparr>pv_matched = True, pv_rule = ''prediction_verification_status_match'',
                pv_detail = GotStatus actual, pv_severity = ''info''\<rparr>]
            else [])) @
      (case nonempty_trimmed (gp_hypothesis p) of
         None \<Rightarrow> []
       | Some h \<Rightarrow>
           if contains_text (ascii_lower summary) (ascii_lower h) then
             [\<lparr>pv_matched = True, pv_rule = ''prediction_hypothesis_reflected'', pv_detail = Hypothesis h, pv_severity = ''info''\<rparr>]
           else
             [\<lparr>pv_matched = False, pv_rule = ''prediction_hypothesis_not_reflected'', pv_detail = Hypothesis h,
               pv_severity = ''warn''\<rparr>]))"

section \<open>Evaluation\<close>

record closeout_evidence_context =
  cx_task_id :: "string option"
  cx_has_successful_verification :: bool
  cx_goal_prediction :: "goal_prediction option"

text \<open>
  The context of a task: whether its evidence index has a successful row, and the goal state
  file of the task, if there is one.
\<close>

definition closeout_evidence_context_new :: "string option \<Rightarrow> bool \<Rightarrow> json option \<Rightarrow> closeout_evidence_context" where
  "closeout_evidence_context_new tid has_success goal_state =
     \<lparr>cx_task_id = tid, cx_has_successful_verification = has_success,
      cx_goal_prediction = Option.bind goal_state read_goal_prediction\<rparr>"

definition VERIFY_CMDS :: "string list" where
  "VERIFY_CMDS = [''cargo test'', ''cargo check'', ''cargo build'', ''cargo clippy'', ''npm test'', ''npm run test'',
     ''pytest'', ''make test'', ''make check'', ''go test'', ''git diff'', ''git log'']"

definition status_lower :: "closeout_record \<Rightarrow> string" where
  "status_lower r = ascii_lower (trim (co_verification_status r))"

definition summary_claims :: "closeout_record \<Rightarrow> bool" where
  "summary_claims r = contains_completion_claim_token (trim (co_summary r))"

text \<open>
  Every rule looks at the record and gives the violations it finds, each with the name of the
  evidence that is missing, if any. The checks of the fields come first.
\<close>

type_synonym finding_list = "(closeout_violation \<times> string option) list"

definition block :: "bool \<Rightarrow> string \<Rightarrow> violation_detail \<Rightarrow> string option \<Rightarrow> finding_list" where
  "block c rule detail missing = (if c then [(violation_new rule ''block'' detail, missing)] else [])"

definition field_findings :: "closeout_record \<Rightarrow> finding_list" where
  "field_findings r =
     block (trim (co_schema_version r) = [] \<or> co_schema_version r \<noteq> CLOSEOUT_RECORD_SCHEMA_VERSION)
       ''schema_version_mismatch'' (GotSchema (co_schema_version r)) None @
     block (trim (co_task_id r) = []) ''task_id_missing'' Plain (Some ''task_id'') @
     block (trim (co_summary r) = []) ''summary_missing'' Plain (Some ''summary'') @
     block (status_lower r \<noteq> [] \<and> status_lower r \<notin> set ALLOWED_VERIFICATION_STATUSES)
       ''verification_status_invalid'' (GotStatus (co_verification_status r)) None @
     block (status_lower r = []) ''verification_status_missing'' Plain (Some ''verification_status'')"

definition no_acknowledgement :: "closeout_record \<Rightarrow> bool" where
  "no_acknowledgement r \<longleftrightarrow> co_risks r = [] \<and> co_blockers r = []"

definition rule_R1 :: "closeout_record \<Rightarrow> bool" where
  "rule_R1 r \<longleftrightarrow> summary_claims r \<and> status_lower r = ''not_run'' \<and> no_acknowledgement r"

definition rule_findings :: "closeout_record \<Rightarrow> finding_list" where
  "rule_findings r =
     block (rule_R1 r) ''claimed_done_without_evidence'' Plain (Some ''validation_command_or_risk_acknowledgement'') @
     block (co_changed_files r \<noteq> [] \<and> co_commands_run r = [] \<and> co_risks r = [])
       ''changed_files_without_command_or_risk'' (ChangedFiles (length (co_changed_files r))) (Some ''validation_command'') @
     (case find (\<lambda>c. cc_exit_code c \<noteq> 0) (co_commands_run r) of
        Some c \<Rightarrow> block (status_lower r = ''passed'') ''verification_passed_with_failed_command''
          (FailedCommand (cc_exit_code c) (cc_command c)) None
      | None \<Rightarrow> []) @
     concat (map (\<lambda>c. block (trim (cc_command c) = []) ''invalid_command_evidence'' (EmptyCommand (cc_exit_code c))
       (Some ''command'')) (co_commands_run r)) @
     (case find (\<lambda>a. \<not> ca_exists a) (co_artifacts_checked r) of
        Some a \<Rightarrow> block (status_lower r = ''passed'') ''verification_passed_with_missing_artifact''
          (MissingArtifact (ca_path a)) None
      | None \<Rightarrow> []) @
     block (status_lower r = ''not_run'' \<and> no_acknowledgement r \<and> \<not> rule_R1 r)
       ''not_run_without_blockers_or_risks'' Plain (Some ''blocker_or_risk'') @
     block (status_lower r = ''failed'' \<and> summary_claims r \<and> no_acknowledgement r)
       ''claimed_done_with_failed_verification'' Plain None @
     block (status_lower r = ''passed'' \<and> co_commands_run r = [] \<and> co_artifacts_checked r = [] \<and> no_acknowledgement r)
       ''claimed_passed_without_evidence'' Plain (Some ''evidence_or_acknowledgement'')"

text \<open>The rules that need the context: the index of evidence, then the prediction.\<close>

definition has_real_verification :: "closeout_record \<Rightarrow> bool" where
  "has_real_verification r \<longleftrightarrow>
     list_ex (\<lambda>c. list_ex (\<lambda>v. contains_text (ascii_lower (cc_command c)) v) VERIFY_CMDS) (co_commands_run r)"

definition context_findings :: "closeout_record \<Rightarrow> finding_list \<Rightarrow> closeout_evidence_context \<Rightarrow> finding_list" where
  "context_findings r fs cx =
     block (status_lower r = ''passed'' \<and> \<not> cx_has_successful_verification cx \<and>
         \<not> list_ex (\<lambda>(v, _). vi_rule v = ''claimed_passed_without_evidence'') fs \<and> \<not> has_real_verification r)
       ''claimed_passed_without_evidence_index_rows'' Plain (Some ''evidence_index_successful_row'') @
     (case cx_goal_prediction cx of
        None \<Rightarrow> []
      | Some p \<Rightarrow> map (\<lambda>v. (violation_new (pv_rule v) (pv_severity v) (pv_detail v), None))
          (filter (\<lambda>v. \<not> pv_matched v) (verify_prediction_against_closeout p (co_verification_status r) (co_summary r))))"

definition record_findings :: "closeout_record \<Rightarrow> closeout_evidence_context option \<Rightarrow> finding_list" where
  "record_findings r cx =
     (let fs = field_findings r @ rule_findings r in
      fs @ (case cx of None \<Rightarrow> [] | Some c \<Rightarrow> context_findings r fs c))"

definition evaluate_record :: "closeout_record \<Rightarrow> closeout_evidence_context option \<Rightarrow> closeout_response" where
  "evaluate_record r cx =
     (let fs = record_findings r cx; vs = map fst fs in
      \<lparr>cs_task_id = co_task_id r,
       cs_closeout_allowed = (\<not> list_ex (\<lambda>v. vi_severity v = ''block'') vs),
       cs_can_proceed = (\<not> list_ex (\<lambda>v. vi_category v = ''hard'') vs),
       cs_claimed_completion = summary_claims r,
       cs_violations = vs,
       cs_missing_evidence = List.map_filter snd fs,
       cs_verification_status = status_lower r\<rparr>)"

section \<open>The raw value\<close>

definition raw_command_violations :: "json list \<Rightarrow> closeout_violation list" where
  "raw_command_violations cmds =
     concat (map (\<lambda>(idx, cmd).
       if trim (or_default [] (jget_with as_str cmd ''command'')) = [] \<or> jget_with de_i64 cmd ''exit_code'' = None
       then [violation_new ''invalid_command_evidence'' ''block'' (BadCommandRow idx)] else [])
      (List.enumerate 0 cmds))"

definition raw_shape_violations :: "json \<Rightarrow> string option \<Rightarrow> closeout_violation list" where
  "raw_shape_violations payload expected =
     (if trim (or_default [] (jget_with as_str payload ''schema_version'')) = []
      then [violation_new ''schema_version_mismatch'' ''block'' NoSchema] else []) @
     (case nonempty_trimmed expected of
        None \<Rightarrow> []
      | Some e \<Rightarrow> (let actual = trim (or_default [] (jget_with as_str payload ''task_id'')) in
          if actual \<noteq> e then [violation_new ''task_id_context_mismatch'' ''block'' (OtherTask actual e)] else [])) @
     (case jget_with as_array payload ''commands_run'' of None \<Rightarrow> [] | Some cmds \<Rightarrow> raw_command_violations cmds)"

definition push_new_violation :: "closeout_violation list \<Rightarrow> closeout_violation \<Rightarrow> closeout_violation list" where
  "push_new_violation vs v =
     (if list_ex (\<lambda>e. vi_rule e = vi_rule v \<and> vi_detail e = vi_detail v) vs then vs else vs @ [v])"

definition blocked_response :: "json \<Rightarrow> closeout_violation list \<Rightarrow> closeout_response" where
  "blocked_response payload vs =
     (closeout_base_response (or_default [] (jget_with as_str payload ''task_id'')))
       \<lparr>cs_violations := foldl push_new_violation [] vs\<rparr>"

definition parse_error_response :: "string \<Rightarrow> closeout_response" where
  "parse_error_response tid =
     (closeout_base_response tid)\<lparr>cs_violations := [violation_new ''parse_error'' ''block'' ParseFailed]\<rparr>"

definition evaluate_value :: "string option \<Rightarrow> closeout_evidence_context option \<Rightarrow> json \<Rightarrow> closeout_response" where
  "evaluate_value expected cx payload =
     (let raw = raw_shape_violations payload expected in
      if list_ex (\<lambda>v. vi_severity v = ''block'') raw then blocked_response payload raw
      else case closeout_record_of_json payload of
        Some r \<Rightarrow> evaluate_record r cx
      | None \<Rightarrow> parse_error_response (or_default [] (jget_with as_str payload ''task_id'')))"

definition evaluate_closeout_record_value :: "json \<Rightarrow> closeout_response" where
  "evaluate_closeout_record_value payload = evaluate_value None None payload"

definition evaluate_closeout_record_value_with_context :: "json \<Rightarrow> closeout_evidence_context \<Rightarrow> closeout_response" where
  "evaluate_closeout_record_value_with_context payload cx = evaluate_value (cx_task_id cx) (Some cx) payload"

section \<open>What is accepted\<close>

text \<open>A record that claims nothing its own evidence contradicts.\<close>

definition acceptable :: "closeout_record \<Rightarrow> bool" where
  "acceptable r \<longleftrightarrow>
     co_schema_version r = CLOSEOUT_RECORD_SCHEMA_VERSION \<and> trim (co_task_id r) \<noteq> [] \<and> trim (co_summary r) \<noteq> [] \<and>
     status_lower r \<in> set ALLOWED_VERIFICATION_STATUSES \<and>
     (\<forall>c \<in> set (co_commands_run r). trim (cc_command c) \<noteq> []) \<and>
     (co_changed_files r = [] \<or> co_commands_run r \<noteq> [] \<or> co_risks r \<noteq> []) \<and>
     (status_lower r = ''passed'' \<longrightarrow>
        (\<forall>c \<in> set (co_commands_run r). cc_exit_code c = 0) \<and> (\<forall>a \<in> set (co_artifacts_checked r). ca_exists a) \<and>
        (co_commands_run r \<noteq> [] \<or> co_artifacts_checked r \<noteq> [] \<or> \<not> no_acknowledgement r)) \<and>
     (status_lower r = ''not_run'' \<longrightarrow> \<not> no_acknowledgement r) \<and>
     (status_lower r = ''failed'' \<and> summary_claims r \<longrightarrow> \<not> no_acknowledgement r)"

definition evidenced :: "closeout_evidence_context option \<Rightarrow> closeout_record \<Rightarrow> bool" where
  "evidenced cx r \<longleftrightarrow> (\<forall>c. cx = Some c \<and> status_lower r = ''passed'' \<longrightarrow>
     cx_has_successful_verification c \<or> has_real_verification r)"

definition clear :: "finding_list \<Rightarrow> bool" where
  "clear fs \<longleftrightarrow> list_all (\<lambda>(v, _). vi_severity v \<noteq> ''block'') fs"

lemma clear_simps [simp]:
  "clear []" "clear (fs @ gs) \<longleftrightarrow> clear fs \<and> clear gs" "clear (concat fss) \<longleftrightarrow> (\<forall>fs \<in> set fss. clear fs)"
  by (auto simp: clear_def list_all_iff)

lemma clear_block [simp]: "clear (block c rule d m) \<longleftrightarrow> \<not> c"
  by (simp add: clear_def block_def violation_new_def)

lemma schema_version_not_empty [simp]: "trim CLOSEOUT_RECORD_SCHEMA_VERSION \<noteq> []"
  by code_simp

lemma allowed_clear: "cs_closeout_allowed (evaluate_record r cx) \<longleftrightarrow> clear (record_findings r cx)"
  by (auto simp: evaluate_record_def Let_def clear_def list_all_iff list_ex_iff)

lemma clear_fields:
  "clear (field_findings r) \<longleftrightarrow> co_schema_version r = CLOSEOUT_RECORD_SCHEMA_VERSION \<and> trim (co_task_id r) \<noteq> [] \<and>
     trim (co_summary r) \<noteq> [] \<and> status_lower r \<in> set ALLOWED_VERIFICATION_STATUSES"
  using schema_version_not_empty by (auto simp: field_findings_def ALLOWED_VERIFICATION_STATUSES_def)

lemma clear_find:
  "clear (case find P xs of None \<Rightarrow> [] | Some x \<Rightarrow> block c rule (d x) m) \<longleftrightarrow> (c \<longrightarrow> (\<forall>x \<in> set xs. \<not> P x))"
  by (induction xs) auto

lemma clear_rules:
  "clear (rule_findings r) \<longleftrightarrow>
     (\<forall>c \<in> set (co_commands_run r). trim (cc_command c) \<noteq> []) \<and>
     (co_changed_files r = [] \<or> co_commands_run r \<noteq> [] \<or> co_risks r \<noteq> []) \<and>
     (status_lower r = ''passed'' \<longrightarrow>
        (\<forall>c \<in> set (co_commands_run r). cc_exit_code c = 0) \<and> (\<forall>a \<in> set (co_artifacts_checked r). ca_exists a) \<and>
        (co_commands_run r \<noteq> [] \<or> co_artifacts_checked r \<noteq> [] \<or> \<not> no_acknowledgement r)) \<and>
     (status_lower r = ''not_run'' \<longrightarrow> \<not> no_acknowledgement r) \<and>
     (status_lower r = ''failed'' \<and> summary_claims r \<longrightarrow> \<not> no_acknowledgement r)"
  by (auto simp: rule_findings_def clear_find rule_R1_def)

lemma acceptable_clear: "acceptable r \<longleftrightarrow> clear (field_findings r) \<and> clear (rule_findings r)"
  by (auto simp: acceptable_def clear_fields clear_rules)

lemma prediction_warns:
  "v \<in> set (verify_prediction_against_closeout p s t) \<Longrightarrow> pv_severity v \<noteq> ''block''"
  by (auto simp: verify_prediction_against_closeout_def Let_def split: option.splits if_splits)

lemma clear_map: "clear (map (\<lambda>v. (violation_new (f v) (g v) (h v), m)) xs) \<longleftrightarrow> (\<forall>v \<in> set xs. g v \<noteq> ''block'')"
  by (simp add: clear_def list_all_iff violation_new_def)

lemma clear_predictions:
  "clear (map (\<lambda>v. (violation_new (pv_rule v) (pv_severity v) (pv_detail v), None))
     (filter (\<lambda>v. \<not> pv_matched v) (verify_prediction_against_closeout p s t)))"
  unfolding clear_map by (rule ballI, rule prediction_warns) (erule filter_is_subset [THEN subsetD])

lemma clear_context:
  "clear (context_findings r fs c) \<longleftrightarrow> (status_lower r = ''passed'' \<longrightarrow>
     cx_has_successful_verification c \<or> list_ex (\<lambda>(v, _). vi_rule v = ''claimed_passed_without_evidence'') fs \<or> has_real_verification r)"
proof (cases "cx_goal_prediction c")
  case None
  then show ?thesis by (simp add: context_findings_def)
next
  case (Some p)
  then show ?thesis by (simp add: context_findings_def clear_predictions)
qed

lemma findings_block: "(v, m) \<in> set (field_findings r @ rule_findings r) \<Longrightarrow> vi_severity v = ''block''"
  by (auto simp: field_findings_def rule_findings_def block_def violation_new_def split: if_splits option.splits)

lemma record_findings_clear: "clear (record_findings r cx) \<longleftrightarrow> acceptable r \<and> evidenced cx r"
proof (cases "clear (field_findings r @ rule_findings r)")
  case True
  then have "field_findings r @ rule_findings r = []"
    using findings_block [of _ _ r] by (cases "field_findings r @ rule_findings r") (force simp: clear_def)+
  then show ?thesis using True
    by (cases cx) (auto simp: record_findings_def Let_def evidenced_def acceptable_clear clear_context)
next
  case False
  then show ?thesis by (cases cx) (auto simp: record_findings_def Let_def acceptable_clear)
qed

lemma raw_block: "v \<in> set (raw_shape_violations payload expected) \<Longrightarrow> vi_severity v = ''block''"
  by (auto simp: raw_shape_violations_def raw_command_violations_def violation_new_def Let_def
      split: option.splits if_splits)

lemma allowed_iff:
  "cs_closeout_allowed (evaluate_value expected cx payload) \<longleftrightarrow>
     raw_shape_violations payload expected = [] \<and>
     (\<exists>r. closeout_record_of_json payload = Some r \<and> acceptable r \<and> evidenced cx r)"
proof -
  have b: "list_ex (\<lambda>v. vi_severity v = ''block'') (raw_shape_violations payload expected) \<longleftrightarrow>
      raw_shape_violations payload expected \<noteq> []"
    using raw_block [of _ payload expected] by (cases "raw_shape_violations payload expected") auto
  show ?thesis
    by (auto simp: evaluate_value_def Let_def b blocked_response_def closeout_base_response_def parse_error_response_def
        allowed_clear record_findings_clear split: option.splits)
qed

text \<open>
  C2: A closeout is allowed exactly when its value has the right shape, reads as a record, the
  record claims nothing its own evidence contradicts, and, where the index of evidence is
  known, a claimed pass is backed by a successful row or by a recognised verification command.
  In particular a record that is allowed as passed has no failed command and no missing artifact.
\<close>

theorem closeout_allowed_iff:
  "cs_closeout_allowed (evaluate_value expected cx payload) \<longleftrightarrow>
     raw_shape_violations payload expected = [] \<and>
     (\<exists>r. closeout_record_of_json payload = Some r \<and> acceptable r \<and> evidenced cx r)"
  by (rule allowed_iff)

text \<open>
  A prediction, documented as advice, does not change whether the closeout is allowed, but
  a hypothesis the summary does not repeat makes the response say that the work cannot
  proceed: the rule is not in the table of categories and therefore hard.
\<close>

theorem unmet_prediction_stops:
  assumes "nonempty_trimmed (gp_hypothesis p) = Some h" "\<not> contains_text (ascii_lower (co_summary r)) (ascii_lower h)"
  shows "cs_closeout_allowed (evaluate_record r (Some (c\<lparr>cx_goal_prediction := Some p\<rparr>))) =
      cs_closeout_allowed (evaluate_record r (Some (c\<lparr>cx_goal_prediction := None\<rparr>))) \<and>
    \<not> cs_can_proceed (evaluate_record r (Some (c\<lparr>cx_goal_prediction := Some p\<rparr>)))"
proof -
  have "evidenced (Some (c\<lparr>cx_goal_prediction := q\<rparr>)) r = evidenced (Some c) r" for q
    by (simp add: evidenced_def)
  moreover have "list_ex (\<lambda>v. vi_category v = ''hard'')
      (map fst (context_findings r fs (c\<lparr>cx_goal_prediction := Some p\<rparr>)))" for fs
    using assms by (simp add: context_findings_def verify_prediction_against_closeout_def Let_def violation_new_def
        rule_category_def soft_rules_def)
  ultimately show ?thesis
    by (simp add: allowed_clear record_findings_clear) (simp add: evaluate_record_def record_findings_def Let_def)
qed

definition sample_record :: closeout_record where
  "sample_record = \<lparr>co_schema_version = ''closeout-record-v1'', co_task_id = ''t'', co_started_at = None, co_ended_at = None,
     co_changed_files = [], co_commands_run = [], co_artifacts_checked = [], co_verification_status = ''partial'',
     co_blockers = [], co_risks = [], co_summary = ''half of it'', co_notes = None\<rparr>"

definition sample_context :: closeout_evidence_context where
  "sample_context = closeout_evidence_context_new (Some ''t'') True
     (Some (JObj [(''prediction'', JObj [(''hypothesis'', JStr ''fast'')])]))"

lemma unmet_prediction_stops_witness:
  "cs_closeout_allowed (evaluate_record sample_record (Some (sample_context\<lparr>cx_goal_prediction := Some
       \<lparr>gp_expected_verification_status = None, gp_hypothesis = Some ''fast''\<rparr>\<rparr>))) \<and>
   \<not> cs_can_proceed (evaluate_record sample_record (Some (sample_context\<lparr>cx_goal_prediction := Some
       \<lparr>gp_expected_verification_status = None, gp_hypothesis = Some ''fast''\<rparr>\<rparr>))) \<and>
   cx_goal_prediction sample_context = Some \<lparr>gp_expected_verification_status = None, gp_hypothesis = Some ''fast''\<rparr>"
proof -
  have "nonempty_trimmed (Some ''fast'') = Some ''fast''"
      "\<not> contains_text (ascii_lower (co_summary sample_record)) (ascii_lower ''fast'')"
      "cs_closeout_allowed (evaluate_record sample_record (Some (sample_context\<lparr>cx_goal_prediction := None\<rparr>)))"
      "cx_goal_prediction sample_context = Some \<lparr>gp_expected_verification_status = None, gp_hypothesis = Some ''fast''\<rparr>"
    by code_simp+
  then show ?thesis
    using unmet_prediction_stops [of "\<lparr>gp_expected_verification_status = None, gp_hypothesis = Some ''fast''\<rparr>" "''fast''"
        sample_record sample_context] by simp
qed

end
