(* ===== verification/Loop_Closeout.thy ===== *)
theory Loop_Closeout
  imports Loop_Signals Closeout_Rules
begin

text \<open>
  Closeouts of the actions of a loop run (\<^verbatim>\<open>core/goal-engine/src/closeout.rs\<close>): their
  verification against the rules and the index of evidence, the record of an action, and the
  aggregate of a run with the output document made of it.
\<close>

section \<open>Verification\<close>

record closeout_verification =
  cl_closeout_allowed :: bool
  cl_violations :: "(string \<times> violation_detail) list"

definition evidence_missing :: "string \<times> violation_detail" where
  "evidence_missing = (''evidence_index_missing_or_empty'', Plain)"

text \<open>The response of the rules, each violation reduced to its rule and its detail.\<close>

definition delegate_to_framework_runtime :: "json \<Rightarrow> closeout_verification" where
  "delegate_to_framework_runtime v =
     (let r = evaluate_closeout_record_value v in
      \<lparr>cl_closeout_allowed = cs_closeout_allowed r,
       cl_violations = map (\<lambda>x. (vi_rule x, vi_detail x)) (cs_violations r)\<rparr>)"

definition entry_succeeded :: "json \<Rightarrow> bool" where
  "entry_succeeded e \<longleftrightarrow> jget_with de_i64 e ''exit_code'' = Some 0 \<or> jget_with as_bool e ''success'' = Some True"

definition verify_evidence_index :: "json_file \<Rightarrow> bool" where
  "verify_evidence_index c =
     (case c of
        Holds v \<Rightarrow> (case jget_with as_array v ''artifacts'' of
            None \<Rightarrow> False
          | Some xs \<Rightarrow> xs \<noteq> [] \<and> list_ex entry_succeeded xs)
      | _ \<Rightarrow> False)"

text \<open>The index of evidence is that of the task; without a repository and a task it is not looked at.\<close>

definition verify_closeout_value :: "json \<Rightarrow> json_file option \<Rightarrow> closeout_verification" where
  "verify_closeout_value v evidence =
     (let r = delegate_to_framework_runtime v in
      case evidence of
        None \<Rightarrow> r
      | Some c \<Rightarrow>
          if cl_closeout_allowed r \<and> jget_with as_str v ''verification_status'' = Some ''passed'' \<and>
             (case jget_with as_array v ''commands_run'' of None \<Rightarrow> True | Some xs \<Rightarrow> xs = []) \<and>
             \<not> verify_evidence_index c
          then r\<lparr>cl_violations := cl_violations r @ [evidence_missing], cl_closeout_allowed := False\<rparr>
          else r)"

definition verify_closeout_with_evidence :: "json \<Rightarrow> json_file \<Rightarrow> closeout_verification" where
  "verify_closeout_with_evidence v c =
     (let r = verify_closeout_value v (Some c) in
      if \<not> verify_evidence_index c
      then r\<lparr>cl_violations := cl_violations r @ [evidence_missing], cl_closeout_allowed := False\<rparr>
      else r)"

section \<open>Records of actions\<close>

definition action_record_fields :: "string list" where
  "action_record_fields = [''schema_version'', ''loop_id'', ''run_id'', ''action_id'', ''safety_level'', ''closeout'']"

definition action_record_of_json :: "json \<Rightarrow> loop_action_record option" where
  "action_record_of_json v =
     Option.bind (de_fields action_record_fields v) (\<lambda>m.
     Option.bind (de_req as_str m ''schema_version'') (\<lambda>s.
     Option.bind (de_req as_str m ''loop_id'') (\<lambda>l.
     Option.bind (de_req as_str m ''run_id'') (\<lambda>r.
     Option.bind (de_req as_str m ''action_id'') (\<lambda>a.
     Option.bind (de_req as_str m ''safety_level'') (\<lambda>y.
     Option.bind (de_req Some m ''closeout'') (\<lambda>c.
     Some \<lparr>ar_schema_version = s, ar_loop_id = l, ar_run_id = r, ar_action_id = a, ar_safety_level = y,
       ar_closeout = c\<rparr>)))))))"

definition action_record_json :: "loop_action_record \<Rightarrow> json" where
  "action_record_json r = JObj
     [(''action_id'', JStr (ar_action_id r)), (''closeout'', ar_closeout r), (''loop_id'', JStr (ar_loop_id r)),
      (''run_id'', JStr (ar_run_id r)), (''safety_level'', JStr (ar_safety_level r)),
      (''schema_version'', JStr (ar_schema_version r))]"

definition read_action_record :: "json_file \<Rightarrow> loop_error + loop_action_record option" where
  "read_action_record c =
     (case c of
        Missing \<Rightarrow> Inr None
      | Unreadable \<Rightarrow> Inl io_error
      | NotJson \<Rightarrow> Inl serde_error
      | Holds v \<Rightarrow> (case action_record_of_json v of Some r \<Rightarrow> Inr (Some r) | None \<Rightarrow> Inl serde_error))"

section \<open>Aggregates\<close>

definition LOOP_CLOSEOUT_AGGREGATE_SCHEMA_VERSION :: string where
  "LOOP_CLOSEOUT_AGGREGATE_SCHEMA_VERSION = ''loop-closeout-aggregate-v1''"

datatype aggregate_action_result = RSkipped
  | RCommitted (committed_path: "string option") (committed_sha: "string option")
  | RFailed string | RInterrupted

fun aggregate_entry :: "loop_action \<Rightarrow> aggregate_action_result option \<Rightarrow> aggregate_action_entry" where
  "aggregate_entry a (Some RSkipped) = \<lparr>ae_action_id = la_action_id a, ae_safety_level = la_safety a,
     ae_execution = ''skipped'', ae_closeout_path = None, ae_verification = None, ae_commit_sha = None, ae_merged = None\<rparr>"
| "aggregate_entry a (Some (RCommitted path sha)) = \<lparr>ae_action_id = la_action_id a, ae_safety_level = la_safety a,
     ae_execution = ''committed'', ae_closeout_path = path, ae_verification = Some ''pass'', ae_commit_sha = sha,
     ae_merged = Some False\<rparr>"
| "aggregate_entry a (Some (RFailed reason)) = \<lparr>ae_action_id = la_action_id a, ae_safety_level = la_safety a,
     ae_execution = ''failed'', ae_closeout_path = None, ae_verification = Some reason, ae_commit_sha = None, ae_merged = None\<rparr>"
| "aggregate_entry a (Some RInterrupted) = \<lparr>ae_action_id = la_action_id a, ae_safety_level = la_safety a,
     ae_execution = ''interrupted'', ae_closeout_path = None, ae_verification = Some ''interrupted'',
     ae_commit_sha = None, ae_merged = None\<rparr>"
| "aggregate_entry a None = \<lparr>ae_action_id = la_action_id a, ae_safety_level = la_safety a,
     ae_execution = ''unknown'', ae_closeout_path = None, ae_verification = None, ae_commit_sha = None, ae_merged = None\<rparr>"

text \<open>One turn of the loop over the actions: the entries so far, a failure so far, a gap so far.\<close>

definition aggregate_step ::
  "(string \<times> aggregate_action_result) list \<Rightarrow> aggregate_action_entry list \<times> bool \<times> bool \<Rightarrow> loop_action \<Rightarrow>
    aggregate_action_entry list \<times> bool \<times> bool" where
  "aggregate_step results st a =
     (case st of (es, any_fail, any_partial) \<Rightarrow>
        let r = map_of results (la_action_id a) in
        (es @ [aggregate_entry a r],
         any_fail \<or> (case r of Some (RFailed _) \<Rightarrow> True | _ \<Rightarrow> False),
         any_partial \<or> r = Some RInterrupted \<or> r = None))"

definition build_aggregate ::
  "string \<Rightarrow> string \<Rightarrow> loop_action list \<Rightarrow> (string \<times> aggregate_action_result) list \<Rightarrow> loop_closeout_aggregate" where
  "build_aggregate rid lid actions results =
     (case foldl (aggregate_step results) ([], False, False) actions of (es, any_fail, any_partial) \<Rightarrow>
      \<lparr>ag_schema_version = LOOP_CLOSEOUT_AGGREGATE_SCHEMA_VERSION, ag_run_id = rid, ag_loop_id = lid,
       ag_overall_status = (if any_fail then ''fail'' else if any_partial then ''partial'' else ''pass''),
       ag_actions = es, ag_escalated = False, ag_partial = any_partial, ag_qg_blockers = []\<rparr>)"

definition LOOP_OUTPUT_SCHEMA_VERSION :: string where
  "LOOP_OUTPUT_SCHEMA_VERSION = ''loop-output-v1''"

definition loop_output_json :: "loop_closeout_aggregate \<Rightarrow> json" where
  "loop_output_json g = JObj
     [(''actions'', JArr (map (\<lambda>a. JObj [(''action_id'', JStr (ae_action_id a)), (''execution'', JStr (ae_execution a)),
          (''safety_level'', JStr (ae_safety_level a)), (''verification'', jopt JStr (ae_verification a))]) (ag_actions g))),
      (''loop_id'', JStr (ag_loop_id g)), (''overall_status'', JStr (ag_overall_status g)),
      (''qg_blockers'', JArr (map JStr (ag_qg_blockers g))), (''run_id'', JStr (ag_run_id g)),
      (''schema_version'', JStr LOOP_OUTPUT_SCHEMA_VERSION)]"

text \<open>The document is written over the old one; a failure only leaves a warning.\<close>

definition write_loop_output :: "bool \<Rightarrow> loop_closeout_aggregate \<Rightarrow> json_file \<Rightarrow> json_file" where
  "write_loop_output written g c = (if written then Holds (loop_output_json g) else c)"

definition aggregate_passes :: "loop_closeout_aggregate \<Rightarrow> bool" where
  "aggregate_passes g \<longleftrightarrow> ag_overall_status g = ''pass''"

definition aggregate_has_partial :: "loop_closeout_aggregate \<Rightarrow> bool" where
  "aggregate_has_partial g \<longleftrightarrow> ag_partial g"

section \<open>Facts\<close>

lemma action_record_roundtrip [simp]: "action_record_of_json (action_record_json r) = Some r"
  by (simp add: action_record_of_json_def action_record_json_def action_record_fields_def de_req_def)

lemma aggregate_fold:
  "foldl (aggregate_step results) (es, f, p) actions =
     (es @ map (\<lambda>a. aggregate_entry a (map_of results (la_action_id a))) actions,
      f \<or> (\<exists>a \<in> set actions. \<exists>w. map_of results (la_action_id a) = Some (RFailed w)),
      p \<or> (\<exists>a \<in> set actions. map_of results (la_action_id a) \<in> {None, Some RInterrupted}))"
proof (induction actions arbitrary: es f p)
  case (Cons a as)
  show ?case unfolding foldl_Cons
    by (simp add: aggregate_step_def Let_def Cons.IH)
      (auto split: option.splits aggregate_action_result.splits)
qed simp

fun passing :: "aggregate_action_result option \<Rightarrow> bool" where
  "passing (Some RSkipped) = True"
| "passing (Some (RCommitted _ _)) = True"
| "passing _ = False"

lemma passing_iff: "passing r \<longleftrightarrow> r \<noteq> None \<and> r \<noteq> Some RInterrupted \<and> (\<forall>w. r \<noteq> Some (RFailed w))"
  by (cases r rule: passing.cases) auto

text \<open>
  The aggregate passes exactly when every action was skipped or committed; it fails when one
  failed, whatever else happened, and is partial when none failed but one was interrupted or
  has no result. Every action has its entry, in order.
\<close>

theorem aggregate_decides:
  "ag_actions (build_aggregate rid lid actions results) =
     map (\<lambda>a. aggregate_entry a (map_of results (la_action_id a))) actions \<and>
   aggregate_passes (build_aggregate rid lid actions results) =
     list_all (\<lambda>a. passing (map_of results (la_action_id a))) actions \<and>
   ag_overall_status (build_aggregate rid lid actions results) =
     (if \<exists>a \<in> set actions. \<exists>w. map_of results (la_action_id a) = Some (RFailed w) then ''fail''
      else if \<exists>a \<in> set actions. map_of results (la_action_id a) \<in> {None, Some RInterrupted} then ''partial'' else ''pass'') \<and>
   aggregate_has_partial (build_aggregate rid lid actions results) =
     (\<exists>a \<in> set actions. map_of results (la_action_id a) \<in> {None, Some RInterrupted})"
  by (auto simp: build_aggregate_def aggregate_fold aggregate_passes_def aggregate_has_partial_def list_all_iff passing_iff)

lemma delegate_allowed:
  "cl_closeout_allowed (delegate_to_framework_runtime v) \<longleftrightarrow>
     raw_shape_violations v None = [] \<and> (\<exists>r. closeout_record_of_json v = Some r \<and> acceptable r)"
  by (simp add: delegate_to_framework_runtime_def evaluate_closeout_record_value_def allowed_iff Let_def evidenced_def)

text \<open>
  With the index of evidence a closeout is accepted exactly when the rules accept it and
  the index has a successful row, whatever status it claims. The weaker check looks at the
  index only for a status spelled exactly ''passed'': a record that says ''Passed'', which the
  rules read as passed, is accepted without any command and any evidence.
\<close>

theorem closeout_needs_evidence:
  "cl_closeout_allowed (verify_closeout_with_evidence v c) =
     (verify_evidence_index c \<and> raw_shape_violations v None = [] \<and>
      (\<exists>r. closeout_record_of_json v = Some r \<and> acceptable r)) \<and>
   (jget_with as_str v ''verification_status'' \<noteq> Some ''passed'' \<longrightarrow>
      verify_closeout_value v (Some c) = delegate_to_framework_runtime v) \<and>
   cl_closeout_allowed (verify_closeout_value (JObj
     [(''risks'', JArr [JStr ''none known'']), (''schema_version'', JStr ''closeout-record-v1''),
      (''summary'', JStr ''tidy''), (''task_id'', JStr ''t''), (''verification_status'', JStr ''Passed'')]) (Some Missing))"
proof -
  have "cs_closeout_allowed (evaluate_closeout_record_value (JObj
     [(''risks'', JArr [JStr ''none known'']), (''schema_version'', JStr ''closeout-record-v1''),
      (''summary'', JStr ''tidy''), (''task_id'', JStr ''t''), (''verification_status'', JStr ''Passed'')]))"
    by code_simp
  then show ?thesis
    by (auto simp: verify_closeout_with_evidence_def verify_closeout_value_def Let_def delegate_allowed [symmetric]
        delegate_to_framework_runtime_def split: option.splits)
qed

lemma closeout_needs_evidence_witness:
  "cl_closeout_allowed (verify_closeout_value (JObj
     [(''risks'', JArr [JStr ''none known'']), (''schema_version'', JStr ''closeout-record-v1''),
      (''summary'', JStr ''tidy''), (''task_id'', JStr ''t''), (''verification_status'', JStr ''Passed'')]) (Some Missing)) \<and>
   verify_closeout_value JNull (Some Missing) = delegate_to_framework_runtime JNull"
  using closeout_needs_evidence [of JNull Missing] by simp

end
