(* ===== verification/Loop_Safety.thy ===== *)
theory Loop_Safety
  imports Loop_Types
begin

text \<open>
  Safety levels (\<^verbatim>\<open>core/goal-engine/src/safety.rs\<close>): the match of a path against the patterns
  of the scope rules, the level of a file and of an action. Slicing a text at an index that
  is out of range or inside a character panics in Rust; such a call has the result None.
\<close>

section \<open>Text and paths\<close>

fun split_at_char :: "char \<Rightarrow> string \<Rightarrow> string list" where
  "split_at_char c [] = [[]]"
| "split_at_char c (x # xs) =
     (if x = c then [] # split_at_char c xs
      else case split_at_char c xs of [] \<Rightarrow> [[x]] | s # ss \<Rightarrow> (x # s) # ss)"

definition trim_start_matches :: "string \<Rightarrow> string \<Rightarrow> string" where
  "trim_start_matches p s = strip_all [p] s"

definition trim_end_matches :: "string \<Rightarrow> string \<Rightarrow> string" where
  "trim_end_matches p s = rev (strip_all [rev p] (rev s))"

text \<open>The text from an index on, if it is the start of a character or the end of the text.\<close>

definition slice_from :: "nat \<Rightarrow> string \<Rightarrow> string option" where
  "slice_from n s =
     (if n > length s then None
      else if n < length s \<and> is_continuation (s ! n) then None else Some (drop n s))"

text \<open>The last component of a path, unless that is the parent directory.\<close>

definition path_file_name :: "string \<Rightarrow> string option" where
  "path_file_name s =
     (let segs = filter (\<lambda>x. x \<noteq> [] \<and> x \<noteq> ''.'') (split_at_char CHR ''/'' s) in
      if segs = [] \<or> List.last segs = ''..'' then None else Some (List.last segs))"

section \<open>Patterns\<close>

definition match_after_double_star :: "string \<Rightarrow> string \<Rightarrow> string \<Rightarrow> bool" where
  "match_after_double_star path_str pfx after =
     (let dir = trim_end_matches ''/'' pfx in
      if starts_with after ''*.'' then
        (let ext = tl after; remainder = trim_start_matches ''/'' (drop (length dir) path_str)
         in starts_with path_str dir \<and> ends_with remainder ext \<and>
            (CHR ''/'' \<notin> set remainder \<or> ends_with (List.last (split_at_char CHR ''/'' remainder)) ext))
      else if after = [] then starts_with path_str dir
      else starts_with path_str dir \<and> ends_with path_str after)"

definition match_single_star_ext :: "string \<Rightarrow> string \<Rightarrow> string \<Rightarrow> string \<Rightarrow> bool option" where
  "match_single_star_ext path path_str pfx ext =
     (let file_name = or_default [] (path_file_name path); dir = trim_end_matches ''/'' pfx in
      if dir = [] \<or> dir = ''.'' then Some (ends_with file_name ext)
      else if \<not> starts_with path_str dir \<or> \<not> ends_with file_name ext then Some False
      else if ends_with pfx ''/'' then
        map_option (\<lambda>after_dir. after_dir = file_name) (slice_from (length pfx) path_str)
      else Some True)"

definition path_matches :: "string \<Rightarrow> string \<Rightarrow> bool option" where
  "path_matches path pattern =
     (let path_str = trim_start_matches ''./'' path;
          pfx = takeWhile (\<lambda>c. c \<noteq> CHR ''*'') pattern; rest = dropWhile (\<lambda>c. c \<noteq> CHR ''*'') pattern in
      if rest = [] then
        Some (path_str = pattern \<or> trim_start_matches ''/'' path_str = trim_start_matches ''/'' pattern)
      else if starts_with rest ''**/'' then Some (match_after_double_star path_str pfx (drop 3 rest))
      else if starts_with rest ''*.'' then match_single_star_ext path path_str pfx (tl rest)
      else Some (starts_with path_str (trim_end_matches ''/'' pfx)))"

section \<open>Levels\<close>

definition parse_safety_level :: "string \<Rightarrow> safety_level option" where
  "parse_safety_level raw =
     (if raw = ''L1'' \<or> raw = ''L1-report-only'' then Some L1ReportOnly
      else if raw = ''L2'' \<or> raw = ''L2-assisted-fix'' then Some L2AssistedFix
      else if raw = ''L3'' \<or> raw = ''L3-unattended'' then Some L3Unattended else None)"

definition parse_safety_level_or_warn :: "string \<Rightarrow> safety_level" where
  "parse_safety_level_or_warn raw = or_default L1ReportOnly (parse_safety_level raw)"

fun safety_rank :: "safety_level \<Rightarrow> nat" where
  "safety_rank L1ReportOnly = 1"
| "safety_rank L2AssistedFix = 2"
| "safety_rank L3Unattended = 3"

text \<open>The rules come in the order of their patterns, as the ordered map iterates over them.\<close>

fun assign_safety_for_file :: "string \<Rightarrow> (string \<times> string) list \<Rightarrow> string \<Rightarrow> safety_level option" where
  "assign_safety_for_file path [] dflt = Some (parse_safety_level_or_warn dflt)"
| "assign_safety_for_file path ((pattern, level) # rules) dflt =
     (case path_matches path pattern of
        None \<Rightarrow> None
      | Some True \<Rightarrow> Some (parse_safety_level_or_warn level)
      | Some False \<Rightarrow> assign_safety_for_file path rules dflt)"

fun strictest_of_paths :: "(string \<times> string) list \<Rightarrow> string \<Rightarrow> safety_level \<Rightarrow> string list \<Rightarrow> safety_level option" where
  "strictest_of_paths rules dflt strictest [] = Some strictest"
| "strictest_of_paths rules dflt strictest (p # ps) =
     (case assign_safety_for_file p rules dflt of
        None \<Rightarrow> None
      | Some l \<Rightarrow> strictest_of_paths rules dflt (if safety_rank l < safety_rank strictest then l else strictest) ps)"

definition assign_safety_for_action :: "loop_action \<Rightarrow> loop_registry_entry \<Rightarrow> safety_level option" where
  "assign_safety_for_action a e =
     (let dflt = or_default ''L1'' (le_default_safety e); strictest = parse_safety_level_or_warn dflt in
      if la_scope_paths a = [] then Some strictest
      else case le_scope_based_safety e of
        None \<Rightarrow> Some strictest
      | Some rules \<Rightarrow> strictest_of_paths rules dflt strictest (la_scope_paths a))"

fun least_level :: "safety_level list \<Rightarrow> safety_level option" where
  "least_level [] = None"
| "least_level (l # ls) = (case least_level ls of
     None \<Rightarrow> Some l | Some m \<Rightarrow> Some (if safety_rank m < safety_rank l then m else l))"

definition resolve_conflict :: "safety_level list \<Rightarrow> string \<Rightarrow> safety_level" where
  "resolve_conflict levels strategy =
     (if levels = [] then L1ReportOnly
      else if strategy = ''strictest'' then or_default L1ReportOnly (least_level levels)
      else if strategy = ''report'' then L1ReportOnly
      else or_default L1ReportOnly (least_level levels))"

section \<open>Facts\<close>

lemma strip_all_step: "strip_one ps s = Some s' \<Longrightarrow> strip_all ps s = strip_all ps s'"
  by (subst strip_all.simps) simp

lemma strictest_of_paths_le: "strictest_of_paths rules dflt s ps = Some l \<Longrightarrow> safety_rank l \<le> safety_rank s"
  by (induction rules dflt s ps rule: strictest_of_paths.induct) (fastforce split: option.splits if_splits)+

lemma strictest_of_paths_least:
  "strictest_of_paths rules dflt s ps = Some l \<longleftrightarrow>
     (\<exists>ls. map (\<lambda>p. assign_safety_for_file p rules dflt) ps = map Some ls \<and>
        l = foldl (\<lambda>m k. if safety_rank k < safety_rank m then k else m) s ls)"
proof (induction ps arbitrary: s)
  case (Cons p ps)
  show ?case
  proof (cases "assign_safety_for_file p rules dflt")
    case None
    have "map Some ls \<noteq> None # xs" for ls :: "safety_level list" and xs by (cases ls) auto
    then show ?thesis by (auto simp: None dest: sym)
  next
    case (Some k)
    have "(\<exists>ls. Some k # map (\<lambda>p. assign_safety_for_file p rules dflt) ps = map Some ls \<and> Q ls) \<longleftrightarrow>
        (\<exists>ls. map (\<lambda>p. assign_safety_for_file p rules dflt) ps = map Some ls \<and> Q (k # ls))" for Q
      by (auto simp: Cons_eq_map_conv)
    then show ?thesis by (simp add: Some Cons.IH)
  qed
qed auto

lemma action_level_le:
  assumes "assign_safety_for_action a e = Some l"
  shows "safety_rank l \<le> safety_rank (parse_safety_level_or_warn (or_default ''L1'' (le_default_safety e)))"
  using assms strictest_of_paths_le by (auto simp: assign_safety_for_action_def Let_def split: if_splits option.splits)

text \<open>
  Scope rules only ever restrict an action: its level is the least of the entry's default
  and the levels of its paths, hence never above the default, and without a default, which is
  then L1, every action is reported only, whatever the rules grant.
\<close>

theorem level_at_most_default:
  assumes "assign_safety_for_action a e = Some l"
  shows "safety_rank l \<le> safety_rank (parse_safety_level_or_warn (or_default ''L1'' (le_default_safety e))) \<and>
    (le_default_safety e = None \<longrightarrow> l = L1ReportOnly) \<and>
    (\<forall>rules. la_scope_paths a \<noteq> [] \<and> le_scope_based_safety e = Some rules \<longrightarrow>
       (\<exists>ls. map (\<lambda>p. assign_safety_for_file p rules (or_default ''L1'' (le_default_safety e))) (la_scope_paths a) = map Some ls \<and>
          l = foldl (\<lambda>m k. if safety_rank k < safety_rank m then k else m)
            (parse_safety_level_or_warn (or_default ''L1'' (le_default_safety e))) ls))"
proof -
  have "l = L1ReportOnly" if "le_default_safety e = None"
    using that action_level_le [OF assms]
    by (cases l) (simp_all add: or_default_def parse_safety_level_or_warn_def parse_safety_level_def)
  then show ?thesis using action_level_le [OF assms] assms
    by (auto simp: assign_safety_for_action_def Let_def strictest_of_paths_least)
qed

definition sample_action :: "string list \<Rightarrow> loop_action" where
  "sample_action paths = \<lparr>la_action_id = ''a'', la_type = ''fix'', la_scope_paths = paths, la_safety = ''L2'',
     la_description = None, la_consumed_action_ids = []\<rparr>"

definition sample_entry :: "(string \<times> string) list \<Rightarrow> loop_registry_entry" where
  "sample_entry rules = \<lparr>le_loop_id = ''loop'', le_profile = ''loop-auto'',
     le_trigger = \<lparr>tr_type = ''manual'', tr_schedule = None, tr_timezone = None\<rparr>, le_skill = None,
     le_scope_based_safety = Some rules, le_default_safety = None, le_scope_conflict_resolution = None,
     le_cost_budget = None, le_notification = None, le_research_enabled = False, le_research = None,
     le_verify_quality_gate = None, le_verify_closeout_gate = None, le_static_actions = None,
     le_subagent_protocol = None\<rparr>"

lemma level_at_most_default_witness:
  "assign_safety_for_action (sample_action [''README.md'']) (sample_entry [(''*.md'', ''L3'')]) = Some L1ReportOnly"
proof -
  have "path_matches ''README.md'' ''*.md'' = Some True"
    by (simp add: path_matches_def match_single_star_ext_def Let_def trim_start_matches_def trim_end_matches_def
        strip_all_id strip_all_step starts_with_def ends_with_def path_file_name_def or_default_def)
  then have "\<exists>l. assign_safety_for_action (sample_action [''README.md'']) (sample_entry [(''*.md'', ''L3'')]) = Some l"
    by (simp add: assign_safety_for_action_def sample_action_def sample_entry_def Let_def)
  then show ?thesis using level_at_most_default by (fastforce simp: sample_entry_def)
qed

text \<open>
  A scope path may make the match panic: where the file's name follows the directory's
  without a slash, the match slices the path at the index after the slash the pattern has,
  which may lie inside a character.
\<close>

theorem pattern_match_panics:
  assumes "CHR ''/'' \<notin> set d" "CHR ''*'' \<notin> set d" "hd d \<noteq> CHR ''.''" "d \<noteq> []" "is_continuation c2"
    "c2 \<noteq> CHR ''/''" "c1 \<noteq> CHR ''/''"
  shows "path_matches (d @ [c1, c2] @ ''.md'') (d @ ''/*.md'') = None"
proof -
  have start: "trim_start_matches ''./'' (d @ [c1, c2] @ ''.md'') = d @ [c1, c2] @ ''.md''"
    using assms(3,4) by (cases d) (simp_all add: trim_start_matches_def strip_all_id)
  have dir: "trim_end_matches ''/'' (d @ ''/'') = d"
  proof -
    have "strip_one [''/''] (rev d) = None" using assms(1,4) by (cases "rev d") (auto simp flip: set_rev [of d])
    then have "strip_all [''/''] (rev (d @ ''/'')) = rev d"
      by (subst strip_all.simps) (simp add: strip_all_id)
    then show ?thesis by (simp add: trim_end_matches_def)
  qed
  have split: "split_at_char CHR ''/'' s = [s]" if "CHR ''/'' \<notin> set s" for s
    using that by (induction s) auto
  have fname: "path_file_name (d @ [c1, c2] @ ''.md'') = Some (d @ [c1, c2] @ ''.md'')"
    using assms by (subst path_file_name_def, subst split) (auto simp: Let_def)
  have "d \<noteq> ''.''" using assms(3) by auto
  have slice: "slice_from (Suc (length d)) (d @ c1 # c2 # ''.md'') = None"
    using assms(5) by (simp add: slice_from_def nth_append)
  have "takeWhile (\<lambda>c. c \<noteq> CHR ''*'') (d @ ''/*.md'') = d @ ''/''" "dropWhile (\<lambda>c. c \<noteq> CHR ''*'') (d @ ''/*.md'') = ''*.md''"
    using assms(2) by (simp_all add: takeWhile_append dropWhile_append)
  then show ?thesis
    using start dir fname slice assms(4) \<open>d \<noteq> ''.''\<close>
    by (simp add: path_matches_def match_single_star_ext_def Let_def starts_with_def ends_with_def or_default_def)
qed

lemma pattern_match_panics_witness:
  "path_matches ''docs'' ''docs/*.md'' = Some False \<and>
   path_matches (''docs'' @ [CHR 0xC3, CHR 0xA9] @ ''.md'') ''docs/*.md'' = None"
  using pattern_match_panics [of "''docs''" "CHR 0xA9" "CHR 0xC3"]
  by (simp add: is_continuation_def path_matches_def match_single_star_ext_def Let_def trim_start_matches_def
      trim_end_matches_def strip_all_id strip_all_step starts_with_def ends_with_def path_file_name_def or_default_def)

text \<open>
  A pattern whose wildcard follows a directory also matches every path that only starts
  with the directory's name.
\<close>

theorem wildcard_matches_siblings:
  assumes "CHR ''*'' \<notin> set d" "d \<noteq> []" "List.last d \<noteq> CHR ''/''" "hd d \<noteq> CHR ''.''"
  shows "path_matches (d @ x) (d @ ''/**'') = Some True \<and> path_matches (d @ x) (d @ ''/**/'') = Some True"
proof -
  have start: "trim_start_matches ''./'' (d @ x) = d @ x"
    using assms(2,4) by (cases d) (simp_all add: trim_start_matches_def strip_all_id)
  have dir: "trim_end_matches ''/'' (d @ ''/'') = d"
  proof -
    have "strip_one [''/''] (rev d) = None" using assms(2,3) by (cases d rule: rev_cases) auto
    then have "strip_all [''/''] (rev (d @ ''/'')) = rev d"
      by (subst strip_all.simps) (simp add: strip_all_id)
    then show ?thesis by (simp add: trim_end_matches_def)
  qed
  have "takeWhile (\<lambda>c. c \<noteq> CHR ''*'') (d @ CHR ''/'' # CHR ''*'' # y) = d @ ''/''"
      "dropWhile (\<lambda>c. c \<noteq> CHR ''*'') (d @ CHR ''/'' # CHR ''*'' # y) = CHR ''*'' # y" for y
    using assms(1) by (simp_all add: takeWhile_append dropWhile_append)
  then show ?thesis
    by (simp add: path_matches_def match_after_double_star_def Let_def start dir starts_with_def)
qed

lemma wildcard_matches_siblings_witness: "path_matches ''src-private/key'' ''src/**'' = Some True"
  using wildcard_matches_siblings [of "''src''" "''-private/key''"] by simp

end
