(* ===== verification/Loop_Drift.thy ===== *)
theory Loop_Drift
  imports Loop_Types
begin

text \<open>
  The check for goal drift (\<^verbatim>\<open>core/goal-engine/src/drift.rs\<close>): the content words of a text, the
  Jaccard distance of two texts and the verdict. Texts are UTF-8; the Unicode property
  \<^verbatim>\<open>is_alphanumeric\<close> of a code point is a parameter.
\<close>

section \<open>Characters\<close>

definition char_width :: "nat \<Rightarrow> nat" where
  "char_width b = (if b < 128 then 1 else if b < 224 then 2 else if b < 240 then 3 else 4)"

text \<open>The value of a character from its first byte and the bytes that follow it.\<close>

definition char_value :: "nat \<Rightarrow> string \<Rightarrow> nat" where
  "char_value b cs =
     (let v = foldl (\<lambda>v c. v * 64 + (of_char c - 128)) in
      if b < 128 then b else if b < 224 then v (b - 192) (take 1 cs)
      else if b < 240 then v (b - 224) (take 2 cs) else v (b - 240) (take 3 cs))"

function chars :: "string \<Rightarrow> nat list" where
  "chars [] = []"
| "chars (c # cs) = char_value (of_char c) cs # chars (drop (char_width (of_char c) - 1) cs)"
  by pat_completeness auto
termination
  by (relation "measure length") auto

definition encode_char :: "nat \<Rightarrow> string" where
  "encode_char n =
     (if n < 128 then [char_of n]
      else if n < 2048 then [char_of (192 + n div 64), char_of (128 + n mod 64)]
      else if n < 65536 then [char_of (224 + n div 4096), char_of (128 + n div 64 mod 64), char_of (128 + n mod 64)]
      else [char_of (240 + n div 262144), char_of (128 + n div 4096 mod 64), char_of (128 + n div 64 mod 64),
            char_of (128 + n mod 64)])"

definition lower_ascii :: "nat \<Rightarrow> nat" where
  "lower_ascii n = (if 65 \<le> n \<and> n \<le> 90 then n + 32 else n)"

definition is_cjk :: "nat \<Rightarrow> bool" where
  "is_cjk n \<longleftrightarrow> (0x4E00 \<le> n \<and> n \<le> 0x9FFF) \<or> (0x3400 \<le> n \<and> n \<le> 0x4DBF) \<or> (0xF900 \<le> n \<and> n \<le> 0xFAFF)"

section \<open>Words\<close>

definition STOPWORDS :: "string list" where
  "STOPWORDS =
     [''the'', ''a'', ''an'', ''is'', ''are'', ''was'', ''were'', ''be'', ''been'', ''being'', ''have'',
      ''has'', ''had'', ''do'', ''does'', ''did'', ''will'', ''would'', ''could'', ''should'', ''may'',
      ''might'', ''shall'', ''can'', ''need'', ''dare'', ''ought'', ''used'', ''to'', ''of'', ''in'', ''for'',
      ''on'', ''with'', ''at'', ''by'', ''from'', ''as'', ''into'', ''through'', ''during'', ''before'',
      ''after'', ''above'', ''below'', ''between'', ''out'', ''off'', ''over'', ''under'', ''again'',
      ''further'', ''then'', ''once'', ''and'', ''but'', ''or'', ''nor'', ''not'', ''so'', ''yet'', ''both'',
      ''this'', ''that'', ''these'', ''those'', ''it'', ''its'', ''we'', ''our'', ''they'', ''their'',
      [CHR 0xE7, CHR 0x9A, CHR 0x84], [CHR 0xE4, CHR 0xBA, CHR 0x86], [CHR 0xE5, CHR 0x9C, CHR 0xA8],
      [CHR 0xE6, CHR 0x98, CHR 0xAF], [CHR 0xE6, CHR 0x88, CHR 0x91], [CHR 0xE6, CHR 0x9C, CHR 0x89],
      [CHR 0xE5, CHR 0x92, CHR 0x8C], [CHR 0xE5, CHR 0xB0, CHR 0xB1], [CHR 0xE4, CHR 0xB8, CHR 0x8D],
      [CHR 0xE4, CHR 0xBA, CHR 0xBA], [CHR 0xE9, CHR 0x83, CHR 0xBD], [CHR 0xE4, CHR 0xB8, CHR 0x80],
      [CHR 0xE4, CHR 0xB8, CHR 0x80, CHR 0xE4, CHR 0xB8, CHR 0xAA], [CHR 0xE4, CHR 0xB8, CHR 0x8A],
      [CHR 0xE4, CHR 0xB9, CHR 0x9F], [CHR 0xE5, CHR 0xBE, CHR 0x88], [CHR 0xE5, CHR 0x88, CHR 0xB0],
      [CHR 0xE8, CHR 0xAF, CHR 0xB4], [CHR 0xE8, CHR 0xA6, CHR 0x81], [CHR 0xE5, CHR 0x8E, CHR 0xBB],
      [CHR 0xE4, CHR 0xBD, CHR 0xA0], [CHR 0xE4, CHR 0xBC, CHR 0x9A], [CHR 0xE7, CHR 0x9D, CHR 0x80],
      [CHR 0xE6, CHR 0xB2, CHR 0xA1, CHR 0xE6, CHR 0x9C, CHR 0x89], [CHR 0xE7, CHR 0x9C, CHR 0x8B],
      [CHR 0xE5, CHR 0xA5, CHR 0xBD], [CHR 0xE8, CHR 0x87, CHR 0xAA, CHR 0xE5, CHR 0xB7, CHR 0xB1],
      [CHR 0xE8, CHR 0xBF, CHR 0x99]]"

fun split_where :: "('a \<Rightarrow> bool) \<Rightarrow> 'a list \<Rightarrow> 'a list list" where
  "split_where p [] = [[]]"
| "split_where p (x # xs) =
     (if p x then [] # split_where p xs
      else case split_where p xs of [] \<Rightarrow> [[x]] | s # ss \<Rightarrow> (x # s) # ss)"

definition word_tokens :: "(nat \<Rightarrow> bool) \<Rightarrow> string \<Rightarrow> string list" where
  "word_tokens alnum text =
     filter (\<lambda>w. 3 \<le> length w \<and> w \<notin> set STOPWORDS)
       (map (\<lambda>t. concat (map (encode_char \<circ> lower_ascii) t))
         (split_where (\<lambda>c. \<not> alnum c \<and> c \<noteq> 95 \<and> c \<noteq> 45) (chars text)))"

fun bigrams :: "nat list \<Rightarrow> string list" where
  "bigrams (a # b # cs) =
     (if is_cjk a \<and> is_cjk b \<and> encode_char a @ encode_char b \<notin> set STOPWORDS
      then [encode_char a @ encode_char b] else []) @ bigrams (b # cs)"
| "bigrams _ = []"

text \<open>The set of words, as a list without repetition.\<close>

definition extract_words :: "(nat \<Rightarrow> bool) \<Rightarrow> string \<Rightarrow> string list" where
  "extract_words alnum text = remdups (word_tokens alnum text @ bigrams (chars text))"

section \<open>Drift\<close>

definition jaccard_drift :: "(nat \<Rightarrow> bool) \<Rightarrow> string \<Rightarrow> string \<Rightarrow> f64" where
  "jaccard_drift alnum a b =
     (let wa = extract_words alnum a; wb = extract_words alnum b in
      if wa = [] \<and> wb = [] then Fin 0
      else if wa = [] \<or> wb = [] then Fin 1
      else
        (let inter = length (filter (\<lambda>w. w \<in> set wb) wa); total = length wa + length wb - inter in
         if total = 0 then Fin 0
         else f64_sub (Fin 1) (f64_div_pos (f64_of_int (int inter)) (of_nat total))))"

text \<open>The thresholds 0.3 and 0.6, as the doubles nearest to them.\<close>

definition DRIFT_DETECTION_THRESHOLD :: f64 where
  "DRIFT_DETECTION_THRESHOLD = round_f64 (3 / 10)"

definition SCOPE_EXPANSION_THRESHOLD :: f64 where
  "SCOPE_EXPANSION_THRESHOLD = round_f64 (6 / 10)"

definition perform_drift_check ::
  "(nat \<Rightarrow> bool) \<Rightarrow> string \<Rightarrow> anti_drift_state \<Rightarrow> string \<Rightarrow> drift_check_result" where
  "perform_drift_check alnum now ad current =
     (let original = or_default [] (ad_original_goal_snapshot ad);
          score = jaccard_drift alnum original current;
          detected = f64_less DRIFT_DETECTION_THRESHOLD score
      in \<lparr>dc_checked_at = now, dc_review_cycle = ad_review_cycle_count ad, dc_drift_detected = detected,
          dc_drift_score = score,
          dc_drift_type = (if \<not> detected then ''none''
            else if f64_less SCOPE_EXPANSION_THRESHOLD score then ''scope_expansion'' else ''evidence_shift''),
          dc_original_len = length original, dc_current_len = length current\<rparr>)"

definition should_check_drift :: "anti_drift_state \<Rightarrow> bool" where
  "should_check_drift ad \<longleftrightarrow> 0 < ad_check_interval ad \<and> 0 < ad_review_cycle_count ad \<and>
     ad_review_cycle_count ad mod ad_check_interval ad = 0"

section \<open>Facts\<close>

lemma threshold_values:
  "DRIFT_DETECTION_THRESHOLD = Fin (5404319552844595 / 18014398509481984)"
  "SCOPE_EXPANSION_THRESHOLD = Fin (5404319552844595 / 9007199254740992)"
proof -
  have q: "quotient_of (3 / 10) = (3, 10)" "quotient_of (6 / 10) = (3, 5)" by code_simp+
  have f: "floorlog 2 3 = 2" "floorlog 2 10 = 4" "floorlog 2 5 = 3"
    by (simp_all add: compute_floorlog)
  have "lead_exp (3 / 10) = - 2" "lead_exp (6 / 10) = - 1"
    unfolding lead_exp_def q by (simp_all add: f pow2_def Let_def)
  moreover have "\<lfloor>27021597764222976 / 5 :: rat\<rfloor> = 5404319552844595" by (simp add: floor_eq_iff)
  ultimately show "DRIFT_DETECTION_THRESHOLD = Fin (5404319552844595 / 18014398509481984)"
      "SCOPE_EXPANSION_THRESHOLD = Fin (5404319552844595 / 9007199254740992)"
    by (simp_all add: DRIFT_DETECTION_THRESHOLD_def SCOPE_EXPANSION_THRESHOLD_def round_f64_def Let_def pow2_def round_half_even_def)
qed

lemma common_words:
  assumes "distinct xs" "distinct ys"
  shows "length (filter (\<lambda>w. w \<in> set ys) xs) = card (set xs \<inter> set ys)"
  using assms(1) by (simp add: distinct_length_filter Int_commute)

lemma extract_words_distinct [simp]: "distinct (extract_words alnum t)"
  by (simp add: extract_words_def)

lemma jaccard_sym: "jaccard_drift alnum a b = jaccard_drift alnum b a"
  by (simp add: jaccard_drift_def Let_def common_words Int_commute add.commute)

lemma jaccard_same_words:
  assumes "set (extract_words alnum a) = set (extract_words alnum b)" "length (extract_words alnum a) \<le> 2 ^ 53"
  shows "jaccard_drift alnum a b = Fin 0"
proof (cases "extract_words alnum a = []")
  case True
  then show ?thesis using assms(1) by (simp add: jaccard_drift_def)
next
  case False
  let ?n = "length (extract_words alnum a)"
  have "length (extract_words alnum b) = ?n"
    using assms(1) distinct_card [OF extract_words_distinct] by metis
  moreover have "extract_words alnum b \<noteq> []" using assms(1) False by auto
  ultimately have n: "length (extract_words alnum b) = ?n" "extract_words alnum b \<noteq> []" .
  have c: "card (set (extract_words alnum a) \<inter> set (extract_words alnum b)) = ?n"
    using assms(1) n(1) by (simp add: distinct_card)
  have "f64_of_int (int ?n) = Fin (of_nat ?n)" using assms(2) f64_of_int_exact [of "int ?n"] by simp
  moreover have "round_f64 1 = Fin 1" "round_f64 0 = Fin 0" using round_f64_nat [of 1] by (simp_all add: round_f64_def)
  ultimately show ?thesis using False n c
    by (simp add: jaccard_drift_def Let_def common_words f64_sub_def)
qed

lemma jaccard_disjoint:
  assumes "set (extract_words alnum a) \<inter> set (extract_words alnum b) = {}"
    "extract_words alnum a \<noteq> [] \<or> extract_words alnum b \<noteq> []"
  shows "jaccard_drift alnum a b = Fin 1"
proof -
  have "round_f64 1 = Fin 1" "round_f64 0 = Fin 0" using round_f64_nat [of 1] by (simp_all add: round_f64_def)
  then show ?thesis using assms
    by (auto simp: jaccard_drift_def Let_def common_words f64_sub_def f64_of_int_def)
qed

text \<open>
  A goal whose content words are those of its snapshot has not drifted; one that shares no
  word with it, where either has a word, has drifted as far as possible.
\<close>

theorem drift_verdict:
  assumes "original = or_default [] (ad_original_goal_snapshot ad)"
  shows "(set (extract_words alnum original) = set (extract_words alnum current) \<and> length (extract_words alnum original) \<le> 2 ^ 53 \<longrightarrow>
      dc_drift_score (perform_drift_check alnum now ad current) = Fin 0 \<and>
      dc_drift_type (perform_drift_check alnum now ad current) = ''none'') \<and>
    (set (extract_words alnum original) \<inter> set (extract_words alnum current) = {} \<and>
       (extract_words alnum original \<noteq> [] \<or> extract_words alnum current \<noteq> []) \<longrightarrow>
      dc_drift_score (perform_drift_check alnum now ad current) = Fin 1 \<and>
      dc_drift_type (perform_drift_check alnum now ad current) = ''scope_expansion'')"
  using assms
  by (auto simp: perform_drift_check_def Let_def threshold_values jaccard_same_words jaccard_disjoint)

lemma drift_verdict_witness:
  "dc_drift_type (perform_drift_check (\<lambda>c. 97 \<le> c \<and> c \<le> 122) ''now'' (anti_drift_default\<lparr>ad_original_goal_snapshot := Some ''fix''\<rparr>)
     ''fix fix'') = ''none''"
proof -
  have "chars ''fix'' = [102, 105, 120]" "chars ''fix fix'' = [102, 105, 120, 32, 102, 105, 120]"
    by (simp_all add: char_value_def char_width_def)
  then have "extract_words (\<lambda>c. 97 \<le> c \<and> c \<le> 122) ''fix'' = [''fix'']"
      "extract_words (\<lambda>c. 97 \<le> c \<and> c \<le> 122) ''fix fix'' = [''fix'']"
    by (simp_all add: extract_words_def word_tokens_def STOPWORDS_def encode_char_def lower_ascii_def is_cjk_def char_of_def bit_0)
  then show ?thesis
    using drift_verdict [of "''fix''" "anti_drift_default\<lparr>ad_original_goal_snapshot := Some ''fix''\<rparr>"
        "\<lambda>c. 97 \<le> c \<and> c \<le> 122" "''fix fix''" "''now''"]
    by (simp add: or_default_def)
qed

end
