(* ===== verification/Loop_World.thy ===== *)
theory Loop_World
  imports Loop_Closeout Loop_Safety Loop_Drift
begin

text \<open>
  What a loop run works on: the files of the loop and of its tasks, the subprocess it waits
  for and the clocks, as one record (the paths of \<^verbatim>\<open>core/goal-engine/src/state.rs\<close> and
  \<^verbatim>\<open>dispatcher.rs\<close>), with the operations on the run state file and the clean-up. The files of
  one loop are kept by the last part of their names; what others do to them, and the passing of
  time, are turns taken between two looks at the world.
\<close>

section \<open>The world\<close>

text \<open>A file that holds a value of the program, is missing, cannot be read or does not parse.\<close>

datatype 'a stored = Absent | Unread | Unparsed | Stored 'a

record child_output =
  out_success :: bool
  out_stdout :: string
  out_stderr :: string

text \<open>
  A subprocess is active (and can be killed, or not), has ended with its output and its pipes closed,
  so that the output is collected without a further wait, cannot be waited for, has ended with output that
  cannot be collected, or has been killed.
\<close>

datatype child = Active bool | Gone child_output | WaitFails | CollectFails | Reaped

record consumed_input_ref =
  ci_action_id :: string
  ci_path :: string

record subagent_input =
  si_schema_version :: string
  si_loop_id :: string
  si_run_id :: string
  si_action :: loop_action
  si_repo_root :: string
  si_closeout_dir :: string
  si_evidence_dir :: string
  si_kill_signal_path :: string
  si_output_path :: string
  si_consumed_inputs :: "consumed_input_ref list"

text \<open>
  In this order: signal, pause state and lock; the run state file; \<^verbatim>\<open>LOOP_OUTPUT.json\<close>; the
  closeout files, the structured inputs and those structured outputs that parse, by run and
  action; the outputs handed on, by action; the reports, by run; the indexes of evidence and
  the goal states, by task; the reports of the barrier research, by directory, each with its age in
  milliseconds if it has one; what \<^verbatim>\<open>git diff\<close> prints and its cache; the subprocess; whether one
  can be spawned; a monotonic clock in milliseconds and the wall clock; whether writing and
  removing files succeed, and how creating the lock file ends.
\<close>

record loop_world =
  w_signals :: loop_signals
  w_state :: "loop_run_state stored"
  w_output :: json_file
  w_closeouts :: "(string, json_file) hmap"
  w_inputs :: "(string, subagent_input) hmap"
  w_results :: "(string, subagent_output) hmap"
  w_handed :: "(string, json) hmap"
  w_reports :: "(string, string) hmap"
  w_evidence :: "(string, json_file) hmap"
  w_goals :: "(string, json_file) hmap"

  w_barrier :: "(string \<times> (nat option \<times> json_file) option) list"
  w_diff :: "string option"
  w_diff_cache :: "(nat \<times> string list) option"
  w_child :: child
  w_spawns :: bool
  w_ms :: nat
  w_clock :: "u64 \<times> string"
  w_disk :: bool
  w_removable :: bool
  w_creation :: lock_creation

type_synonym turns = "(loop_world \<Rightarrow> loop_world) list"

text \<open>A computation dies when the process does: when the turns are used up, or by a panic.\<close>

datatype 'a outcome = Died | Ended 'a

text \<open>
  What the process is started with: the repository, the binary of the subagents and the
  protocol the environment asks for, the limit of tokens, the runtime registry, the quality
  gate if one is registered, and the process id; then the parameters: parsing of JSON and of
  times, the stamp of a run, dates, alphanumeric code points, UTF-8 repair, the wording of reasons, of
  errors and of scores, upper case, and what \<^verbatim>\<open>git checkout\<close> does.
\<close>

record loop_env =
  e_repo :: string
  e_binary :: "string option"
  e_v1 :: bool
  e_token_limit :: u64
  e_registry :: "json option"
  e_gate :: "(json \<Rightarrow> unit + json) option"
  e_pid :: nat
  e_parse :: "string \<Rightarrow> json option"
  e_parse_time :: "string \<Rightarrow> u64 option"
  e_run_stamp :: "u64 \<times> string \<Rightarrow> nat \<Rightarrow> string"
  e_date :: "string \<Rightarrow> bool"
  e_alnum :: "nat \<Rightarrow> bool"
  e_lossy :: "string \<Rightarrow> string"
  e_reason :: "(string \<times> violation_detail) list \<Rightarrow> string list \<Rightarrow> string"
  e_error_text :: "loop_error \<Rightarrow> string"
  e_score :: "f64 \<Rightarrow> string"
  e_upper :: "string \<Rightarrow> string"
  e_checkout :: "string \<Rightarrow> loop_world \<Rightarrow> loop_world"

section \<open>Files\<close>

definition now_iso :: "loop_world \<Rightarrow> string" where
  "now_iso w = snd (w_clock w)"

definition action_key :: "string \<Rightarrow> string \<Rightarrow> string" where
  "action_key rid aid = rid @ ''-'' @ aid"

definition read_loop_state :: "loop_world \<Rightarrow> loop_error + loop_run_state option" where
  "read_loop_state w = 
     (case w_state w of
        Absent \<Rightarrow> Inr None | Unread \<Rightarrow> Inl io_error | Unparsed \<Rightarrow> Inl serde_error | Stored s \<Rightarrow> Inr (Some s))"

text \<open>A failed write of the run state is only logged, so it just leaves the file.\<close>

definition write_loop_state :: "loop_run_state \<Rightarrow> loop_world \<Rightarrow> loop_world" where
  "write_loop_state s w = (if w_disk w then w\<lparr>w_state := Stored s\<rparr> else w)"

text \<open>
  The clean-up removes the directory of the loop, the run state file in it, and the signal and
  pause files. If it cannot remove, everything stays.
\<close>

definition cleanup_loop_artifacts :: "loop_world \<Rightarrow> loop_world" where
  "cleanup_loop_artifacts w =
     (if w_removable w then
        w\<lparr>w_state := Absent, w_output := Missing, w_closeouts := [], w_inputs := [], w_results := [], w_handed := [],
          w_reports := [], w_signals := (w_signals w)\<lparr>sf_signal := Missing, sf_pause := None\<rparr>\<rparr>
      else w)"

definition generate_run_id :: "loop_env \<Rightarrow> string \<Rightarrow> loop_world \<Rightarrow> string" where
  "generate_run_id env lid w = ''run-'' @ e_run_stamp env (w_clock w) (w_ms w) @ ''-'' @ lid"

definition loop_dir :: "loop_env \<Rightarrow> string \<Rightarrow> string" where
  "loop_dir env lid = path_join (path_join (path_join (e_repo env) ''artifacts'') ''loop'') lid"

definition closeout_path :: "loop_env \<Rightarrow> string \<Rightarrow> string \<Rightarrow> string \<Rightarrow> string" where
  "closeout_path env lid rid aid = path_join (path_join (loop_dir env lid) ''closeout'') (action_key rid aid @ ''.json'')"

definition kill_signal_path :: "loop_env \<Rightarrow> string \<Rightarrow> string" where
  "kill_signal_path env lid = path_join (path_join (e_repo env) ''.loop-kill'') lid"

section \<open>The goal of a task\<close>

text \<open>
  The goal state of a task, if the id can name one. Reading it in the other way, with its
  staleness marked, adds members that are not looked at here.
\<close>

definition read_goal_state_raw :: "string \<Rightarrow> loop_world \<Rightarrow> (unit + json option)" where
  "read_goal_state_raw tid w =
     (case safe_task_id_component tid of
        None \<Rightarrow> Inl ()
      | Some t \<Rightarrow> (case file_at (w_goals w) t of
          Missing \<Rightarrow> Inr None | Holds v \<Rightarrow> Inr (Some v) | _ \<Rightarrow> Inl ()))"

record goal_snapshot =
  gs_text :: string
  gs_amended_at :: "string option"

definition read_goal_snapshot :: "string \<Rightarrow> loop_world \<Rightarrow> goal_snapshot option" where
  "read_goal_snapshot lid w =
     (case read_goal_state_raw lid w of
        Inr (Some v) \<Rightarrow> map_option (\<lambda>t. \<lparr>gs_text = t, gs_amended_at = jget_with as_str v ''amended_at''\<rparr>)
          (jget_with as_str v ''goal'')
      | _ \<Rightarrow> None)"

end
