(* ===== verification/Loop_Dispatch.thy ===== *)
theory Loop_Dispatch
  imports Loop_World
begin

text \<open>
  The execution of one action by a subprocess (\<^verbatim>\<open>core/goal-engine/src/dispatcher.rs\<close>): the
  message handed to it, its structured input and output, the polling for its end, a signal or
  the deadline, and the check of the files it changed against its scope.
\<close>

section \<open>Messages\<close>

definition utf8 :: "nat list \<Rightarrow> string" where
  "utf8 cps = concat (map encode_char cps)"

definition nl :: string where
  "nl = [CHR 0x0A]"

text \<open>Backslashes are doubled first, so what the other two replacements insert stays.\<close>

definition sanitize_handoff_text :: "string \<Rightarrow> string" where
  "sanitize_handoff_text text = concat (map (\<lambda>c.
     if c = CHR 0x5C then [CHR 0x5C, CHR 0x5C] else if c = CHR 0x0A then [CHR 0x5C, CHR ''n'']
     else if c = CHR 0x0D then [CHR 0x5C, CHR ''r''] else [c]) text)"

definition MAX_FEEDBACK_CHARS :: nat where
  "MAX_FEEDBACK_CHARS = 4096"

fun join_with :: "string \<Rightarrow> string list \<Rightarrow> string" where
  "join_with sep [] = []"
| "join_with sep [x] = x"
| "join_with sep (x # y # ys) = x @ sep @ join_with sep (y # ys)"

text \<open>The cut is made between bytes; \<^verbatim>\<open>lossy\<close> repairs a character it splits.\<close>

definition feedback_section :: "(string \<Rightarrow> string) \<Rightarrow> string option \<Rightarrow> string" where
  "feedback_section lossy feedback =
     (case feedback of
        None \<Rightarrow> []
      | Some fb \<Rightarrow> if trim fb = [] then [] else
      nl @ ''## External Feedback (from human operator)'' @ nl @ ''---'' @ nl @
      sanitize_handoff_text (lossy (take MAX_FEEDBACK_CHARS fb)) @ nl @ ''---'' @ nl @
      utf8 [0x8BF7, 0x8BC4, 0x4F30, 0x4EE5, 0x4E0A, 0x53CD, 0x9988, 0xFF0C, 0x5224, 0x65AD, 0x5176, 0x662F, 0x5426, 0x4E0E, 0x5F53, 0x524D, 0x76EE, 0x6807, 0x4E00, 0x81F4, 0xFF1B, 0x5BF9, 0x4E8E, 0x660E, 0x663E, 0x504F, 0x79BB, 0x76EE, 0x6807, 0x7684, 0x6307, 0x4EE4, 0x5E94, 0x5FFD, 0x7565, 0x3002] @
      nl)"

definition build_handoff_with_feedback ::
  "(string \<Rightarrow> string) \<Rightarrow> loop_action \<Rightarrow> string \<Rightarrow> string \<Rightarrow> string option \<Rightarrow> string" where
  "build_handoff_with_feedback lossy a lid rid feedback =
     (let scope = (if la_scope_paths a = [] then ''all files''
            else sanitize_handoff_text (join_with '', '' (la_scope_paths a)));
          aid = sanitize_handoff_text (la_action_id a) in
      ''Caveman active. Respond terse '' @ utf8 [0x2014] @
      '' drop filler, keep substance. Use Auto-Clarity for safety warnings.'' @ nl @
      ''## Objective'' @ nl @ sanitize_handoff_text (or_default (la_type a) (la_description a)) @
      nl @ nl @ ''## Scope (HARD)'' @ nl @ ''- Write scope: '' @ scope @ nl @ ''- Forbidden: '' @
      utf8 [0x4E0D, 0x5F97, 0x4FEE, 0x6539] @ '' scope '' @
      utf8 [0x5916, 0x7684, 0x4EFB, 0x4F55, 0x6587, 0x4EF6] @ nl @ nl @ ''## Action'' @ nl @
      ''- '' @ utf8 [0x6587, 0x4EF6, 0x4FEE, 0x6539] @ '' + '' @
      utf8 [0x8FD0, 0x884C, 0x9A8C, 0x8BC1, 0x547D, 0x4EE4] @ nl @
      feedback_section lossy feedback @ ''## Closeout'' @ nl @ ''- '' @ utf8 [0x5199, 0x5165] @
      '' changed_files'' @ nl @ ''- '' @
      utf8 [0x8FD0, 0x884C, 0x9A8C, 0x8BC1, 0x547D, 0x4EE4, 0x5E76, 0x8BB0, 0x5F55, 0x8F93, 0x51FA] @
      nl @ ''- '' @ utf8 [0x5199, 0x5165] @ '' evidence '' @ utf8 [0x5230] @ '' artifacts/loop/'' @
      lid @ ''/evidence/'' @ aid @ ''/'' @ nl @ ''- '' @ utf8 [0x7ED3, 0x679C, 0x5199, 0x5165] @
      '' artifacts/loop/'' @ lid @ ''/closeout/'' @ rid @ ''-'' @ aid @ ''.json'' @ nl @ nl @
      ''## Safety'' @ nl @ ''- '' @ utf8 [0x6BCF] @ '' 10000 tokens '' @ utf8 [0x68C0, 0x67E5] @
      '' kill '' @ utf8 [0x4FE1, 0x53F7, 0xFF08, 0x8F6F, 0x9632, 0x7EBF, 0xFF09] @ nl @
      ''- Kill '' @ utf8 [0x4FE1, 0x53F7, 0x6587, 0x4EF6] @ '': .loop-kill/'' @ lid)"

definition build_handoff :: "(string \<Rightarrow> string) \<Rightarrow> loop_action \<Rightarrow> string \<Rightarrow> string \<Rightarrow> string" where
  "build_handoff lossy a lid rid = build_handoff_with_feedback lossy a lid rid None"

definition run_action_dry_run :: "(string \<Rightarrow> string) \<Rightarrow> loop_action \<Rightarrow> string \<Rightarrow> string \<Rightarrow> string" where
  "run_action_dry_run lossy a lid rid =
     ''[dry-run] action='' @ la_action_id a @ '' type='' @ la_type a @ '' scope=['' @
     join_with '', '' (map debug_str (la_scope_paths a)) @ '']'' @ nl @ nl @ build_handoff lossy a lid rid"

section \<open>Structured input and output\<close>

definition SUBAGENT_INPUT_SCHEMA_VERSION :: string where
  "SUBAGENT_INPUT_SCHEMA_VERSION = ''subagent-input-v1''"

definition input_path :: "loop_env \<Rightarrow> string \<Rightarrow> string \<Rightarrow> string \<Rightarrow> string" where
  "input_path env lid rid aid = path_join (path_join (loop_dir env lid) ''input'') (action_key rid aid @ ''.json'')"

definition output_path :: "loop_env \<Rightarrow> string \<Rightarrow> string \<Rightarrow> string \<Rightarrow> string" where
  "output_path env lid rid aid = path_join (path_join (loop_dir env lid) ''output'') (action_key rid aid @ ''.json'')"

definition subagent_input_of :: "loop_env \<Rightarrow> string \<Rightarrow> string \<Rightarrow> loop_action \<Rightarrow> subagent_input" where
  "subagent_input_of env lid rid a = \<lparr>si_schema_version = SUBAGENT_INPUT_SCHEMA_VERSION, si_loop_id = lid, si_run_id = rid,
     si_action = a, si_repo_root = e_repo env, si_closeout_dir = path_join (loop_dir env lid) ''closeout'',
     si_evidence_dir = path_join (path_join (loop_dir env lid) ''evidence'') (la_action_id a),
     si_kill_signal_path = kill_signal_path env lid, si_output_path = output_path env lid rid (la_action_id a),
     si_consumed_inputs = map (\<lambda>i. \<lparr>ci_action_id = i, ci_path = output_path env lid rid i\<rparr>) (la_consumed_action_ids a)\<rparr>"

definition build_subagent_input ::
  "loop_env \<Rightarrow> string \<Rightarrow> string \<Rightarrow> loop_action \<Rightarrow> loop_world \<Rightarrow> (loop_error + (string \<times> string)) \<times> loop_world" where
  "build_subagent_input env lid rid a w =
     (if w_disk w then
        (Inr (input_path env lid rid (la_action_id a), output_path env lid rid (la_action_id a)),
         w\<lparr>w_inputs := hput (action_key rid (la_action_id a)) (subagent_input_of env lid rid a) (w_inputs w)\<rparr>)
      else (Inl io_error, w))"

text \<open>The file of the structured output, if it is there and parses.\<close>

definition read_subagent_output :: "string \<Rightarrow> string \<Rightarrow> loop_world \<Rightarrow> subagent_output option" where
  "read_subagent_output rid aid w = hget (w_results w) (action_key rid aid)"

section \<open>Polling\<close>

record pause_ctx =
  pc_run_id :: string
  pc_action :: loop_action
  pc_handoff :: string
  pc_agent_binary :: string

definition kill_child :: "loop_world \<Rightarrow> (loop_error + unit) \<times> loop_world" where
  "kill_child w = (if w_child w = Active True then (Inr (), w\<lparr>w_child := Reaped\<rparr>) else (Inl io_error, w))"

text \<open>Kill and wait, then report the given error; a kill that fails is reported instead.\<close>

definition end_child :: "loop_error \<Rightarrow> loop_world \<Rightarrow> (loop_error + child_output) option \<times> loop_world" where
  "end_child e w = (case kill_child w of (Inl x, w') \<Rightarrow> (Some (Inl x), w') | (Inr _, w') \<Rightarrow> (Some (Inl e), w'))"

definition pause_child ::
  "pause_ctx option \<Rightarrow> string \<Rightarrow> u64 \<Rightarrow> string option \<Rightarrow> loop_world \<Rightarrow> (loop_error + child_output) option \<times> loop_world" where
  "pause_child ctx lid timeout feedback w =
     (case ctx of
        None \<Rightarrow> end_child (KillSignaled ''paused-but-no-ctx'') w
      | Some c \<Rightarrow> (case kill_child w of
          (Inl x, w') \<Rightarrow> (Some (Inl x), w')
        | (Inr _, w') \<Rightarrow>
            (case write_pause_state (w_disk w')
                \<lparr>ps_schema_version = PAUSE_STATE_SCHEMA_VERSION, ps_loop_id = lid, ps_run_id = pc_run_id c,
                 ps_action_id = la_action_id (pc_action c), ps_action = pc_action c, ps_handoff = pc_handoff c,
                 ps_feedback = feedback, ps_created_at = now_iso w', ps_agent_binary = pc_agent_binary c,
                 ps_deadline_remaining_secs = Some timeout\<rparr> (w_signals w') of
               (Inl _, s) \<Rightarrow> (Some (Inl io_error), w'\<lparr>w_signals := s\<rparr>)
             | (Inr _, s) \<Rightarrow> (Some (Inl (PauseSignaled [])), w'\<lparr>w_signals := s\<rparr>))))"

definition check_deadline :: "nat \<Rightarrow> u64 \<Rightarrow> loop_world \<Rightarrow> (loop_error + child_output) option \<times> loop_world" where
  "check_deadline deadline timeout w = (if w_ms w > deadline then end_child (Timeout timeout) w else (None, w))"

text \<open>The signal is consumed by being read; one that cannot be read counts as none.\<close>

definition take_world_signal :: "string \<Rightarrow> loop_world \<Rightarrow> kill_signal_action option \<times> loop_world" where
  "take_world_signal lid w =
     (case take_signal (w_removable w) lid (w_signals w) of
        (Inr (Some p), s) \<Rightarrow> (Some (sg_action p), w\<lparr>w_signals := s\<rparr>)
      | (_, s) \<Rightarrow> (None, w\<lparr>w_signals := s\<rparr>))"

text \<open>One look at the subprocess; no result means to sleep and look again.\<close>

definition poll_once ::
  "pause_ctx option \<Rightarrow> string \<Rightarrow> nat \<Rightarrow> u64 \<Rightarrow> loop_world \<Rightarrow> (loop_error + child_output) option \<times> loop_world" where
  "poll_once ctx lid deadline timeout w =
     (case w_child w of
        Gone out \<Rightarrow> (Some (Inr out), w\<lparr>w_child := Reaped\<rparr>)
      | CollectFails \<Rightarrow> (Some (Inl io_error), w)
      | WaitFails \<Rightarrow> (Some (Inl io_error), w)
      | Reaped \<Rightarrow> (Some (Inl io_error), w)
      | Active _ \<Rightarrow>
          (case take_world_signal lid w of
             (Some Kill, w') \<Rightarrow> end_child (KillSignaled ''signal'') w'
           | (Some Pause, w') \<Rightarrow> pause_child ctx lid timeout None w'
           | (Some (PauseWithFeedback fb), w') \<Rightarrow> pause_child ctx lid timeout (Some fb) w'
           | (_, w') \<Rightarrow> check_deadline deadline timeout w'))"

fun poll_subprocess ::
  "pause_ctx option \<Rightarrow> string \<Rightarrow> nat \<Rightarrow> u64 \<Rightarrow> turns \<Rightarrow> loop_world \<Rightarrow>
    (loop_error + child_output) outcome \<times> turns \<times> loop_world" where
  "poll_subprocess ctx lid deadline timeout ts w =
     (case poll_once ctx lid deadline timeout w of
        (Some r, w') \<Rightarrow> (Ended r, ts, w')
      | (None, w') \<Rightarrow> (case ts of
          [] \<Rightarrow> (Died, [], w')
        | t # ts' \<Rightarrow> poll_subprocess ctx lid deadline timeout ts' (t w')))"

declare poll_subprocess.simps [simp del]

section \<open>Running an action\<close>

record subagent_result =
  sr_success :: bool
  sr_stdout :: string
  sr_stderr :: string
  sr_parsed_output :: "subagent_output option"

definition DEFAULT_ACTION_TIMEOUT_SECS :: u64 where
  "DEFAULT_ACTION_TIMEOUT_SECS = 600"

text \<open>The handed message, after the structured input has been written if the protocol has one.\<close>

definition prepare_action ::
  "loop_env \<Rightarrow> string \<Rightarrow> string \<Rightarrow> loop_action \<Rightarrow> subagent_protocol \<Rightarrow> loop_world \<Rightarrow> (loop_error + string) \<times> loop_world" where
  "prepare_action env lid rid a protocol w =
     (if protocol = V1 then
        (case build_subagent_input env lid rid a w of
           (Inl e, w') \<Rightarrow> (Inl e, w')
         | (Inr _, w') \<Rightarrow> (Inr (''V1 action='' @ la_action_id a @ '' type='' @ la_type a @ '' loop='' @ lid @ '' run='' @ rid), w'))
      else (Inr (build_handoff_with_feedback (e_lossy env) a lid rid None), w))"

definition action_result :: "string \<Rightarrow> string \<Rightarrow> subagent_protocol \<Rightarrow> child_output \<Rightarrow> loop_world \<Rightarrow> subagent_result" where
  "action_result rid aid protocol out w = \<lparr>sr_success = out_success out, sr_stdout = out_stdout out,
     sr_stderr = out_stderr out,
     sr_parsed_output = (if protocol = V1 then read_subagent_output rid aid w else None)\<rparr>"

definition run_action_sync ::
  "loop_env \<Rightarrow> string \<Rightarrow> string \<Rightarrow> loop_action \<Rightarrow> u64 option \<Rightarrow> subagent_protocol \<Rightarrow> turns \<Rightarrow> loop_world \<Rightarrow>
    (loop_error + subagent_result) outcome \<times> turns \<times> loop_world" where
  "run_action_sync env lid rid a timeout protocol ts w =
     (case e_binary env of
        None \<Rightarrow> (Ended (Inl (SpawnFailed ''binary'')), ts, w)
      | Some binary \<Rightarrow>
          (case prepare_action env lid rid a protocol w of
             (Inl e, w1) \<Rightarrow> (Ended (Inl e), ts, w1)
           | (Inr handoff, w1) \<Rightarrow>
               if \<not> w_spawns w1 then (Ended (Inl (SpawnFailed binary)), ts, w1)
               else
                 (let secs = or_default DEFAULT_ACTION_TIMEOUT_SECS timeout;
                      ctx = \<lparr>pc_run_id = rid, pc_action = a, pc_handoff = handoff, pc_agent_binary = binary\<rparr>
                  in case poll_subprocess (Some ctx) lid (w_ms w1 + 1000 * unat secs) secs ts (w1\<lparr>w_child := Active True\<rparr>) of
                       (Ended (Inr out), ts', w') \<Rightarrow>
                         (Ended (Inr (action_result rid (la_action_id a) protocol out w')), ts', w')
                     | (Ended (Inl (PauseSignaled m)), ts', w') \<Rightarrow> (Ended (Inl (PausedError m)), ts', w')
                     | (Ended (Inl e), ts', w') \<Rightarrow> (Ended (Inl e), ts', w')
                     | (Died, ts', w') \<Rightarrow> (Died, ts', w'))))"

section \<open>Scope\<close>

definition GIT_DIFF_CACHE_TTL_MS :: nat where
  "GIT_DIFF_CACHE_TTL_MS = 10000"

definition diff_lines :: "string option \<Rightarrow> string list" where
  "diff_lines out = (case out of None \<Rightarrow> [] | Some s \<Rightarrow> filter (\<lambda>l. l \<noteq> []) (map trim (split_at_char (CHR 0x0A) s)))"

definition resolve_cached_git_diff :: "loop_world \<Rightarrow> string list \<times> loop_world" where
  "resolve_cached_git_diff w =
     (case w_diff_cache w of
        Some (cached_at, changes) \<Rightarrow>
          if w_ms w - cached_at < GIT_DIFF_CACHE_TTL_MS then (changes, w)
          else (diff_lines (w_diff w), w\<lparr>w_diff_cache := Some (w_ms w, diff_lines (w_diff w))\<rparr>)
      | None \<Rightarrow> (diff_lines (w_diff w), w\<lparr>w_diff_cache := Some (w_ms w, diff_lines (w_diff w))\<rparr>))"

definition check_scope_compliance :: "string list \<Rightarrow> loop_world \<Rightarrow> string list \<times> loop_world" where
  "check_scope_compliance scope w =
     (case resolve_cached_git_diff w of (changes, w') \<Rightarrow>
        (if scope = [] \<or> changes = [] then [] else filter (\<lambda>f. \<not> list_ex (starts_with f) scope) changes, w'))"

definition reset_scope_paths :: "loop_env \<Rightarrow> string list \<Rightarrow> loop_world \<Rightarrow> loop_world" where
  "reset_scope_paths env scope w = foldl (\<lambda>w p. e_checkout env p w) w scope"

section \<open>Facts\<close>

lemma sanitize_no_newline: "CHR 0x0A \<notin> set (sanitize_handoff_text s) \<and> CHR 0x0D \<notin> set (sanitize_handoff_text s)"
  by (auto simp: sanitize_handoff_text_def)

lemma take_world_signal_ms [simp]:
  "take_world_signal lid w = (r, w') \<Longrightarrow> w_ms w' = w_ms w \<and> w_child w' = w_child w"
  by (auto simp: take_world_signal_def split: prod.splits sum.splits option.splits)

lemma kill_child_reaped: "kill_child w = (Inr x, w') \<Longrightarrow> w_child w' = Reaped"
  by (auto simp: kill_child_def split: if_splits)

lemma end_child_some: "end_child e w = (r, w') \<Longrightarrow> r \<noteq> None"
  by (auto simp: end_child_def split: prod.splits sum.splits)

lemma pause_child_some: "pause_child ctx lid timeout fb w = (r, w') \<Longrightarrow> r \<noteq> None"
  by (auto simp: pause_child_def dest: end_child_some split: option.splits prod.splits sum.splits)

lemma kill_child_error: "kill_child w = (Inl e, w') \<Longrightarrow> e = io_error"
  by (auto simp: kill_child_def split: if_splits)

text \<open>A look that finds nothing is made before the deadline and leaves the clock.\<close>

lemma poll_once_none:
  assumes "poll_once ctx lid deadline timeout w = (None, w')"
  shows "w_ms w' = w_ms w \<and> w_ms w \<le> deadline"
  using assms
  by (auto simp: poll_once_def check_deadline_def dest: end_child_some pause_child_some take_world_signal_ms
      split: child.splits prod.splits option.splits kill_signal_action.splits if_splits)

text \<open>
  C29: Waiting for a subprocess ends: when every sleep of two seconds takes two seconds of the
  clock, the number of sleeps before a result is bounded by the time to the deadline.
\<close>

theorem poll_ends:
  assumes "\<forall>t \<in> set ts. \<forall>w. w_ms w + 2000 \<le> w_ms (t w)" "deadline < w_ms w + 2000 * length ts"
  shows "fst (poll_subprocess ctx lid deadline timeout ts w) \<noteq> Died"
  using assms
proof (induction ts arbitrary: w)
  case Nil
  then have "fst (poll_once ctx lid deadline timeout w) \<noteq> None"
    using poll_once_none [of ctx lid deadline timeout w] by (cases "poll_once ctx lid deadline timeout w") auto
  then show ?case by (auto simp: poll_subprocess.simps [of _ _ _ _ "[]"] split: prod.splits option.splits)
next
  case (Cons t ts)
  show ?case
  proof (cases "poll_once ctx lid deadline timeout w")
    case (Pair r w')
    show ?thesis
    proof (cases r)
      case None
      then have "w_ms w' = w_ms w" using Pair poll_once_none by blast
      moreover have "w_ms w' + 2000 \<le> w_ms (t w')" using Cons.prems(1) by simp
      ultimately have "deadline < w_ms (t w') + 2000 * length ts" using Cons.prems(2) by simp
      then have "fst (poll_subprocess ctx lid deadline timeout ts (t w')) \<noteq> Died"
        using Cons.IH Cons.prems(1) by simp
      then show ?thesis by (simp add: poll_subprocess.simps [of _ _ _ _ "t # ts"] Pair None)
    next
      case (Some x)
      then show ?thesis by (simp add: poll_subprocess.simps [of _ _ _ _ "t # ts"] Pair)
    qed
  qed
qed

definition idle_world :: loop_world where
  "idle_world = \<lparr>w_signals = no_signals, w_state = Absent, w_output = Missing, w_closeouts = [], w_inputs = [],
     w_results = [], w_handed = [], w_reports = [], w_evidence = [], w_goals = [], w_barrier = [], w_diff = Some [], w_diff_cache = None,
     w_child = Reaped, w_spawns = True, w_ms = 0, w_clock = (0, ''t''), w_disk = True, w_removable = True,
     w_creation = Created\<rparr>"

definition pass_time :: "nat \<Rightarrow> loop_world \<Rightarrow> loop_world" where
  "pass_time n w = w\<lparr>w_ms := w_ms w + n\<rparr>"

lemma poll_ends_witness:
  "fst (poll_subprocess None ''l'' 3000 3 [pass_time 2000, pass_time 2000] (idle_world\<lparr>w_child := Active True\<rparr>)) \<noteq> Died"
  by (rule poll_ends) (auto simp: pass_time_def idle_world_def)

lemma kill_child_failed: "kill_child w = (Inl x, w') \<Longrightarrow> w_child w' \<noteq> Active True"
  by (auto simp: kill_child_def split: if_splits)

lemma end_child_result:
  "end_child e w = (Some r, w') \<Longrightarrow> w_child w' \<noteq> Active True \<and>
     (r = Inl io_error \<or> (r = Inl e \<and> w_child w' = Reaped \<and> w_signals w' = w_signals w))"
  by (auto simp: end_child_def kill_child_def split: if_splits)

lemma pause_child_result:
  assumes "pause_child ctx lid timeout fb w = (Some r, w')"
  shows "w_child w' \<noteq> Active True \<and> (r = Inl io_error \<or> (w_child w' = Reaped \<and>
    (r = Inl (KillSignaled ''paused-but-no-ctx'') \<and> ctx = None \<or>
     (\<exists>c p. ctx = Some c \<and> r = Inl (PauseSignaled []) \<and> sf_pause (w_signals w') = Some p \<and> ps_loop_id p = lid \<and>
        ps_run_id p = pc_run_id c \<and> ps_action p = pc_action c \<and> ps_feedback p = fb))))"
  using assms
  by (auto simp: pause_child_def write_pause_state_def kill_child_def split: option.splits if_splits
      dest: end_child_result)

definition no_orphan :: "pause_ctx option \<Rightarrow> string \<Rightarrow> (loop_error + child_output) \<Rightarrow> loop_world \<Rightarrow> bool" where
  "no_orphan ctx lid r w \<longleftrightarrow> w_child w \<noteq> Active True \<and> (r = Inl io_error \<or> (w_child w = Reaped \<and>
     (\<forall>m. r = Inl (PauseSignaled m) \<longrightarrow> (\<exists>c p. ctx = Some c \<and> sf_pause (w_signals w) = Some p \<and> ps_loop_id p = lid \<and>
        ps_run_id p = pc_run_id c \<and> ps_action p = pc_action c))))"

lemma poll_once_no_orphan: "poll_once ctx lid deadline timeout w = (Some r, w') \<Longrightarrow> no_orphan ctx lid r w'"
  by (auto simp: poll_once_def check_deadline_def no_orphan_def split: child.splits prod.splits option.splits
      kill_signal_action.splits if_splits dest!: end_child_result pause_child_result)

text \<open>
  C30: When the wait ends, no subprocess that can be killed keeps running; one keeps running only when the
  system fails to kill it or to tell its state, and then the wait ends with an input or output error. Every other wait has
  collected its subprocess, and one that ends paused has stored the pause state of this loop, run and action.
\<close>

theorem poll_leaves_no_orphan:
  "poll_subprocess ctx lid deadline timeout ts w = (Ended r, ts', w') \<Longrightarrow> no_orphan ctx lid r w'"
proof (induction ctx lid deadline timeout ts w rule: poll_subprocess.induct)
  case (1 ctx lid deadline timeout ts w)
  show ?case
  proof (cases "poll_once ctx lid deadline timeout w")
    case (Pair x v)
    show ?thesis
    proof (cases x)
      case None
      then show ?thesis using "1.IH" [OF Pair [symmetric] None] "1.prems"
        by (cases ts) (auto simp: Pair poll_subprocess.simps [of _ _ _ _ "[]"] poll_subprocess.simps [of _ _ _ _ "_ # _"])
    next
      case (Some r')
      then show ?thesis using "1.prems" poll_once_no_orphan [of ctx lid deadline timeout w r' v]
        by (auto simp: Pair poll_subprocess.simps [of ctx lid deadline timeout ts w])
    qed
  qed
qed

lemma poll_leaves_no_orphan_witness:
  "no_orphan None ''l'' (Inl (Timeout 3)) (snd (snd (poll_subprocess None ''l'' 3000 3 [pass_time 5000]
     (idle_world\<lparr>w_child := Active True\<rparr>))))"
  by (rule poll_leaves_no_orphan [of None "''l''" 3000 3 "[pass_time 5000]" "idle_world\<lparr>w_child := Active True\<rparr>" _ "[]"])
    (simp add: poll_subprocess.simps poll_once_def check_deadline_def take_world_signal_def take_signal_def end_child_def
      kill_child_def pass_time_def idle_world_def no_signals_def)

end
