(* ===== verification/Loop_Report.thy ===== *)
theory Loop_Report
  imports Loop_Dispatch
begin

text \<open>
  The report of a run (\<^verbatim>\<open>core/goal-engine/src/report.rs\<close>): its text and the file it is written to.
\<close>

definition section_text :: "string \<Rightarrow> string list \<Rightarrow> string" where
  "section_text prefix_text xs = concat (map (\<lambda>x. prefix_text @ x @ nl) xs)"

definition opt_list :: "'a option \<Rightarrow> 'a list" where
  "opt_list x = (case x of None \<Rightarrow> [] | Some a \<Rightarrow> [a])"

definition execution_detail :: "string \<Rightarrow> string" where
  "execution_detail e =
     (if e = ''committed'' then ''committed'' else if e = ''skipped'' then ''report only''
      else if e = ''failed'' then ''FAILED'' else if e = ''interrupted'' then ''INTERRUPTED'' else e)"

definition render_action_section :: "aggregate_action_entry \<Rightarrow> string" where
  "render_action_section a =
     ''### '' @ ae_action_id a @ '': '' @ ae_safety_level a @ '' ('' @ execution_detail (ae_execution a) @ '')'' @ nl @
     (if ae_execution a = ''skipped'' then ''- Report only.'' @ nl else []) @
     section_text ''- Closeout: '' (opt_list (ae_closeout_path a)) @
     section_text ''- Commit: '' (map (\<lambda>sha. sha @ '' (not merged)'') (opt_list (ae_commit_sha a))) @
     section_text ''- Verification: '' (opt_list (ae_verification a)) @ nl"

definition drift_line :: "loop_env \<Rightarrow> drift_check_result \<Rightarrow> string" where
  "drift_line env c = ''- Cycle '' @ show_nat (unat (dc_review_cycle c)) @ '': drift_detected='' @
     (if dc_drift_detected c then ''true'' else ''false'') @ '', score='' @ e_score env (dc_drift_score c) @
     '', type='' @ dc_drift_type c @ nl"

definition lock_line :: "nat \<Rightarrow> string" where
  "lock_line secs = nl @ ''## Lock'' @ nl @ ''- .loop-active: acquired '' @ utf8 [0x2192] @ '' released. Duration: '' @
     show_nat (secs div 60) @ ''m'' @ show_nat (secs mod 60) @ ''s. No conflicts.'' @ nl"

definition render_loop_report ::
  "loop_env \<Rightarrow> loop_run_state \<Rightarrow> loop_closeout_aggregate \<Rightarrow> unconsumed_finding list \<Rightarrow> nat option \<Rightarrow> string" where
  "render_loop_report env st g unconsumed secs =
     (let dispatched = length (filter (\<lambda>a. ae_execution a \<noteq> ''skipped'') (ag_actions g)) in
      ''# Loop Report: '' @ rs_loop_id st @ '' | '' @ rs_last_refreshed_at st @ nl @ nl @
      ''## Summary'' @ nl @ ''- '' @ show_nat (length (ag_actions g)) @ '' actions, '' @ show_nat dispatched @
      '' dispatched, '' @ show_nat (length (ag_actions g) - dispatched) @ '' L1 report-only. Overall: '' @
      e_upper env (ag_overall_status g) @ nl @ nl @
      ''## Actions'' @ nl @ concat (map render_action_section (ag_actions g)) @
      (if unconsumed = [] then [] else nl @ ''## Unconsumed Findings'' @ nl @
         concat (map (\<lambda>f. ''- '' @ uf_finding f @ '' (from action '' @ uf_source_action f @ '')'' @ nl) unconsumed)) @
      concat (map lock_line (opt_list secs)) @
      (let h = ad_drift_check_history (rs_anti_drift st) in
       if h = [] then [] else nl @ ''## Anti-Drift Checks'' @ nl @ nl @ ''Review cycle interval: '' @
         show_nat (unat (ad_check_interval (rs_anti_drift st))) @ nl @ nl @ concat (map (drift_line env) h)))"

text \<open>The path of the report written, if it could be written.\<close>

definition write_loop_report :: "loop_env \<Rightarrow> string \<Rightarrow> string \<Rightarrow> string \<Rightarrow> loop_world \<Rightarrow> string option \<times> loop_world" where
  "write_loop_report env lid rid text w =
     (if w_disk w then
        (Some (path_join (path_join (loop_dir env lid) ''reports'') (rid @ ''.md'')), w\<lparr>w_reports := hput rid text (w_reports w)\<rparr>)
      else (None, w))"

end
