(* ===== verification/Loop_Actions.thy ===== *)
theory Loop_Actions
  imports Loop_Report
begin

text \<open>
  The middle of a loop run (\<^verbatim>\<open>core/goal-engine/src/runner.rs\<close>): the discovery of the actions, the
  judgement of what a subagent delivered, the waiting while a loop is paused, and the
  execution of the actions one after the other.
\<close>

section \<open>Before the run\<close>

definition preflight_profile_check :: "loop_registry_entry \<Rightarrow> loop_error + unit" where
  "preflight_profile_check e =
     (if le_profile e = ''task'' then Inl ProfileMismatch
      else if le_profile e = ''loop-auto'' \<or> le_profile e = ''interactive'' then Inr ()
      else Inl (UnknownProfile (le_profile e)))"

definition discovery_handoff :: "loop_registry_entry \<Rightarrow> string" where
  "discovery_handoff e =
      ''## Objective'' @ nl @ ''Discovery for loop: '' @ le_loop_id e @ nl @ nl @ ''## Action'' @
      nl @
      utf8 [0x5206, 0x6790, 0x4EE3, 0x7801, 0x5E93, 0xFF0C, 0x751F, 0x6210, 0x9700, 0x8981, 0x6267, 0x884C, 0x7684] @
      '' action '' @ utf8 [0x5217, 0x8868, 0x3002] @ nl @ nl @ ''## Output'' @ nl @
      utf8 [0x8F93, 0x51FA] @ '' JSON '' @
      utf8 [0x6570, 0x7EC4, 0xFF0C, 0x6BCF, 0x4E2A, 0x5143, 0x7D20, 0x5305, 0x542B] @
      '' action_id, type, scope_paths, safety, description'' @ utf8 [0x3002]"

definition strings_of :: "json list \<Rightarrow> string list" where
  "strings_of = List.map_filter as_str"

definition discovered_action :: "string \<Rightarrow> json \<Rightarrow> loop_action option" where
  "discovered_action dflt item =
     Option.bind (jget_with as_str item ''action_id'') (\<lambda>i.
     Option.bind (jget_with as_str item ''type'') (\<lambda>t.
     Some \<lparr>la_action_id = i, la_type = t,
       la_scope_paths = or_default [] (map_option strings_of (jget_with as_array item ''scope_paths'')),
       la_safety = or_default dflt (jget_with as_str item ''safety''),
       la_description = jget_with as_str item ''description'', la_consumed_action_ids = []\<rparr>))"

text \<open>The text from the first opening bracket to the last closing one, if they come in this order.\<close>

definition bracketed :: "string \<Rightarrow> string option" where
  "bracketed s =
     (let before = takeWhile (\<lambda>c. c \<noteq> CHR ''['') s; after = takeWhile (\<lambda>c. c \<noteq> CHR '']'') (rev s) in
      if CHR ''['' \<in> set s \<and> CHR '']'' \<in> set s \<and> length before < length s - 1 - length after
      then Some (drop (length before) (take (length s - length after) s)) else None)"

definition parse_discovery_output :: "(string \<Rightarrow> json option) \<Rightarrow> string \<Rightarrow> string \<Rightarrow> loop_error + loop_action list" where
  "parse_discovery_output parse out dflt =
     (case bracketed out of
        None \<Rightarrow> Inl serde_error
      | Some t \<Rightarrow> (case parse t of
          Some (JArr xs) \<Rightarrow> Inr (List.map_filter (discovered_action dflt) xs)
        | _ \<Rightarrow> Inr []))"

definition discovery_fallback :: "loop_registry_entry \<Rightarrow> loop_action" where
  "discovery_fallback e = \<lparr>la_action_id = le_loop_id e @ ''-discovery'', la_type = ''discovery'', la_scope_paths = [],
     la_safety = or_default ''L1'' (le_default_safety e),
     la_description = Some (''Discovery fallback for skill: '' @ or_default (le_loop_id e) (le_skill e)),
     la_consumed_action_ids = []\<rparr>"

definition discover_actions ::
  "loop_env \<Rightarrow> loop_registry_entry \<Rightarrow> turns \<Rightarrow> loop_world \<Rightarrow> (loop_error + loop_action list) outcome \<times> turns \<times> loop_world" where
  "discover_actions env e ts w =
     (if le_static_actions e \<noteq> None \<and> le_static_actions e \<noteq> Some [] then (Ended (Inr (the (le_static_actions e))), ts, w)
      else case e_binary env of
        None \<Rightarrow> (Ended (Inl (SpawnFailed ''binary'')), ts, w)
      | Some binary \<Rightarrow>
          if \<not> w_spawns w then (Ended (Inl (SpawnFailed binary)), ts, w)
          else
            (case poll_subprocess None (le_loop_id e) (w_ms w + 300000) 300 ts (w\<lparr>w_child := Active True\<rparr>) of
               (Died, ts', w') \<Rightarrow> (Died, ts', w')
             | (Ended (Inl x), ts', w') \<Rightarrow> (Ended (Inl x), ts', w')
             | (Ended (Inr out), ts', w') \<Rightarrow>
                 (Ended (Inr
                    (if \<not> out_success out then [discovery_fallback e]
                     else case parse_discovery_output (e_parse env) (out_stdout out) (or_default ''L1'' (le_default_safety e)) of
                       Inl _ \<Rightarrow> [] | Inr as \<Rightarrow> as)), ts', w')))"

text \<open>The levels of the actions; two actions of the same id share the level of the second.\<close>

fun assign_safety_levels :: "loop_registry_entry \<Rightarrow> loop_action list \<Rightarrow> (string, safety_level) hmap \<Rightarrow> (string, safety_level) hmap option" where
  "assign_safety_levels e [] m = Some m"
| "assign_safety_levels e (a # as) m =
     (case assign_safety_for_action a e of None \<Rightarrow> None | Some l \<Rightarrow> assign_safety_levels e as (hput (la_action_id a) l m))"

definition check_budget_preflight :: "u64 \<Rightarrow> loop_profile_config \<Rightarrow> loop_error + unit" where
  "check_budget_preflight hard_limit p =
     (case Option.bind (lp_cost_budget p) cb_tokens_per_run of
        Some n \<Rightarrow> if n > hard_limit then Inl BudgetExceeded else Inr ()
      | None \<Rightarrow> Inr ())"

section \<open>What a subagent delivered\<close>

definition evidence_of :: "string \<Rightarrow> loop_world \<Rightarrow> json_file" where
  "evidence_of aid w = file_at (w_evidence w) aid"

text \<open>The closeout and the changed files decide; the scope is looked at only if there is one.\<close>

definition judge_closeout ::
  "loop_env \<Rightarrow> loop_action \<Rightarrow> json \<Rightarrow> aggregate_action_result \<Rightarrow> loop_world \<Rightarrow> aggregate_action_result \<times> loop_world" where
  "judge_closeout env a closeout committed w =
     (let v = verify_closeout_with_evidence closeout (evidence_of (la_action_id a) w) in
      case (if la_scope_paths a = [] then ([], w) else check_scope_compliance (la_scope_paths a) w) of (outside, w') \<Rightarrow>
        (if outside \<noteq> [] then RFailed (e_reason env (cl_violations v) outside)
         else if cl_closeout_allowed v then committed
         else RFailed (e_reason env (cl_violations v) []), w'))"

definition store_closeout :: "string \<Rightarrow> string \<Rightarrow> loop_action \<Rightarrow> json \<Rightarrow> loop_world \<Rightarrow> loop_world" where
  "store_closeout lid rid a closeout w =
     (if w_disk w then w\<lparr>w_closeouts := hput (action_key rid (la_action_id a)) (Holds (action_record_json
         \<lparr>ar_schema_version = LOOP_CLOSEOUT_AGGREGATE_SCHEMA_VERSION, ar_loop_id = lid, ar_run_id = rid,
          ar_action_id = la_action_id a, ar_safety_level = la_safety a, ar_closeout = closeout\<rparr>)) (w_closeouts w)\<rparr>
      else w)"

definition judge_files ::
  "loop_env \<Rightarrow> string \<Rightarrow> string \<Rightarrow> loop_action \<Rightarrow> subagent_result \<Rightarrow> loop_world \<Rightarrow> aggregate_action_result \<times> loop_world" where
  "judge_files env lid rid a out w =
     (case read_action_record (file_at (w_closeouts w) (action_key rid (la_action_id a))) of
        Inr (Some r) \<Rightarrow> judge_closeout env a (ar_closeout r)
          (RCommitted (Some (closeout_path env lid rid (la_action_id a))) None) w
      | _ \<Rightarrow> (if sr_success out then RCommitted None None
             else RFailed (concat (map encode_char (take 200 (chars (sr_stderr out))))), w))"

definition evaluate_subagent_output ::
  "loop_env \<Rightarrow> string \<Rightarrow> string \<Rightarrow> loop_action \<Rightarrow> subagent_result \<Rightarrow> loop_world \<Rightarrow> aggregate_action_result \<times> loop_world" where
  "evaluate_subagent_output env lid rid a out w =
     (case sr_parsed_output out of
        None \<Rightarrow> judge_files env lid rid a out w
      | Some p \<Rightarrow> (case so_closeout p of
          Some closeout \<Rightarrow>
            (let committed = RCommitted (Some (closeout_path env lid rid (la_action_id a))) None in
             case judge_closeout env a closeout committed w of (r, w') \<Rightarrow>
               (r, if r = committed then store_closeout lid rid a closeout w' else w'))
        | None \<Rightarrow>
            if \<not> so_success p then (RFailed (or_default ''V1 subagent reported failure (no detail)'' (so_error p)), w)
            else judge_files env lid rid a out w))"

section \<open>Waiting while paused\<close>

datatype pause_command = PResume | PRedirect | PKill

definition PAUSE_TIMEOUT_SECS :: u64 where
  "PAUSE_TIMEOUT_SECS = 3600"

definition update_feedback :: "string \<Rightarrow> loop_world \<Rightarrow> loop_world" where
  "update_feedback fb w =
     (case read_pause_state (w_signals w) of
        Inr (Some p) \<Rightarrow> w\<lparr>w_signals := snd (write_pause_state (w_disk w) (p\<lparr>ps_feedback := Some fb\<rparr>) (w_signals w))\<rparr>
      | _ \<Rightarrow> w)"

definition pause_deadline :: "nat \<Rightarrow> loop_world \<Rightarrow> (loop_error + pause_command) option \<times> loop_world" where
  "pause_deadline deadline w =
     (if w_ms w > deadline
      then (Some (Inl (Timeout PAUSE_TIMEOUT_SECS)), w\<lparr>w_signals := snd (clear_pause_state (w_removable w) (w_signals w))\<rparr>)
      else (None, w))"

definition pause_once :: "string \<Rightarrow> nat \<Rightarrow> loop_world \<Rightarrow> (loop_error + pause_command) option \<times> loop_world" where
  "pause_once lid deadline w =
     (case take_world_signal lid w of
        (Some Resume, w') \<Rightarrow> (Some (Inr PResume), w')
      | (Some (Redirect _), w') \<Rightarrow> (Some (Inr PRedirect), w')
      | (Some Kill, w') \<Rightarrow> (Some (Inr PKill), w')
      | (Some (PauseWithFeedback fb), w') \<Rightarrow> pause_deadline deadline (update_feedback fb w')
      | (_, w') \<Rightarrow> pause_deadline deadline w')"

text \<open>The lock is refreshed when a minute has passed since the last time.\<close>

fun pause_wait_loop :: "string \<Rightarrow> nat \<Rightarrow> nat \<Rightarrow> turns \<Rightarrow> loop_world \<Rightarrow> (loop_error + pause_command) outcome \<times> turns \<times> loop_world" where
  "pause_wait_loop lid deadline last_refresh ts w =
     (let due = (w_ms w - last_refresh) div 1000 \<ge> 60;
          w1 = (if due then w\<lparr>w_signals := snd (refresh_lock (w_disk w) (w_signals w))\<rparr> else w);
          refreshed = (if due then w_ms w else last_refresh)
      in case pause_once lid deadline w1 of
           (Some r, w') \<Rightarrow> (Ended r, ts, w')
         | (None, w') \<Rightarrow> (case ts of
             [] \<Rightarrow> (Died, [], w')
           | t # ts' \<Rightarrow> pause_wait_loop lid deadline refreshed ts' (t w')))"

declare pause_wait_loop.simps [simp del]

section \<open>Executing an action\<close>

text \<open>The signal file holds nothing but what a pause came from.\<close>

definition signal_spent :: "string \<Rightarrow> loop_world \<Rightarrow> bool" where
  "signal_spent lid w \<longleftrightarrow> (\<forall>w' r. take_world_signal lid (w\<lparr>w_removable := r\<rparr>) = (Some Resume, w') \<longrightarrow> False)"

lemma take_world_signal_Resume:
  "take_world_signal lid w = (Some Resume, w') \<longleftrightarrow>
     (\<exists>v p. sf_signal (w_signals w) = Holds v \<and> sg_action p = Resume \<and>
        p = (case signal_of_json v of Some q \<Rightarrow> q | None \<Rightarrow> old_signal lid v) \<and>
        w' = w\<lparr>w_signals := (if w_removable w then (w_signals w)\<lparr>sf_signal := Missing\<rparr> else w_signals w)\<rparr>)"
  by (auto simp: take_world_signal_def take_signal_def split: json_file.splits)

lemma signal_spent_iff:
  "signal_spent lid w \<longleftrightarrow> (\<forall>v. sf_signal (w_signals w) = Holds v \<longrightarrow>
     sg_action (case signal_of_json v of Some q \<Rightarrow> q | None \<Rightarrow> old_signal lid v) \<noteq> Resume)"
  by (auto simp: signal_spent_def take_world_signal_Resume)

lemma take_pause_spent:
  "take_world_signal lid w = (Some a, w') \<Longrightarrow> a \<noteq> Resume \<Longrightarrow> signal_spent lid w'"
  by (auto simp: take_world_signal_def take_signal_def signal_spent_iff split: json_file.splits if_splits)

lemma kill_child_signals: "kill_child w = (r, w') \<Longrightarrow> w_signals w' = w_signals w"
  by (auto simp: kill_child_def split: if_splits)

lemma pause_child_signal: "pause_child ctx lid timeout fb w = (r, w') \<Longrightarrow> sf_signal (w_signals w') = sf_signal (w_signals w)"
  by (auto simp: pause_child_def end_child_def write_pause_state_def dest: kill_child_signals
      split: option.splits prod.splits sum.splits if_splits)

lemma signal_spent_cong: "sf_signal (w_signals w') = sf_signal (w_signals w) \<Longrightarrow> signal_spent lid w' = signal_spent lid w"
  by (simp add: signal_spent_iff)

lemma poll_once_paused:
  assumes "poll_once ctx lid deadline timeout w = (Some (Inl (PauseSignaled m)), w')"
  shows "signal_spent lid w'"
proof -
  have n: "end_child e v \<noteq> (Some (Inl (PauseSignaled m)), v')" if "e \<noteq> PauseSignaled m" for e v v'
    using that by (auto simp: end_child_def kill_child_def io_error_def split: if_splits)
  obtain a w1 fb where t: "take_world_signal lid w = (Some a, w1)" "a \<noteq> Resume"
      "pause_child ctx lid timeout fb w1 = (Some (Inl (PauseSignaled m)), w')"
    using assms n
    by (auto simp: poll_once_def check_deadline_def io_error_def split: child.splits prod.splits option.splits
        kill_signal_action.splits if_splits)
  then show ?thesis using take_pause_spent pause_child_signal signal_spent_cong by metis
qed

lemma poll_turns: "poll_subprocess ctx lid deadline timeout ts w = (r, ts', w') \<Longrightarrow> length ts' \<le> length ts"
proof (induction ts arbitrary: w)
  case Nil
  then show ?case by (subst (asm) poll_subprocess.simps) (auto split: prod.splits option.splits)
next
  case (Cons t ts)
  from Cons.prems show ?case
    by (subst (asm) poll_subprocess.simps) (auto dest!: Cons.IH split: prod.splits option.splits)
qed

lemma poll_paused: "poll_subprocess ctx lid deadline timeout ts w = (Ended (Inl (PauseSignaled m)), ts', w') \<Longrightarrow> signal_spent lid w'"
proof (induction ts arbitrary: w)
  case Nil
  then show ?case by (subst (asm) poll_subprocess.simps) (auto dest: poll_once_paused split: prod.splits option.splits)
next
  case (Cons t ts)
  from Cons.prems show ?case
    by (subst (asm) poll_subprocess.simps) (auto dest!: Cons.IH dest: poll_once_paused split: prod.splits option.splits)
qed

lemma no_pause_from_prepare: "prepare_action env lid rid a protocol w = (Inl e, w') \<Longrightarrow> e = io_error"
  by (auto simp: prepare_action_def build_subagent_input_def split: if_splits)

definition is_pause :: "loop_error \<Rightarrow> bool" where
  "is_pause e \<longleftrightarrow> (case e of PauseSignaled _ \<Rightarrow> True | PausedError _ \<Rightarrow> True | _ \<Rightarrow> False)"

lemma poll_never_paused_error:
  "poll_subprocess ctx lid deadline timeout ts w \<noteq> (Ended (Inl (PausedError m)), ts', w')"
proof (induction ts arbitrary: w)
  case Nil
  have "poll_once ctx lid deadline timeout w \<noteq> (Some (Inl (PausedError m)), v)" for v
    by (auto simp: poll_once_def check_deadline_def end_child_def kill_child_def pause_child_def io_error_def
        write_pause_state_def split: child.splits prod.splits option.splits kill_signal_action.splits if_splits)
  then show ?case by (subst poll_subprocess.simps) (auto split: prod.splits option.splits)
next
  case (Cons t ts)
  have "poll_once ctx lid deadline timeout w \<noteq> (Some (Inl (PausedError m)), v)" for v
    by (auto simp: poll_once_def check_deadline_def end_child_def kill_child_def pause_child_def io_error_def
        write_pause_state_def split: child.splits prod.splits option.splits kill_signal_action.splits if_splits)
  then show ?case by (subst poll_subprocess.simps) (auto simp: Cons.IH split: prod.splits option.splits)
qed

lemma run_action_turns: "run_action_sync env lid rid a timeout protocol ts w = (r, ts', w') \<Longrightarrow> length ts' \<le> length ts"
  by (auto simp: run_action_sync_def Let_def dest: poll_turns
      split: option.splits prod.splits sum.splits if_splits outcome.splits loop_error.splits)

lemma run_action_paused:
  "run_action_sync env lid rid a timeout protocol ts w = (Ended (Inl e), ts', w') \<Longrightarrow> is_pause e \<Longrightarrow> signal_spent lid w'"
  by (auto simp: run_action_sync_def Let_def is_pause_def io_error_def poll_never_paused_error
      dest: poll_paused no_pause_from_prepare
      split: option.splits prod.splits sum.splits if_splits outcome.splits loop_error.splits)

lemma pause_once_spent:
  "signal_spent lid w \<Longrightarrow> pause_once lid deadline w \<noteq> (Some (Inr PResume), w')"
  unfolding signal_spent_def
  by (drule spec [of _ w'], drule spec [of _ "w_removable w"])
    (auto simp: pause_once_def pause_deadline_def split: prod.splits option.splits kill_signal_action.splits if_splits)

lemma pause_wait_turns: "pause_wait_loop lid deadline lr ts w = (r, ts', w') \<Longrightarrow> length ts' \<le> length ts"
proof (induction ts arbitrary: w lr)
  case Nil
  then show ?case by (subst (asm) pause_wait_loop.simps) (auto simp: Let_def split: prod.splits option.splits)
next
  case (Cons t ts)
  from Cons.prems show ?case
    by (subst (asm) pause_wait_loop.simps) (auto simp: Let_def dest!: Cons.IH split: prod.splits option.splits if_splits)
qed

text \<open>A resume never answers the signal that paused the loop, so it takes a turn.\<close>

lemma pause_wait_resume_turns:
  assumes "pause_wait_loop lid deadline lr ts w = (Ended (Inr PResume), ts', w')" "signal_spent lid w"
  shows "length ts' < length ts"
proof -
  define w1 where "w1 = (if (w_ms w - lr) div 1000 \<ge> 60
      then w\<lparr>w_signals := snd (refresh_lock (w_disk w) (w_signals w))\<rparr> else w)"
  have "sf_signal (w_signals w1) = sf_signal (w_signals w)" by (simp add: w1_def refresh_lock_def)
  then have "signal_spent lid w1" using assms(2) signal_spent_cong by blast
  then have "pause_once lid deadline w1 \<noteq> (Some (Inr PResume), v)" for v by (rule pause_once_spent)
  then show ?thesis using assms(1)
    by (subst (asm) pause_wait_loop.simps)
      (auto simp: Let_def w1_def [symmetric] dest!: pause_wait_turns split: prod.splits option.splits list.splits)
qed

text \<open>
  The state written when the loop pauses, when it goes on after a pause, and the clean tree a
  repeated action starts from. A paused action is executed again with the same arguments.
\<close>

definition enter_pause :: "loop_run_state \<Rightarrow> loop_world \<Rightarrow> loop_run_state \<times> loop_world" where
  "enter_pause st w = (let st' = transition_phase (now_iso w) Paused st in (st', write_loop_state st' w))"

definition leave_pause :: "loop_run_state \<Rightarrow> loop_world \<Rightarrow> loop_run_state \<times> loop_world" where
  "leave_pause st w =
     (let st' = update_heartbeat (now_iso w) (transition_phase (now_iso w) Running st);
          w1 = write_loop_state st' w
      in (st', w1\<lparr>w_signals := snd (clear_pause_state (w_removable w1) (w_signals w1))\<rparr>))"

definition drop_pause :: "loop_world \<Rightarrow> loop_world" where
  "drop_pause w = w\<lparr>w_signals := snd (clear_pause_state (w_removable w) (w_signals w))\<rparr>"

lemma enter_pause_signal: "enter_pause st w = (st', w') \<Longrightarrow> sf_signal (w_signals w') = sf_signal (w_signals w)"
  by (auto simp: enter_pause_def write_loop_state_def Let_def split: if_splits)

text \<open>Executing the action again takes a turn: waiting for the resume does.\<close>

lemma exec_action_decreases:
  assumes "run_action_sync env lid rid a timeout protocol ts w = (Ended (Inl e), ts', w')" "is_pause e"
    "enter_pause st w' = (st1, w1)" "pause_wait_loop lid d lr ts' w1 = (Ended (Inr PResume), ts2, w2)"
  shows "length ts2 < length ts"
proof -
  have "signal_spent lid w1"
    using run_action_paused [OF assms(1,2)] enter_pause_signal [OF assms(3)] signal_spent_cong by blast
  then have "length ts2 < length ts'" using assms(4) pause_wait_resume_turns by blast
  then show ?thesis using run_action_turns [OF assms(1)] by simp
qed

function exec_action ::
  "loop_env \<Rightarrow> string \<Rightarrow> string \<Rightarrow> loop_action \<Rightarrow> u64 option \<Rightarrow> subagent_protocol \<Rightarrow> loop_run_state \<Rightarrow> turns \<Rightarrow> loop_world \<Rightarrow>
    (loop_error + subagent_result) outcome \<times> loop_run_state \<times> turns \<times> loop_world" where
  "exec_action env lid rid a timeout protocol st ts w =
     (case run_action_sync env lid rid a timeout protocol ts w of
        (Died, ts', w') \<Rightarrow> (Died, st, ts', w')
      | (Ended (Inr out), ts', w') \<Rightarrow> (Ended (Inr out), st, ts', w')
      | (Ended (Inl e), ts', w') \<Rightarrow>
          if \<not> is_pause e then (Ended (Inl e), st, ts', w')
          else
            (case enter_pause st w' of (st1, w1) \<Rightarrow>
             case pause_wait_loop lid (w_ms w1 + 1000 * unat PAUSE_TIMEOUT_SECS) (w_ms w1) ts' w1 of
               (Died, ts2, w2) \<Rightarrow> (Died, st1, ts2, w2)
             | (Ended (Inr PResume), ts2, w2) \<Rightarrow>
                 (case leave_pause st1 w2 of (st2, w3) \<Rightarrow>
                  exec_action env lid rid a timeout protocol st2 ts2 (reset_scope_paths env (la_scope_paths a) w3))
             | (Ended (Inr PRedirect), ts2, w2) \<Rightarrow>
                 (case leave_pause st1 w2 of (st2, w3) \<Rightarrow> (Ended (Inl (Redirected ''redirected during pause'')), st2, ts2, w3))
             | (Ended (Inr PKill), ts2, w2) \<Rightarrow> (Ended (Inl (KillSignaled ''killed during pause'')), st1, ts2, drop_pause w2)
             | (Ended (Inl x), ts2, w2) \<Rightarrow> (Ended (Inl x), st1, ts2, drop_pause w2)))"
  by pat_completeness auto

termination
proof (relation "measure (\<lambda>(env, lid, rid, a, timeout, protocol, st, ts, w). length ts)", goal_cases)
  case 2
  then show ?case by (clarsimp) (rule exec_action_decreases, (rule sym, assumption)+, assumption, (rule sym, assumption)+)
qed simp

declare exec_action.simps [simp del]

section \<open>The actions in turn\<close>

record run_vars =
  rv_state :: loop_run_state
  rv_results :: "(string \<times> aggregate_action_result) list"
  rv_outputs :: "(string, json) hmap"

definition set_dispatch :: "string \<Rightarrow> string \<Rightarrow> loop_run_state \<Rightarrow> loop_run_state" where
  "set_dispatch aid s st =
     st\<lparr>rs_current_run := map_option (\<lambda>r. r\<lparr>cr_dispatch := hput aid s (cr_dispatch r)\<rparr>) (rs_current_run st)\<rparr>"

definition dispatch_status :: "loop_run_state \<Rightarrow> string \<Rightarrow> string option" where
  "dispatch_status st aid = Option.bind (rs_current_run st) (\<lambda>r. hget (cr_dispatch r) aid)"

definition push_result :: "string \<Rightarrow> aggregate_action_result \<Rightarrow> run_vars \<Rightarrow> run_vars" where
  "push_result aid r rv = rv\<lparr>rv_results := rv_results rv @ [(aid, r)]\<rparr>"

text \<open>The outputs an action consumes are written for it; one that is missing is only warned of.\<close>

definition hand_outputs :: "string list \<Rightarrow> (string, json) hmap \<Rightarrow> loop_world \<Rightarrow> loop_world" where
  "hand_outputs ids outputs w = foldl (\<lambda>w i.
     case hget outputs i of
       Some v \<Rightarrow> (if w_disk w then w\<lparr>w_handed := hput i v (w_handed w)\<rparr> else w)
     | None \<Rightarrow> w) w ids"

text \<open>The output of a committed action: its closeout file, or a note that it was committed.\<close>

definition action_output :: "string \<Rightarrow> string \<Rightarrow> loop_world \<Rightarrow> json" where
  "action_output rid aid w =
     (case file_at (w_closeouts w) (action_key rid aid) of
        Holds v \<Rightarrow> v
      | _ \<Rightarrow> JObj [(''action_id'', JStr aid), (''status'', JStr ''committed'')])"

fun result_status :: "aggregate_action_result \<Rightarrow> string" where
  "result_status (RCommitted _ _) = ''done''"
| "result_status (RFailed _) = ''failed''"
| "result_status RInterrupted = ''interrupted''"
| "result_status RSkipped = ''skipped''"

text \<open>The checkpoint of a committed action is written before its entry is set to done.\<close>

definition record_output ::
  "loop_env \<Rightarrow> string \<Rightarrow> string \<Rightarrow> loop_action \<Rightarrow> subagent_result \<Rightarrow> run_vars \<Rightarrow> loop_world \<Rightarrow> run_vars \<times> loop_world" where
  "record_output env lid rid a out rv w =
     (case evaluate_subagent_output env lid rid a out w of (r, w1) \<Rightarrow>
        let aid = la_action_id a in
        case (case r of
            RCommitted _ _ \<Rightarrow> (rv\<lparr>rv_outputs := hput aid (action_output rid aid w1) (rv_outputs rv)\<rparr>,
              write_loop_state (rv_state rv) w1)
          | _ \<Rightarrow> (rv, w1)) of (rv1, w2) \<Rightarrow>
        (push_result aid r (rv1\<lparr>rv_state := set_dispatch aid (result_status r) (rv_state rv1)\<rparr>), w2))"

text \<open>How the run goes on when an action ended without an output: it stops, or takes the next action.\<close>

definition record_error :: "loop_env \<Rightarrow> string \<Rightarrow> loop_error \<Rightarrow> run_vars \<Rightarrow> (loop_error + unit) \<times> run_vars" where
  "record_error env aid e rv =
     (case e of
        KillSignaled m \<Rightarrow> (Inl (KillSignaled m), push_result aid (RFailed (''killed: '' @ m)) rv)
      | Timeout secs \<Rightarrow> (Inl (Timeout secs), push_result aid (RFailed (''timeout after '' @ show_nat (unat secs) @ ''s'')) rv)
      | Redirected m \<Rightarrow> (Inr (), push_result aid RInterrupted (rv\<lparr>rv_state := set_dispatch aid ''redirected'' (rv_state rv)\<rparr>))
      | _ \<Rightarrow> (Inr (), push_result aid (RFailed (e_error_text env e)) rv))"

definition run_action ::
  "loop_env \<Rightarrow> loop_registry_entry \<Rightarrow> string \<Rightarrow> u64 option \<Rightarrow> (string, safety_level) hmap \<Rightarrow> loop_action \<Rightarrow> run_vars \<Rightarrow> turns \<Rightarrow>
    loop_world \<Rightarrow> (loop_error + unit) outcome \<times> run_vars \<times> turns \<times> loop_world" where
  "run_action env e rid timeout levels a rv ts w =
     (let aid = la_action_id a in
      if dispatch_status (rv_state rv) aid = Some ''done'' then (Ended (Inr ()), push_result aid RSkipped rv, ts, w)
      else
        (let level = or_default L1ReportOnly (hget levels aid);
             st = set_dispatch aid (level_str level) (rv_state rv)
         in if level = L1ReportOnly then
              (Ended (Inr ()), (push_result aid RSkipped rv)\<lparr>rv_state := set_dispatch aid ''skipped'' st\<rparr>, ts, w)
            else
              (let st1 = set_dispatch aid ''running'' (update_heartbeat (now_iso w) st);
                   w1 = hand_outputs (la_consumed_action_ids a) (rv_outputs rv) w
               in case exec_action env (le_loop_id e) rid a timeout (protocol_resolve (le_subagent_protocol e) (e_v1 env))
                         st1 ts w1 of
                    (Died, st2, ts', w') \<Rightarrow> (Died, rv\<lparr>rv_state := st2\<rparr>, ts', w')
                  | (Ended (Inr out), st2, ts', w') \<Rightarrow>
                      (case record_output env (le_loop_id e) rid a out (rv\<lparr>rv_state := st2\<rparr>) w' of (rv', w'') \<Rightarrow>
                         (Ended (Inr ()), rv', ts', w''))
                  | (Ended (Inl x), st2, ts', w') \<Rightarrow>
                      (case record_error env aid x (rv\<lparr>rv_state := st2\<rparr>) of (r, rv') \<Rightarrow> (Ended r, rv', ts', w')))))"

fun run_actions ::
  "loop_env \<Rightarrow> loop_registry_entry \<Rightarrow> string \<Rightarrow> u64 option \<Rightarrow> (string, safety_level) hmap \<Rightarrow> loop_action list \<Rightarrow> run_vars \<Rightarrow>
    turns \<Rightarrow> loop_world \<Rightarrow> (loop_error + unit) outcome \<times> run_vars \<times> turns \<times> loop_world" where
  "run_actions env e rid timeout levels [] rv ts w = (Ended (Inr ()), rv, ts, w)"
| "run_actions env e rid timeout levels (a # as) rv ts w =
     (case run_action env e rid timeout levels a rv ts w of
        (Ended (Inr _), rv', ts', w') \<Rightarrow> run_actions env e rid timeout levels as rv' ts' w'
      | r \<Rightarrow> r)"

end
