(* ===== verification/Loop_Runner.thy ===== *)
theory Loop_Runner
  imports Loop_Actions
begin

text \<open>
  A loop run from its start to its clean-up (\<^verbatim>\<open>core/goal-engine/src/runner.rs\<close>): the quality gate,
  the drift check, the circuit breaker with its escalation to research, the run itself and the
  loop around it that restarts after an escalation; then the requests that signal a run.
\<close>

section \<open>After the actions\<close>

definition strip_orchestrator :: "string \<Rightarrow> string" where
  "strip_orchestrator s = (if ends_with s ''-orchestrator'' then take (length s - length ''-orchestrator'') s else s)"

definition gate_task :: "loop_action list \<Rightarrow> string" where
  "gate_task as = (case as of [] \<Rightarrow> [] | a # _ \<Rightarrow> strip_orchestrator (la_action_id a))"

definition goal_scene :: "string \<Rightarrow> loop_world \<Rightarrow> string" where
  "goal_scene tid w =
     (case read_goal_state_raw tid w of
        Inr (Some v) \<Rightarrow> or_default ''general'' (jget_with as_str v ''scene'')
      | _ \<Rightarrow> ''general'')"

definition gate_payload :: "loop_env \<Rightarrow> string \<Rightarrow> string \<Rightarrow> loop_world \<Rightarrow> json" where
  "gate_payload env lid tid w = JObj [(''goal'', JStr lid), (''repo_root'', JStr (e_repo env)), (''round'', jnat 1),
     (''scene'', JStr (goal_scene tid w)), (''task_id'', JStr tid)]"

definition gate_blockers :: "json \<Rightarrow> string list" where
  "gate_blockers v =
     or_default [] (map_option (List.map_filter (\<lambda>b. jget_with as_str b ''description'')) (jget_with as_array v ''blockers''))"

text \<open>The gate fails closed; without a registered gate it is skipped.\<close>

definition quality_gate ::
  "loop_env \<Rightarrow> loop_registry_entry \<Rightarrow> loop_action list \<Rightarrow> loop_world \<Rightarrow> loop_closeout_aggregate \<Rightarrow> loop_closeout_aggregate" where
  "quality_gate env e as w g =
     (if or_default True (le_verify_quality_gate e) \<and> ag_overall_status g = ''pass'' \<and> gate_task as \<noteq> [] then
        (case e_gate env of
           None \<Rightarrow> g
         | Some gate \<Rightarrow> (case gate (gate_payload env (le_loop_id e) (gate_task as) w) of
             Inl _ \<Rightarrow> g\<lparr>ag_overall_status := ''fail''\<rparr>
           | Inr v \<Rightarrow> if or_default False (jget_with as_bool v ''passed'') then g
               else g\<lparr>ag_overall_status := ''fail'', ag_qg_blockers := gate_blockers v\<rparr>))
      else g)"

definition count_cycle :: "anti_drift_state \<Rightarrow> anti_drift_state" where
  "count_cycle ad =
     (let n = ad_review_cycle_count ad + 1 in ad\<lparr>ad_review_cycle_count := if n \<ge> 10000 then 0 else n\<rparr>)"

definition note_amendment :: "goal_snapshot option \<Rightarrow> anti_drift_state \<Rightarrow> anti_drift_state" where
  "note_amendment goal ad =
     (case goal of
        None \<Rightarrow> ad
      | Some g \<Rightarrow> (case gs_amended_at g of
          None \<Rightarrow> ad
        | Some t \<Rightarrow>
            if (case ad_last_amended_at ad of None \<Rightarrow> True | Some l \<Rightarrow> l < t)
            then ad\<lparr>ad_original_goal_snapshot := Some (gs_text g), ad_last_amended_at := Some t, ad_review_cycle_count := 0\<rparr>
            else ad))"

definition check_drift :: "loop_env \<Rightarrow> string \<Rightarrow> goal_snapshot option \<Rightarrow> anti_drift_state \<Rightarrow> anti_drift_state" where
  "check_drift env now goal ad =
     (if should_check_drift ad then
        (case goal of
           None \<Rightarrow> ad
         | Some g \<Rightarrow>
             (let r = perform_drift_check (e_alnum env) now ad (gs_text g) in
              ad\<lparr>ad_last_drift_check := Some r, ad_drift_check_history := keep_last 20 (ad_drift_check_history ad @ [r])\<rparr>))
      else ad)"

definition anti_drift_step :: "loop_env \<Rightarrow> string \<Rightarrow> loop_world \<Rightarrow> anti_drift_state \<Rightarrow> anti_drift_state" where
  "anti_drift_step env lid w ad =
     (let goal = read_goal_snapshot lid w in
      check_drift env (now_iso w) goal (note_amendment goal (count_cycle ad)))"

text \<open>The heartbeat of the goal state: a value that is neither an object nor null has no members to set.\<close>

definition sync_goal :: "loop_action list \<Rightarrow> loop_world \<Rightarrow> (loop_error + unit) outcome \<times> loop_world" where
  "sync_goal as w =
     (let tid = gate_task as in
      if tid = [] then (Ended (Inr ()), w)
      else case (safe_task_id_component tid, read_goal_state_raw tid w) of
        (Some t, Inr (Some v)) \<Rightarrow>
          (let m = (case v of JNull \<Rightarrow> Some [] | JObj kvs \<Rightarrow> Some kvs | _ \<Rightarrow> None) in
           case m of
             None \<Rightarrow> (Died, w)
           | Some kvs \<Rightarrow>
               if w_disk w then
                 (Ended (Inr ()), w\<lparr>w_goals := hput t (Holds (JObj (jput ''updated_at'' (JStr (now_iso w)) kvs))) (w_goals w)\<rparr>)
               else (Ended (Inl io_error), w))
      | _ \<Rightarrow> (Ended (Inr ()), w))"

section \<open>Escalation\<close>

definition is_digit :: "char \<Rightarrow> bool" where
  "is_digit c \<longleftrightarrow> 48 \<le> (of_char c :: nat) \<and> (of_char c :: nat) \<le> 57"

text \<open>The name of a report directory: cutting it at ten bytes panics inside a character.\<close>

definition barrier_name_ok :: "(string \<Rightarrow> bool) \<Rightarrow> string \<Rightarrow> bool option" where
  "barrier_name_ok is_date name =
     (if length name < 10 then Some False
      else if 10 < length name \<and> is_continuation (name ! 10) then None
      else Some (is_date (take 10 name) \<or> list_all is_digit name))"

fun filter_barriers ::
  "(string \<Rightarrow> bool) \<Rightarrow> (string \<times> 'a) list \<Rightarrow> (string \<times> 'a) list option" where
  "filter_barriers is_date [] = Some []"
| "filter_barriers is_date ((n, x) # xs) =
     (case barrier_name_ok is_date n of
        None \<Rightarrow> None
      | Some b \<Rightarrow> map_option (\<lambda>ys. if b then (n, x) # ys else ys) (filter_barriers is_date xs))"

definition discover_barrier_candidates :: "loop_env \<Rightarrow> nat \<Rightarrow> loop_world \<Rightarrow> string list option" where
  "discover_barrier_candidates env window w =
     map_option (\<lambda>dirs.
         if dirs = [] then []
         else case snd (List.last (sort_key fst dirs)) of
           Some (Some age, Holds v) \<Rightarrow>
             if age < 1000 * window then or_default [] (map_option strings_of (jget_with as_array v ''candidates'')) else []
         | _ \<Rightarrow> [])
       (filter_barriers (e_date env) (w_barrier w))"

definition research_of :: "(research_config \<Rightarrow> 'a) \<Rightarrow> 'a \<Rightarrow> loop_registry_entry \<Rightarrow> 'a" where
  "research_of f d e = (case le_research e of Some r \<Rightarrow> f r | None \<Rightarrow> d)"

text \<open>The candidates and whether the loop may resume on its own.\<close>

definition barrier_escalation ::
  "loop_env \<Rightarrow> loop_registry_entry \<Rightarrow> turns \<Rightarrow> loop_world \<Rightarrow> (loop_error + (string list \<times> bool)) outcome \<times> turns \<times> loop_world" where
  "barrier_escalation env e ts w =
     (if \<not> w_spawns w then (Ended (Inl (SpawnFailed ''barrier-escalation'')), ts, w)
      else
        (let secs = unat (research_of rc_max_research_time_min 30 e) * 60 in
         case poll_subprocess None (le_loop_id e) (w_ms w + 1000 * secs) (of_nat secs) ts (w\<lparr>w_child := Active True\<rparr>) of
           (Died, ts', w') \<Rightarrow> (Died, ts', w')
         | (Ended (Inl x), ts', w') \<Rightarrow> (Ended (Inl x), ts', w')
         | (Ended (Inr out), ts', w') \<Rightarrow>
             if \<not> out_success out then (Ended (Inr ([], False)), ts', w')
             else
               (case discover_barrier_candidates env (unat (research_of rc_freshness_window_min 60 e) * 60) w' of
                  None \<Rightarrow> (Died, ts', w')
                | Some cs \<Rightarrow> (Ended (Inr (cs, research_of rc_auto_resume True e \<and>
                    \<not> research_of rc_require_human_approval False e)), ts', w'))))"

definition should_resume :: "string list \<times> bool \<Rightarrow> bool" where
  "should_resume r \<longleftrightarrow> snd r \<and> fst r \<noteq> []"

definition set_failures :: "u32 \<Rightarrow> loop_run_state \<Rightarrow> loop_run_state" where
  "set_failures n st = st\<lparr>rs_circuit_breaker := (rs_circuit_breaker st)\<lparr>cb_consecutive_failures := n\<rparr>\<rparr>"

definition failures :: "loop_run_state \<Rightarrow> u32" where
  "failures st = cb_consecutive_failures (rs_circuit_breaker st)"

text \<open>The circuit breaker counts runs that fail or are partial, and ends the run at its threshold.\<close>

definition circuit_breaker_step ::
  "loop_env \<Rightarrow> loop_registry_entry \<Rightarrow> string \<Rightarrow> loop_run_state \<Rightarrow> turns \<Rightarrow> loop_world \<Rightarrow>
    (loop_error + unit) outcome \<times> loop_run_state \<times> turns \<times> loop_world" where
  "circuit_breaker_step env e status st ts w =
     (if status = ''pass'' then (Ended (Inr ()), set_failures 0 st, ts, w)
      else if status = ''fail'' \<or> status = ''partial'' then
        (let st1 = set_failures (failures st + 1) st in
         if failures st1 \<ge> research_of rc_barrier_threshold 3 e then
           (if le_research_enabled e then
              (case barrier_escalation env e ts w of
                 (Died, ts', w') \<Rightarrow> (Died, st1, ts', w')
               | (Ended (Inl x), ts', w') \<Rightarrow> (Ended (Inl x), st1, ts', w')
               | (Ended (Inr r), ts', w') \<Rightarrow>
                   if should_resume r then (Ended (Inl (ResearchEscalation (fst r ! 0))), st1, ts', w')
                   else (Ended (Inl (ActionFailed ''awaiting human approval'')),
                     transition_phase (now_iso w') Escalated st1, ts', w'))
            else (Ended (Inl (ActionFailed ''circuit breaker'')), st1, ts, w))
         else (Ended (Inr ()), st1, ts, w))
      else (Ended (Inr ()), st, ts, w))"

section \<open>The run\<close>

definition fallback_profile :: "loop_registry_entry \<Rightarrow> loop_profile_config" where
  "fallback_profile e = \<lparr>lp_profile = le_profile e, lp_loop_capable = True, lp_closeout_mode = ''hard-block'',
     lp_review_gate = ''mandatory'', lp_spawn_first_nudge = True, lp_cost_budget = le_cost_budget e, lp_escalation = None,
     lp_interactive_capable = False, lp_pause_timeout_secs = None\<rparr>"

definition record_discovery :: "loop_action list \<Rightarrow> loop_run_state \<Rightarrow> loop_run_state" where
  "record_discovery as st = st\<lparr>rs_current_run := map_option (\<lambda>r. r\<lparr>cr_discovery :=
     Some \<lparr>dr_actions_found = of_nat (length as), dr_actions = as\<rparr>\<rparr>) (rs_current_run st)\<rparr>"

text \<open>The part from the verification on, with the results of the actions.\<close>

definition verify_run ::
  "loop_env \<Rightarrow> loop_registry_entry \<Rightarrow> string \<Rightarrow> loop_action list \<Rightarrow> run_vars \<Rightarrow> turns \<Rightarrow> loop_world \<Rightarrow>
    (loop_error + loop_closeout_aggregate) outcome \<times> loop_run_state \<times> turns \<times> loop_world" where
  "verify_run env e rid as rv ts w =
     (let st = transition_phase (now_iso w) Verifying (rv_state rv);
          g = build_aggregate rid (le_loop_id e) as (rv_results rv);
          w1 = w\<lparr>w_output := write_loop_output (w_disk w) g (w_output w)\<rparr>;
          g1 = quality_gate env e as w1 g;
          st1 = st\<lparr>rs_anti_drift := anti_drift_step env (le_loop_id e) w1 (rs_anti_drift st)\<rparr>
      in case circuit_breaker_step env e (ag_overall_status g1) st1 ts w1 of
           (Died, st2, ts', w2) \<Rightarrow> (Died, st2, ts', w2)
         | (Ended (Inl x), st2, ts', w2) \<Rightarrow> (Ended (Inl x), st2, ts', w2)
         | (Ended (Inr _), st2, ts', w2) \<Rightarrow>
             if ag_overall_status g1 = ''pass'' then
               (case sync_goal as w2 of
                  (Died, w3) \<Rightarrow> (Died, st2, ts', w3)
                | (Ended (Inl x), w3) \<Rightarrow> (Ended (Inl x), st2, ts', w3)
                | (Ended (Inr _), w3) \<Rightarrow> (Ended (Inr g1), st2, ts', w3))
             else (Ended (Inr g1), st2, ts', w2))"

definition run_loop_inner ::
  "loop_env \<Rightarrow> loop_registry_entry \<Rightarrow> u64 option \<Rightarrow> string \<Rightarrow> loop_run_state \<Rightarrow> turns \<Rightarrow> loop_world \<Rightarrow>
    (loop_error + loop_closeout_aggregate) outcome \<times> loop_run_state \<times> turns \<times> loop_world" where
  "run_loop_inner env e timeout rid st ts w =
     (let st0 = transition_phase (now_iso w) Discovering st in
      case discover_actions env e ts w of
        (Died, ts1, w1) \<Rightarrow> (Died, st0, ts1, w1)
      | (Ended (Inl x), ts1, w1) \<Rightarrow> (Ended (Inl x), st0, ts1, w1)
      | (Ended (Inr as), ts1, w1) \<Rightarrow>
          (let st1 = transition_phase (now_iso w1) Preflight (record_discovery as st0);
               profile = or_default (fallback_profile e) (from_runtime_registry (e_registry env) (le_profile e))
           in case assign_safety_levels e as [] of
                None \<Rightarrow> (Died, st1, ts1, w1)
              | Some levels \<Rightarrow>
                  (case check_budget_preflight (e_token_limit env) profile of
                     Inl x \<Rightarrow> (Ended (Inl x), st1, ts1, w1)
                   | Inr _ \<Rightarrow>
                       (case run_actions env e rid timeout levels as
                           \<lparr>rv_state = transition_phase (now_iso w1) Running st1, rv_results = [], rv_outputs = []\<rparr> ts1 w1 of
                          (Died, rv, ts2, w2) \<Rightarrow> (Died, rv_state rv, ts2, w2)
                        | (Ended (Inl x), rv, ts2, w2) \<Rightarrow> (Ended (Inl x), rv_state rv, ts2, w2)
                        | (Ended (Inr _), rv, ts2, w2) \<Rightarrow> verify_run env e rid as rv ts2 w2))))"

section \<open>The loop\<close>

text \<open>The completed entries of a run that was cut off are taken over into the new run.\<close>

definition rescued_dispatch :: "loop_run_state \<Rightarrow> (string, string) hmap" where
  "rescued_dispatch st = (case rs_current_run st of
     None \<Rightarrow> [] | Some r \<Rightarrow> filter (\<lambda>(_, s). s = ''done'') (cr_dispatch r))"

definition take_snapshot :: "string \<Rightarrow> loop_world \<Rightarrow> loop_run_state \<Rightarrow> loop_run_state" where
  "take_snapshot lid w st =
     (if ad_original_goal_snapshot (rs_anti_drift st) = None then
        (case read_goal_snapshot lid w of
           None \<Rightarrow> st
         | Some g \<Rightarrow> st\<lparr>rs_anti_drift := (rs_anti_drift st)
             \<lparr>ad_original_goal_snapshot := Some (gs_text g), ad_last_amended_at := gs_amended_at g\<rparr>\<rparr>)
      else st)"

definition begin_run :: "string \<Rightarrow> string \<Rightarrow> loop_world \<Rightarrow> loop_run_state \<Rightarrow> loop_run_state" where
  "begin_run lid rid w st =
     (let st1 = start_new_run (now_iso w) rid st;
          st2 = st1\<lparr>rs_current_run := map_option (\<lambda>r. r\<lparr>cr_dispatch := rescued_dispatch st\<rparr>) (rs_current_run st1)\<rparr>
      in transition_phase (now_iso w) Pending (take_snapshot lid w st2))"

definition dry_run ::
  "loop_env \<Rightarrow> loop_registry_entry \<Rightarrow> string \<Rightarrow> loop_run_state \<Rightarrow> turns \<Rightarrow> loop_world \<Rightarrow>
    (loop_error + loop_closeout_aggregate) outcome \<times> turns \<times> loop_world" where
  "dry_run env e rid st ts w =
     (let st1 = transition_phase (now_iso w) Discovering st in
      case discover_actions env e ts w of
        (Died, ts', w') \<Rightarrow> (Died, ts', w')
      | (Ended (Inl x), ts', w') \<Rightarrow> (Ended (Inl x), ts', w')
      | (Ended (Inr as), ts', w') \<Rightarrow>
          (case assign_safety_levels e as [] of
             None \<Rightarrow> (Died, ts', w')
           | Some _ \<Rightarrow>
               (let st2 = transition_phase (now_iso w') Completed (transition_phase (now_iso w') Preflight st1) in
                (Ended (Inr (build_aggregate rid (le_loop_id e) as (map (\<lambda>a. (la_action_id a, RSkipped)) as))), ts',
                 write_loop_state (finish_run ''dry-run'' st2) w'))))"

definition drop_guard :: "loop_world \<Rightarrow> loop_world" where
  "drop_guard w = w\<lparr>w_signals := snd (release_lock (w_removable w) (w_signals w))\<rparr>"

text \<open>The end of a run that returned an aggregate: its report, its state, the clean-up.\<close>

definition finish_success ::
  "loop_env \<Rightarrow> string \<Rightarrow> string \<Rightarrow> nat \<Rightarrow> loop_closeout_aggregate \<Rightarrow> loop_run_state \<Rightarrow> loop_world \<Rightarrow> loop_world" where
  "finish_success env lid rid lock_start g st w =
     (let findings = (case rs_current_run st of Some r \<Rightarrow> cr_unconsumed_findings r | None \<Rightarrow> []);
          text = render_loop_report env st g findings (Some ((w_ms w - lock_start) div 1000))
      in case write_loop_report env lid rid text w of (path, w1) \<Rightarrow>
           (let st1 = st\<lparr>rs_current_run := map_option (\<lambda>r. r\<lparr>cr_report_path := path, cr_closeout_aggregate := Some g\<rparr>)
                  (rs_current_run st)\<rparr>;
                st2 = finish_run (ag_overall_status g) (transition_phase (now_iso w1) Completed st1)
            in cleanup_loop_artifacts (write_loop_state st2 w1)))"

definition finish_error :: "loop_run_state \<Rightarrow> loop_world \<Rightarrow> loop_world" where
  "finish_error st w =
     cleanup_loop_artifacts (write_loop_state (finish_run ''escalated'' (transition_phase (now_iso w) Escalated st)) w)"

definition finish_research :: "loop_run_state \<Rightarrow> loop_world \<Rightarrow> loop_world" where
  "finish_research st w = write_loop_state (set_failures 0 (finish_run ''research_escalation'' st)) w"

text \<open>
  How a round ends: its outcome, or no outcome when the loop starts again after research. The
  guard of the lock is dropped either way.
\<close>

definition end_round ::
  "loop_env \<Rightarrow> string \<Rightarrow> string \<Rightarrow> nat \<Rightarrow> (loop_error + loop_closeout_aggregate) outcome \<Rightarrow> loop_run_state \<Rightarrow> loop_world \<Rightarrow>
    (loop_error + loop_closeout_aggregate) outcome option \<times> loop_world" where
  "end_round env lid rid lock_start r st w =
     (case r of
        Died \<Rightarrow> (Some Died, w)
      | Ended (Inr g) \<Rightarrow> (Some (Ended (Inr g)), drop_guard (finish_success env lid rid lock_start g st w))
      | Ended (Inl (ResearchEscalation m)) \<Rightarrow> (None, drop_guard (finish_research st w))
      | Ended (Inl x) \<Rightarrow> (Some (Ended (Inl x)), drop_guard (finish_error st w)))"

fun run_rounds ::
  "loop_env \<Rightarrow> loop_registry_entry \<Rightarrow> bool \<Rightarrow> u64 option \<Rightarrow> nat \<Rightarrow> turns \<Rightarrow> loop_world \<Rightarrow>
    (loop_error + loop_closeout_aggregate) outcome \<times> turns \<times> loop_world" where
  "run_rounds env e dry timeout depth ts w =
     (let lid = le_loop_id e;
          w0 = w\<lparr>w_signals := snd (clear_pause_state (w_removable w) (w_signals w))\<rparr>
      in case read_loop_state w0 of
           Inl x \<Rightarrow> (Ended (Inl x), ts, w0)
         | Inr found \<Rightarrow>
             (let rid = generate_run_id env lid w0;
                  st = begin_run lid rid w0 (or_default (create_initial_state (now_iso w0) lid (le_profile e)) found)
              in if dry then dry_run env e rid st ts w0
                 else case acquire_lock (e_parse_time env) (w_clock w0) (e_pid env) (w_removable w0) (w_creation w0) lid rid
                          (w_signals w0) of
                   (Inl x, s) \<Rightarrow> (Ended (Inl x), ts, w0\<lparr>w_signals := s\<rparr>)
                 | (Inr _, s) \<Rightarrow>
                     (case run_loop_inner env e timeout rid st ts (w0\<lparr>w_signals := s\<rparr>) of (z, st', ts', w') \<Rightarrow>
                      case end_round env lid rid (w_ms w0) z st' w' of
                        (Some r, w1) \<Rightarrow> (r, ts', w1)
                      | (None, w1) \<Rightarrow>
                          (case depth of
                             0 \<Rightarrow> (Ended (Inl (ResearchEscalation ''max recursion depth'')), ts', w1)
                           | Suc d \<Rightarrow> run_rounds env e dry timeout d ts' w1))))"

declare run_rounds.simps [simp del]

definition run_loop ::
  "loop_env \<Rightarrow> loop_registry_entry \<Rightarrow> bool \<Rightarrow> u64 option \<Rightarrow> u32 \<Rightarrow> turns \<Rightarrow> loop_world \<Rightarrow>
    (loop_error + loop_closeout_aggregate) outcome \<times> turns \<times> loop_world" where
  "run_loop env e dry timeout depth ts w =
     (case preflight_profile_check e of
        Inl x \<Rightarrow> (Ended (Inl x), ts, w)
      | Inr _ \<Rightarrow> run_rounds env e dry timeout (unat depth) ts w)"

section \<open>Requests\<close>

definition run_loop_pause :: "string \<Rightarrow> string option \<Rightarrow> loop_world \<Rightarrow> (loop_error + unit) \<times> loop_world" where
  "run_loop_pause lid feedback w =
     (let aid = (case read_pause_state (w_signals w) of Inr (Some p) \<Rightarrow> ps_action_id p | _ \<Rightarrow> ''unknown'') in
      case write_pause_signal (w_disk w) (w_clock w) lid aid feedback (w_signals w) of (r, s) \<Rightarrow> (r, w\<lparr>w_signals := s\<rparr>))"

definition run_loop_resume :: "string \<Rightarrow> loop_world \<Rightarrow> (loop_error + unit) \<times> loop_world" where
  "run_loop_resume lid w =
     (case write_resume_signal (w_disk w) (w_clock w) lid (w_signals w) of (r, s) \<Rightarrow> (r, w\<lparr>w_signals := s\<rparr>))"

definition run_loop_redirect :: "string \<Rightarrow> loop_world \<Rightarrow> (loop_error + unit) \<times> loop_world" where
  "run_loop_redirect lid w =
     (case write_redirect_signal (w_disk w) (w_clock w) lid ''redirected'' (w_signals w) of (r, s) \<Rightarrow> (r, w\<lparr>w_signals := s\<rparr>))"

definition run_loop_kill :: "(string \<Rightarrow> json_file) \<Rightarrow> string \<Rightarrow> loop_world \<Rightarrow> (loop_error + unit) \<times> loop_world" where
  "run_loop_kill parse_text lid w =
     (case write_kill_signal parse_text (w_disk w) (w_clock w) lid (w_signals w) of (r, s) \<Rightarrow> (r, w\<lparr>w_signals := s\<rparr>))"

definition run_loop_pause_status :: "loop_world \<Rightarrow> loop_error + pause_state option" where
  "run_loop_pause_status w = read_pause_state (w_signals w)"

definition run_loop_status :: "loop_world \<Rightarrow> loop_error + loop_run_state option" where
  "run_loop_status w = read_loop_state w"

end
