(* ===== verification/Loop_Invariants.thy ===== *)
theory Loop_Invariants
  imports Loop_Runner
begin

text \<open>
  What the actions of a run leave alone. A property of the world that survives the turns of
  others and the few changes the runner makes survives the whole middle part of a run; it is
  used for the lock a run holds and for the failures the state file remembers.
\<close>

section \<open>Invariants of the middle part\<close>

locale run_invariant =
  fixes env :: loop_env and P :: "loop_world \<Rightarrow> bool" and Q :: "loop_run_state \<Rightarrow> bool" and ok :: "(loop_world \<Rightarrow> loop_world) \<Rightarrow> bool"
  assumes turn: "ok t \<Longrightarrow> P w \<Longrightarrow> P (t w)"
    and checkout: "P w \<Longrightarrow> P (e_checkout env p w)"
    and child: "P w \<Longrightarrow> P (w\<lparr>w_child := c\<rparr>)"
    and signal: "P w \<Longrightarrow> sf_lock s = sf_lock (w_signals w) \<Longrightarrow> P (w\<lparr>w_signals := s\<rparr>)"
    and closeouts: "P w \<Longrightarrow> P (w\<lparr>w_closeouts := m\<rparr>)"
    and inputs: "P w \<Longrightarrow> P (w\<lparr>w_inputs := i\<rparr>)"
    and document: "P w \<Longrightarrow> P (w\<lparr>w_output := out\<rparr>)"
    and goals: "P w \<Longrightarrow> P (w\<lparr>w_goals := gs\<rparr>)"
    and handed: "P w \<Longrightarrow> P (w\<lparr>w_handed := h\<rparr>)"
    and diff_cache: "P w \<Longrightarrow> P (w\<lparr>w_diff_cache := d\<rparr>)"
    and written: "P w \<Longrightarrow> Q st \<Longrightarrow> P (write_loop_state st w)"
    and phase: "Q st \<Longrightarrow> Q (transition_phase now ph st)"
    and beat: "Q st \<Longrightarrow> Q (update_heartbeat now st)"
    and dispatch: "Q st \<Longrightarrow> Q (set_dispatch aid status st)"
    and discovery: "Q st \<Longrightarrow> Q (record_discovery as st)"
begin

lemma take_signal_keeps: "take_world_signal lid w = (r, w') \<Longrightarrow> P w \<Longrightarrow> P w'"
  by (auto simp: take_world_signal_def take_signal_def intro: signal
      split: json_file.splits option.splits sum.splits prod.splits if_splits)

lemma kill_keeps: "kill_child w = (r, w') \<Longrightarrow> P w \<Longrightarrow> P w'"
  by (auto simp: kill_child_def child split: if_splits)

lemma end_keeps: "end_child x w = (r, w') \<Longrightarrow> P w \<Longrightarrow> P w'"
  by (auto simp: end_child_def dest: kill_keeps split: prod.splits sum.splits)

lemma pause_keeps: "pause_child ctx lid timeout fb w = (r, w') \<Longrightarrow> P w \<Longrightarrow> P w'"
  by (auto simp: pause_child_def write_pause_state_def intro!: signal dest: end_keeps kill_keeps
      split: option.splits prod.splits sum.splits if_splits)

lemma deadline_keeps: "check_deadline d timeout w = (r, w') \<Longrightarrow> P w \<Longrightarrow> P w'"
  by (auto simp: check_deadline_def dest: end_keeps split: if_splits)

lemma once_keeps: "poll_once ctx lid deadline timeout w = (r, w') \<Longrightarrow> P w \<Longrightarrow> P w'"
  by (auto simp: poll_once_def child dest!: take_signal_keeps dest: end_keeps pause_keeps deadline_keeps
      split: child.splits prod.splits option.splits kill_signal_action.splits)

lemma poll_keeps:
  "poll_subprocess ctx lid deadline timeout ts w = (r, ts', w') \<Longrightarrow> P w \<Longrightarrow> list_all ok ts \<Longrightarrow> P w' \<and> list_all ok ts'"
proof (induction ts arbitrary: w)
  case Nil
  then show ?case by (subst (asm) poll_subprocess.simps) (auto dest: once_keeps split: prod.splits option.splits)
next
  case (Cons t ts)
  from Cons.prems show ?case
    by (subst (asm) poll_subprocess.simps)
      (auto dest!: Cons.IH once_keeps dest: turn split: prod.splits option.splits)
qed

lemma prepare_keeps: "prepare_action env lid rid a protocol w = (r, w') \<Longrightarrow> P w \<Longrightarrow> P w'"
  by (auto simp: prepare_action_def build_subagent_input_def inputs split: if_splits)

lemma action_keeps:
  "run_action_sync env lid rid a timeout protocol ts w = (r, ts', w') \<Longrightarrow> P w \<Longrightarrow> list_all ok ts \<Longrightarrow> P w' \<and> list_all ok ts'"
  by (auto simp: run_action_sync_def Let_def child dest!: poll_keeps dest: prepare_keeps
      split: option.splits prod.splits sum.splits if_splits outcome.splits loop_error.splits)

lemma diff_keeps: "resolve_cached_git_diff w = (r, w') \<Longrightarrow> P w \<Longrightarrow> P w'"
  by (auto simp: resolve_cached_git_diff_def diff_cache split: option.splits prod.splits if_splits)

lemma scope_keeps: "check_scope_compliance scope w = (r, w') \<Longrightarrow> P w \<Longrightarrow> P w'"
  by (auto simp: check_scope_compliance_def dest: diff_keeps split: prod.splits)

lemma judge_keeps: "judge_closeout env a c x w = (r, w') \<Longrightarrow> P w \<Longrightarrow> P w'"
  by (auto simp: judge_closeout_def Let_def dest: scope_keeps split: prod.splits if_splits)

lemma files_keep: "judge_files env lid rid a out w = (r, w') \<Longrightarrow> P w \<Longrightarrow> P w'"
  by (auto simp: judge_files_def dest: judge_keeps split: sum.splits option.splits)

lemma store_keeps: "P w \<Longrightarrow> P (store_closeout lid rid a c w)"
  by (simp add: store_closeout_def closeouts)

lemma evaluate_keeps: "evaluate_subagent_output env lid rid a out w = (r, w') \<Longrightarrow> P w \<Longrightarrow> P w'"
  by (auto simp: evaluate_subagent_output_def Let_def dest: judge_keeps files_keep store_keeps
      split: option.splits prod.splits if_splits)

lemma record_keeps:
  "record_output env lid rid a out rv w = (rv', w') \<Longrightarrow> P w \<Longrightarrow> Q (rv_state rv) \<Longrightarrow> P w' \<and> Q (rv_state rv')"
  by (auto simp: record_output_def Let_def push_result_def written dispatch dest!: evaluate_keeps
      split: prod.splits aggregate_action_result.splits)

lemma error_keeps: "record_error env aid x rv = (r, rv') \<Longrightarrow> Q (rv_state rv) \<Longrightarrow> Q (rv_state rv')"
  by (auto simp: record_error_def push_result_def dispatch split: loop_error.splits)

lemma hand_keeps: "P w \<Longrightarrow> P (hand_outputs ids m w)"
  unfolding hand_outputs_def by (induction ids arbitrary: w) (auto simp: handed split: option.splits)

lemma reset_keeps: "P w \<Longrightarrow> P (reset_scope_paths env scope w)"
  unfolding reset_scope_paths_def by (induction scope arbitrary: w) (auto intro: checkout)

lemma feedback_keeps: "P w \<Longrightarrow> P (update_feedback fb w)"
  by (auto simp: update_feedback_def read_pause_state_def write_pause_state_def intro!: signal split: option.splits sum.splits)

lemma pause_deadline_keeps: "pause_deadline d w = (r, w') \<Longrightarrow> P w \<Longrightarrow> P w'"
  by (auto simp: pause_deadline_def clear_pause_state_def intro!: signal split: if_splits)

lemma pause_once_keeps: "pause_once lid d w = (r, w') \<Longrightarrow> P w \<Longrightarrow> P w'"
  by (auto simp: pause_once_def dest!: take_signal_keeps dest: pause_deadline_keeps feedback_keeps
      split: prod.splits option.splits kill_signal_action.splits)

lemma refresh_keeps: "P w \<Longrightarrow> P (w\<lparr>w_signals := snd (refresh_lock b (w_signals w))\<rparr>)"
  by (rule signal) (auto simp: refresh_lock_def)

lemma wait_keeps:
  "pause_wait_loop lid d lr ts w = (r, ts', w') \<Longrightarrow> P w \<Longrightarrow> list_all ok ts \<Longrightarrow> P w' \<and> list_all ok ts'"
proof (induction ts arbitrary: w lr)
  case Nil
  then show ?case
    by (subst (asm) pause_wait_loop.simps)
      (auto simp: Let_def dest!: pause_once_keeps intro: refresh_keeps split: prod.splits option.splits if_splits)
next
  case (Cons t ts)
  from Cons.prems show ?case
    by (subst (asm) pause_wait_loop.simps)
      (auto simp: Let_def dest!: Cons.IH pause_once_keeps intro: refresh_keeps turn split: prod.splits option.splits if_splits)
qed

lemma enter_keeps: "enter_pause st w = (st', w') \<Longrightarrow> P w \<Longrightarrow> Q st \<Longrightarrow> P w' \<and> Q st'"
  by (auto simp: enter_pause_def Let_def written phase)

lemma drop_keeps: "P w \<Longrightarrow> P (drop_pause w)"
  by (auto simp: drop_pause_def clear_pause_state_def intro!: signal)

lemma leave_keeps: "leave_pause st w = (st', w') \<Longrightarrow> P w \<Longrightarrow> Q st \<Longrightarrow> P w' \<and> Q st'"
  using drop_keeps by (auto simp: leave_pause_def Let_def written phase beat drop_pause_def)

lemma exec_keeps:
  "exec_action env lid rid a timeout protocol st ts w = (r, st', ts', w') \<Longrightarrow> P w \<Longrightarrow> Q st \<Longrightarrow> list_all ok ts \<Longrightarrow>
     P w' \<and> Q st' \<and> list_all ok ts'"
proof (induction "length ts" arbitrary: st ts w rule: less_induct)
  case less
  obtain x ts1 w1 where s: "run_action_sync env lid rid a timeout protocol ts w = (x, ts1, w1)" by (cases rule: prod_cases3)
  have k: "P w1" "list_all ok ts1" using action_keeps [OF s less.prems(2,4)] by auto
  show ?case
  proof (cases "\<exists>e. x = Ended (Inl e) \<and> is_pause e")
    case False
    have "exec_action env lid rid a timeout protocol st ts w = (x, st, ts1, w1)"
      using False by (subst exec_action.simps) (auto simp: s split: outcome.splits sum.splits)
    then show ?thesis using less.prems k by simp
  next
    case True
    then obtain e where e: "x = Ended (Inl e)" "is_pause e" by blast
    obtain st1 w2 where p: "enter_pause st w1 = (st1, w2)" by force
    have k2: "P w2" "Q st1" using enter_keeps [OF p k(1) less.prems(3)] by auto
    obtain y ts2 w3 where q: "pause_wait_loop lid (w_ms w2 + 1000 * unat PAUSE_TIMEOUT_SECS) (w_ms w2) ts1 w2 = (y, ts2, w3)"
      by (cases rule: prod_cases3)
    have k3: "P w3" "list_all ok ts2" using wait_keeps [OF q k2(1) k(2)] by auto
    obtain st2 w4 where l: "leave_pause st1 w3 = (st2, w4)" by force
    have k4: "P w4" "Q st2" using leave_keeps [OF l k3(1) k2(2)] by auto
    have eq: "exec_action env lid rid a timeout protocol st ts w =
      (case y of
         Died \<Rightarrow> (Died, st1, ts2, w3)
       | Ended (Inr PResume) \<Rightarrow> exec_action env lid rid a timeout protocol st2 ts2 (reset_scope_paths env (la_scope_paths a) w4)
       | Ended (Inr PRedirect) \<Rightarrow> (Ended (Inl (Redirected ''redirected during pause'')), st2, ts2, w4)
       | Ended (Inr PKill) \<Rightarrow> (Ended (Inl (KillSignaled ''killed during pause'')), st1, ts2, drop_pause w3)
       | Ended (Inl z) \<Rightarrow> (Ended (Inl z), st1, ts2, drop_pause w3))"
      by (subst exec_action.simps) (simp add: s e p q l split: outcome.splits sum.splits pause_command.splits)
    show ?thesis
    proof (cases "y = Ended (Inr PResume)")
      case True
      then have d: "length ts2 < length ts" using exec_action_decreases s e p q by blast
      show ?thesis using less.hyps [OF d _ reset_keeps [OF k4(1)] k4(2) k3(2)] less.prems(1) True by (simp add: eq)
    next
      case False
      then show ?thesis using less.prems(1) k2 k3 k4 drop_keeps
        by (auto simp: eq split: outcome.splits sum.splits pause_command.splits)
    qed
  qed
qed

lemma run_action_keeps:
  assumes "run_action env e rid timeout levels a rv ts w = (r, rv', ts', w')" "P w" "Q (rv_state rv)" "list_all ok ts"
  shows "P w' \<and> Q (rv_state rv') \<and> list_all ok ts'"
  using assms
  by (auto simp: run_action_def Let_def push_result_def dispatch beat hand_keeps
      dest!: exec_keeps dest: record_keeps error_keeps
      split: if_splits outcome.splits sum.splits prod.splits)

lemma run_actions_keep:
  "run_actions env e rid timeout levels as rv ts w = (r, rv', ts', w') \<Longrightarrow> P w \<Longrightarrow> Q (rv_state rv) \<Longrightarrow> list_all ok ts \<Longrightarrow>
     P w' \<and> Q (rv_state rv') \<and> list_all ok ts'"
proof (induction as arbitrary: rv ts w)
  case (Cons a as)
  obtain x rv1 ts1 w1 where s: "run_action env e rid timeout levels a rv ts w = (x, rv1, ts1, w1)" by (cases rule: prod_cases4)
  note k = run_action_keeps [OF s Cons.prems(2-4)]
  then show ?case using Cons.prems(1) Cons.IH [of rv1 ts1 w1] by (auto simp: s split: outcome.splits sum.splits)
qed auto

lemma discover_keeps:
  "discover_actions env e ts w = (r, ts', w') \<Longrightarrow> P w \<Longrightarrow> list_all ok ts \<Longrightarrow> P w' \<and> list_all ok ts'"
  by (auto simp: discover_actions_def child dest!: poll_keeps split: if_splits option.splits outcome.splits sum.splits prod.splits)

lemma barrier_keeps:
  "barrier_escalation env e ts w = (r, ts', w') \<Longrightarrow> P w \<Longrightarrow> list_all ok ts \<Longrightarrow> P w' \<and> list_all ok ts'"
  by (auto simp: barrier_escalation_def Let_def child dest!: poll_keeps
      split: if_splits option.splits outcome.splits sum.splits prod.splits)

lemma breaker_keeps:
  "circuit_breaker_step env e status st ts w = (r, st', ts', w') \<Longrightarrow> P w \<Longrightarrow> list_all ok ts \<Longrightarrow> P w' \<and> list_all ok ts'"
  by (auto simp: circuit_breaker_step_def Let_def dest!: barrier_keeps
      split: if_splits outcome.splits sum.splits prod.splits)

lemma sync_keeps: "sync_goal as w = (r, w') \<Longrightarrow> P w \<Longrightarrow> P w'"
  by (auto simp: sync_goal_def Let_def goals split: if_splits option.splits sum.splits prod.splits json.splits)

lemma verify_keeps:
  "verify_run env e rid as rv ts w = (r, st', ts', w') \<Longrightarrow> P w \<Longrightarrow> list_all ok ts \<Longrightarrow> P w' \<and> list_all ok ts'"
  by (auto simp: verify_run_def Let_def document dest!: breaker_keeps dest: sync_keeps
      split: if_splits outcome.splits sum.splits prod.splits)

text \<open>The whole middle part keeps the property, and up to the verification the state keeps its own.\<close>

lemma inner_keeps:
  assumes "run_loop_inner env e timeout rid st ts w = (r, st', ts', w')" "P w" "Q st" "list_all ok ts"
  shows "P w' \<and> list_all ok ts'"
proof -
  obtain x ts1 w1 where d: "discover_actions env e ts w = (x, ts1, w1)" by (cases rule: prod_cases3)
  note k = discover_keeps [OF d assms(2,4)]
  define st1 where "st1 as = transition_phase (now_iso w1) Running (transition_phase (now_iso w1) Preflight
      (record_discovery as (transition_phase (now_iso w) Discovering st)))" for as
  have q: "Q (st1 as)" for as using assms(3) by (simp add: st1_def phase discovery)
  show ?thesis
  proof (cases "\<exists>as levels p. x = Ended (Inr as) \<and> assign_safety_levels e as [] = Some levels \<and>
      check_budget_preflight (e_token_limit env) (or_default (fallback_profile e)
        (from_runtime_registry (e_registry env) (le_profile e))) = Inr p")
    case True
    then obtain as levels p where c: "x = Ended (Inr as)" "assign_safety_levels e as [] = Some levels"
        "check_budget_preflight (e_token_limit env) (or_default (fallback_profile e)
          (from_runtime_registry (e_registry env) (le_profile e))) = Inr p" by blast
    obtain y rv ts2 w2 where a: "run_actions env e rid timeout levels as \<lparr>rv_state = st1 as, rv_results = [], rv_outputs = []\<rparr> ts1 w1
        = (y, rv, ts2, w2)" by (cases rule: prod_cases4)
    have k2: "P w2" "list_all ok ts2" using run_actions_keep [OF a] k q by auto
    then show ?thesis using assms(1) a unfolding run_loop_inner_def
      by (auto simp: Let_def d c st1_def dest: verify_keeps split: outcome.splits sum.splits)
  next
    case False
    then show ?thesis using assms(1) k unfolding run_loop_inner_def
      by (auto simp: Let_def d split: outcome.splits sum.splits option.splits)
  qed
qed

end

section \<open>Invariants of the state\<close>

text \<open>A property of the state that survives the verification too holds to the end of the middle part.\<close>

locale state_invariant = run_invariant +
  assumes counted: "Q st \<Longrightarrow> Q (set_failures n st)"
    and drifted: "Q st \<Longrightarrow> Q (st\<lparr>rs_anti_drift := anti_drift_step env lid w (rs_anti_drift st)\<rparr>)"
begin

lemma breaker_keeps_state: "circuit_breaker_step env e status st ts w = (r, st', ts', w') \<Longrightarrow> Q st \<Longrightarrow> Q st'"
  by (auto simp: circuit_breaker_step_def Let_def counted phase split: if_splits outcome.splits sum.splits prod.splits)

lemma verify_keeps_state:
  assumes "verify_run env e rid as rv ts w = (r, st', ts', w')" "Q (rv_state rv)"
  shows "Q st'"
proof -
  have "Q ((transition_phase now ph (rv_state rv))\<lparr>rs_anti_drift :=
      anti_drift_step env lid v (rs_anti_drift (transition_phase now ph (rv_state rv)))\<rparr>)" for now ph lid v
    using assms(2) by (intro drifted phase)
  then show ?thesis using assms(1)
    by (auto simp: verify_run_def Let_def dest: breaker_keeps_state split: if_splits outcome.splits sum.splits prod.splits)
qed

lemma inner_keeps_state:
  assumes "run_loop_inner env e timeout rid st ts w = (r, st', ts', w')" "P w" "Q st" "list_all ok ts"
  shows "Q st'"
proof -
  obtain x ts1 w1 where d: "discover_actions env e ts w = (x, ts1, w1)" by (cases rule: prod_cases3)
  note k = discover_keeps [OF d assms(2,4)]
  have q: "Q (transition_phase now Discovering st)" for now using assms(3) by (rule phase)
  have q1: "Q (transition_phase t1 p1 (record_discovery as (transition_phase t2 p2 st)))"
      "Q (transition_phase t0 p0 (transition_phase t1 p1 (record_discovery as (transition_phase t2 p2 st))))"
    for t0 p0 t1 p1 t2 p2 as using assms(3) by (intro phase discovery; assumption)+
  have a: "Q (rv_state rv')" if "run_actions env e rid timeout levels as
      \<lparr>rv_state = transition_phase t0 p0 (transition_phase t1 p1 (record_discovery as (transition_phase t2 p2 st))),
       rv_results = [], rv_outputs = []\<rparr> ts1 w1 = (y, rv', ts2, w2)" for t0 p0 t1 p1 t2 p2 as levels y rv' ts2 w2
    using run_actions_keep [OF that] k q1(2) by simp
  show ?thesis using assms(1) q q1
    by (auto simp: run_loop_inner_def Let_def d dest!: a dest: verify_keeps_state
        split: outcome.splits sum.splits option.splits prod.splits)
qed

end

end
