(* ===== verification/Loop_Properties.thy ===== *)
theory Loop_Properties
  imports Loop_Invariants
begin

text \<open>
  What holds of whole loop runs: the lock is held throughout, the failure count never carries
  over, a finished run leaves none of its documents, and the stored state keeps its type.
\<close>

section \<open>Invariants of runs\<close>

definition keeps_removable :: "(loop_world \<Rightarrow> loop_world) \<Rightarrow> bool" where
  "keeps_removable t \<longleftrightarrow> (\<forall>w. w_removable w \<longrightarrow> w_removable (t w))"

definition fresh :: "loop_world \<Rightarrow> bool" where
  "fresh w \<longleftrightarrow> (\<forall>s. w_state w = Stored s \<longrightarrow> failures s = 0)"

definition keeps_fresh :: "(loop_world \<Rightarrow> loop_world) \<Rightarrow> bool" where
  "keeps_fresh t \<longleftrightarrow> (\<forall>w. w_removable w \<and> fresh w \<longrightarrow> w_removable (t w) \<and> fresh (t w))"

definition checkout_is :: "((loop_world \<Rightarrow> loop_world) \<Rightarrow> bool) \<Rightarrow> loop_env \<Rightarrow> bool" where
  "checkout_is keeps env \<longleftrightarrow> (\<forall>p. keeps (e_checkout env p))"

lemma failures_simps [simp]:
  "failures (transition_phase now p st) = failures st" "failures (update_heartbeat now st) = failures st"
  "failures (set_dispatch aid s st) = failures st" "failures (record_discovery as st) = failures st"
  "failures (set_failures n st) = n" "failures (start_new_run now rid st) = failures st"
  "failures (finish_run out st) = failures st" "failures (create_initial_state now lid prof) = 0"
  "failures (st\<lparr>rs_anti_drift := ad\<rparr>) = failures st" "failures (st\<lparr>rs_current_run := r\<rparr>) = failures st"
  by (simp_all add: failures_def transition_phase_def set_phase_def update_heartbeat_def set_dispatch_def record_discovery_def
      set_failures_def start_new_run_def finish_run_def create_initial_state_def circuit_breaker_default_def split: option.splits)

lemma fresh_simps [simp]:
  "fresh (w\<lparr>w_child := c\<rparr>) = fresh w" "fresh (w\<lparr>w_signals := s\<rparr>) = fresh w" "fresh (w\<lparr>w_closeouts := m\<rparr>) = fresh w"
  "fresh (w\<lparr>w_inputs := i\<rparr>) = fresh w" "fresh (w\<lparr>w_output := out\<rparr>) = fresh w" "fresh (w\<lparr>w_goals := gs\<rparr>) = fresh w"
  "fresh (w\<lparr>w_handed := h\<rparr>) = fresh w" "fresh (w\<lparr>w_diff_cache := d\<rparr>) = fresh w"
  by (simp_all add: fresh_def)

lemma fresh_written: "fresh w \<Longrightarrow> failures st = 0 \<Longrightarrow> fresh (write_loop_state st w) \<and> w_removable (write_loop_state st w) = w_removable w"
  by (simp add: fresh_def write_loop_state_def)

text \<open>
  What rivals do to the lock in a turn: they may try to acquire it, any number of times and with
  whatever comes of the creation of the file, at a clock that is less than an hour after the time
  given; what else happens in the turn may change all but the lock.
\<close>

inductive rivals :: "(string \<Rightarrow> u64 option) \<Rightarrow> u64 \<times> string \<Rightarrow> loop_signals \<Rightarrow> loop_signals \<Rightarrow> bool" for parse now where
  others: "sf_lock g = sf_lock f \<Longrightarrow> rivals parse now f g"
| attempt: "rivals parse now f g \<Longrightarrow> fst now \<le> fst later \<Longrightarrow> fst later - fst now < LOOP_LOCK_MAX_AGE_SECS \<Longrightarrow>
    sf_lock h = sf_lock (snd (acquire_lock parse later pid removable creation lid rid g)) \<Longrightarrow> rivals parse now f h"

definition rival_turn :: "(string \<Rightarrow> u64 option) \<Rightarrow> u64 \<times> string \<Rightarrow> (loop_world \<Rightarrow> loop_world) \<Rightarrow> bool" where
  "rival_turn parse now t \<longleftrightarrow> (\<forall>w. rivals parse now (w_signals w) (w_signals (t w)))"

lemma rivals_fail:
  assumes "rivals parse now f g" "sf_lock f = Holds (lock_json (snd now) pid lid rid)" "parse (snd now) = Some (fst now)"
  shows "sf_lock g = Holds (lock_json (snd now) pid lid rid)"
  using assms
proof (induction rule: rivals.induct)
  case (attempt f g later h pid' removable creation lid' rid')
  then have "read_lock_info parse g = Inr (Some (\<lparr>lk_loop_id = lid, lk_run_id = rid, lk_acquired_at = snd now\<rparr>, fst now))"
    by (simp add: read_lock_info_def lock_roundtrip or_default_def)
  then show ?case using attempt by (simp add: acquire_lock_def)
qed simp

interpretation lock_inv: run_invariant env
    "\<lambda>w. parse (snd now) = Some (fst now) \<and> checkout_is (rival_turn parse now) env \<longrightarrow>
       sf_lock (w_signals w) = Holds (lock_json (snd now) pid lid rid)" "\<lambda>_. True" "rival_turn parse now"
  for env parse now pid lid rid
proof
  fix t and w :: loop_world
  assume "rival_turn parse now t" "parse (snd now) = Some (fst now) \<and> checkout_is (rival_turn parse now) env \<longrightarrow>
       sf_lock (w_signals w) = Holds (lock_json (snd now) pid lid rid)"
  then show "parse (snd now) = Some (fst now) \<and> checkout_is (rival_turn parse now) env \<longrightarrow>
       sf_lock (w_signals (t w)) = Holds (lock_json (snd now) pid lid rid)"
    unfolding rival_turn_def using rivals_fail by blast
next
  fix p and w :: loop_world
  assume "parse (snd now) = Some (fst now) \<and> checkout_is (rival_turn parse now) env \<longrightarrow>
       sf_lock (w_signals w) = Holds (lock_json (snd now) pid lid rid)"
  then show "parse (snd now) = Some (fst now) \<and> checkout_is (rival_turn parse now) env \<longrightarrow>
       sf_lock (w_signals (e_checkout env p w)) = Holds (lock_json (snd now) pid lid rid)"
    unfolding rival_turn_def checkout_is_def using rivals_fail by blast
qed (auto simp: write_loop_state_def)

interpretation removable_inv: run_invariant env
    "\<lambda>w. checkout_is keeps_removable env \<longrightarrow> w_removable w" "\<lambda>_. True" keeps_removable for env
  by unfold_locales (auto simp: keeps_removable_def checkout_is_def write_loop_state_def)

interpretation fresh_inv: run_invariant env
    "\<lambda>w. checkout_is keeps_fresh env \<longrightarrow> w_removable w \<and> fresh w" "\<lambda>st. failures st = 0" keeps_fresh for env
  by unfold_locales (simp_all add: keeps_fresh_def checkout_is_def fresh_written)

section \<open>The lock\<close>

text \<open>
  When the quality gate lets a run stand: it is switched off, there is no task to judge, no gate is
  registered, or the gate answers that the task passed.
\<close>

definition gate_accepts :: "loop_env \<Rightarrow> loop_registry_entry \<Rightarrow> loop_action list \<Rightarrow> loop_world \<Rightarrow> bool" where
  "gate_accepts env e as w \<longleftrightarrow> le_verify_quality_gate e = Some False \<or> gate_task as = [] \<or>
     (case e_gate env of
        None \<Rightarrow> True
      | Some gate \<Rightarrow> (case gate (gate_payload env (le_loop_id e) (gate_task as) w) of
          Inl _ \<Rightarrow> False
        | Inr v \<Rightarrow> jget_with as_bool v ''passed'' = Some True))"

lemma gate_decides:
  "ag_overall_status (quality_gate env e as w g) =
     (if ag_overall_status g = ''pass'' \<and> \<not> gate_accepts env e as w then ''fail'' else ag_overall_status g) \<and>
   ag_actions (quality_gate env e as w g) = ag_actions g \<and> ag_partial (quality_gate env e as w g) = ag_partial g"
  by (auto simp: quality_gate_def gate_accepts_def or_default_def split: option.splits sum.splits)

lemma gate_payload_output: "gate_payload env lid t (w\<lparr>w_output := out\<rparr>) = gate_payload env lid t w"
proof -
  have "read_goal_state_raw t (w\<lparr>w_output := out\<rparr>) = read_goal_state_raw t w"
    unfolding read_goal_state_raw_def by (cases "safe_task_id_component t") simp_all
  then show ?thesis by (simp add: gate_payload_def goal_scene_def)
qed

lemma gate_ignores_output: "gate_accepts env e as (w\<lparr>w_output := out\<rparr>) = gate_accepts env e as w"
  unfolding gate_accepts_def gate_payload_output ..

lemma verify_ends:
  "verify_run env e rid as rv ts w = (Ended (Inr g), st', ts', w') \<Longrightarrow>
     g = quality_gate env e as (w\<lparr>w_output := write_loop_output (w_disk w) (build_aggregate rid (le_loop_id e) as (rv_results rv)) (w_output w)\<rparr>)
       (build_aggregate rid (le_loop_id e) as (rv_results rv))"
  by (auto simp: verify_run_def Let_def split: prod.splits outcome.splits sum.splits if_splits)

text \<open>
  C36: The verdict of a run: it fails when an action failed, whatever else happened, or when all
  actions were skipped or committed but the quality gate does not accept; it is partial when none
  failed but one was interrupted or has no result, the gate is then not asked; and it passes exactly
  when all were skipped or committed and the gate accepts. The results are those the actions
  discovered got in this run, and each of them has its entry, in order.
\<close>

theorem run_verdict:
  assumes "run_loop_inner env e timeout rid st ts w = (Ended (Inr g), st', ts', w')"
  shows "\<exists>as ts1 w1 levels st0 rv ts2 w2.
    discover_actions env e ts w = (Ended (Inr as), ts1, w1) \<and> assign_safety_levels e as [] = Some levels \<and>
    run_actions env e rid timeout levels as \<lparr>rv_state = st0, rv_results = [], rv_outputs = []\<rparr> ts1 w1 = (Ended (Inr ()), rv, ts2, w2) \<and>
    ag_actions g = map (\<lambda>a. aggregate_entry a (map_of (rv_results rv) (la_action_id a))) as \<and>
    ag_overall_status g =
      (if \<exists>a \<in> set as. \<exists>why. map_of (rv_results rv) (la_action_id a) = Some (RFailed why) then ''fail''
       else if \<exists>a \<in> set as. map_of (rv_results rv) (la_action_id a) \<in> {None, Some RInterrupted} then ''partial''
       else if gate_accepts env e as w2 then ''pass'' else ''fail'')"
proof -
  from assms obtain as ts1 w1 levels st0 rv ts2 w2 where
    "discover_actions env e ts w = (Ended (Inr as), ts1, w1)" "assign_safety_levels e as [] = Some levels"
    "run_actions env e rid timeout levels as \<lparr>rv_state = st0, rv_results = [], rv_outputs = []\<rparr> ts1 w1 = (Ended (Inr ()), rv, ts2, w2)"
    and v: "verify_run env e rid as rv ts2 w2 = (Ended (Inr g), st', ts', w')"
    unfolding run_loop_inner_def by (auto simp: Let_def split: prod.splits outcome.splits sum.splits option.splits)
  moreover have "ag_actions g = map (\<lambda>a. aggregate_entry a (map_of (rv_results rv) (la_action_id a))) as"
    unfolding verify_ends [OF v] by (simp add: gate_decides aggregate_decides)
  moreover have "ag_overall_status g =
      (if \<exists>a \<in> set as. \<exists>why. map_of (rv_results rv) (la_action_id a) = Some (RFailed why) then ''fail''
       else if \<exists>a \<in> set as. map_of (rv_results rv) (la_action_id a) \<in> {None, Some RInterrupted} then ''partial''
       else if gate_accepts env e as w2 then ''pass'' else ''fail'')"
    unfolding verify_ends [OF v] by (auto simp: gate_decides aggregate_decides gate_ignores_output)
  ultimately show ?thesis by blast
qed

text \<open>
  C19: Against rivals that try to acquire the lock within the hour, a run keeps it: from its
  acquisition to the end of its middle part, whatever it waits for, whatever signals it handles and
  however it ends, the lock file names this loop and this run, and dropping the guard then removes
  it, if it can be removed.
\<close>

theorem run_holds_lock:
  assumes "acquire_lock parse (w_clock w) pid removable creation lid rid (w_signals w) = (Inr (), s)"
    "run_loop_inner env e timeout rid st ts (w\<lparr>w_signals := s\<rparr>) = (r, st', ts', w')"
    "parse (snd (w_clock w)) = Some (fst (w_clock w))"
    "checkout_is (rival_turn parse (w_clock w)) env" "list_all (rival_turn parse (w_clock w)) ts"
  shows "sf_lock (w_signals w') = Holds (lock_json (snd (w_clock w)) pid lid rid) \<and>
    (w_removable w' \<longrightarrow> sf_lock (w_signals (drop_guard w')) = Missing)"
proof -
  have "sf_lock s = Holds (lock_json (snd (w_clock w)) pid lid rid)"
    using assms(1) by (cases creation) (auto simp: acquire_lock_def split: sum.splits option.splits if_splits)
  then have "sf_lock (w_signals w') = Holds (lock_json (snd (w_clock w)) pid lid rid)"
    using lock_inv.inner_keeps [OF assms(2), of parse "w_clock w" pid lid rid] assms(3-5) by simp
  then show ?thesis by (auto simp: drop_guard_def release_lock_def)
qed

section \<open>What a run leaves\<close>

lemma finish_leaves_nothing:
  assumes "w_removable (finish_success env lid rid t g st w) \<or> w_removable w"
  shows "w_state (finish_success env lid rid t g st w) = Absent \<and> w_output (finish_success env lid rid t g st w) = Missing \<and>
    w_reports (finish_success env lid rid t g st w) = [] \<and> w_closeouts (finish_success env lid rid t g st w) = [] \<and>
    w_inputs (finish_success env lid rid t g st w) = [] \<and> w_results (finish_success env lid rid t g st w) = [] \<and>
    w_handed (finish_success env lid rid t g st w) = [] \<and>
    sf_signal (w_signals (finish_success env lid rid t g st w)) = Missing \<and>
    sf_pause (w_signals (finish_success env lid rid t g st w)) = None"
  using assms
  by (auto simp: finish_success_def Let_def write_loop_report_def cleanup_loop_artifacts_def write_loop_state_def
      split: prod.splits if_splits)

lemma finish_error_leaves_nothing: "w_removable w \<Longrightarrow> w_state (finish_error st w) = Absent"
  by (auto simp: finish_error_def cleanup_loop_artifacts_def write_loop_state_def)

lemma drop_guard_simps [simp]:
  "w_state (drop_guard w) = w_state w" "w_output (drop_guard w) = w_output w" "w_reports (drop_guard w) = w_reports w"
  "w_closeouts (drop_guard w) = w_closeouts w" "w_removable (drop_guard w) = w_removable w" "fresh (drop_guard w) = fresh w"
  "w_inputs (drop_guard w) = w_inputs w" "w_results (drop_guard w) = w_results w" "w_handed (drop_guard w) = w_handed w"
  "sf_signal (w_signals (drop_guard w)) = sf_signal (w_signals w)" "sf_pause (w_signals (drop_guard w)) = sf_pause (w_signals w)"
  by (simp_all add: drop_guard_def fresh_def release_lock_def)

lemma drop_guard_lock: "w_removable w \<Longrightarrow> sf_lock (w_signals (drop_guard w)) = Missing"
  by (simp add: drop_guard_def release_lock_def)

lemma finish_removable [simp]:
  "w_removable (finish_success env lid rid t g st w) = w_removable w" "w_removable (finish_error st w) = w_removable w"
  "w_removable (finish_research st w) = w_removable w"
  by (auto simp: finish_success_def finish_error_def finish_research_def Let_def write_loop_report_def
      cleanup_loop_artifacts_def write_loop_state_def split: prod.splits)

section \<open>The circuit breaker\<close>

fun quiet :: "loop_error \<Rightarrow> bool" where
  "quiet (ResearchEscalation _) = False"
| "quiet (ActionFailed _) = False"
| "quiet _ = True"

lemma end_child_quiet: "end_child e w = (Some (Inl x), w') \<Longrightarrow> quiet e \<Longrightarrow> quiet x"
  by (auto simp: end_child_def kill_child_def io_error_def split: if_splits)

lemma pause_child_quiet: "pause_child ctx lid timeout fb w = (Some (Inl x), w') \<Longrightarrow> quiet x"
  by (auto simp: pause_child_def kill_child_def write_pause_state_def io_error_def dest: end_child_quiet
      split: option.splits if_splits)

lemma poll_once_quiet: "poll_once ctx lid deadline timeout w = (Some (Inl x), w') \<Longrightarrow> quiet x"
  by (auto simp: poll_once_def check_deadline_def io_error_def dest: end_child_quiet pause_child_quiet
      split: child.splits prod.splits option.splits kill_signal_action.splits if_splits)

lemma poll_quiet: "poll_subprocess ctx lid deadline timeout ts w = (Ended (Inl x), ts', w') \<Longrightarrow> quiet x"
proof (induction ts arbitrary: w)
  case Nil
  then show ?case by (subst (asm) poll_subprocess.simps) (auto dest: poll_once_quiet split: prod.splits option.splits)
next
  case (Cons t ts)
  from Cons.prems show ?case
    by (subst (asm) poll_subprocess.simps) (auto dest!: Cons.IH dest: poll_once_quiet split: prod.splits option.splits)
qed

lemma discover_quiet: "discover_actions env e ts w = (Ended (Inl x), ts', w') \<Longrightarrow> quiet x"
  by (auto simp: discover_actions_def dest: poll_quiet split: if_splits option.splits outcome.splits sum.splits prod.splits)

lemma run_action_quiet: "run_action env e rid timeout levels a rv ts w = (Ended (Inl x), rv', ts', w') \<Longrightarrow> quiet x"
  by (auto simp: run_action_def Let_def record_error_def
      split: if_splits outcome.splits sum.splits prod.splits loop_error.splits)

lemma run_actions_quiet: "run_actions env e rid timeout levels as rv ts w = (Ended (Inl x), rv', ts', w') \<Longrightarrow> quiet x"
proof (induction as arbitrary: rv ts w)
  case (Cons a as)
  obtain y rv1 ts1 w1 where s: "run_action env e rid timeout levels a rv ts w = (y, rv1, ts1, w1)" by (cases rule: prod_cases4)
  then show ?case using Cons.prems Cons.IH [of rv1 ts1 w1] run_action_quiet
    by (auto split: outcome.splits sum.splits)
qed simp

lemma budget_quiet: "check_budget_preflight n p = Inl x \<Longrightarrow> quiet x"
  by (auto simp: check_budget_preflight_def split: option.splits if_splits)

lemma breaker_waits:
  assumes "failures st = 0" "2 \<le> research_of rc_barrier_threshold 3 e"
  shows "\<exists>st'. circuit_breaker_step env e status st ts w = (Ended (Inr ()), st', ts, w)"
proof -
  have "(1 :: u32) < 2" by simp
  then have "\<not> research_of rc_barrier_threshold 3 e \<le> 1" using assms(2) by (meson leD less_le_trans)
  then show ?thesis using assms(1) by (simp add: circuit_breaker_step_def Let_def)
qed

lemma breaker_no_error:
  "failures st = 0 \<Longrightarrow> 2 \<le> research_of rc_barrier_threshold 3 e \<Longrightarrow>
     circuit_breaker_step env e status st ts w \<noteq> (Ended (Inl x), st', ts', w')"
  using breaker_waits [of st e env status ts w] by auto

lemma sync_quiet: "sync_goal as w = (Ended (Inl x), w') \<Longrightarrow> quiet x"
  by (auto simp: sync_goal_def Let_def io_error_def split: if_splits option.splits sum.splits json.splits)

lemma failures_drift [simp]: "failures (st\<lparr>rs_anti_drift := ad\<rparr>) = failures st"
  by (simp add: failures_def)

lemma verify_quiet:
  assumes "verify_run env e rid as rv ts w = (Ended (Inl x), st', ts', w')" "failures (rv_state rv) = 0"
    "2 \<le> research_of rc_barrier_threshold 3 e"
  shows "quiet x"
  using assms
  by (auto simp: verify_run_def Let_def breaker_no_error dest: sync_quiet split: outcome.splits sum.splits prod.splits if_splits)

lemma inner_quiet:
  assumes "run_loop_inner env e timeout rid st ts w = (Ended (Inl x), st', ts', w')" "failures st = 0"
    "2 \<le> research_of rc_barrier_threshold 3 e" "w_removable w" "fresh w" "checkout_is keeps_fresh env" "list_all keeps_fresh ts"
  shows "quiet x"
proof -
  obtain y ts1 w1 where d: "discover_actions env e ts w = (y, ts1, w1)" by (cases rule: prod_cases3)
  have dq: "y = Ended (Inl z) \<Longrightarrow> quiet z" for z using d discover_quiet by blast
  have k: "w_removable w1" "fresh w1" "list_all keeps_fresh ts1"
    using fresh_inv.discover_keeps [OF d] assms(4-7) by auto
  define st1 where "st1 as = transition_phase (now_iso w1) Running (transition_phase (now_iso w1) Preflight
      (record_discovery as (transition_phase (now_iso w) Discovering st)))" for as
  have q: "failures (st1 as) = 0" for as using assms(2) by (simp add: st1_def)
  show ?thesis
  proof (cases "\<exists>as levels p. y = Ended (Inr as) \<and> assign_safety_levels e as [] = Some levels \<and>
      check_budget_preflight (e_token_limit env) (or_default (fallback_profile e)
        (from_runtime_registry (e_registry env) (le_profile e))) = Inr p")
    case True
    then obtain as levels p where c: "y = Ended (Inr as)" "assign_safety_levels e as [] = Some levels"
        "check_budget_preflight (e_token_limit env) (or_default (fallback_profile e)
          (from_runtime_registry (e_registry env) (le_profile e))) = Inr p" by blast
    obtain z rv ts2 w2 where a: "run_actions env e rid timeout levels as \<lparr>rv_state = st1 as, rv_results = [], rv_outputs = []\<rparr> ts1 w1
        = (z, rv, ts2, w2)" by (cases rule: prod_cases4)
    have "failures (rv_state rv) = 0" using fresh_inv.run_actions_keep [OF a] k q assms(6) by simp
    then show ?thesis using assms(1) a unfolding run_loop_inner_def
      by (auto simp: Let_def d c st1_def dest: verify_quiet [OF _ _ assms(3)] run_actions_quiet split: outcome.splits sum.splits)
  next
    case False
    then show ?thesis using assms(1) dq unfolding run_loop_inner_def
      by (auto simp: Let_def d dest: budget_quiet split: outcome.splits sum.splits option.splits)
  qed
qed

lemma begin_run_failures [simp]: "failures (begin_run lid rid w st) = failures st"
  by (simp add: begin_run_def take_snapshot_def Let_def split: option.splits)

lemma finish_fresh: "w_removable w \<Longrightarrow> fresh (finish_success env lid rid t g st w)" "w_removable w \<Longrightarrow> fresh (finish_error st w)"
  using finish_leaves_nothing finish_error_leaves_nothing by (simp_all add: fresh_def)

lemma dry_run_fresh:
  assumes "dry_run env e rid st ts w = (r, ts', w')" "failures st = 0" "w_removable w" "fresh w"
    "checkout_is keeps_fresh env" "list_all keeps_fresh ts"
  shows "w_removable w' \<and> fresh w' \<and> (\<forall>x. r = Ended (Inl x) \<longrightarrow> quiet x)"
proof -
  obtain y ts1 w1 where d: "discover_actions env e ts w = (y, ts1, w1)" by (cases rule: prod_cases3)
  have "w_removable w1" "fresh w1" using fresh_inv.discover_keeps [OF d] assms(3-6) by auto
  then show ?thesis using assms(1,2) d discover_quiet
    by (auto simp: dry_run_def Let_def fresh_written split: outcome.splits sum.splits option.splits)
qed

lemma end_round_fresh:
  assumes "w_removable w" "fresh w" "\<And>x. z = Ended (Inl x) \<Longrightarrow> quiet x"
  shows "\<exists>w1. end_round env lid rid t z st w = (Some z, w1) \<and> w_removable w1 \<and> fresh w1"
proof (cases z)
  case Died
  then show ?thesis using assms by (simp add: end_round_def)
next
  case (Ended r)
  then show ?thesis using assms finish_fresh [OF assms(1)]
    by (cases r) (auto simp: end_round_def split: loop_error.splits)
qed

text \<open>
  C10: The circuit breaker of a threshold above one never fires: as every run that ends deletes
  the file with the count of failures, each run starts at zero failures, so no run, and no
  sequence of runs, ends suspended or escalated to research.
\<close>

theorem breaker_never_fires:
  assumes "run_loop env e dry timeout depth ts w = (r, ts', w')" "2 \<le> research_of rc_barrier_threshold 3 e"
    "w_removable w" "fresh w" "checkout_is keeps_fresh env" "list_all keeps_fresh ts"
  shows "w_removable w' \<and> fresh w' \<and> (\<forall>m. r \<noteq> Ended (Inl (ResearchEscalation m))) \<and>
    r \<noteq> Ended (Inl (ActionFailed ''circuit breaker'')) \<and> r \<noteq> Ended (Inl (ActionFailed ''awaiting human approval''))"
proof (cases "preflight_profile_check e")
  case (Inl x)
  then show ?thesis using assms by (auto simp: run_loop_def preflight_profile_check_def split: if_splits)
next
  case (Inr u)
  define w0 where "w0 = w\<lparr>w_signals := snd (clear_pause_state (w_removable w) (w_signals w))\<rparr>"
  define rid where "rid = generate_run_id env (le_loop_id e) w0"
  have w0: "w_removable w0" "fresh w0" using assms(3,4) by (simp_all add: w0_def)
  have rr: "run_rounds env e dry timeout (unat depth) ts w = (r, ts', w')" using assms(1) Inr by (simp add: run_loop_def)
  show ?thesis
  proof (cases "read_loop_state w0")
    case (Inl x)
    then have "r = Ended (Inl x)" "w' = w0" using rr by (auto simp: run_rounds.simps Let_def w0_def)
    then show ?thesis using w0 Inl
      by (auto simp: read_loop_state_def io_error_def serde_error_def split: stored.splits)
  next
    case (Inr found)
    define st where "st = begin_run (le_loop_id e) rid w0
      (or_default (create_initial_state (now_iso w0) (le_loop_id e) (le_profile e)) found)"
    have q: "failures st = 0" using w0(2) Inr
      by (auto simp: st_def or_default_def read_loop_state_def fresh_def split: option.splits stored.splits)
    show ?thesis
    proof (cases dry)
      case True
      then have "dry_run env e rid st ts w0 = (r, ts', w')"
        using rr Inr by (simp add: run_rounds.simps Let_def w0_def [symmetric] rid_def st_def)
      from dry_run_fresh [OF this q w0 assms(5,6)] show ?thesis by auto
    next
      case False
      obtain y s where l: "acquire_lock (e_parse_time env) (w_clock w0) (e_pid env) (w_removable w0) (w_creation w0)
          (le_loop_id e) rid (w_signals w0) = (y, s)" by force
      show ?thesis
      proof (cases y)
        case (Inl x)
        then have "r = Ended (Inl x)" "w' = w0\<lparr>w_signals := s\<rparr>"
          using rr Inr False l by (auto simp: run_rounds.simps Let_def w0_def [symmetric] rid_def st_def)
        moreover have "x = io_error \<or> x = serde_error \<or> x = ActionFailed ''active'' \<or> x = ActionFailed ''race''"
          using l Inl by (cases "w_creation w0") (auto simp: acquire_lock_def read_lock_info_def split: json_file.splits option.splits if_splits)
        ultimately show ?thesis using w0 by (auto simp: io_error_def serde_error_def)
      next
        case (Inr v)
        obtain z st' ts2 w2 where i: "run_loop_inner env e timeout rid st ts (w0\<lparr>w_signals := s\<rparr>) = (z, st', ts2, w2)"
          by (cases rule: prod_cases4)
        have k: "w_removable w2" "fresh w2" using fresh_inv.inner_keeps [OF i] q w0 assms(5,6) by auto
        have n: "quiet x" if "z = Ended (Inl x)" for x
          using inner_quiet [OF i [unfolded that] q assms(2)] w0 assms(5,6) by simp
        obtain w3 where "end_round env (le_loop_id e) rid (w_ms w0) z st' w2 = (Some z, w3)" "w_removable w3" "fresh w3"
          using end_round_fresh [OF k n] by blast
        then show ?thesis using rr \<open>read_loop_state w0 = Inr found\<close> False l Inr i n
          by (auto simp: run_rounds.simps Let_def w0_def [symmetric] rid_def st_def)
      qed
    qed
  qed
qed

definition sample_env :: loop_env where
  "sample_env = \<lparr>e_repo = ''/r'', e_binary = Some ''agent'', e_v1 = False, e_token_limit = 10, e_registry = None, e_gate = None,
     e_pid = 1, e_parse = (\<lambda>_. None), e_parse_time = (\<lambda>_. None), e_run_stamp = (\<lambda>_ _. ''s''), e_date = (\<lambda>_. False),
     e_alnum = (\<lambda>_. True), e_lossy = (\<lambda>s. s), e_reason = (\<lambda>_ _. ''reason''), e_error_text = (\<lambda>_. ''error''),
     e_score = (\<lambda>_. ''0''), e_upper = (\<lambda>s. s), e_checkout = (\<lambda>_ w. w)\<rparr>"

lemma sample_env_checkout: "checkout_is (rival_turn parse now) sample_env" "checkout_is keeps_fresh sample_env"
  "checkout_is keeps_removable sample_env"
  by (simp_all add: checkout_is_def rival_turn_def rivals.others keeps_fresh_def keeps_removable_def sample_env_def)

lemma breaker_never_fires_witness:
  "fst (run_loop sample_env (sample_entry []) False None 5 [] idle_world) \<noteq> Ended (Inl (ActionFailed ''circuit breaker''))"
proof -
  obtain r ts w where e: "run_loop sample_env (sample_entry []) False None 5 [] idle_world = (r, ts, w)" by (cases rule: prod_cases3)
  have "2 \<le> research_of rc_barrier_threshold 3 (sample_entry [])" "w_removable idle_world" "fresh idle_world"
    by (simp_all add: research_of_def sample_entry_def idle_world_def fresh_def)
  then show ?thesis
    using breaker_never_fires [OF e] sample_env_checkout(2) unfolding e by simp
qed

definition rival_attempt :: "loop_world \<Rightarrow> loop_world" where
  "rival_attempt w = w\<lparr>w_signals := snd (acquire_lock (\<lambda>_. Some 0) (3599, ''u'') 2 True Created ''m'' ''q'' (w_signals w))\<rparr>"

lemma rival_attempt_turn: "rival_turn (\<lambda>_. Some 0) (0, ''t'') rival_attempt"
  unfolding rival_turn_def rival_attempt_def
  by (auto intro!: rivals.attempt [OF rivals.others [OF refl], where later = "(3599, ''u'')" and pid = 2 and removable = True
        and creation = Created and lid = "''m''" and rid = "''q''"] simp: LOOP_LOCK_MAX_AGE_SECS_def)

lemma run_holds_lock_witness:
  "sf_lock (w_signals (snd (snd (snd (run_loop_inner sample_env (sample_entry []) None ''r''
     (create_initial_state ''t'' ''l'' ''p'') [rival_attempt, rival_attempt]
     (idle_world\<lparr>w_clock := (0, ''t''), w_signals := no_signals\<lparr>sf_lock := Holds (lock_json ''t'' 1 ''l'' ''r'')\<rparr>\<rparr>))))))
   = Holds (lock_json ''t'' 1 ''l'' ''r'')"
proof -
  let ?w = "idle_world\<lparr>w_clock := (0, ''t'')\<rparr>" and ?s = "no_signals\<lparr>sf_lock := Holds (lock_json ''t'' 1 ''l'' ''r'')\<rparr>"
  have a: "acquire_lock (\<lambda>_. Some 0) (w_clock ?w) 1 True Created ''l'' ''r'' (w_signals ?w) = (Inr (), ?s)"
    by (subst acquire_free) (simp_all add: idle_world_def no_signals_def)
  obtain r st ts w where e: "run_loop_inner sample_env (sample_entry []) None ''r'' (create_initial_state ''t'' ''l'' ''p'')
      [rival_attempt, rival_attempt] (?w\<lparr>w_signals := ?s\<rparr>) = (r, st, ts, w)"
    by (cases rule: prod_cases4)
  show ?thesis using run_holds_lock [OF a e] sample_env_checkout(1) rival_attempt_turn unfolding e by simp
qed

section \<open>Documents of a run\<close>

text \<open>
  C37: A run that is not dry and ends with an aggregate leaves no file behind, when its files can
  be removed: the output document, which is written for others to read, the report, the inputs
  and results of its actions, the closeouts, the files handed over, the signal, the pause state,
  the lock and the run state with its history are all gone when it returns.
\<close>

theorem run_leaves_nothing:
  assumes "run_loop env e False timeout depth ts w = (Ended (Inr g), ts', w')" "w_removable w"
    "checkout_is keeps_removable env" "list_all keeps_removable ts"
  shows "w_state w' = Absent \<and> w_output w' = Missing \<and> w_reports w' = [] \<and> w_closeouts w' = [] \<and>
    w_inputs w' = [] \<and> w_results w' = [] \<and> w_handed w' = [] \<and>
    sf_signal (w_signals w') = Missing \<and> sf_pause (w_signals w') = None \<and> sf_lock (w_signals w') = Missing \<and> w_removable w'"
proof -
  have "w_state w' = Absent \<and> w_output w' = Missing \<and> w_reports w' = [] \<and> w_closeouts w' = [] \<and>
    w_inputs w' = [] \<and> w_results w' = [] \<and> w_handed w' = [] \<and>
    sf_signal (w_signals w') = Missing \<and> sf_pause (w_signals w') = None \<and> sf_lock (w_signals w') = Missing \<and> w_removable w'"
    if "run_rounds env e False timeout d ts w = (Ended (Inr g), ts', w')" "w_removable w" "list_all keeps_removable ts" for d
    using that
  proof (induction d arbitrary: ts w rule: less_induct)
    case (less d)
    define w0 where "w0 = w\<lparr>w_signals := snd (clear_pause_state (w_removable w) (w_signals w))\<rparr>"
    define rid where "rid = generate_run_id env (le_loop_id e) w0"
    obtain found where f: "read_loop_state w0 = Inr found"
      using less.prems(1) by (cases "read_loop_state w0") (auto simp: run_rounds.simps [of _ _ _ _ d] Let_def w0_def)
    define st where "st = begin_run (le_loop_id e) rid w0
      (or_default (create_initial_state (now_iso w0) (le_loop_id e) (le_profile e)) found)"
    obtain s where l: "acquire_lock (e_parse_time env) (w_clock w0) (e_pid env) (w_removable w0) (w_creation w0)
        (le_loop_id e) rid (w_signals w0) = (Inr (), s)"
      using less.prems(1) f
      by (cases "acquire_lock (e_parse_time env) (w_clock w0) (e_pid env) (w_removable w0) (w_creation w0)
          (le_loop_id e) rid (w_signals w0)")
        (auto simp: run_rounds.simps [of _ _ _ _ d] Let_def w0_def [symmetric] rid_def split: sum.splits)
    obtain z st' ts2 w2 where i: "run_loop_inner env e timeout rid st ts (w0\<lparr>w_signals := s\<rparr>) = (z, st', ts2, w2)"
      by (cases rule: prod_cases4)
    have k: "w_removable w2" "list_all keeps_removable ts2"
      using removable_inv.inner_keeps [OF i] less.prems(2,3) assms(3) by (simp_all add: w0_def)
    obtain o1 w3 where n: "end_round env (le_loop_id e) rid (w_ms w0) z st' w2 = (o1, w3)" by force
    note eq = less.prems(1) [unfolded run_rounds.simps [of _ _ _ _ d] Let_def, folded w0_def rid_def]
    show ?case
    proof (cases o1)
      case (Some r)
      then have "z = Ended (Inr g)" "w' = w3" using eq f l i n
        by (auto simp: st_def end_round_def split: outcome.splits sum.splits loop_error.splits)
      then show ?thesis using n k(1) finish_leaves_nothing by (auto simp: end_round_def drop_guard_lock)
    next
      case None
      then obtain d' where "d = Suc d'" "run_rounds env e False timeout d' ts2 w3 = (Ended (Inr g), ts', w')"
        using eq f l i n by (cases d) (auto simp: st_def)
      moreover have "w_removable w3" using n k(1) None
        by (auto simp: end_round_def split: outcome.splits sum.splits loop_error.splits)
      ultimately show ?thesis using less.IH [of d'] k(2) by simp
    qed
  qed
  then show ?thesis using assms(1,2,4) by (auto simp: run_loop_def split: sum.splits)
qed

definition quiet_entry :: loop_registry_entry where
  "quiet_entry = (sample_entry [])\<lparr>le_static_actions := Some [sample_action []], le_verify_quality_gate := Some False\<rparr>"

lemma run_leaves_nothing_witness:
  "w_output (snd (snd (run_loop sample_env quiet_entry False None 5 [] idle_world))) = Missing \<and>
   (\<exists>g. fst (run_loop sample_env quiet_entry False None 5 [] idle_world) = Ended (Inr g) \<and> ag_overall_status g = ''pass'')"
proof -
  define s where "s = no_signals\<lparr>sf_lock := Holds (lock_json ''t'' 1 ''loop'' ''run-s-loop'')\<rparr>"
  define st where "st = begin_run ''loop'' ''run-s-loop'' idle_world (create_initial_state ''t'' ''loop'' ''loop-auto'')"
  have "(case run_loop_inner sample_env quiet_entry None ''run-s-loop'' st [] (idle_world\<lparr>w_signals := s\<rparr>) of
      (Ended (Inr g), _, _) \<Rightarrow> ag_overall_status g = ''pass'' | _ \<Rightarrow> False)" unfolding s_def st_def by code_simp
  then obtain g st' ts w where i: "ag_overall_status g = ''pass''"
      "run_loop_inner sample_env quiet_entry None ''run-s-loop'' st [] (idle_world\<lparr>w_signals := s\<rparr>) = (Ended (Inr g), st', ts, w)"
    by (cases "run_loop_inner sample_env quiet_entry None ''run-s-loop'' st [] (idle_world\<lparr>w_signals := s\<rparr>)" rule: prod_cases4)
      (auto split: outcome.splits sum.splits)
  have c: "preflight_profile_check quiet_entry = Inr ()" "le_loop_id quiet_entry = ''loop''" "le_profile quiet_entry = ''loop-auto''"
      "generate_run_id sample_env ''loop'' idle_world = ''run-s-loop''" "now_iso idle_world = ''t''"
      "read_loop_state idle_world = Inr None" "clear_pause_state (w_removable idle_world) (w_signals idle_world) = (Inr (), w_signals idle_world)"
      "acquire_lock (e_parse_time sample_env) (w_clock idle_world) (e_pid sample_env) (w_removable idle_world)
         (w_creation idle_world) ''loop'' ''run-s-loop'' (w_signals idle_world) = (Inr (), s)"
    by (simp_all add: preflight_profile_check_def quiet_entry_def sample_entry_def generate_run_id_def sample_env_def
        idle_world_def now_iso_def read_loop_state_def clear_pause_state_def no_signals_def s_def acquire_free)
  have e: "run_loop sample_env quiet_entry False None 5 [] idle_world =
      (Ended (Inr g), ts, drop_guard (finish_success sample_env ''loop'' ''run-s-loop'' (w_ms idle_world) g st' w))"
    by (simp add: run_loop_def run_rounds.simps Let_def c or_default_def st_def [symmetric] i(2) end_round_def)
  have "w_removable idle_world" by (simp add: idle_world_def)
  then show ?thesis using run_leaves_nothing [OF e] sample_env_checkout(3) i(1) unfolding e by simp
qed

lemma run_verdict_witness:
  "\<exists>g. fst (run_loop_inner sample_env quiet_entry None ''r'' (create_initial_state ''t'' ''l'' ''p'') [] idle_world) = Ended (Inr g) \<and>
     ag_overall_status g = ''pass'' \<and> length (ag_actions g) = 1"
proof -
  have "(case run_loop_inner sample_env quiet_entry None ''r'' (create_initial_state ''t'' ''l'' ''p'') [] idle_world of
      (Ended (Inr g), _, _) \<Rightarrow> ag_overall_status g = ''pass'' \<and> length (ag_actions g) = 1 | _ \<Rightarrow> False)" by code_simp
  then obtain g st' ts w where "ag_overall_status g = ''pass''" "length (ag_actions g) = 1"
      and i: "run_loop_inner sample_env quiet_entry None ''r'' (create_initial_state ''t'' ''l'' ''p'') [] idle_world = (Ended (Inr g), st', ts, w)"
    by (cases "run_loop_inner sample_env quiet_entry None ''r'' (create_initial_state ''t'' ''l'' ''p'') [] idle_world" rule: prod_cases4)
      (auto split: outcome.splits sum.splits)
  then show ?thesis using run_verdict [OF i] unfolding i by simp
qed

section \<open>The type of the stored state\<close>

definition well_typed :: "loop_run_state \<Rightarrow> bool" where
  "well_typed st \<longleftrightarrow> (\<exists>p. rs_phase st = phase_str p) \<and> length (rs_history st) \<le> MAX_HISTORY_ENTRIES \<and>
     length (ad_drift_check_history (rs_anti_drift st)) \<le> 20"

definition typed_world :: "loop_world \<Rightarrow> bool" where
  "typed_world w \<longleftrightarrow> (\<forall>s. w_state w = Stored s \<longrightarrow> well_typed s)"

definition keeps_typed :: "(loop_world \<Rightarrow> loop_world) \<Rightarrow> bool" where
  "keeps_typed t \<longleftrightarrow> (\<forall>w. typed_world w \<longrightarrow> typed_world (t w))"

lemma typed_world_simps [simp]:
  "typed_world (w\<lparr>w_child := c\<rparr>) = typed_world w" "typed_world (w\<lparr>w_signals := s\<rparr>) = typed_world w"
  "typed_world (w\<lparr>w_closeouts := m\<rparr>) = typed_world w" "typed_world (w\<lparr>w_inputs := i\<rparr>) = typed_world w"
  "typed_world (w\<lparr>w_output := out\<rparr>) = typed_world w" "typed_world (w\<lparr>w_goals := gs\<rparr>) = typed_world w"
  "typed_world (w\<lparr>w_handed := h\<rparr>) = typed_world w" "typed_world (w\<lparr>w_diff_cache := d\<rparr>) = typed_world w"
  "typed_world (w\<lparr>w_reports := rs\<rparr>) = typed_world w"
  by (simp_all add: typed_world_def)

lemma typed_written: "typed_world w \<Longrightarrow> well_typed st \<Longrightarrow> typed_world (write_loop_state st w)"
  by (simp add: typed_world_def write_loop_state_def)

lemma well_typed_transition: "well_typed st \<Longrightarrow> well_typed (transition_phase now p st)"
  by (auto simp: well_typed_def transition_phase_def set_phase_def)

lemma well_typed_simps [simp]:
  "well_typed (update_heartbeat now st) = well_typed st" "well_typed (set_dispatch aid s st) = well_typed st"
  "well_typed (record_discovery as st) = well_typed st" "well_typed (set_failures n st) = well_typed st"
  "well_typed (start_new_run now rid st) = well_typed st" "well_typed (st\<lparr>rs_current_run := r\<rparr>) = well_typed st"
  by (simp_all add: well_typed_def update_heartbeat_def set_dispatch_def record_discovery_def set_failures_def start_new_run_def)

lemma drift_history_bounded:
  "length (ad_drift_check_history ad) \<le> 20 \<Longrightarrow> length (ad_drift_check_history (anti_drift_step env lid w ad)) \<le> 20"
  by (auto simp: anti_drift_step_def check_drift_def note_amendment_def count_cycle_def Let_def keep_last_length
      split: option.splits)

lemma well_typed_drift:
  "well_typed st \<Longrightarrow> well_typed (st\<lparr>rs_anti_drift := anti_drift_step env lid w (rs_anti_drift st)\<rparr>)"
  by (simp add: well_typed_def drift_history_bounded)

interpretation typed_inv: state_invariant env "\<lambda>w. checkout_is keeps_typed env \<longrightarrow> typed_world w" well_typed keeps_typed for env
  by unfold_locales (simp_all add: keeps_typed_def checkout_is_def typed_written well_typed_transition well_typed_drift)

lemma well_typed_finish: "well_typed st \<Longrightarrow> well_typed (finish_run x st)"
  by (auto simp: well_typed_def finish_run_def keep_last_length split: option.splits)

lemma well_typed_initial: "well_typed (create_initial_state now lid profile)"
  by (auto simp: well_typed_def create_initial_state_def anti_drift_default_def simp del: phase_str.simps)

lemma well_typed_begin: "well_typed st \<Longrightarrow> well_typed (begin_run lid rid w st)"
proof -
  assume t: "well_typed st"
  have "well_typed (take_snapshot lid w s)" if "well_typed s" for s
    using that by (auto simp: take_snapshot_def well_typed_def split: option.splits)
  then show ?thesis using t by (simp add: begin_run_def Let_def well_typed_transition)
qed

lemma typed_cleanup: "typed_world w \<Longrightarrow> typed_world (cleanup_loop_artifacts w)"
  by (simp add: typed_world_def cleanup_loop_artifacts_def)

lemma typed_end_round:
  assumes "typed_world w" "well_typed st"
  shows "typed_world (snd (end_round env lid rid t z st w))"
proof -
  have d: "typed_world (drop_guard v) = typed_world v" for v by (simp add: drop_guard_def)
  have "typed_world (finish_success env lid rid t g st w)" for g
    unfolding finish_success_def Let_def write_loop_report_def
    using assms by (auto intro!: typed_cleanup typed_written well_typed_finish well_typed_transition split: prod.splits if_splits)
  moreover have "typed_world (finish_error st w)" unfolding finish_error_def
    using assms by (intro typed_cleanup typed_written well_typed_finish well_typed_transition)
  moreover have "typed_world (finish_research st w)" unfolding finish_research_def
    using assms by (intro typed_written) (simp_all add: well_typed_finish)
  ultimately show ?thesis using assms(1)
    by (auto simp: end_round_def d split: outcome.splits sum.splits loop_error.splits)
qed

lemma typed_dry_run:
  assumes "dry_run env e rid st ts w = (r, ts', w')" "typed_world w" "well_typed st" "checkout_is keeps_typed env" "list_all keeps_typed ts"
  shows "typed_world w'"
proof -
  obtain x ts1 w1 where d: "discover_actions env e ts w = (x, ts1, w1)" by (cases rule: prod_cases3)
  have "typed_world w1" using typed_inv.discover_keeps [OF d] assms(2,4,5) by simp
  then show ?thesis using assms(1,3)
    by (auto simp: dry_run_def Let_def d intro!: typed_written well_typed_finish well_typed_transition
        split: outcome.splits sum.splits option.splits)
qed

text \<open>
  C33: The stored run state keeps its type: whatever ends a run, a crash included, its phase is
  one of the nine phases, its history has at most a hundred entries and its drift checks at
  most twenty.
\<close>

theorem stored_state_typed:
  assumes "run_loop env e dry timeout depth ts w = (r, ts', w')" "typed_world w" "checkout_is keeps_typed env"
    "list_all keeps_typed ts"
  shows "typed_world w'"
proof -
  have "typed_world w'"
    if "run_rounds env e dry timeout d ts w = (r, ts', w')" "typed_world w" "list_all keeps_typed ts" for d
    using that
  proof (induction d arbitrary: ts w rule: less_induct)
    case (less d)
    define w0 where "w0 = w\<lparr>w_signals := snd (clear_pause_state (w_removable w) (w_signals w))\<rparr>"
    define rid where "rid = generate_run_id env (le_loop_id e) w0"
    have w0: "typed_world w0" using less.prems(2) by (simp add: w0_def)
    note eq = less.prems(1) [unfolded run_rounds.simps [of _ _ _ _ d] Let_def, folded w0_def rid_def]
    show ?case
    proof (cases "read_loop_state w0")
      case (Inl x)
      then show ?thesis using eq w0 by simp
    next
      case (Inr found)
      define st where "st = begin_run (le_loop_id e) rid w0
        (or_default (create_initial_state (now_iso w0) (le_loop_id e) (le_profile e)) found)"
      have st: "well_typed st" using w0 Inr unfolding st_def
        by (intro well_typed_begin)
          (auto simp: or_default_def read_loop_state_def typed_world_def well_typed_initial split: option.splits stored.splits)
      show ?thesis
      proof (cases dry)
        case True
        then show ?thesis using eq Inr typed_dry_run [OF _ w0 st assms(3) less.prems(3)] by (simp add: st_def)
      next
        case False
        obtain y s where l: "acquire_lock (e_parse_time env) (w_clock w0) (e_pid env) (w_removable w0) (w_creation w0)
            (le_loop_id e) rid (w_signals w0) = (y, s)" by force
        obtain z st' ts2 w2 where i: "run_loop_inner env e timeout rid st ts (w0\<lparr>w_signals := s\<rparr>) = (z, st', ts2, w2)"
          by (cases rule: prod_cases4)
        have k: "typed_world w2" "list_all keeps_typed ts2" "well_typed st'"
          using typed_inv.inner_keeps [OF i] typed_inv.inner_keeps_state [OF i] w0 st less.prems(3) assms(3) by simp_all
        obtain x w3 where n: "end_round env (le_loop_id e) rid (w_ms w0) z st' w2 = (x, w3)" by force
        have "typed_world w3" using typed_end_round [OF k(1,3)] n by (metis snd_conv)
        then show ?thesis using eq Inr False l i n w0 k(2) less.IH
          by (auto simp: st_def split: sum.splits option.splits nat.splits)
      qed
    qed
  qed
  then show ?thesis using assms by (auto simp: run_loop_def split: sum.splits)
qed

lemma stored_state_typed_witness:
  "typed_world (snd (snd (run_loop sample_env quiet_entry False None 5 [pass_time 2000] (idle_world\<lparr>w_state := Stored (create_initial_state ''t'' ''l'' ''p'')\<rparr>))))"
proof -
  obtain r ts w where e: "run_loop sample_env quiet_entry False None 5 [pass_time 2000] (idle_world\<lparr>w_state := Stored (create_initial_state ''t'' ''l'' ''p'')\<rparr>) = (r, ts, w)"
    by (cases rule: prod_cases3)
  have "well_typed (create_initial_state ''t'' ''l'' ''p'')" by (rule well_typed_initial)
  then have "typed_world (idle_world\<lparr>w_state := Stored (create_initial_state ''t'' ''l'' ''p'')\<rparr>)" by (simp add: typed_world_def)
  moreover have "checkout_is keeps_typed sample_env" by (simp add: checkout_is_def keeps_typed_def sample_env_def)
  moreover have "keeps_typed (pass_time 2000)" by (simp add: keeps_typed_def typed_world_def pass_time_def)
  ultimately show ?thesis using stored_state_typed [OF e] unfolding e by simp
qed

end
