(* ===== verification/Loop_Outcomes.thy ===== *)
theory Loop_Outcomes
  imports Loop_Properties
begin

text \<open>
  What becomes of single actions: when one counts as committed, what a checkpoint saves of it,
  and what signals do to it.
\<close>

section \<open>Commits\<close>









definition bare_success :: subagent_result where
  "bare_success = \<lparr>sr_success = True, sr_stdout = [], sr_stderr = [], sr_parsed_output = None\<rparr>"


text \<open>
  The scope of an action is checked against everything the working tree shows as changed:
  a change an earlier action made in its own scope fails a later action with another scope,
  whatever that delivered. Within ten seconds of the last look the old list is used, and a
  new change is not seen.
\<close>

theorem scope_check_by_tree:
  assumes "la_scope_paths b \<noteq> []" "f \<in> set (diff_lines (w_diff w))" "\<forall>s \<in> set (la_scope_paths b). \<not> starts_with f s"
    "read_action_record (file_at (w_closeouts w) (action_key rid (la_action_id b))) = Inr (Some r)" "sr_parsed_output out = None"
  shows "(w_diff_cache w = None \<longrightarrow> (\<exists>why. fst (evaluate_subagent_output env lid rid b out w) = RFailed why)) \<and>
    (w_ms w < at0 + 10000 \<longrightarrow> fst (check_scope_compliance (la_scope_paths b) (w\<lparr>w_diff_cache := Some (at0, [])\<rparr>)) = [])"
proof -
  have "\<exists>why. fst (evaluate_subagent_output env lid rid b out w) = RFailed why" if n: "w_diff_cache w = None"
  proof -
    have out: "filter (\<lambda>f. \<not> list_ex (starts_with f) (la_scope_paths b)) (diff_lines (w_diff w)) \<noteq> []"
      using assms(2,3) by (force simp: filter_empty_conv list_ex_iff)
    obtain xs w1 where c: "check_scope_compliance (la_scope_paths b) w = (xs, w1)" by force
    have "diff_lines (w_diff w) \<noteq> []" using assms(2) by auto
    then have "xs \<noteq> []" using c out assms(1) n by (simp add: check_scope_compliance_def resolve_cached_git_diff_def)
    then show ?thesis using assms(1,4,5) c
      by (simp add: evaluate_subagent_output_def judge_files_def judge_closeout_def Let_def)
  qed
  moreover have "fst (check_scope_compliance (la_scope_paths b) (w\<lparr>w_diff_cache := Some (at0, [])\<rparr>)) = []"
    if "w_ms w < at0 + 10000"
  proof -
    have "w_ms w - at0 < GIT_DIFF_CACHE_TTL_MS" using that unfolding GIT_DIFF_CACHE_TTL_MS_def by linarith
    then show ?thesis by (simp add: check_scope_compliance_def resolve_cached_git_diff_def)
  qed
  ultimately show ?thesis by blast
qed

definition scope_world :: loop_world where
  "scope_world = idle_world\<lparr>w_diff := Some ''src/a.rs'', w_closeouts := [(''r-'' @ la_action_id (sample_action []),
     Holds (action_record_json \<lparr>ar_schema_version = [], ar_loop_id = ''l'', ar_run_id = ''r'',
       ar_action_id = la_action_id (sample_action []), ar_safety_level = ''L2'', ar_closeout = JNull\<rparr>))]\<rparr>"

lemma scope_check_by_tree_witness:
  "\<exists>why. fst (evaluate_subagent_output sample_env ''l'' ''r'' (sample_action [''docs/'']) bare_success scope_world) = RFailed why"
proof -
  have "diff_lines (w_diff scope_world) = [''src/a.rs'']" unfolding scope_world_def idle_world_def by code_simp
  moreover have "la_scope_paths (sample_action [''docs/'']) = [''docs/'']" "\<not> starts_with ''src/a.rs'' ''docs/''"
      "w_diff_cache scope_world = None" "sr_parsed_output bare_success = None"
    by (simp_all add: sample_action_def starts_with_def scope_world_def idle_world_def bare_success_def)
  moreover have "\<exists>r. read_action_record (file_at (w_closeouts scope_world)
      (action_key ''r'' (la_action_id (sample_action [''docs/''])))) = Inr (Some r)"
    by (simp add: scope_world_def file_at_def action_key_def sample_action_def or_default_def read_action_record_def)
  ultimately show ?thesis
    using scope_check_by_tree [of "sample_action [''docs/'']" "''src/a.rs''" scope_world "''r''" _ bare_success sample_env "''l''" 0]
    by auto
qed

section \<open>Checkpoints\<close>

lemma dispatch_set [simp]:
  "dispatch_status (set_dispatch aid s st) b =
     (if rs_current_run st = None then None else if b = aid then Some s else dispatch_status st b)"
  by (cases "rs_current_run st") (auto simp: dispatch_status_def set_dispatch_def hmap_simps)

lemma map_of_filter_value:
  "distinct (map fst m) \<Longrightarrow> map_of (filter (\<lambda>(_, v). v = x) m) k = (if map_of m k = Some x then Some x else None)"
proof (induction m)
  case (Cons kv m)
  have "map_of m k = None" if "k = fst kv" using Cons.prems that by (simp add: map_of_eq_None_iff)
  then show ?case using Cons by (cases kv) (auto simp del: map_of_eq_None_iff)
qed simp

lemma take_snapshot_run [simp]: "rs_current_run (take_snapshot lid w st) = rs_current_run st"
  by (simp add: take_snapshot_def split: option.splits)

lemma dispatch_begin:
  assumes "rs_current_run st = Some r" "hmap_ok (cr_dispatch r)"
  shows "dispatch_status (begin_run lid rid w st) b = (if dispatch_status st b = Some ''done'' then Some ''done'' else None)"
proof -
  have "rs_current_run (start_new_run now rid st) \<noteq> None" for now by (simp add: start_new_run_def)
  moreover have "hget (filter (\<lambda>(_, v). v = ''done'') (cr_dispatch r)) b =
      (if hget (cr_dispatch r) b = Some ''done'' then Some ''done'' else None)"
    using assms(2) by (intro map_of_filter_value) (simp add: hmap_ok_def)
  ultimately show ?thesis using assms(1)
    by (auto simp: begin_run_def dispatch_status_def Let_def transition_phase_def set_phase_def rescued_dispatch_def
        start_new_run_def)
qed

text \<open>
  C26: A checkpoint lags by one action: the state stored when an action commits still shows it
  as running. After a crash the next run takes over of the checkpoint exactly the entries that are done, so the
  action committed last starts anew like all others; an entry that is done is skipped without a
  subprocess.
\<close>

theorem checkpoint_lags:
  assumes "evaluate_subagent_output env lid rid a out w = (RCommitted p s, w1)" "w_disk w1"
    "rs_current_run (rv_state rv) = Some r" "hmap_ok (cr_dispatch r)"
    "dispatch_status (rv_state rv) (la_action_id a) = Some ''running''"
  shows "w_state (snd (record_output env lid rid a out rv w)) = Stored (rv_state rv) \<and>
    dispatch_status (rv_state (fst (record_output env lid rid a out rv w))) (la_action_id a) = Some ''done'' \<and>
    dispatch_status (begin_run lid rid2 w2 (rv_state rv)) (la_action_id a) = None \<and>
    (\<forall>i. dispatch_status (begin_run lid rid2 w2 (rv_state rv)) i =
       (if dispatch_status (rv_state rv) i = Some ''done'' then Some ''done'' else None)) \<and>
    (dispatch_status (rv_state rv) (la_action_id b) = Some ''done'' \<longrightarrow>
       run_action env e rid2 timeout levels b \<lparr>rv_state = begin_run lid rid2 w2 (rv_state rv), rv_results = xs, rv_outputs = m\<rparr> ts v =
         (Ended (Inr ()), \<lparr>rv_state = begin_run lid rid2 w2 (rv_state rv), rv_results = xs @ [(la_action_id b, RSkipped)],
            rv_outputs = m\<rparr>, ts, v))"
  using assms
  by (auto simp: record_output_def Let_def write_loop_state_def push_result_def dispatch_begin run_action_def)

definition running_state :: loop_run_state where
  "running_state = set_dispatch ''a'' ''running'' (start_new_run ''t'' ''r'' (create_initial_state ''t'' ''l'' ''p''))"

lemma checkpoint_lags_witness:
  "dispatch_status (begin_run ''l'' ''r2'' idle_world running_state) (la_action_id (sample_action [])) = None \<and>
   w_state (snd (record_output sample_env ''l'' ''r'' (sample_action []) bare_success
     \<lparr>rv_state = running_state, rv_results = [], rv_outputs = []\<rparr> idle_world)) = Stored running_state"
proof -
  have "evaluate_subagent_output sample_env ''l'' ''r'' (sample_action []) bare_success idle_world = (RCommitted None None, idle_world)"
    by (simp add: evaluate_subagent_output_def bare_success_def judge_files_def file_at_def idle_world_def or_default_def
        read_action_record_def)
  moreover have "\<exists>r. rs_current_run running_state = Some r \<and> hmap_ok (cr_dispatch r)"
    by (simp add: running_state_def set_dispatch_def start_new_run_def hmap_ok_def)
  then obtain r where "rs_current_run running_state = Some r" "hmap_ok (cr_dispatch r)" by blast
  moreover have "dispatch_status running_state (la_action_id (sample_action [])) = Some ''running''"
    unfolding running_state_def sample_action_def by code_simp
  ultimately show ?thesis
    using checkpoint_lags [of sample_env "''l''" "''r''" "sample_action []" bare_success idle_world None None idle_world
        "\<lparr>rv_state = running_state, rv_results = [], rv_outputs = []\<rparr>" r "''r2''" idle_world]
    by (simp add: idle_world_def)
qed

text \<open>
  A dry run, which takes no lock, ends with a stored state that has no current run: the
  checkpoints of a run that crashed, or is still at work, are gone.
\<close>

theorem dry_run_discards_checkpoint:
  assumes "run_loop env e True timeout depth ts w = (Ended (Inr g), ts', w')" "w_disk w'"
  shows "(\<exists>s. w_state w' = Stored s \<and> rs_current_run s = None) \<and>
    (le_static_actions e = Some (a # as) \<longrightarrow> sf_lock (w_signals w') = sf_lock (w_signals w))"
proof -
  have n: "rs_current_run (finish_run x st) = None" for x st by (simp add: finish_run_def split: option.splits)
  define w0 where "w0 = w\<lparr>w_signals := snd (clear_pause_state (w_removable w) (w_signals w))\<rparr>"
  have l: "sf_lock (w_signals w0) = sf_lock (w_signals w)" by (simp add: w0_def clear_pause_state_def)
  obtain found where f: "read_loop_state w0 = Inr found"
    using assms(1) by (cases "read_loop_state w0") (auto simp: run_loop_def run_rounds.simps Let_def w0_def split: sum.splits)
  define st where "st = begin_run (le_loop_id e) (generate_run_id env (le_loop_id e) w0) w0
      (or_default (create_initial_state (now_iso w0) (le_loop_id e) (le_profile e)) found)"
  have d: "dry_run env e (generate_run_id env (le_loop_id e) w0) st ts w0 = (Ended (Inr g), ts', w')"
    using assms(1) f by (auto simp: run_loop_def run_rounds.simps Let_def w0_def [symmetric] st_def split: sum.splits)
  have "\<exists>s. w_state w' = Stored s \<and> rs_current_run s = None"
    using d assms(2) n by (auto simp: dry_run_def Let_def write_loop_state_def split: outcome.splits sum.splits prod.splits option.splits if_splits)
  moreover have "sf_lock (w_signals w') = sf_lock (w_signals w)" if "le_static_actions e = Some (a # as)"
    using d that l by (auto simp: dry_run_def Let_def discover_actions_def write_loop_state_def split: option.splits if_splits)
  ultimately show ?thesis by blast
qed

lemma dry_run_discards_checkpoint_witness:
  "\<exists>s. w_state (snd (snd (run_loop sample_env quiet_entry True None 5 [] (idle_world\<lparr>w_state := Stored running_state\<rparr>)))) = Stored s \<and>
     rs_current_run s = None"
proof -
  have c: "(case run_loop sample_env quiet_entry True None 5 [] (idle_world\<lparr>w_state := Stored running_state\<rparr>) of
      (Ended (Inr g), _, v) \<Rightarrow> w_disk v | _ \<Rightarrow> False)" by code_simp
  obtain r ts v where e: "run_loop sample_env quiet_entry True None 5 [] (idle_world\<lparr>w_state := Stored running_state\<rparr>) = (r, ts, v)"
    by (cases rule: prod_cases3)
  then obtain g where "r = Ended (Inr g)" "w_disk v" using c by (auto split: outcome.splits sum.splits)
  then show ?thesis using dry_run_discards_checkpoint e by auto
qed

section \<open>Signals\<close>

text \<open>
  What is handed to a subprocess does not depend on signals or on the pause state, which
  resuming deletes: the feedback given while the loop was paused never reaches the action that
  is executed again.
\<close>

theorem resume_ignores_feedback:
  assumes "leave_pause st w = (st', w')" "w_removable w"
  shows "sf_pause (w_signals w') = None \<and>
    fst (prepare_action env lid rid a protocol (w\<lparr>w_signals := s\<rparr>)) = fst (prepare_action env lid rid a protocol w) \<and>
    (\<forall>fb. fst (prepare_action env lid rid a protocol (update_feedback fb w)) = fst (prepare_action env lid rid a protocol w))"
proof -
  have "w_disk (update_feedback fb w) = w_disk w" for fb
    by (simp add: update_feedback_def split: sum.splits option.splits)
  then show ?thesis using assms
    by (auto simp: leave_pause_def Let_def write_loop_state_def clear_pause_state_def prepare_action_def build_subagent_input_def
        split: if_splits)
qed

lemma resume_ignores_feedback_witness:
  "sf_pause (w_signals (snd (leave_pause (create_initial_state ''t'' ''l'' ''p'') idle_world))) = None"
  using resume_ignores_feedback [of "create_initial_state ''t'' ''l'' ''p''" idle_world
      "fst (leave_pause (create_initial_state ''t'' ''l'' ''p'') idle_world)"
      "snd (leave_pause (create_initial_state ''t'' ''l'' ''p'') idle_world)" sample_env "''l''" "''r''" "sample_action []" V0 no_signals]
  by (simp add: idle_world_def)










end
