(* ===== verification/Jsonl.thy ===== *)
theory Jsonl
  imports Files
begin

text \<open>
  Files of JSON lines and their upkeep (\<^verbatim>\<open>core/core-state-utils/src/jsonl_maintenance.rs\<close>): the
  corrupt tail is cut off, and a file that has grown too long loses the snapshots that a later
  one replaces. A line is blank (empty, or white space only), does not parse (it starts with a
  brace, or not), or holds a value.
\<close>

datatype jsonl_line = Blank bool | Garbled bool | Row json

fun row_of :: "jsonl_line \<Rightarrow> json option" where
  "row_of (Row v) = Some v"
| "row_of _ = None"

definition rows :: "jsonl_line list \<Rightarrow> json list" where
  "rows ls = List.map_filter row_of ls"

section \<open>The tail\<close>

definition cut_tail :: "jsonl_line list \<Rightarrow> jsonl_line list" where
  "cut_tail ls = rev (dropWhile (\<lambda>l. row_of l = None) (rev ls))"

text \<open>The lines that remain, if any are cut off.\<close>

definition truncate_corrupt_tail :: "jsonl_line list \<Rightarrow> jsonl_line list option" where
  "truncate_corrupt_tail ls = (if cut_tail ls = ls then None else Some (cut_tail ls))"

section \<open>Compaction\<close>

definition STATE_SNAPSHOT_TX_TYPES :: "string list" where
  "STATE_SNAPSHOT_TX_TYPES = [''goal_state'', ''rfv_loop_state'', ''quality_gate_state'', ''evidence'']"

definition extract_snapshot_type :: "(string \<times> json) list \<Rightarrow> string option" where
  "extract_snapshot_type m =
     (case Option.bind (map_of m ''tx_type'') as_str of
        Some tt \<Rightarrow> if tt \<in> set STATE_SNAPSHOT_TX_TYPES then Some tt else None
      | None \<Rightarrow> None)"

type_synonym jsonl_entry = "(string \<times> json) list \<times> string option"

definition entries :: "json list \<Rightarrow> jsonl_entry list" where
  "entries vs = map (\<lambda>m. (m, extract_snapshot_type m)) (List.map_filter as_object vs)"

definition non_objects :: "json list \<Rightarrow> json list" where
  "non_objects vs = filter (\<lambda>v. as_object v = None) vs"

definition last_snapshots :: "jsonl_entry list \<Rightarrow> (string, nat) hmap" where
  "last_snapshots es =
     foldl (\<lambda>h (i, (m, t)). case t of Some tt \<Rightarrow> hput tt i h | None \<Rightarrow> h) [] (List.enumerate 0 es)"

definition keep_entry :: "(string, nat) hmap \<Rightarrow> nat \<times> jsonl_entry \<Rightarrow> bool" where
  "keep_entry latest = (\<lambda>(i, (m, t)). case t of Some tt \<Rightarrow> hget latest tt = Some i | None \<Rightarrow> True)"

definition kept_entries :: "jsonl_entry list \<Rightarrow> (string \<times> json) list list" where
  "kept_entries es = map (fst \<circ> snd) (filter (keep_entry (last_snapshots es)) (List.enumerate 0 es))"

definition renumber :: "(string \<times> json) list list \<Rightarrow> json list" where
  "renumber ms = map (\<lambda>(k, m). JObj (jput ''seq'' (jnat k) m)) (List.enumerate 0 ms)"

text \<open>The compacted lines, if there is something to drop.\<close>

definition compact_jsonl_core :: "nat \<Rightarrow> jsonl_line list \<Rightarrow> jsonl_line list option" where
  "compact_jsonl_core max_lines ls =
     (let vs = rows ls; es = entries vs; kept = kept_entries es in
      if length vs \<le> max_lines then None
      else if last_snapshots es = [] then None
      else if length es \<le> length kept then None
      else Some (map Row (renumber kept @ non_objects vs)))"

text \<open>Cutting and compacting in one pass: the new lines, if the file is written.\<close>

definition truncate_and_compact :: "nat \<Rightarrow> jsonl_line list \<Rightarrow> jsonl_line list option" where
  "truncate_and_compact max_lines ls =
     (let clean = cut_tail ls in
      case compact_jsonl_core max_lines clean of
        Some out \<Rightarrow> Some out
      | None \<Rightarrow> if clean = ls then None else Some clean)"

section \<open>What is kept\<close>

lemma rows_simps [simp]:
  "rows [] = []" "rows (ls @ ks) = rows ls @ rows ks" "rows (Row v # ls) = v # rows ls"
  "rows (map Row vs) = vs"
  by (induction vs) (simp_all add: rows_def List.map_filter_simps map_filter_def)

lemma cut_tail_split: "\<exists>t. ls = cut_tail ls @ t \<and> rows t = []"
proof -
  let ?P = "\<lambda>l. row_of l = None"
  have "ls = cut_tail ls @ rev (takeWhile ?P (rev ls))"
    unfolding cut_tail_def by (metis rev_append rev_rev_ident takeWhile_dropWhile_id)
  moreover have "rows (rev (takeWhile ?P (rev ls))) = []"
    by (auto simp: rows_def map_filter_def filter_empty_conv dest: set_takeWhileD)
  ultimately show ?thesis by blast
qed

lemma rows_cut_tail [simp]: "rows (cut_tail ls) = rows ls"
  using cut_tail_split [of ls] by (metis append.right_neutral rows_simps(2))

text \<open>The reference: an entry stays when it is no snapshot or no later one is of its type.\<close>

fun newest :: "jsonl_entry list \<Rightarrow> jsonl_entry list" where
  "newest [] = []"
| "newest ((m, t) # es) = (if t \<noteq> None \<and> t \<in> snd ` set es then newest es else (m, t) # newest es)"

definition latest_index :: "nat \<Rightarrow> jsonl_entry list \<Rightarrow> (string, nat) hmap \<Rightarrow> (string, nat) hmap" where
  "latest_index n es h =
     foldl (\<lambda>h (i, (m, t)). case t of Some tt \<Rightarrow> hput tt i h | None \<Rightarrow> h) h (List.enumerate n es)"

lemma latest_index_simps:
  "latest_index n [] h = h"
  "latest_index n ((m, t) # es) h = latest_index (Suc n) es (case t of Some tt \<Rightarrow> hput tt n h | None \<Rightarrow> h)"
  by (simp_all add: latest_index_def)

lemma latest_index_old:
  "Some tt \<notin> snd ` set es \<Longrightarrow> hget (latest_index n es h) tt = hget h tt"
proof (induction es arbitrary: n h)
  case (Cons e es)
  obtain m t where "e = (m, t)" by force
  with Cons show ?case by (cases t) (auto simp: latest_index_simps hmap_simps)
qed (simp add: latest_index_simps)

lemma latest_index_new:
  "Some tt \<in> snd ` set es \<Longrightarrow> \<exists>i. hget (latest_index n es h) tt = Some i \<and> n \<le> i"
proof (induction es arbitrary: n h)
  case (Cons e es)
  obtain m t where e: "e = (m, t)" by force
  show ?case
  proof (cases "Some tt \<in> snd ` set es")
    case True
    from Cons.IH [OF True] show ?thesis unfolding e latest_index_simps by (meson Suc_leD)
  next
    case False
    with Cons.prems e have "t = Some tt" by auto
    with False e show ?thesis by (simp add: latest_index_simps latest_index_old hmap_simps)
  qed
qed simp

lemma filter_newest:
  assumes "latest = latest_index n es h"
  shows "map snd (filter (keep_entry latest) (List.enumerate n es)) = newest es"
  using assms
proof (induction es arbitrary: n h)
  case (Cons e es)
  obtain m t where e: "e = (m, t)" by force
  let ?h = "case t of Some tt \<Rightarrow> hput tt n h | None \<Rightarrow> h"
  have latest: "latest = latest_index (Suc n) es ?h"
    using Cons.prems by (simp add: e latest_index_simps)
  have "keep_entry latest (n, (m, t)) \<longleftrightarrow> \<not> (t \<noteq> None \<and> t \<in> snd ` set es)"
  proof (cases t)
    case (Some tt)
    show ?thesis
    proof (cases "Some tt \<in> snd ` set es")
      case True
      then obtain i where "hget latest tt = Some i" "Suc n \<le> i"
        using latest_index_new latest by blast
      with True Some show ?thesis by (auto simp: keep_entry_def)
    next
      case False
      with Some show ?thesis by (simp add: keep_entry_def latest latest_index_old hmap_simps)
    qed
  qed (simp add: keep_entry_def)
  with Cons.IH [OF latest] show ?case by (simp add: e)
qed simp

lemma kept_newest: "kept_entries es = map fst (newest es)"
proof -
  have "last_snapshots es = latest_index 0 es []"
    by (simp add: last_snapshots_def latest_index_def)
  from filter_newest [OF this] show ?thesis
    unfolding kept_entries_def by (metis map_map)
qed

lemma newest_subseq: "subseq (newest es) es"
  by (induction es rule: newest.induct) auto

lemma newest_subset: "set (newest es) \<subseteq> set es"
  by (induction es rule: newest.induct) auto

lemma newest_snapshots:
  "Some tt \<in> snd ` set es \<Longrightarrow> count_list (map snd (newest es)) (Some tt) = 1"
proof (induction es rule: newest.induct)
  case (2 m t es)
  show ?case
  proof (cases "Some tt \<in> snd ` set es")
    case True
    with 2 show ?thesis by (auto split: if_splits)
  next
    case False
    with "2.prems" have t: "t = Some tt" by auto
    have "Some tt \<notin> set (map snd (newest es))" using False newest_subset [of es] by auto
    then have "count_list (map snd (newest es)) (Some tt) = 0" by (rule count_notin)
    with False t show ?thesis by simp
  qed
qed simp

lemma newest_plain: "filter (\<lambda>e. snd e = None) (newest es) = filter (\<lambda>e. snd e = None) es"
  by (induction es rule: newest.induct) auto

end
