(* ===== verification/Goal_World.thy ===== *)
theory Goal_World
  imports Jsonl Closeout_Rules
begin

text \<open>
  What the goal operations work on: the documents of the tasks of one repository as one record,
  with the reads of the goal state, the evidence index and the task pointers
  (\<^verbatim>\<open>core/core-state/src/state_manager/mod.rs\<close>, \<^verbatim>\<open>pointer_ops.rs\<close> and the evidence helpers of
  \<^verbatim>\<open>goal_ops.rs\<close>). Writing a file may fail and leave it, or report a failure after the new
  content is in place; the outcomes of the next writes are part of the record.
\<close>

section \<open>Errors\<close>

text \<open>Why a completion is let through or not.\<close>

datatype transition_reason = StartFree | FailFree | EmptyTask | InvalidTask | NoGoalButFailure | NoGoal
  | NoArtifacts | NoSuccess | Confirmed

text \<open>The sites at which the goal operations fail, with the arguments of the message.\<close>

datatype goal_error = RepoRootRequired | NotADirectory string | TaskIdRequired | UnsafeTaskId | EmptyOverride
  | ReadFails | ParseFails | WriteFails | LockFails | GoalExists string | GoalRequired | ContractLacks string string
  | NoteRequired | GoalMissing | StaleGoal string | CheckpointLimit | CheckpointsCorrupt | AlreadyTerminal string
  | RootNotObject | CannotComplete string | TransitionBlocked transition_reason | NoDepthRollup | DepthTooLow nat nat
  | NoSuccessfulRow | TooFewCheckpoints nat nat | PassWithoutEvidence nat | CannotRetry string | BlockerRequired
  | AmendCompleted | AmendStale | EvidenceContradiction | NothingToAmend | AlreadyRunning | UseUnblock | UseRetry
  | TransitionNotAllowed string string | SameState string | UnknownOperation string | HookFails string

type_synonym 'a outcome_of = "(error_kind \<times> goal_error) + 'a"

abbreviation invalid :: "goal_error \<Rightarrow> 'a outcome_of" where
  "invalid e \<equiv> Inl (Validation, e)"

section \<open>The documents\<close>

datatype ledger_file = NoLedger | BadLedger | Lines "jsonl_line list"

datatype write_outcome = Done | Fails | Unsure

text \<open>
  By task: the goal state, the evidence index, the state of the quality gate and the ledger; the
  task pointers and their two old forms; the task chain; and how the next writes end (they
  succeed when nothing is said about them).
\<close>

record goal_world =
  gw_goals :: "(string, json_file) hmap"
  gw_evidence :: "(string, json_file) hmap"
  gw_gates :: "(string, json_file) hmap"
  gw_ledgers :: "(string, ledger_file) hmap"
  gw_pointers :: json_file
  gw_active :: json_file
  gw_focus :: json_file
  gw_chain :: json_file
  gw_disk :: "write_outcome list"

text \<open>
  The hooks of the runtime: the quality gate, and what follows a completed iteration, which may
  name the next task.
\<close>

record goal_hooks =
  gh_gate :: "json \<Rightarrow> goal_world \<Rightarrow> (string + json) \<times> goal_world"
  gh_after :: "string \<Rightarrow> goal_world \<Rightarrow> string option \<times> goal_world"

text \<open>
  The surroundings of a request: which paths are directories and their canonical form, the
  environment variables, the readings of the clock at the sites of a request, whether the lock
  can be had, the hooks, and when the goal state of a task was changed. Parameters: the fingerprint of a ledger line after the previous one, whether
  the line printed of a value contains a text, and the wording of an error.
\<close>

record goal_env =
  ge_is_dir :: "string \<Rightarrow> bool"
  ge_canonical :: "string \<Rightarrow> string"
  ge_vars :: "(string \<times> string) list"
  ge_now :: "nat \<Rightarrow> string"
  ge_lock :: bool
  ge_hooks :: "goal_hooks option"
  ge_mtime :: "string \<Rightarrow> nat"
  ge_hash :: "string \<Rightarrow> json \<Rightarrow> string"
  ge_mentions :: "json \<Rightarrow> string \<Rightarrow> bool"
  ge_wording :: "error_kind \<times> goal_error \<Rightarrow> string"

text \<open>One write: whether it reports success, and the world after it.\<close>

definition attempt :: "(goal_world \<Rightarrow> goal_world) \<Rightarrow> goal_world \<Rightarrow> bool \<times> goal_world" where
  "attempt f w =
     (case gw_disk w of
        [] \<Rightarrow> (True, f w)
      | d # ds \<Rightarrow> (let w' = w\<lparr>gw_disk := ds\<rparr> in
          case d of Done \<Rightarrow> (True, f w') | Fails \<Rightarrow> (False, w') | Unsure \<Rightarrow> (False, f w')))"

definition ledger_at :: "goal_world \<Rightarrow> string \<Rightarrow> ledger_file" where
  "ledger_at w t = or_default NoLedger (hget (gw_ledgers w) t)"

text \<open>An object literal.\<close>

definition jobj :: "(string \<times> json) list \<Rightarrow> json" where
  "jobj kvs = JObj (foldl (\<lambda>m (k, v). jput k v m) [] kvs)"

definition validate_task_id_component :: "string \<Rightarrow> string outcome_of" where
  "validate_task_id_component t =
     (case safe_task_id_component t of Some u \<Rightarrow> Inr u | None \<Rightarrow> invalid UnsafeTaskId)"

section \<open>Staleness\<close>

definition current_env_session_id :: "goal_env \<Rightarrow> string option" where
  "current_env_session_id env =
     find (\<lambda>v. v \<noteq> []) (map (\<lambda>(k, v). trim v) (filter (\<lambda>(k, v). ends_with k ''_SESSION_ID'') (ge_vars env)))"

definition mark_goal_stale :: "string \<Rightarrow> json \<Rightarrow> json" where
  "mark_goal_stale reason v =
     (case v of JObj m \<Rightarrow> JObj (jput ''stale_reason'' (JStr reason) (jput ''stale'' (JBool True) m)) | _ \<Rightarrow> v)"

definition annotate_goal_staleness :: "goal_env \<Rightarrow> json \<Rightarrow> json" where
  "annotate_goal_staleness env v =
     (case jget_with as_str v ''session_id'' of
        None \<Rightarrow> v
      | Some s \<Rightarrow> (let sid = trim s in
          if sid = [] then v
          else case current_env_session_id env of
            Some c \<Rightarrow> if c \<noteq> sid then mark_goal_stale ''session_id mismatch: goal belongs to a different session'' v else v
          | None \<Rightarrow> if starts_with sid ''auto-''
              then mark_goal_stale ''auto-generated session_id from older version; cannot verify current session'' v
              else v))"

section \<open>Task pointers\<close>

definition pointer_member :: "json \<Rightarrow> string \<Rightarrow> string option" where
  "pointer_member data k =
     Option.bind (nonempty_trimmed (jget_with as_str data k)) safe_task_id_component"

definition read_task_pointer_pair :: "goal_world \<Rightarrow> string option \<times> string option" where
  "read_task_pointer_pair w =
     (case gw_pointers w of
        Holds data \<Rightarrow> (pointer_member data ''active_task_id'', pointer_member data ''focus_task_id'')
      | _ \<Rightarrow> (None, None))"

section \<open>Reading the goal state\<close>

definition read_goal_file :: "goal_env \<Rightarrow> string \<Rightarrow> goal_world \<Rightarrow> json option outcome_of" where
  "read_goal_file env t w =
     (case file_at (gw_goals w) t of
        Missing \<Rightarrow> Inr None | Unreadable \<Rightarrow> Inl (Io, ReadFails) | NotJson \<Rightarrow> Inl (Json, ParseFails)
      | Holds v \<Rightarrow> Inr (Some (annotate_goal_staleness env v)))"

definition read_goal_state :: "goal_env \<Rightarrow> string option \<Rightarrow> goal_world \<Rightarrow> json option outcome_of" where
  "read_goal_state env override w =
     (let read = \<lambda>t. bind_result (validate_task_id_component t) (\<lambda>u. read_goal_file env u w) in
      case override of
        Some t \<Rightarrow> if trim t = [] then invalid EmptyOverride else read (trim t)
      | None \<Rightarrow> (case read_task_pointer_pair w of (active, focus) \<Rightarrow>
          (case or_else active focus of None \<Rightarrow> Inr None | Some t \<Rightarrow> read t)))"

definition goal_state_requests_continuation :: "json \<Rightarrow> bool" where
  "goal_state_requests_continuation v \<longleftrightarrow>
     jget_with as_bool v ''stale'' \<noteq> Some True \<and> jget_with as_str v ''status'' = Some ''running''"

section \<open>Evidence\<close>

definition evidence_index_entry_implies_success :: "json \<Rightarrow> bool" where
  "evidence_index_entry_implies_success e \<longleftrightarrow>
     jget_with as_bool e ''success'' = Some True \<or> jget e ''exit_code'' = Some (JNum (NPos 0))"

definition task_evidence_artifacts :: "string \<Rightarrow> goal_world \<Rightarrow> json list" where
  "task_evidence_artifacts t w =
     (case safe_task_id_component t of
        None \<Rightarrow> []
      | Some u \<Rightarrow> (case file_at (gw_evidence w) u of
          Holds v \<Rightarrow> or_default [] (jget_with as_array v ''artifacts'') | _ \<Rightarrow> []))"

definition evidence_row_is_self_attested :: "json \<Rightarrow> bool" where
  "evidence_row_is_self_attested e \<longleftrightarrow>
     nonempty_trimmed (jget_with as_str e ''tool_call_id'') = None \<and>
     (jget_with as_str e ''kind'' = Some ''mcp_record_evidence'' \<or>
      jget_with as_str e ''source'' = Some ''mcp_record_evidence'')"

definition task_evidence_success_only_self_attested :: "string \<Rightarrow> goal_world \<Rightarrow> bool" where
  "task_evidence_success_only_self_attested t w =
     (let ok = filter evidence_index_entry_implies_success (task_evidence_artifacts t w) in
      ok \<noteq> [] \<and> list_all evidence_row_is_self_attested ok)"

text \<open>Whether the index has rows, and whether one of them tells of a success.\<close>

definition task_evidence_artifacts_summary :: "string \<Rightarrow> goal_world \<Rightarrow> bool \<times> bool" where
  "task_evidence_artifacts_summary t w =
     (case safe_task_id_component t of
        None \<Rightarrow> (False, False)
      | Some u \<Rightarrow> (case file_at (gw_evidence w) u of
          Holds v \<Rightarrow> (case jget_with as_array v ''artifacts'' of
              None \<Rightarrow> (False, False)
            | Some arr \<Rightarrow> if arr = [] then (False, False)
                else (True, list_ex evidence_index_entry_implies_success arr))
        | _ \<Rightarrow> (False, False)))"

section \<open>Requests as steps\<close>

text \<open>A step gives an answer or an error, and the world after it, also when it fails.\<close>

type_synonym 'a goal_step = "goal_world \<Rightarrow> 'a outcome_of \<times> goal_world"

definition sret :: "'a \<Rightarrow> 'a goal_step" where
  "sret a w = (Inr a, w)"

definition sfail :: "error_kind \<Rightarrow> goal_error \<Rightarrow> 'a goal_step" where
  "sfail k e w = (Inl (k, e), w)"

definition sbind :: "'a goal_step \<Rightarrow> ('a \<Rightarrow> 'b goal_step) \<Rightarrow> 'b goal_step" where
  "sbind m f w = (case m w of (Inl e, w') \<Rightarrow> (Inl e, w') | (Inr a, w') \<Rightarrow> f a w')"

definition sread :: "(goal_world \<Rightarrow> 'a outcome_of) \<Rightarrow> 'a goal_step" where
  "sread f w = (f w, w)"

definition srequire :: "bool \<Rightarrow> goal_error \<Rightarrow> unit goal_step" where
  "srequire c e w = (if c then Inr () else invalid e, w)"

definition swrite :: "error_kind \<Rightarrow> (goal_world \<Rightarrow> goal_world) \<Rightarrow> unit goal_step" where
  "swrite k f w = (case attempt f w of (ok, w') \<Rightarrow> (if ok then Inr () else Inl (k, WriteFails), w'))"

text \<open>Going on whatever the step reports; only its effect counts.\<close>

definition signore :: "'a goal_step \<Rightarrow> unit goal_step" where
  "signore m w = (Inr (), snd (m w))"

named_theorems goal_steps \<open>evaluation of steps\<close>

lemma sret_eval [goal_steps]: "sret a w = (Inr a, w)" by (simp add: sret_def)
lemma sfail_eval [goal_steps]: "sfail k e w = (Inl (k, e), w)" by (simp add: sfail_def)
lemma sread_eval [goal_steps]: "sread f w = (f w, w)" by (simp add: sread_def)
lemma signore_eval [goal_steps]: "signore m w = (Inr (), snd (m w))" by (simp add: signore_def)

lemma sbind_eval [goal_steps]:
  "m w = (Inl e, w') \<Longrightarrow> sbind m f w = (Inl e, w')"
  "m w = (Inr a, w') \<Longrightarrow> sbind m f w = f a w'"
  by (simp_all add: sbind_def)

lemma srequire_eval [goal_steps]:
  "c \<Longrightarrow> srequire c e w = (Inr (), w)" "\<not> c \<Longrightarrow> srequire c e w = (invalid e, w)"
  by (simp_all add: srequire_def)

lemma sbind_Inr:
  "sbind m f w = (Inr b, w'') \<longleftrightarrow> (\<exists>a w'. m w = (Inr a, w') \<and> f a w' = (Inr b, w''))"
  by (auto simp: sbind_def split: prod.splits sum.splits)

end
