(* ===== verification/Goal_Pointers.thy ===== *)
theory Goal_Pointers
  imports Goal_World
begin

text \<open>
  The task pointers (\<^verbatim>\<open>core/core-state/src/state_manager/pointer_ops.rs\<close>): which task is active
  and which is in focus, and the list of the known tasks. Site 4 of the clock.
\<close>

definition load_task_pointers_json :: "json goal_step" where
  "load_task_pointers_json =
     sbind (swrite Io (\<lambda>w. w)) (\<lambda>_.
     sread (\<lambda>w. case gw_pointers w of
       Holds v \<Rightarrow> Inr v | NotJson \<Rightarrow> Inr (JObj []) | Missing \<Rightarrow> Inr (JObj []) | Unreadable \<Rightarrow> Inl (Io, ReadFails)))"

definition pointer_entry :: "string \<Rightarrow> string \<Rightarrow> string \<Rightarrow> json" where
  "pointer_entry t label now =
     jobj [(''task_id'', JStr t), (''task'', JStr label), (''label'', JStr label), (''updated_at'', JStr now)]"

fun relabel :: "string \<Rightarrow> string \<Rightarrow> json \<Rightarrow> json" where
  "relabel label now (JObj m) =
     JObj (jput ''updated_at'' (JStr now) (jput ''label'' (JStr label) (jput ''task'' (JStr label) m)))"
| "relabel label now v = v"

fun upsert_entry :: "string \<Rightarrow> string \<Rightarrow> string \<Rightarrow> json list \<Rightarrow> json list" where
  "upsert_entry t label now [] = [pointer_entry t label now]"
| "upsert_entry t label now (e # es) =
     (if jget_with as_str e ''task_id'' = Some t then relabel label now e # es
      else e # upsert_entry t label now es)"

definition upsert_tasks_array_entry ::
  "string \<Rightarrow> string \<Rightarrow> string \<Rightarrow> (string \<times> json) list \<Rightarrow> (string \<times> json) list" where
  "upsert_tasks_array_entry t label now m =
     (case Option.bind (map_of m ''tasks'') as_array of
        Some es \<Rightarrow> jput ''tasks'' (JArr (upsert_entry t label now es)) m
      | None \<Rightarrow> jput ''tasks'' (JArr [pointer_entry t label now]) m)"

fun on_object :: "((string \<times> json) list \<Rightarrow> (string \<times> json) list) \<Rightarrow> json \<Rightarrow> json" where
  "on_object f (JObj m) = JObj (f m)"
| "on_object f v = v"

definition write_pointers :: "json \<Rightarrow> unit goal_step" where
  "write_pointers v = swrite Validation (\<lambda>w. w\<lparr>gw_pointers := Holds v\<rparr>)"

definition update_pointers ::
  "string \<Rightarrow> ((string \<times> json) list \<Rightarrow> (string \<times> json) list) \<Rightarrow> unit goal_step" where
  "update_pointers t f =
     sbind (sread (\<lambda>w. validate_task_id_component t)) (\<lambda>_.
     sbind load_task_pointers_json (\<lambda>v. write_pointers (on_object f v)))"

definition with_active :: "string \<Rightarrow> (string \<times> json) list \<Rightarrow> (string \<times> json) list" where
  "with_active t m =
     jput ''active_task_id'' (JStr t) (jput ''schema_version'' (JStr ''task-pointers-v1'') m)"

definition write_active_task_pointer :: "goal_env \<Rightarrow> string \<Rightarrow> unit goal_step" where
  "write_active_task_pointer env t =
     update_pointers t (upsert_tasks_array_entry t t (ge_now env 4) \<circ> with_active t)"

definition set_task_focus :: "goal_env \<Rightarrow> string \<Rightarrow> string \<Rightarrow> unit goal_step" where
  "set_task_focus env t label =
     update_pointers t (upsert_tasks_array_entry t label (ge_now env 4) \<circ> jput ''focus_task_id'' (JStr t) \<circ> with_active t)"

definition goal_drive_set_focus_from_payload :: "json \<Rightarrow> bool" where
  "goal_drive_set_focus_from_payload payload = or_default True (jget_with as_bool payload ''set_focus'')"

definition sync_task_pointers_after_goal_drive :: "goal_env \<Rightarrow> string \<Rightarrow> string \<Rightarrow> json \<Rightarrow> unit goal_step" where
  "sync_task_pointers_after_goal_drive env t label payload =
     update_pointers t (\<lambda>m.
       (let m' = upsert_tasks_array_entry t label (ge_now env 4) (with_active t m) in
        if goal_drive_set_focus_from_payload payload then jput ''focus_task_id'' (JStr t) m' else m'))"

section \<open>Removing a task from the pointers\<close>

definition jdel :: "string \<Rightarrow> (string \<times> json) list \<Rightarrow> (string \<times> json) list" where
  "jdel k m = AList.delete k m"

definition drop_pointer :: "string \<Rightarrow> string \<Rightarrow> (string \<times> json) list \<Rightarrow> (string \<times> json) list" where
  "drop_pointer k t m = (if Option.bind (map_of m k) as_str = Some t then jdel k m else m)"

definition drop_task :: "string \<Rightarrow> (string \<times> json) list \<Rightarrow> (string \<times> json) list" where
  "drop_task t m =
     (case Option.bind (map_of m ''tasks'') as_array of
        Some es \<Rightarrow> jput ''tasks'' (JArr (filter (\<lambda>e. jget_with as_str e ''task_id'' \<noteq> Some t) es)) m
      | None \<Rightarrow> m)"

definition neutralized :: "string \<Rightarrow> (string \<times> json) list \<Rightarrow> (string \<times> json) list" where
  "neutralized t m = drop_task t (drop_pointer ''focus_task_id'' t (drop_pointer ''active_task_id'' t m))"

definition parse_task_id_from_pointer :: "json_file \<Rightarrow> string option" where
  "parse_task_id_from_pointer f =
     (case f of
        Holds v \<Rightarrow> (case nonempty_trimmed (jget_with as_str v ''task_id'') of
            Some t \<Rightarrow> if safe_task_id_component t \<noteq> None then Some t else None
          | None \<Rightarrow> None)
      | _ \<Rightarrow> None)"

definition remove_legacy ::
  "(goal_world \<Rightarrow> json_file) \<Rightarrow> (goal_world \<Rightarrow> goal_world) \<Rightarrow> string \<Rightarrow> unit goal_step" where
  "remove_legacy sel del t =
     (\<lambda>w. if parse_task_id_from_pointer (sel w) = Some t then swrite Io del w else sret () w)"

definition neutralize_pointer_file :: "string \<Rightarrow> unit goal_step" where
  "neutralize_pointer_file t =
     sbind (sread (\<lambda>w. case gw_pointers w of
       Missing \<Rightarrow> Inr None | Unreadable \<Rightarrow> Inl (Io, ReadFails) | NotJson \<Rightarrow> Inr (Some (JObj [])) | Holds v \<Rightarrow> Inr (Some v)))
     (\<lambda>f. case f of
        None \<Rightarrow> sret ()
      | Some v \<Rightarrow> if on_object (neutralized t) v \<noteq> v then write_pointers (on_object (neutralized t) v) else sret ())"

definition neutralize_task_pointers_for_task :: "string \<Rightarrow> unit goal_step" where
  "neutralize_task_pointers_for_task t =
     sbind (neutralize_pointer_file t) (\<lambda>_.
     sbind (remove_legacy gw_active (\<lambda>w. w\<lparr>gw_active := Missing\<rparr>) t) (\<lambda>_.
     remove_legacy gw_focus (\<lambda>w. w\<lparr>gw_focus := Missing\<rparr>) t))"

definition ensure_task_directory :: "string \<Rightarrow> unit goal_step" where
  "ensure_task_directory t =
     sbind (sread (\<lambda>w. validate_task_id_component t)) (\<lambda>_. swrite Io (\<lambda>w. w))"

end
