(* ===== verification/Goal_Ledger.thy ===== *)
theory Goal_Ledger
  imports Goal_Pointers
begin

text \<open>
  The ledger of a task (\<^verbatim>\<open>core/core-state/src/task_ledger.rs\<close>): transactions as lines of JSON, each
  with a sequence number and a fingerprint that depends on the line before; the append with its repair, its
  periodic checkpoint and its compaction. Sites 2 and 3 of the clock.
\<close>

section \<open>Transactions\<close>

record ledger_transaction =
  tx_ts :: string
  tx_type :: string
  tx_payload :: json
  tx_idempotency_key :: "string option"
  tx_seq :: "u64 option"
  tx_schema_version :: "i64 option"
  tx_chain_hash :: "string option"

definition tx_fields :: "string list" where
  "tx_fields = [''ts'', ''tx_type'', ''payload'', ''idempotency_key'', ''seq'', ''schema_version'', ''chain_hash'']"

definition tx_json :: "ledger_transaction \<Rightarrow> json" where
  "tx_json tx = JObj
     [(''chain_hash'', jopt JStr (tx_chain_hash tx)), (''idempotency_key'', jopt JStr (tx_idempotency_key tx)),
      (''payload'', tx_payload tx), (''schema_version'', jopt ser_i64 (tx_schema_version tx)),
      (''seq'', jopt ser_word (tx_seq tx)), (''ts'', JStr (tx_ts tx)), (''tx_type'', JStr (tx_type tx))]"

definition tx_of_json :: "json \<Rightarrow> ledger_transaction option" where
  "tx_of_json v =
     Option.bind (de_struct tx_fields (drop 3 tx_fields) v) (\<lambda>m.
     Option.bind (de_req as_str m ''ts'') (\<lambda>ts.
     Option.bind (de_req as_str m ''tx_type'') (\<lambda>ty.
     Option.bind (de_req Some m ''payload'') (\<lambda>p.
     Option.bind (de_dflt (de_opt as_str) None m ''idempotency_key'') (\<lambda>k.
     Option.bind (de_dflt (de_opt de_word) None m ''seq'') (\<lambda>s.
     Option.bind (de_dflt (de_opt de_i64) None m ''schema_version'') (\<lambda>sv.
     Option.bind (de_dflt (de_opt as_str) None m ''chain_hash'') (\<lambda>h.
     Some \<lparr>tx_ts = ts, tx_type = ty, tx_payload = p, tx_idempotency_key = k, tx_seq = s, tx_schema_version = sv,
           tx_chain_hash = h\<rparr>))))))))"

definition transaction_new :: "string \<Rightarrow> string \<Rightarrow> json \<Rightarrow> ledger_transaction" where
  "transaction_new now ty p =
     \<lparr>tx_ts = now, tx_type = ty, tx_payload = p, tx_idempotency_key = None, tx_seq = None,
      tx_schema_version = None, tx_chain_hash = None\<rparr>"

definition STATE_CHECKPOINT_TX_TYPE :: string where
  "STATE_CHECKPOINT_TX_TYPE = ''state_checkpoint''"

definition CHECKPOINT_INTERVAL :: nat where
  "CHECKPOINT_INTERVAL = 100"

section \<open>Lines\<close>

fun starts_with_brace :: "jsonl_line \<Rightarrow> bool" where
  "starts_with_brace (Row (JObj m)) = True"
| "starts_with_brace (Garbled b) = b"
| "starts_with_brace _ = False"

definition line_count :: "jsonl_line list \<Rightarrow> nat" where
  "line_count ls = length (filter starts_with_brace ls)"

definition line_chain_hash :: "jsonl_line \<Rightarrow> string option" where
  "line_chain_hash l =
     (case l of
        Row (JObj m) \<Rightarrow> (case Option.bind (tx_of_json (JObj m)) tx_chain_hash of
            Some h \<Rightarrow> if h \<noteq> [] then Some h else None
          | None \<Rightarrow> None)
      | _ \<Rightarrow> None)"

definition last_chain_hash_from_content :: "jsonl_line list \<Rightarrow> string" where
  "last_chain_hash_from_content ls = or_default ''genesis'' (first_some line_chain_hash (rev ls))"

definition chained :: "goal_env \<Rightarrow> string \<Rightarrow> ledger_transaction \<Rightarrow> ledger_transaction" where
  "chained env prev tx = tx\<lparr>tx_chain_hash := Some (ge_hash env prev (tx_json tx))\<rparr>"

text \<open>The empty lines at the end go before a line is added.\<close>

definition add_line :: "jsonl_line list \<Rightarrow> json \<Rightarrow> jsonl_line list" where
  "add_line ls v =
     (let base = rev (dropWhile (\<lambda>l. l = Blank True) (rev ls)) in
      if ls = [] then [Row v] else if base = [] then [Blank True, Row v] else base @ [Row v])"

definition already_recorded :: "goal_env \<Rightarrow> ledger_transaction \<Rightarrow> jsonl_line list \<Rightarrow> bool" where
  "already_recorded env tx ls =
     (case tx_idempotency_key tx of
        None \<Rightarrow> False
      | Some k \<Rightarrow> list_ex (\<lambda>v. ge_mentions env v k \<and> Option.bind (tx_of_json v) tx_idempotency_key = Some k) (rows ls))"

fun rechain :: "goal_env \<Rightarrow> string \<Rightarrow> jsonl_line list \<Rightarrow> jsonl_line list option" where
  "rechain env prev [] = Some []"
| "rechain env prev (Blank b # ls) = rechain env prev ls"
| "rechain env prev (Garbled b # ls) = None"
| "rechain env prev (Row v # ls) =
     (case tx_of_json v of
        None \<Rightarrow> None
      | Some tx \<Rightarrow> (let tx' = chained env prev (tx\<lparr>tx_chain_hash := None\<rparr>) in
          map_option (\<lambda>ls'. Row (tx_json tx') # ls') (rechain env (the (tx_chain_hash tx')) ls)))"

definition recompute_chain_hashes :: "goal_env \<Rightarrow> jsonl_line list \<Rightarrow> jsonl_line list option" where
  "recompute_chain_hashes env ls =
     (case rechain env ''genesis'' ls of None \<Rightarrow> None | Some out \<Rightarrow> Some (if out = [] then ls else out))"

section \<open>Appending\<close>

definition put_ledger :: "string \<Rightarrow> jsonl_line list \<Rightarrow> goal_world \<Rightarrow> goal_world" where
  "put_ledger t ls w = w\<lparr>gw_ledgers := hput t (Lines ls) (gw_ledgers w)\<rparr>"

definition write_ledger :: "string \<Rightarrow> jsonl_line list \<Rightarrow> unit goal_step" where
  "write_ledger t ls = swrite Validation (put_ledger t ls)"

definition patch_ledger_chain_hashes :: "goal_env \<Rightarrow> string \<Rightarrow> unit goal_step" where
  "patch_ledger_chain_hashes env t w =
     (case ledger_at w t of
        Lines ls \<Rightarrow> (case recompute_chain_hashes env ls of
            None \<Rightarrow> (Inl (Validation, ParseFails), w)
          | Some ls' \<Rightarrow> if ls' = ls then (Inr (), w) else write_ledger t ls' w)
      | _ \<Rightarrow> (Inl (Io, ReadFails), w))"

definition write_state_checkpoint :: "goal_env \<Rightarrow> string \<Rightarrow> nat \<Rightarrow> unit goal_step" where
  "write_state_checkpoint env t last_seq w =
     (let goal = (case read_goal_state env (Some t) w of Inr (Some v) \<Rightarrow> v | _ \<Rightarrow> JNull);
          (nonempty, ok) = task_evidence_artifacts_summary t w;
          payload = jobj [(''goal_state'', goal),
            (''evidence'', jobj [(''evidence_rows_non_empty'', JBool nonempty), (''has_successful_verification'', JBool ok)])];
          tx = (transaction_new (ge_now env 3) STATE_CHECKPOINT_TX_TYPE payload)
                 \<lparr>tx_schema_version := Some 1, tx_seq := Some (of_nat last_seq)\<rparr> in
      sbind (sread (\<lambda>_. validate_task_id_component t)) (\<lambda>u.
      sbind (swrite Io (\<lambda>w. w)) (\<lambda>_. \<lambda>w.
        (let ls = (case ledger_at w u of Lines ls \<Rightarrow> ls | _ \<Rightarrow> []) in
         write_ledger u (add_line ls (tx_json (chained env (last_chain_hash_from_content ls) tx))) w))) w)"

text \<open>After the line is written: the periodic checkpoint, and compaction of what was written before it.\<close>

definition ledger_upkeep :: "goal_env \<Rightarrow> string \<Rightarrow> nat \<Rightarrow> jsonl_line list \<Rightarrow> unit goal_step" where
  "ledger_upkeep env t n ls =
     sbind (if 0 < n \<and> n mod CHECKPOINT_INTERVAL = 0 then signore (write_state_checkpoint env t n) else sret ()) (\<lambda>_.
     case compact_jsonl_core 300 ls of
       None \<Rightarrow> sret ()
     | Some out \<Rightarrow> signore (sbind (write_ledger t out) (\<lambda>_. patch_ledger_chain_hashes env t)))"

definition append_line :: "goal_env \<Rightarrow> string \<Rightarrow> ledger_transaction \<Rightarrow> jsonl_line list \<Rightarrow> unit goal_step" where
  "append_line env t tx ls =
     (if already_recorded env tx ls then sret ()
      else
        (let n = line_count ls;
             tx' = chained env (last_chain_hash_from_content ls) (tx\<lparr>tx_seq := Some (of_nat n)\<rparr>);
             content = add_line ls (tx_json tx') in
         sbind (write_ledger t content) (\<lambda>_. ledger_upkeep env t n content)))"

text \<open>The lines left after the repair of the tail; when it fails, the lines as they were read.\<close>

definition repair_tail :: "string \<Rightarrow> jsonl_line list \<Rightarrow> jsonl_line list goal_step" where
  "repair_tail t ls w =
     (case truncate_corrupt_tail ls of
        None \<Rightarrow> (Inr ls, w)
      | Some ls' \<Rightarrow> (case attempt (put_ledger t ls') w of (ok, w') \<Rightarrow> (Inr (if ok then ls' else ls), w')))"

definition append_transaction_assuming_l1_held :: "goal_env \<Rightarrow> string \<Rightarrow> ledger_transaction \<Rightarrow> unit goal_step" where
  "append_transaction_assuming_l1_held env t tx =
     sbind (sread (\<lambda>_. validate_task_id_component t)) (\<lambda>u.
     sbind (swrite Io (\<lambda>w. w)) (\<lambda>_. \<lambda>w.
       case ledger_at w u of
         BadLedger \<Rightarrow> (Inl (Io, ReadFails), w)
       | NoLedger \<Rightarrow> write_ledger u [Row (tx_json (chained env ''genesis'' (tx\<lparr>tx_seq := Some 0\<rparr>)))] w
       | Lines ls \<Rightarrow> sbind (repair_tail u ls) (append_line env u tx) w))"

definition append_transaction :: "goal_env \<Rightarrow> string \<Rightarrow> ledger_transaction \<Rightarrow> unit goal_step" where
  "append_transaction env t tx =
     (if ge_lock env then append_transaction_assuming_l1_held env t tx else sfail Lock LockFails)"

end
