(* ===== verification/Goal_Research.thy ===== *)
theory Goal_Research
  imports Files Closeout_Rules
begin

text \<open>
  The records of external research (\<^verbatim>\<open>core/core-state/src/state_manager/validation.rs\<close>): the
  structural check and the strict one on top of it. Their callers look at success only, so the
  checks are predicates.
\<close>

definition EXTERNAL_RESEARCH_STRICT_TRACE_MIN_LEN :: nat where
  "EXTERNAL_RESEARCH_STRICT_TRACE_MIN_LEN = 40"

definition nonempty_trimmed_string :: "json \<Rightarrow> bool" where
  "nonempty_trimmed_string v \<longleftrightarrow> nonempty_trimmed (as_str v) \<noteq> None"

definition has_text :: "(string \<times> json) list \<Rightarrow> string \<Rightarrow> bool" where
  "has_text row k \<longleftrightarrow> (case map_of row k of Some v \<Rightarrow> nonempty_trimmed_string v | None \<Rightarrow> False)"

definition validate_nonempty_string_items :: "json list \<Rightarrow> bool" where
  "validate_nonempty_string_items arr \<longleftrightarrow> arr \<noteq> [] \<and> list_all nonempty_trimmed_string arr"

definition array_member :: "(string \<times> json) list \<Rightarrow> string \<Rightarrow> json list option" where
  "array_member row k = Option.bind (map_of row k) as_array"

definition has_text_items :: "(string \<times> json) list \<Rightarrow> string \<Rightarrow> bool" where
  "has_text_items row k \<longleftrightarrow> (case array_member row k of Some a \<Rightarrow> validate_nonempty_string_items a | None \<Rightarrow> False)"

definition SOURCE_PREFIXES :: "string list" where
  "SOURCE_PREFIXES = [''arxiv:'', ''pmid:'', ''isbn:'', ''dataset:'', ''official_doc:'', ''huggingface:'', ''hf:'',
     ''github:'', ''kaggle:'', ''geojson:'']"

definition source_traceable_heuristic :: "string \<Rightarrow> bool" where
  "source_traceable_heuristic s \<longleftrightarrow>
     (let t = trim s; lower = ascii_lower t in
      t \<noteq> [] \<and>
      (starts_with lower ''http://'' \<or> starts_with lower ''https://'' \<or> starts_with lower ''doi:10.'' \<or>
       starts_with lower ''10.'' \<and> CHR ''/'' \<in> set lower \<or> list_ex (starts_with lower) SOURCE_PREFIXES))"

definition validate_source_list_traceable :: "nat \<Rightarrow> json list \<Rightarrow> bool" where
  "validate_source_list_traceable min_len sources \<longleftrightarrow>
     min_len \<le> length sources \<and>
     list_all (\<lambda>v. case as_str v of Some s \<Rightarrow> source_traceable_heuristic s | None \<Rightarrow> False) sources"

definition traceable_row :: "nat \<Rightarrow> json \<Rightarrow> bool" where
  "traceable_row n v \<longleftrightarrow>
     (case Option.bind (as_object v) (\<lambda>row. array_member row ''sources'') of
        Some sources \<Rightarrow> validate_source_list_traceable n sources | None \<Rightarrow> False)"

definition TRACE_RULES :: "string list" where
  "TRACE_RULES = [''inclusion_rules'', ''exclusions'', ''exclusion_rationale'']"

definition strict_trace :: "(string \<times> json) list \<Rightarrow> bool" where
  "strict_trace tr \<longleftrightarrow>
     (case array_member tr ''queries_used'' of Some qs \<Rightarrow> 3 \<le> length qs | None \<Rightarrow> False) \<and>
     list_all (\<lambda>k. case Option.bind (map_of tr k) as_str of
         Some s \<Rightarrow> EXTERNAL_RESEARCH_STRICT_TRACE_MIN_LEN \<le> length (trim s) | None \<Rightarrow> False) TRACE_RULES"

definition validate_external_research_strict :: "json \<Rightarrow> bool" where
  "validate_external_research_strict v \<longleftrightarrow>
     (case as_object v of
        None \<Rightarrow> False
      | Some obj \<Rightarrow>
          (case map_of obj ''unknowns'' of Some u \<Rightarrow> u = JNull \<or> as_array u \<noteq> None | None \<Rightarrow> False) \<and>
          (case (array_member obj ''claims'', array_member obj ''contradiction_sweep'') of
             (Some claims, Some sweep) \<Rightarrow>
               max 2 (length claims div 2) \<le> length sweep \<and> list_all (traceable_row 1) sweep \<and>
               list_all (traceable_row 2) claims
           | _ \<Rightarrow> False) \<and>
          (case Option.bind (map_of obj ''retrieval_trace'') as_object of Some tr \<Rightarrow> strict_trace tr | None \<Rightarrow> False))"

definition claim_row :: "json \<Rightarrow> bool" where
  "claim_row v \<longleftrightarrow> (case as_object v of Some row \<Rightarrow> has_text row ''claim'' \<and> has_text_items row ''sources'' | None \<Rightarrow> False)"

definition sweep_row :: "json \<Rightarrow> bool" where
  "sweep_row v \<longleftrightarrow>
     (case as_object v of
        Some row \<Rightarrow> has_text row ''related_claim_or_topic'' \<and> has_text row ''contradicting_or_limiting_evidence'' \<and>
          has_text_items row ''sources''
      | None \<Rightarrow> False)"

definition text_row :: "string list \<Rightarrow> json \<Rightarrow> bool" where
  "text_row ks v \<longleftrightarrow> (case as_object v of Some row \<Rightarrow> list_all (has_text row) ks | None \<Rightarrow> False)"

definition replays_ok :: "json \<Rightarrow> bool" where
  "replays_ok qr \<longleftrightarrow>
     (case qr of
        JNull \<Rightarrow> True
      | JStr s \<Rightarrow> ascii_lower (trim s) = ''none''
      | JArr es \<Rightarrow> list_all (text_row [''dataset_or_source_id'', ''version_or_snapshot'', ''window'', ''replay_command'']) es
      | _ \<Rightarrow> False)"

definition structured_trace :: "(string \<times> json) list \<Rightarrow> bool" where
  "structured_trace tr \<longleftrightarrow> has_text_items tr ''queries_used'' \<and> list_all (has_text tr) TRACE_RULES"

definition validate_external_research_structured :: "json \<Rightarrow> bool" where
  "validate_external_research_structured v \<longleftrightarrow>
     (case as_object v of
        None \<Rightarrow> False
      | Some obj \<Rightarrow>
          (case array_member obj ''claims'' of Some cs \<Rightarrow> cs \<noteq> [] \<and> list_all claim_row cs | None \<Rightarrow> False) \<and>
          (case array_member obj ''contradiction_sweep'' of Some ss \<Rightarrow> ss \<noteq> [] \<and> list_all sweep_row ss | None \<Rightarrow> False) \<and>
          (case map_of obj ''unknowns'' of
             None \<Rightarrow> True | Some JNull \<Rightarrow> True
           | Some (JArr us) \<Rightarrow> list_all (text_row [''question'', ''why_insufficient'']) us
           | Some _ \<Rightarrow> False) \<and>
          (case map_of obj ''quantitative_replays'' of None \<Rightarrow> True | Some qr \<Rightarrow> replays_ok qr) \<and>
          (case Option.bind (map_of obj ''retrieval_trace'') as_object of
             Some tr \<Rightarrow> structured_trace tr | None \<Rightarrow> False))"

end
