(* ===== verification/Goal_View.thy ===== *)
theory Goal_View
  imports Goal_Ledger Goal_Research
begin

text \<open>
  The read model of a task (\<^verbatim>\<open>core/core-state/src/task_state.rs\<close> and its types): the replay of the
  ledger over the documents, the roll-up of the quality gate's rounds into a depth score, the
  notes about the pointers, and the completion gates that are checked against the view.
\<close>

section \<open>Types\<close>

record task_pointers =
  tp_active_task_id :: "string option"
  tp_focus_task_id :: "string option"

record depth_compliance =
  dc_goal_checkpoint_count :: nat
  dc_qg_adversarial_round_count :: nat
  dc_qg_falsification_test_count :: nat
  dc_qg_pass_round_count :: nat
  dc_qg_fail_round_count :: nat
  dc_qg_skipped_round_count :: nat
  dc_qg_unknown_round_count :: nat
  dc_qg_pass_without_evidence_count :: nat
  dc_qg_external_deep_structured_round_count :: nat
  dc_qg_external_strict_ok_round_count :: nat
  dc_depth_score :: nat

record evidence_rollup =
  er_task_id :: string
  er_evidence_rows_non_empty :: bool
  er_has_successful_verification :: bool

record task_view =
  tv_schema_version :: string
  tv_task_id :: "string option"
  tv_pointers :: task_pointers
  tv_goal_state :: "json option"
  tv_evidence :: "evidence_rollup option"
  tv_depth_compliance :: "depth_compliance option"
  tv_resolution_notes :: "string list"

record completion_gates =
  cg_enabled :: bool
  cg_min_depth_score :: "nat option"
  cg_require_successful_evidence_row :: bool
  cg_min_goal_checkpoints :: "nat option"
  cg_block_on_quality_gate_pass_without_evidence :: bool

definition RESOLVED_TASK_VIEW_SCHEMA_VERSION :: string where
  "RESOLVED_TASK_VIEW_SCHEMA_VERSION = ''router-rs-resolved-task-view-v1''"

section \<open>Depth\<close>

definition extract_goal_checkpoint_count :: "json option \<Rightarrow> nat" where
  "extract_goal_checkpoint_count g =
     (case Option.bind g (\<lambda>v. jget_with as_array v ''checkpoints'') of Some a \<Rightarrow> length a | None \<Rightarrow> 0)"

definition upper_char :: "char \<Rightarrow> char" where
  "upper_char c =
     (case map_of (zip ''abcdefghijklmnopqrstuvwxyz'' ''ABCDEFGHIJKLMNOPQRSTUVWXYZ'') c of
        Some d \<Rightarrow> d | None \<Rightarrow> c)"

definition verify_result :: "json \<Rightarrow> string" where
  "verify_result r = map upper_char (or_default ''UNKNOWN'' (jget_with as_str r ''verify_result''))"

definition round_is_deep :: "json \<Rightarrow> bool" where
  "round_is_deep r \<longleftrightarrow> jget_with as_object r ''external_research'' \<noteq> None"

definition count_where :: "('a \<Rightarrow> bool) \<Rightarrow> 'a list \<Rightarrow> nat" where
  "count_where P xs = length (filter P xs)"

definition accumulate_qg_round_metrics :: "json option \<Rightarrow> depth_compliance" where
  "accumulate_qg_round_metrics qg =
     (let r = or_default JNull qg;
          strict = or_default False (jget_with as_bool r ''external_research_strict'');
          rounds = or_default [] (jget_with as_array r ''rounds'');
          result = (\<lambda>s. count_where (\<lambda>x. verify_result x = s) rounds) in
      \<lparr>dc_goal_checkpoint_count = 0,
       dc_qg_adversarial_round_count =
         count_where (\<lambda>x. or_default [] (jget_with as_array x ''adversarial_findings'') \<noteq> []) rounds,
       dc_qg_falsification_test_count =
         sum_list (map (\<lambda>x. length (or_default [] (jget_with as_array x ''falsification_tests''))) rounds),
       dc_qg_pass_round_count = result ''PASS'', dc_qg_fail_round_count = result ''FAIL'',
       dc_qg_skipped_round_count = result ''SKIPPED'',
       dc_qg_unknown_round_count = count_where (\<lambda>x. verify_result x \<notin> {''PASS'', ''FAIL'', ''SKIPPED''}) rounds,
       dc_qg_pass_without_evidence_count =
         count_where (\<lambda>x. verify_result x = ''PASS'' \<and> jget_with as_str x ''cross_check'' = Some ''no_evidence_window'') rounds,
       dc_qg_external_deep_structured_round_count = count_where round_is_deep rounds,
       dc_qg_external_strict_ok_round_count =
         count_where (\<lambda>x. round_is_deep x \<and> strict \<and>
           (case jget x ''external_research'' of
              Some er \<Rightarrow> validate_external_research_structured er \<and> validate_external_research_strict er
            | None \<Rightarrow> False)) rounds,
       dc_depth_score = 0\<rparr>)"

text \<open>The mode is strict when the environment says so.\<close>

definition depth_score_mode_is_strict :: "goal_env \<Rightarrow> bool" where
  "depth_score_mode_is_strict env \<longleftrightarrow>
     (case map_of (ge_vars env) ''ROUTER_RS_DEPTH_SCORE_MODE'' of Some s \<Rightarrow> trim s = ''strict'' | None \<Rightarrow> False)"

definition compute_depth_score :: "bool \<Rightarrow> depth_compliance \<Rightarrow> bool \<Rightarrow> nat" where
  "compute_depth_score strict c evidence_ok =
     (if 0 < dc_qg_pass_round_count c then 1 else 0) + (if evidence_ok then 1 else 0) +
     (if 0 < dc_goal_checkpoint_count c \<or> 0 < dc_qg_adversarial_round_count c \<or>
         0 < dc_qg_external_strict_ok_round_count c \<or> strict \<and> 0 < dc_qg_falsification_test_count c
      then 1 else 0)"

definition depth_compliance_aggregate :: "goal_env \<Rightarrow> json option \<Rightarrow> json option \<Rightarrow> bool \<Rightarrow> depth_compliance" where
  "depth_compliance_aggregate env goal qg evidence_ok =
     (let c = (accumulate_qg_round_metrics qg)\<lparr>dc_goal_checkpoint_count := extract_goal_checkpoint_count goal\<rparr> in
      c\<lparr>dc_depth_score := compute_depth_score (depth_score_mode_is_strict env) c evidence_ok\<rparr>)"

section \<open>Replay\<close>

text \<open>Reading the ledger repairs its tail; a line that is no transaction is skipped.\<close>

definition read_task_ledger_transactions :: "string \<Rightarrow> goal_world \<Rightarrow> ledger_transaction list \<times> goal_world" where
  "read_task_ledger_transactions t w =
     (case safe_task_id_component t of
        None \<Rightarrow> ([], w)
      | Some u \<Rightarrow> (case ledger_at w u of
          Lines ls \<Rightarrow> (case repair_tail u ls w of (_, w') \<Rightarrow> (List.map_filter tx_of_json (rows ls), w'))
        | _ \<Rightarrow> ([], w)))"

text \<open>The goal state, whether the evidence has rows, and whether one of them succeeded.\<close>

type_synonym replay_state = "json option \<times> bool \<times> bool"

definition apply_checkpoint :: "json \<Rightarrow> replay_state \<Rightarrow> replay_state" where
  "apply_checkpoint p = (\<lambda>(goal, rows, ok).
     (case jget p ''goal_state'' of Some v \<Rightarrow> if v = JNull then goal else Some v | None \<Rightarrow> goal,
      or_default rows (Option.bind (jget p ''evidence'') (\<lambda>e. jget_with as_bool e ''evidence_rows_non_empty'')),
      or_default ok (Option.bind (jget p ''evidence'') (\<lambda>e. jget_with as_bool e ''has_successful_verification''))))"

definition replay_step :: "replay_state \<Rightarrow> ledger_transaction \<Rightarrow> replay_state" where
  "replay_step = (\<lambda>(goal, rows, ok) tx.
     if tx_type tx = ''goal_state'' then (if tx_payload tx = JNull then None else Some (tx_payload tx), rows, ok)
     else if tx_type tx = ''evidence'' then (goal, True, ok \<or> evidence_index_entry_implies_success (tx_payload tx))
     else (goal, rows, ok))"

text \<open>The base of the replay is the last checkpoint, if there is one; then the transactions after it.\<close>

definition is_checkpoint :: "ledger_transaction \<Rightarrow> bool" where
  "is_checkpoint tx \<longleftrightarrow> tx_type tx = STATE_CHECKPOINT_TX_TYPE"

definition replay :: "ledger_transaction list \<Rightarrow> replay_state \<Rightarrow> replay_state" where
  "replay txs s =
     (let after = rev (takeWhile (\<lambda>tx. \<not> is_checkpoint tx) (rev txs));
          base = (case find is_checkpoint (rev txs) of Some cp \<Rightarrow> apply_checkpoint (tx_payload cp) s | None \<Rightarrow> s) in
      foldl replay_step base after)"

text \<open>A text cut at the last start of a character that is not beyond an index.\<close>

definition char_boundary :: "string \<Rightarrow> nat \<Rightarrow> bool" where
  "char_boundary s n \<longleftrightarrow> n = 0 \<or> n = length s \<or> n < length s \<and> \<not> is_continuation (s ! n)"

fun char_floor :: "string \<Rightarrow> nat \<Rightarrow> nat" where
  "char_floor s 0 = 0"
| "char_floor s (Suc n) = (if char_boundary s (Suc n) then Suc n else char_floor s n)"

definition clamp_text :: "nat \<Rightarrow> string \<Rightarrow> string" where
  "clamp_text n s = (if n < length s then take (char_floor s n) s else s)"

definition resolution_read_err :: "string \<Rightarrow> string \<Rightarrow> string" where
  "resolution_read_err kind err =
     (let line = kind @ '': '' @ err in
      if 220 < length line then clamp_text 220 line @ ''...'' else line)"

definition hydrate_task_state_hybrid ::
  "goal_env \<Rightarrow> string \<Rightarrow> goal_world \<Rightarrow> (json option \<times> evidence_rollup \<times> string list) \<times> goal_world" where
  "hydrate_task_state_hybrid env t w =
     (let (goal, notes) = (case read_goal_state env (Some t) w of
              Inr g \<Rightarrow> (g, []) | Inl e \<Rightarrow> (None, [resolution_read_err ''goal_state_read_failed'' (ge_wording env e)]));
          (rows, ok) = task_evidence_artifacts_summary t w;
          (txs, w') = read_task_ledger_transactions t w;
          (goal', rows', ok') = replay txs (goal, rows, ok) in
      ((goal', \<lparr>er_task_id = t, er_evidence_rows_non_empty = rows', er_has_successful_verification = ok'\<rparr>, notes), w'))"

section \<open>The view of a task\<close>

definition pointer_note :: "string \<Rightarrow> string \<Rightarrow> string \<Rightarrow> string" where
  "pointer_note kind active focus = kind @ '' active='' @ active @ '' focus='' @ focus"

definition note_active_goal_missing :: "task_pointers \<Rightarrow> string \<Rightarrow> json option \<Rightarrow> json option \<Rightarrow> string list" where
  "note_active_goal_missing p t goal focus_goal =
     (case (tp_active_task_id p, tp_focus_task_id p) of
        (Some a, Some f) \<Rightarrow> if t = a \<and> goal = None \<and> f \<noteq> a \<and> focus_goal \<noteq> None
          then [pointer_note ''continuity:active_goal_missing_focus_has_goal'' a f] else []
      | _ \<Rightarrow> [])"

definition note_focus_drives :: "task_pointers \<Rightarrow> string \<Rightarrow> json option \<Rightarrow> json option \<Rightarrow> string list" where
  "note_focus_drives p t goal focus_goal =
     (case (tp_active_task_id p, tp_focus_task_id p, goal, focus_goal) of
        (Some a, Some f, Some g, Some fg) \<Rightarrow>
          if a \<noteq> f \<and> t = a \<and> \<not> goal_state_requests_continuation g \<and> goal_state_requests_continuation fg
          then [pointer_note ''continuity:active_goal_not_driving_focus_drives'' a f] else []
      | _ \<Rightarrow> [])"

definition goal_present :: "goal_env \<Rightarrow> string \<Rightarrow> goal_world \<Rightarrow> bool" where
  "goal_present env t w \<longleftrightarrow> (case read_goal_state env (Some t) w of Inr (Some v) \<Rightarrow> True | _ \<Rightarrow> False)"

definition note_dual_goal :: "goal_env \<Rightarrow> task_pointers \<Rightarrow> goal_world \<Rightarrow> string list" where
  "note_dual_goal env p w =
     (case (tp_active_task_id p, tp_focus_task_id p) of
        (Some a, Some f) \<Rightarrow>
          if a \<noteq> [] \<and> f \<noteq> [] \<and> a \<noteq> f \<and> goal_present env a w \<and> goal_present env f w
          then [pointer_note ''continuity:dual_goal_pointer_conflict'' a f] else []
      | _ \<Rightarrow> [])"

definition read_task_pointers :: "goal_world \<Rightarrow> task_pointers" where
  "read_task_pointers w =
     (case read_task_pointer_pair w of (a, f) \<Rightarrow> \<lparr>tp_active_task_id = a, tp_focus_task_id = f\<rparr>)"

definition read_gate_state :: "string \<Rightarrow> goal_world \<Rightarrow> json option" where
  "read_gate_state t w = (case file_at (gw_gates w) t of Holds v \<Rightarrow> Some v | _ \<Rightarrow> None)"

definition idle_view :: "task_pointers \<Rightarrow> task_view" where
  "idle_view p =
     \<lparr>tv_schema_version = RESOLVED_TASK_VIEW_SCHEMA_VERSION, tv_task_id = None, tv_pointers = p, tv_goal_state = None,
      tv_evidence = None, tv_depth_compliance = None,
      tv_resolution_notes = [''no_task_id: override empty and no active/focus pointer'']\<rparr>"

definition resolve_task_view_with_pointers ::
  "goal_env \<Rightarrow> string option \<Rightarrow> task_pointers \<Rightarrow> goal_world \<Rightarrow> task_view \<times> goal_world" where
  "resolve_task_view_with_pointers env override p w =
     (case or_else (nonempty_trimmed override) (or_else (tp_active_task_id p) (tp_focus_task_id p)) of
        None \<Rightarrow> (idle_view p, w)
      | Some t \<Rightarrow>
          (let ((goal, ev, notes), w') = hydrate_task_state_hybrid env t w;
               focus_goal = Option.bind (tp_focus_task_id p) (\<lambda>f.
                 case read_goal_state env (Some f) w' of Inr g \<Rightarrow> g | Inl e \<Rightarrow> None) in
           (\<lparr>tv_schema_version = RESOLVED_TASK_VIEW_SCHEMA_VERSION, tv_task_id = Some t, tv_pointers = p,
             tv_goal_state = goal, tv_evidence = Some ev,
             tv_depth_compliance = Some (depth_compliance_aggregate env goal (read_gate_state t w')
               (er_has_successful_verification ev)),
             tv_resolution_notes = notes @ note_active_goal_missing p t goal focus_goal @
               note_focus_drives p t goal focus_goal @ note_dual_goal env p w'\<rparr>, w')))"

definition resolve_task_view :: "goal_env \<Rightarrow> string option \<Rightarrow> goal_world \<Rightarrow> task_view \<times> goal_world" where
  "resolve_task_view env override w = resolve_task_view_with_pointers env override (read_task_pointers w) w"

section \<open>Completion gates\<close>

definition parse_goal_completion_gates :: "json \<Rightarrow> completion_gates option" where
  "parse_goal_completion_gates goal =
     (case jget goal ''completion_gates'' of
        Some (JObj g) \<Rightarrow> Some
          \<lparr>cg_enabled = or_default True (jget_with as_bool (JObj g) ''enabled''),
           cg_min_depth_score = map_option (min 3) (jget_with as_u64 (JObj g) ''min_depth_score''),
           cg_require_successful_evidence_row =
             or_default False (jget_with as_bool (JObj g) ''require_successful_evidence_row''),
           cg_min_goal_checkpoints = jget_with as_u64 (JObj g) ''min_goal_checkpoints'',
           cg_block_on_quality_gate_pass_without_evidence =
             or_default False (jget_with as_bool (JObj g) ''block_on_rfv_pass_without_evidence'')\<rparr>
      | Some (JArr xs) \<Rightarrow> if xs = [] then None else Some
          \<lparr>cg_enabled = True, cg_min_depth_score = None, cg_require_successful_evidence_row = False,
           cg_min_goal_checkpoints = None, cg_block_on_quality_gate_pass_without_evidence = False\<rparr>
      | _ \<Rightarrow> None)"

definition check :: "bool \<Rightarrow> goal_error \<Rightarrow> unit outcome_of" where
  "check c e = (if c then Inr () else invalid e)"

definition validate_goal_completion_gates :: "task_view \<Rightarrow> completion_gates \<Rightarrow> unit outcome_of" where
  "validate_goal_completion_gates view g =
     (if \<not> cg_enabled g then Inr ()
      else case tv_depth_compliance view of
        None \<Rightarrow> invalid NoDepthRollup
      | Some dc \<Rightarrow>
          bind_result (case cg_min_depth_score g of
              Some m \<Rightarrow> check (m \<le> dc_depth_score dc) (DepthTooLow (dc_depth_score dc) m) | None \<Rightarrow> Inr ()) (\<lambda>_.
          bind_result (check (cg_require_successful_evidence_row g \<longrightarrow>
              (case tv_evidence view of Some e \<Rightarrow> er_has_successful_verification e | None \<Rightarrow> False)) NoSuccessfulRow) (\<lambda>_.
          bind_result (case cg_min_goal_checkpoints g of
              Some m \<Rightarrow> (let n = extract_goal_checkpoint_count (tv_goal_state view) in check (m \<le> n) (TooFewCheckpoints n m))
            | None \<Rightarrow> Inr ()) (\<lambda>_.
          check (\<not> (cg_block_on_quality_gate_pass_without_evidence g \<and> 0 < dc_qg_pass_without_evidence_count dc))
            (PassWithoutEvidence (dc_qg_pass_without_evidence_count dc))))))"

section \<open>Continuity\<close>

text \<open>A task id, or a path of such ids below the directory of the tasks.\<close>

definition nested_id :: "string \<Rightarrow> string option" where
  "nested_id rel =
     (let r = trim_slashes (trim rel); segs = map trim (split_path r) in
      if r = [] \<or> list_ex (\<lambda>s. s = [] \<or> safe_task_id_component s = None) segs then None else Some (join_path segs))"

definition read_goal_state_pair_if_valid :: "goal_env \<Rightarrow> string \<Rightarrow> goal_world \<Rightarrow> (json \<times> string) option" where
  "read_goal_state_pair_if_valid env t w =
     (if trim t = [] then None
      else Option.bind (or_else (safe_task_id_component t) (nested_id t)) (\<lambda>k.
        case file_at (gw_goals w) k of
          Holds v \<Rightarrow> Some (annotate_goal_staleness env v, trim_slashes (forward_slashes (trim t)))
        | _ \<Rightarrow> None))"

definition select_goal_state_from_pointer_ids ::
  "goal_env \<Rightarrow> string option \<Rightarrow> string option \<Rightarrow> goal_world \<Rightarrow> (json \<times> string) option" where
  "select_goal_state_from_pointer_ids env active focus w =
     (let pair = (\<lambda>id. Option.bind id (\<lambda>t. read_goal_state_pair_if_valid env t w)) in
      case pair active of
        Some (goal, t) \<Rightarrow>
          if goal_state_requests_continuation goal then Some (goal, t) else or_else (pair focus) (Some (goal, t))
      | None \<Rightarrow> pair focus)"

definition segments :: "string \<Rightarrow> nat" where
  "segments t = length (filter (\<lambda>c. c = CHR ''/'') t) + 1"

definition read_goal_state_for_diagnostics_scan :: "goal_env \<Rightarrow> goal_world \<Rightarrow> (json \<times> string) option" where
  "read_goal_state_for_diagnostics_scan env w =
     (let found = filter (\<lambda>t. file_at (gw_goals w) t \<noteq> Missing \<and> segments t < 8) (hkeys (gw_goals w)) in
      first_some (\<lambda>t. read_goal_state_pair_if_valid env t w) (sort_key (\<lambda>t. - int (ge_mtime env t)) found))"

definition goal_diagnostics_scan_hydrate_enabled :: "goal_env \<Rightarrow> bool" where
  "goal_diagnostics_scan_hydrate_enabled env \<longleftrightarrow>
     (case map_of (ge_vars env) ''ROUTER_RS_GOAL_DIAGNOSTICS_SCAN_HYDRATE'' of
        Some s \<Rightarrow> ascii_lower (trim s) \<in> {''1'', ''true'', ''yes'', ''on''} | None \<Rightarrow> False)"

definition resolve_continuity_frame :: "goal_env \<Rightarrow> goal_world \<Rightarrow> (task_view \<times> (json \<times> string) option) \<times> goal_world" where
  "resolve_continuity_frame env w =
     (let p = read_task_pointers w; (view, w') = resolve_task_view_with_pointers env None p w in
      ((view, or_else (select_goal_state_from_pointer_ids env (tp_active_task_id p) (tp_focus_task_id p) w')
         (if goal_diagnostics_scan_hydrate_enabled env then read_goal_state_for_diagnostics_scan env w' else None)), w'))"

text \<open>The task in focus becomes the active one when only it has a goal; whether it did.\<close>

definition maybe_promote_focus_to_active_pointer :: "goal_env \<Rightarrow> goal_world \<Rightarrow> bool \<times> goal_world" where
  "maybe_promote_focus_to_active_pointer env w =
     (let p = read_task_pointers w in
      case (tp_active_task_id p, tp_focus_task_id p) of
        (Some a, Some f) \<Rightarrow>
          if ge_lock env \<and> \<not> goal_present env a w \<and> a \<noteq> f \<and> goal_present env f w then
            (case write_active_task_pointer env f w of
               (Inr _, w') \<Rightarrow> (True, if gw_active w' = Missing then w' else snd (attempt (\<lambda>w. w\<lparr>gw_active := Missing\<rparr>) w'))
             | (Inl _, w') \<Rightarrow> (False, w'))
          else (False, w)
      | _ \<Rightarrow> (False, w))"

end
