(* ===== verification/Goal_State.thy ===== *)
theory Goal_State
  imports Goal_View
begin

text \<open>
  The goal state of a task as a value: its creation, the contract of a driving goal, the table of
  its status transitions and the pure parts of the goal operations
  (\<^verbatim>\<open>core/core-state/src/state_manager/goal_ops.rs\<close>), the prediction merged into it
  (\<^verbatim>\<open>core/core-state/src/goal_prediction.rs\<close>) and the check that a completion has evidence
  (\<^verbatim>\<open>core/core-state/src/transition_validation.rs\<close>).
\<close>

section \<open>Reading payloads\<close>

definition text_of :: "json \<Rightarrow> string \<Rightarrow> string option" where
  "text_of p k = nonempty_trimmed (jget_with as_str p k)"

definition flag_of :: "bool \<Rightarrow> json \<Rightarrow> string \<Rightarrow> bool" where
  "flag_of d p k = or_default d (jget_with as_bool p k)"

definition status_text :: "json \<Rightarrow> string" where
  "status_text v = or_default [] (jget_with as_str v ''status'')"

definition is_stale :: "json \<Rightarrow> bool" where
  "is_stale v \<longleftrightarrow> jget_with as_bool v ''stale'' = Some True"

definition inc64 :: "nat \<Rightarrow> nat" where
  "inc64 n = (n + 1) mod 2 ^ 64"

definition iteration_count :: "json \<Rightarrow> nat" where
  "iteration_count v = or_default 0 (jget_with as_u64 v ''iteration_count'')"

definition resolve_task_id_strict :: "json \<Rightarrow> string outcome_of" where
  "resolve_task_id_strict p = (case text_of p ''task_id'' of Some t \<Rightarrow> Inr t | None \<Rightarrow> invalid TaskIdRequired)"

definition resolve_session_id :: "goal_env \<Rightarrow> json \<Rightarrow> string" where
  "resolve_session_id env p = or_default [] (or_else (text_of p ''session_id'') (current_env_session_id env))"

definition strings_in :: "json list \<Rightarrow> json list" where
  "strings_in arr = map JStr (List.map_filter as_str arr)"

definition value_string_list :: "json \<Rightarrow> string \<Rightarrow> json list" where
  "value_string_list p k =
     (case jget p k of Some (JArr arr) \<Rightarrow> strings_in arr | Some (JStr s) \<Rightarrow> [JStr s] | _ \<Rightarrow> [])"

definition count_nonempty_string_items :: "json list \<Rightarrow> nat" where
  "count_nonempty_string_items vs = count_where nonempty_trimmed_string vs"

definition value_has_nonempty_string_item :: "json option \<Rightarrow> bool" where
  "value_has_nonempty_string_item ov =
     (case ov of Some (JArr items) \<Rightarrow> list_ex nonempty_trimmed_string items
      | Some (JStr s) \<Rightarrow> trim s \<noteq> [] | _ \<Rightarrow> False)"

section \<open>The contract of a driving goal\<close>

definition validate_drive_contract ::
  "bool \<Rightarrow> json list \<Rightarrow> json list \<Rightarrow> json list \<Rightarrow> string \<Rightarrow> unit outcome_of" where
  "validate_drive_contract drive non_goals done_when commands ctx =
     (if \<not> drive then Inr ()
      else if count_nonempty_string_items non_goals = 0 then invalid (ContractLacks ctx ''non_goals'')
      else if count_nonempty_string_items done_when < 2 then invalid (ContractLacks ctx ''done_when'')
      else if count_nonempty_string_items commands = 0 then invalid (ContractLacks ctx ''validation_commands'')
      else Inr ())"

definition contract_members :: "bool \<Rightarrow> json \<Rightarrow> string \<Rightarrow> unit outcome_of" where
  "contract_members drive v ctx =
     validate_drive_contract drive (or_default [] (jget_with as_array v ''non_goals''))
       (or_default [] (jget_with as_array v ''done_when''))
       (or_default [] (jget_with as_array v ''validation_commands'')) ctx"

definition goal_requires_completion_evidence :: "json \<Rightarrow> bool" where
  "goal_requires_completion_evidence v =
     (case jget_with as_bool v ''requires_completion_evidence'' of
        Some b \<Rightarrow> b
      | None \<Rightarrow> flag_of False v ''drive_until_done'' \<or>
          value_has_nonempty_string_item (jget v ''validation_commands'') \<or>
          value_has_nonempty_string_item (jget v ''done_when''))"

section \<open>Transitions of the status\<close>

definition is_valid_goal_transition :: "string \<Rightarrow> string \<Rightarrow> bool" where
  "is_valid_goal_transition a b \<longleftrightarrow> (a, b) \<in> set
     [(''running'', ''paused''), (''running'', ''blocked''), (''running'', ''review_pending''),
      (''running'', ''completed''), (''running'', ''failed''), (''paused'', ''running''), (''blocked'', ''running''),
      (''review_pending'', ''running''), (''paused'', ''failed''), (''blocked'', ''failed''), (''review_pending'', ''failed'')]"

section \<open>Creation\<close>

definition base_goal_object ::
  "string \<Rightarrow> json list \<Rightarrow> json list \<Rightarrow> json list \<Rightarrow> bool \<Rightarrow> bool \<Rightarrow> string \<Rightarrow> string \<Rightarrow> (string \<times> json) list" where
  "base_goal_object goal non_goals done_when commands drive evidence session now =
     foldl (\<lambda>m (k, v). jput k v m) []
       [(''schema_version'', JStr ''router-rs-goal-v1''), (''drive_until_done'', JBool drive),
        (''requires_completion_evidence'', JBool evidence), (''status'', JStr ''running''), (''goal'', JStr goal),
        (''session_id'', JStr session), (''non_goals'', JArr non_goals), (''done_when'', JArr done_when),
        (''validation_commands'', JArr commands), (''checkpoints'', JArr []), (''blocker'', JNull),
        (''updated_at'', JStr now)]"

definition merge_extra :: "(string \<times> json) list \<Rightarrow> (string \<times> json) list \<Rightarrow> (string \<times> json) list" where
  "merge_extra extra target = foldl (\<lambda>m (k, v). if k \<noteq> ''prediction'' then jput k v m else m) target extra"

definition object_member :: "(string \<times> json) list \<Rightarrow> string \<Rightarrow> (string \<times> json) list \<Rightarrow> (string \<times> json) list" where
  "object_member m k d = (case map_of m k of Some (JObj e) \<Rightarrow> e | _ \<Rightarrow> d)"

definition on_extra ::
  "((string \<times> json) list \<Rightarrow> (string \<times> json) list) \<Rightarrow> (string \<times> json) list \<Rightarrow> (string \<times> json) list" where
  "on_extra f m =
     (case map_of m ''extra'' of
        None \<Rightarrow> jput ''extra'' (JObj (f [])) m
      | Some (JObj e) \<Rightarrow> jput ''extra'' (JObj (f e)) m
      | Some _ \<Rightarrow> m)"

definition merge_prediction_from_payload :: "json \<Rightarrow> (string \<times> json) list \<Rightarrow> (string \<times> json) list" where
  "merge_prediction_from_payload p m =
     (let extra = or_default [] (jget_with as_object p ''extra'') in
      case or_else (Option.bind (jget p ''extra'') (\<lambda>e. jget e ''prediction'')) (jget p ''prediction'') of
        None \<Rightarrow> if extra \<noteq> [] then on_extra (merge_extra extra) m else m
      | Some pred \<Rightarrow> on_extra (merge_extra extra \<circ> jput ''prediction'' pred) m)"

definition apply_optional_goal_fields :: "json \<Rightarrow> (string \<times> json) list \<Rightarrow> (string \<times> json) list" where
  "apply_optional_goal_fields p m =
     merge_prediction_from_payload p
       (case text_of p ''status'' of Some s \<Rightarrow> jput ''status'' (JStr s) m | None \<Rightarrow> m)"

definition put_some :: "string \<Rightarrow> json option \<Rightarrow> (string \<times> json) list \<Rightarrow> (string \<times> json) list" where
  "put_some k ov m = (case ov of Some v \<Rightarrow> jput k v m | None \<Rightarrow> m)"

definition not_null :: "json option \<Rightarrow> json option" where
  "not_null ov = (if ov = Some JNull then None else ov)"

text \<open>The goal a start request makes, after its checks.\<close>

definition started_goal :: "goal_env \<Rightarrow> json \<Rightarrow> string \<Rightarrow> (string \<times> json) list outcome_of" where
  "started_goal env p goal =
     (let drive = flag_of True p ''drive_until_done'';
          evidence = drive \<or> flag_of False p ''requires_completion_evidence'';
          non_goals = value_string_list p ''non_goals''; done_when = value_string_list p ''done_when'';
          commands = value_string_list p ''validation_commands'' in
      bind_result (validate_drive_contract drive non_goals done_when commands ''start'') (\<lambda>_.
        Inr (apply_optional_goal_fields p
          (put_some ''completion_gates'' (not_null (jget p ''completion_gates''))
            (put_some ''metadata'' (jget p ''metadata'')
              (base_goal_object goal non_goals done_when commands drive evidence (resolve_session_id env p)
                (ge_now env 0)))))))"

section \<open>Checkpoints\<close>

definition checkpoint_row :: "goal_env \<Rightarrow> json \<Rightarrow> string \<Rightarrow> json" where
  "checkpoint_row env p note =
     jobj [(''at'', JStr (ge_now env 1)), (''note'', JStr (clamp_text 2048 note)),
       (''type'', JStr (or_default ''milestone'' (jget_with as_str p ''checkpoint_type''))),
       (''done_when_covers'', or_default (JArr []) (jget p ''done_when_covers'')),
       (''evidence_refs'', or_default (JArr []) (jget p ''evidence_refs''))]"

definition add_checkpoint :: "goal_env \<Rightarrow> json \<Rightarrow> string \<Rightarrow> json \<Rightarrow> json outcome_of" where
  "add_checkpoint env p note v =
     (if is_stale v then invalid (StaleGoal ''checkpoint'')
      else if 100 \<le> length (or_default [] (jget_with as_array v ''checkpoints'')) then invalid CheckpointLimit
      else case v of
        JObj m \<Rightarrow> (case Option.bind (map_of m ''checkpoints'') as_array of
            Some cps \<Rightarrow> Inr (JObj (merge_prediction_from_payload p (jput ''updated_at'' (JStr (ge_now env 0))
              (jput ''checkpoints'' (JArr (cps @ [checkpoint_row env p note])) m))))
          | None \<Rightarrow> invalid CheckpointsCorrupt)
      | _ \<Rightarrow> invalid CheckpointsCorrupt)"

section \<open>Changes of the status\<close>

definition fail_goal :: "goal_env \<Rightarrow> json \<Rightarrow> json \<Rightarrow> json outcome_of" where
  "fail_goal env p v =
     (if is_stale v then invalid (StaleGoal ''fail'')
      else if status_text v = ''completed'' \<or> status_text v = ''failed'' then invalid (AlreadyTerminal (status_text v))
      else case v of
        JObj m \<Rightarrow> Inr (JObj (put_some ''failure_reason'' (map_option JStr (jget_with as_str p ''reason''))
          (jput ''updated_at'' (JStr (ge_now env 0)) (jput ''failed_at'' (JStr (ge_now env 1))
            (jput ''status'' (JStr ''failed'') m)))))
      | _ \<Rightarrow> invalid RootNotObject)"

definition retry_goal :: "goal_env \<Rightarrow> json \<Rightarrow> json outcome_of" where
  "retry_goal env v =
     (if is_stale v then invalid (StaleGoal ''retry'')
      else case v of
        JObj m \<Rightarrow> if status_text v \<noteq> ''review_pending'' then invalid (CannotRetry (status_text v))
          else Inr (JObj (jput ''updated_at'' (JStr (ge_now env 0)) (jput ''blockers'' JNull
            (jput ''status'' (JStr ''running'') m))))
      | _ \<Rightarrow> invalid RootNotObject)"

definition resume_goal :: "goal_env \<Rightarrow> bool \<Rightarrow> json \<Rightarrow> json outcome_of" where
  "resume_goal env drive v =
     (if is_stale v then invalid (StaleGoal ''resume'')
      else if status_text v = ''running'' then invalid AlreadyRunning
      else if status_text v = ''blocked'' then invalid UseUnblock
      else if status_text v = ''review_pending'' then invalid UseRetry
      else case v of
        JObj m \<Rightarrow>
          (let m' = jput ''updated_at'' (JStr (ge_now env 0)) (jput ''drive_until_done'' (JBool drive)
                 (jput ''status'' (JStr ''running'') m)) in
           bind_result (contract_members drive (JObj m') ''resume'') (\<lambda>_. Inr (JObj m')))
      | _ \<Rightarrow> invalid RootNotObject)"

definition flagged_goal ::
  "goal_env \<Rightarrow> string \<Rightarrow> bool option \<Rightarrow> string option \<Rightarrow> json \<Rightarrow> json outcome_of" where
  "flagged_goal env status drive blocker v =
     (if is_stale v then invalid (StaleGoal ''modify'')
      else case v of
        JObj m \<Rightarrow>
          if \<not> is_valid_goal_transition (status_text v) status then invalid (TransitionNotAllowed (status_text v) status)
          else if status_text v \<noteq> [] \<and> status_text v = status then invalid (SameState status)
          else
            (let m' = put_some ''drive_until_done'' (map_option JBool drive) (jput ''status'' (JStr status) m);
                 m'' = (case blocker of Some b \<Rightarrow> jput ''blocker'' (JStr b) m'
                   | None \<Rightarrow> if status = ''blocked'' then m' else jput ''blocker'' JNull m') in
             Inr (JObj (jput ''updated_at'' (JStr (ge_now env 0)) m'')))
      | _ \<Rightarrow> invalid RootNotObject)"

section \<open>Amending\<close>

definition merge_or_replace_array ::
  "string \<Rightarrow> json list \<Rightarrow> bool \<Rightarrow> (string \<times> json) list \<Rightarrow> (string \<times> json) list" where
  "merge_or_replace_array k new merge m =
     (if \<not> merge then jput k (JArr new) m
      else if new = [] then m
      else case Option.bind (map_of m k) as_array of
        Some old \<Rightarrow> jput k (JArr (foldl (\<lambda>xs x. if x \<in> set xs then xs else xs @ [x]) old new)) m
      | None \<Rightarrow> jput k (JArr new) m)"

definition amend_array :: "json \<Rightarrow> string \<Rightarrow> bool \<Rightarrow> (string \<times> json) list \<Rightarrow> (string \<times> json) list" where
  "amend_array p k merge m =
     (case jget_with as_array p k of Some arr \<Rightarrow> merge_or_replace_array k (strings_in arr) merge m | None \<Rightarrow> m)"

definition has_amend :: "json \<Rightarrow> bool" where
  "has_amend p \<longleftrightarrow>
     text_of p ''goal'' \<noteq> None \<or> jget_with as_array p ''non_goals'' \<noteq> None \<or> jget_with as_array p ''done_when'' \<noteq> None \<or>
     jget_with as_array p ''validation_commands'' \<noteq> None \<or> not_null (jget p ''completion_gates'') \<noteq> None \<or>
     jget p ''metadata'' \<noteq> None \<or> jget_with as_bool p ''drive_until_done'' \<noteq> None"

definition amend_drive :: "json \<Rightarrow> (string \<times> json) list \<Rightarrow> (string \<times> json) list" where
  "amend_drive p m =
     (case jget_with as_bool p ''drive_until_done'' of
        None \<Rightarrow> m
      | Some d \<Rightarrow> (let m' = jput ''drive_until_done'' (JBool d) m in
          if d then jput ''requires_completion_evidence'' (JBool True) m' else m'))"

definition amended_members :: "json \<Rightarrow> (string \<times> json) list \<Rightarrow> (string \<times> json) list" where
  "amended_members p m =
     (let merge = flag_of False p ''merge'' in
      amend_drive p
       (put_some ''metadata'' (jget p ''metadata'')
        (put_some ''completion_gates'' (not_null (jget p ''completion_gates''))
         (amend_array p ''validation_commands'' merge
          (amend_array p ''done_when'' merge
           (amend_array p ''non_goals'' merge
            (put_some ''goal'' (map_option JStr (text_of p ''goal'')) m)))))))"

definition amend_goal :: "goal_env \<Rightarrow> json \<Rightarrow> json \<Rightarrow> json outcome_of" where
  "amend_goal env p v =
     (case v of
        JObj m \<Rightarrow>
          if status_text v = ''completed'' \<or> flag_of False v ''archived'' then invalid AmendCompleted
          else if flag_of False v ''stale'' then invalid AmendStale
          else
            (let v' = JObj (amended_members p m);
                 m' = (if flag_of True p ''keep_progress'' then amended_members p m
                       else jput ''checkpoints'' (JArr []) (amended_members p m)) in
             if flag_of False v' ''drive_until_done'' \<and> \<not> flag_of True v' ''requires_completion_evidence''
             then invalid EvidenceContradiction
             else if \<not> has_amend p then invalid NothingToAmend
             else bind_result (contract_members (flag_of False v' ''drive_until_done'') (JObj m') ''amend'') (\<lambda>_.
               Inr (JObj (jput ''updated_at'' (JStr (ge_now env 0)) (jput ''amended_at'' (JStr (ge_now env 1)) m')))))
      | _ \<Rightarrow> invalid RootNotObject)"

section \<open>Evidence for a completion\<close>

datatype task_transition = StartTask | CompleteTask | FailTask

record transition_verdict =
  vd_passed :: bool
  vd_reason :: transition_reason
  vd_evidence_count :: nat
  vd_transition_target :: "string option"

definition verdict :: "bool \<Rightarrow> transition_reason \<Rightarrow> nat \<Rightarrow> string \<Rightarrow> transition_verdict" where
  "verdict ok r n target =
     \<lparr>vd_passed = ok, vd_reason = r, vd_evidence_count = n, vd_transition_target = Some target\<rparr>"

definition count_evidence_artifacts :: "string \<Rightarrow> goal_world \<Rightarrow> nat" where
  "count_evidence_artifacts t w =
     (case file_at (gw_evidence w) t of
        Holds v \<Rightarrow> length (or_default [] (jget_with as_array v ''artifacts'')) | _ \<Rightarrow> 0)"

definition goal_file_readable :: "json_file \<Rightarrow> bool" where
  "goal_file_readable f \<longleftrightarrow> f \<noteq> Missing \<and> f \<noteq> Unreadable"

definition validate_complete_transition :: "string \<Rightarrow> goal_world \<Rightarrow> transition_verdict" where
  "validate_complete_transition task_id w =
     (let t = trim task_id in
      if t = [] then verdict False EmptyTask 0 ''Complete''
      else if safe_task_id_component t = None then verdict False InvalidTask 0 ''Complete''
      else
        (let n = count_evidence_artifacts t w; (has_ev, ev_ok) = task_evidence_artifacts_summary t w in
         if \<not> goal_file_readable (file_at (gw_goals w) t) then
           (if has_ev \<and> \<not> ev_ok then verdict False NoGoalButFailure n ''Complete''
            else verdict True NoGoal n ''Complete'')
         else if \<not> has_ev then verdict False NoArtifacts n ''Complete''
         else if \<not> ev_ok then verdict False NoSuccess n ''Complete''
         else verdict True Confirmed n ''Complete''))"

definition validate_task_transition :: "string \<Rightarrow> task_transition \<Rightarrow> goal_world \<Rightarrow> transition_verdict" where
  "validate_task_transition t tr w =
     (case tr of
        StartTask \<Rightarrow> verdict True StartFree 0 ''Start''
      | FailTask \<Rightarrow> verdict True FailFree 0 ''Fail''
      | CompleteTask \<Rightarrow> validate_complete_transition t w)"

end
