(* ===== verification/Goal_Drive.thy ===== *)
theory Goal_Drive
  imports Goal_State
begin

text \<open>
  The requests on goals (\<^verbatim>\<open>framework_goal_drive\<close> of
  \<^verbatim>\<open>core/core-state/src/state_manager/goal_ops.rs\<close>): start, checkpoint, fail, pause, resume,
  complete, retry, block, unblock, clear, amend and status, each with its checks, its write of the
  goal state, its line in the ledger and its pointers. Sites of the clock: 0 and 1 for the goal
  state, 2 for the ledger line, 5 for the removal.
\<close>

section \<open>Committing a change\<close>

definition strip_stale_annotations :: "json \<Rightarrow> json" where
  "strip_stale_annotations v = on_object (jdel ''stale_reason'' \<circ> jdel ''stale'') v"

definition MAX_LEDGER_RETRIES :: nat where
  "MAX_LEDGER_RETRIES = 3"

fun append_tries :: "goal_env \<Rightarrow> string \<Rightarrow> ledger_transaction \<Rightarrow> nat \<Rightarrow> unit goal_step" where
  "append_tries env t tx 0 w = (Inr (), w)"
| "append_tries env t tx (Suc n) w =
     (case append_transaction_assuming_l1_held env t tx w of
        (Inr _, w') \<Rightarrow> (Inr (), w')
      | (Inl e, w') \<Rightarrow> if n = 0 then (Inl e, w') else append_tries env t tx n w')"

definition mark_dirty :: "goal_env \<Rightarrow> string \<Rightarrow> error_kind \<times> goal_error \<Rightarrow> json \<Rightarrow> json" where
  "mark_dirty env ctx e v =
     on_object (jput ''_dirty_reason'' (JStr (''ledger append failed after 3 retries ('' @ ctx @ ''): '' @ ge_wording env e))
       \<circ> jput ''_dirty'' (JBool True)) v"

definition put_goal :: "string \<Rightarrow> json \<Rightarrow> goal_world \<Rightarrow> goal_world" where
  "put_goal t v w = w\<lparr>gw_goals := hput t (Holds v) (gw_goals w)\<rparr>"

text \<open>The state after the ledger line is written, or could not be.\<close>

definition append_transaction_with_retry :: "goal_env \<Rightarrow> string \<Rightarrow> ledger_transaction \<Rightarrow> json \<Rightarrow> string \<Rightarrow> json goal_step" where
  "append_transaction_with_retry env t tx v ctx w =
     (case append_tries env t tx MAX_LEDGER_RETRIES w of
        (Inr _, w') \<Rightarrow> (Inr v, w')
      | (Inl e, w') \<Rightarrow> (let v' = mark_dirty env ctx e v in (Inr v', snd (attempt (put_goal t v') w'))))"

definition commit_goal_mutation :: "goal_env \<Rightarrow> string \<Rightarrow> json \<Rightarrow> string \<Rightarrow> json goal_step" where
  "commit_goal_mutation env t state label =
     (let v = strip_stale_annotations state;
          tx = (transaction_new (ge_now env 2) label v)\<lparr>tx_schema_version := Some 1\<rparr> in
      sbind (sread (\<lambda>_. validate_task_id_component t)) (\<lambda>u.
      sbind (swrite Validation (put_goal u v)) (\<lambda>_.
      append_transaction_with_retry env u tx v label)))"

section \<open>Answers\<close>

definition goal_state_path :: "string \<Rightarrow> string \<Rightarrow> string" where
  "goal_state_path repo t = path_join (path_join (path_join repo ''artifacts/current'') t) ''GOAL_STATE.json''"

definition answer :: "string \<Rightarrow> string \<Rightarrow> (string \<times> json) list \<Rightarrow> json" where
  "answer op t members = jobj ([(''ok'', JBool True), (''operation'', JStr op), (''task_id'', JStr t)] @ members)"

definition json_or_null :: "json option \<Rightarrow> json" where
  "json_or_null ov = or_default JNull ov"

text \<open>The goal of a task that must exist, and the task's checked id.\<close>

definition existing_goal :: "goal_env \<Rightarrow> string \<Rightarrow> json goal_step" where
  "existing_goal env t =
     sbind (sread (read_goal_state env (Some t))) (\<lambda>g.
       case g of Some v \<Rightarrow> sret v | None \<Rightarrow> sfail NotFound GoalMissing)"

definition checked_task_id :: "json \<Rightarrow> string goal_step" where
  "checked_task_id p =
     sbind (sread (\<lambda>_. resolve_task_id_strict p)) (\<lambda>t.
     sbind (sread (\<lambda>_. validate_task_id_component t)) (\<lambda>_. sret t))"

section \<open>The requests\<close>

definition goal_summary :: "json \<Rightarrow> json" where
  "goal_summary v =
     jobj [(''status'', json_or_null (jget v ''status'')),
       (''goal'', jopt JStr (map_option (\<lambda>g. if 120 < length g
           then take (char_floor g 120) g @ [CHR 0xE2, CHR 0x80, CHR 0xA6] else g) (jget_with as_str v ''goal''))),
       (''done_when_count'', jopt (jnat \<circ> length) (jget_with as_array v ''done_when'')),
       (''checkpoint_count'', jopt (jnat \<circ> length) (jget_with as_array v ''checkpoints'')),
       (''blocker'', json_or_null (jget v ''blocker''))]"

definition goal_status :: "goal_env \<Rightarrow> string \<Rightarrow> json \<Rightarrow> json goal_step" where
  "goal_status env repo p = (\<lambda>w.
     (let override = text_of p ''task_id'';
          t = or_default [] (or_else override (case read_task_pointer_pair w of (a, f) \<Rightarrow> or_else a f)) in
      sbind (sread (read_goal_state env (if override = None \<and> t = [] then None else Some t))) (\<lambda>g.
        sret (answer ''status'' t
          [(''goal_state_path'', JStr (if safe_task_id_component t = None then [] else goal_state_path repo (trim t))),
           (''goal_state'', jopt goal_summary g)])) w))"

definition goal_start :: "goal_env \<Rightarrow> json \<Rightarrow> json goal_step" where
  "goal_start env p =
     sbind (checked_task_id p) (\<lambda>t.
     sbind (sread (read_goal_state env (Some t))) (\<lambda>old.
     sbind (srequire (old = None) (GoalExists t)) (\<lambda>_.
     sbind (sread (\<lambda>_. case text_of p ''goal'' of Some g \<Rightarrow> Inr g | None \<Rightarrow> invalid GoalRequired)) (\<lambda>goal.
     sbind (sread (\<lambda>_. started_goal env p goal)) (\<lambda>m.
     sbind (ensure_task_directory t) (\<lambda>_.
     sbind (commit_goal_mutation env t (JObj m) ''goal_state'') (\<lambda>_.
     sbind (signore (sync_task_pointers_after_goal_drive env t goal p)) (\<lambda>_.
     sret (answer ''start'' t [(''status'', JStr ''running'')])))))))))"

definition goal_checkpoint :: "goal_env \<Rightarrow> json \<Rightarrow> json goal_step" where
  "goal_checkpoint env p =
     sbind (checked_task_id p) (\<lambda>t.
     sbind (sread (\<lambda>_. case text_of p ''note'' of Some n \<Rightarrow> Inr n | None \<Rightarrow> invalid NoteRequired)) (\<lambda>note.
     sbind (existing_goal env t) (\<lambda>v.
     sbind (sread (\<lambda>_. add_checkpoint env p note v)) (\<lambda>v'.
     sbind (commit_goal_mutation env t v' ''goal_state'') (\<lambda>_.
     sret (answer ''checkpoint'' t []))))))"

definition max_iterations_warning :: "json \<Rightarrow> (string \<times> json) list" where
  "max_iterations_warning v =
     (case jget_with as_u64 v ''max_iterations'' of
        Some m \<Rightarrow> if m \<le> inc64 (iteration_count v)
          then [(''warning'', JStr (''max_iterations ('' @ show_nat m @ '') reached at iteration_count='' @
            show_nat (iteration_count v) @ ''; use clear + restart to continue''))] else []
      | None \<Rightarrow> [])"

definition goal_fail :: "goal_env \<Rightarrow> string \<Rightarrow> json \<Rightarrow> json goal_step" where
  "goal_fail env repo p =
     sbind (checked_task_id p) (\<lambda>t.
     sbind (existing_goal env t) (\<lambda>v.
     sbind (sread (\<lambda>_. fail_goal env p v)) (\<lambda>v'.
     sbind (commit_goal_mutation env t v' ''goal_failed'') (\<lambda>s.
     sbind (neutralize_task_pointers_for_task t) (\<lambda>_.
     sret (answer ''fail'' t ((''goal_state_path'', JStr (goal_state_path repo t)) # max_iterations_warning s)))))))"

definition set_terminal_flags ::
  "goal_env \<Rightarrow> string \<Rightarrow> string \<Rightarrow> bool option \<Rightarrow> string option \<Rightarrow> json goal_step" where
  "set_terminal_flags env t status drive blocker =
     sbind (sread (\<lambda>_. validate_task_id_component t)) (\<lambda>_.
     sbind (existing_goal env t) (\<lambda>v.
     sbind (sread (\<lambda>_. flagged_goal env status drive blocker v)) (\<lambda>v'.
     sbind (commit_goal_mutation env t v' ''goal_state'') (\<lambda>_.
     sret (answer status t [])))))"

definition goal_pause :: "goal_env \<Rightarrow> json \<Rightarrow> json goal_step" where
  "goal_pause env p =
     sbind (sread (\<lambda>_. resolve_task_id_strict p)) (\<lambda>t. set_terminal_flags env t ''paused'' None None)"

definition goal_unblock :: "goal_env \<Rightarrow> json \<Rightarrow> json goal_step" where
  "goal_unblock env p =
     sbind (sread (\<lambda>_. resolve_task_id_strict p)) (\<lambda>t. set_terminal_flags env t ''running'' None None)"

definition goal_block :: "goal_env \<Rightarrow> json \<Rightarrow> json goal_step" where
  "goal_block env p =
     sbind (sread (\<lambda>_. case text_of p ''blocker'' of Some b \<Rightarrow> Inr b | None \<Rightarrow> invalid BlockerRequired)) (\<lambda>b.
     sbind (sread (\<lambda>_. resolve_task_id_strict p)) (\<lambda>t. set_terminal_flags env t ''blocked'' (Some False) (Some b)))"

definition goal_label :: "json \<Rightarrow> string \<Rightarrow> string" where
  "goal_label v t = or_default t (jget_with as_str v ''goal'')"

definition goal_resume :: "goal_env \<Rightarrow> string \<Rightarrow> json \<Rightarrow> json goal_step" where
  "goal_resume env repo p =
     sbind (checked_task_id p) (\<lambda>t.
     sbind (sread (read_goal_state env (Some t))) (\<lambda>old.
       (let drive = flag_of (flag_of True (json_or_null old) ''drive_until_done'') p ''drive_until_done'' in
        sbind (existing_goal env t) (\<lambda>v.
        sbind (sread (\<lambda>_. resume_goal env drive v)) (\<lambda>v'.
        sbind (commit_goal_mutation env t v' ''goal_state'') (\<lambda>s.
        sbind (signore (sync_task_pointers_after_goal_drive env t (goal_label s t) p)) (\<lambda>_.
        sret (answer ''resume'' t [(''goal_state_path'', JStr (goal_state_path repo t)), (''goal_state'', s)]))))))))"

definition goal_retry :: "goal_env \<Rightarrow> string \<Rightarrow> json \<Rightarrow> json goal_step" where
  "goal_retry env repo p =
     sbind (checked_task_id p) (\<lambda>t.
     sbind (existing_goal env t) (\<lambda>v.
     sbind (sread (\<lambda>_. retry_goal env v)) (\<lambda>v'.
     sbind (commit_goal_mutation env t v' ''goal_state'') (\<lambda>s.
     sbind (signore (sync_task_pointers_after_goal_drive env t (goal_label s t) p)) (\<lambda>_.
     sret (answer ''retry'' t [(''goal_state_path'', JStr (goal_state_path repo t))]))))))"

definition goal_amend :: "goal_env \<Rightarrow> json \<Rightarrow> json goal_step" where
  "goal_amend env p =
     sbind (checked_task_id p) (\<lambda>t.
     sbind (existing_goal env t) (\<lambda>v.
     sbind (sread (\<lambda>_. amend_goal env p v)) (\<lambda>v'.
     sbind (commit_goal_mutation env t v' ''goal_state'') (\<lambda>_.
     sret (answer ''amend'' t [])))))"

definition remove_goal :: "goal_env \<Rightarrow> string \<Rightarrow> unit goal_step" where
  "remove_goal env t =
     sbind (swrite Io (\<lambda>w. w\<lparr>gw_goals := hdel t (gw_goals w)\<rparr>)) (\<lambda>_.
     signore (append_transaction_assuming_l1_held env t
       ((transaction_new (ge_now env 2) ''goal_cleared''
          (jobj [(''task_id'', JStr t), (''cleared_at'', JStr (ge_now env 5))]))\<lparr>tx_schema_version := Some 1\<rparr>)))"

definition goal_clear :: "goal_env \<Rightarrow> string \<Rightarrow> json \<Rightarrow> json goal_step" where
  "goal_clear env repo p =
     sbind (sread (\<lambda>_. resolve_task_id_strict p)) (\<lambda>t.
     sbind (sread (\<lambda>_. validate_task_id_component t)) (\<lambda>_. \<lambda>w.
       (let existed = (file_at (gw_goals w) t \<noteq> Missing);
            stale = (case read_goal_state env (Some t) w of Inr (Some v) \<Rightarrow> is_stale v | _ \<Rightarrow> False) in
        sbind (srequire (\<not> (existed \<and> stale \<and> \<not> flag_of False p ''force'')) (StaleGoal ''clear'')) (\<lambda>_.
        sbind (if existed then remove_goal env t else sret ()) (\<lambda>_.
        sbind (signore (neutralize_task_pointers_for_task t)) (\<lambda>_.
        sret (answer ''clear'' t [(''goal_state_path'', JStr (goal_state_path repo t)), (''removed'', JBool existed)])))) w)))"

section \<open>Completion\<close>

definition review_pending :: "goal_env \<Rightarrow> json \<Rightarrow> json list \<Rightarrow> json" where
  "review_pending env v blockers =
     on_object (jput ''updated_at'' (JStr (ge_now env 0)) \<circ> jput ''blockers'' (JArr blockers) \<circ>
       jput ''status'' (JStr ''review_pending'')) v"

definition transition_to_review_pending ::
  "goal_env \<Rightarrow> string \<Rightarrow> json \<Rightarrow> json list \<Rightarrow> string \<Rightarrow> (string \<times> json) list \<Rightarrow> json goal_step" where
  "transition_to_review_pending env t v blockers label extra =
     sbind (commit_goal_mutation env t (review_pending env v blockers) (''goal_'' @ label)) (\<lambda>s.
     sret (answer label t ([(''status'', JStr ''review_pending''), (''blockers'', json_or_null (jget s ''blockers''))] @ extra)))"

text \<open>The checks before an iteration is counted: status, staleness, evidence, gates.\<close>

definition completion_checks :: "goal_env \<Rightarrow> string \<Rightarrow> json \<Rightarrow> unit goal_step" where
  "completion_checks env t v =
     sbind (srequire (status_text v = ''running'' \<or> status_text v = ''review_pending'') (CannotComplete (status_text v))) (\<lambda>_.
     sbind (srequire (\<not> is_stale v) (StaleGoal ''complete'')) (\<lambda>_.
     sbind (sread (\<lambda>w. let d = validate_task_transition t CompleteTask w in
       check (goal_requires_completion_evidence v \<longrightarrow> vd_passed d) (TransitionBlocked (vd_reason d)))) (\<lambda>_.
     case parse_goal_completion_gates v of
       None \<Rightarrow> sret ()
     | Some g \<Rightarrow> (\<lambda>w. case resolve_task_view env (Some t) w of (view, w') \<Rightarrow> (validate_goal_completion_gates view g, w')))))"

text \<open>The iterations are used up: the limit, if the next iteration reaches it.\<close>

definition at_iteration_limit :: "json \<Rightarrow> bool" where
  "at_iteration_limit v \<longleftrightarrow>
     (case jget_with as_u64 v ''max_iterations'' of Some m \<Rightarrow> m \<le> inc64 (iteration_count v) | None \<Rightarrow> False)"

definition set_iterations :: "nat \<Rightarrow> json \<Rightarrow> json" where
  "set_iterations n v = on_object (jput ''iteration_count'' (jnat n)) v"

definition gate_payload_of_goal :: "string \<Rightarrow> string \<Rightarrow> json \<Rightarrow> json" where
  "gate_payload_of_goal repo t v =
     jobj [(''repo_root'', JStr repo), (''task_id'', JStr t),
       (''scene'', JStr (or_default ''general'' (jget_with as_str v ''scene''))),
       (''goal'', JStr (or_default [] (jget_with as_str v ''goal''))), (''round'', jnat (inc64 (iteration_count v)))]"

text \<open>What the quality gate finds: nothing, or the blockers and the reason.\<close>

definition run_quality_gate ::
  "goal_env \<Rightarrow> string \<Rightarrow> string \<Rightarrow> json \<Rightarrow> goal_world \<Rightarrow> (json list \<times> json) option \<times> goal_world" where
  "run_quality_gate env repo t v w =
     (case ge_hooks env of
        None \<Rightarrow> (None, w)
      | Some h \<Rightarrow> (case gh_gate h (gate_payload_of_goal repo t v) w of
          (Inr d, w') \<Rightarrow>
            (if flag_of False d ''passed'' then None
             else Some (or_default [] (jget_with as_array d ''blockers''), json_or_null (jget d ''reason'')), w')
        | (Inl e, w') \<Rightarrow>
            (Some ([jobj [(''id'', JStr ''qg_hook_error''), (''description'', JStr e)]],
               JStr (''quality gate hook error: '' @ e)), w')))"

definition completed_iteration :: "goal_env \<Rightarrow> json \<Rightarrow> json" where
  "completed_iteration env v =
     on_object (jput ''updated_at'' (JStr (ge_now env 0)) \<circ> jput ''last_iteration_completed_at'' (JStr (ge_now env 1)) \<circ>
       jput ''iteration_count'' (jnat (inc64 (iteration_count v)))) v"

definition task_round :: "json \<Rightarrow> string \<Rightarrow> nat option" where
  "task_round chain t =
     Option.bind (jget_with as_array chain ''tasks'') (\<lambda>ts.
     Option.bind (find (\<lambda>x. jget_with as_str x ''task_id'' = Some t) ts) (\<lambda>x. jget_with as_u64 x ''round''))"

definition round_transition :: "json \<Rightarrow> string \<Rightarrow> string \<Rightarrow> (string \<times> json) list" where
  "round_transition chain t next_task =
     (case (task_round chain t, task_round chain next_task) of
        (Some cr, Some nr) \<Rightarrow>
          if cr < nr then
            [(''round_transition'', jobj [(''from'', jnat cr), (''to'', jnat nr),
               (''next_tasks'', JArr (map JStr (List.map_filter (\<lambda>x. jget_with as_str x ''task_id'')
                 (filter (\<lambda>x. jget_with as_u64 x ''round'' = Some nr \<and> jget_with as_str x ''status'' \<noteq> Some ''completed'')
                   (or_default [] (jget_with as_array chain ''tasks''))))))])]
          else []
      | _ \<Rightarrow> [])"

definition after_complete :: "goal_env \<Rightarrow> string \<Rightarrow> goal_world \<Rightarrow> (string \<times> json) list \<times> goal_world" where
  "after_complete env t w =
     (case ge_hooks env of
        None \<Rightarrow> ([], w)
      | Some h \<Rightarrow> (case gh_after h t w of
          (None, w') \<Rightarrow> ([], w')
        | (Some n, w') \<Rightarrow> ([(''auto_advance'', jobj ((''next_task_id'', JStr n) #
            (case gw_chain w' of Holds c \<Rightarrow> round_transition c t n | _ \<Rightarrow> [])))], w')))"

definition iteration_answer :: "string \<Rightarrow> json \<Rightarrow> (string \<times> json) list" where
  "iteration_answer t v =
     (let drive = flag_of False v ''drive_until_done''; status = or_default ''running'' (jget_with as_str v ''status'') in
      [(''iteration_count'', jnat (iteration_count v)), (''status'', JStr status), (''drive_until_done'', JBool drive),
       (''done_when_count'', jnat (length (or_default [] (jget_with as_array v ''done_when''))))] @
      (if drive \<and> status = ''running'' then [(''next_action'', JStr ''continue'')] else []))"

definition complete_iteration :: "goal_env \<Rightarrow> string \<Rightarrow> json \<Rightarrow> json goal_step" where
  "complete_iteration env t v =
     sbind (commit_goal_mutation env t (completed_iteration env v) ''goal_iteration_completed'') (\<lambda>s. \<lambda>w.
     (case after_complete env t w of (adv, w') \<Rightarrow>
       (Inr (answer ''iteration_completed'' t (iteration_answer t s @ adv)), w')))"

definition goal_complete :: "goal_env \<Rightarrow> string \<Rightarrow> json \<Rightarrow> json goal_step" where
  "goal_complete env repo p =
     sbind (sread (\<lambda>_. resolve_task_id_strict p)) (\<lambda>t.
     sbind (sread (read_goal_state env (Some t))) (\<lambda>g.
     case g of
       None \<Rightarrow> sfail Validation GoalMissing
     | Some v \<Rightarrow>
         sbind (completion_checks env t v) (\<lambda>_.
         if at_iteration_limit v then
           transition_to_review_pending env t (set_iterations (inc64 (iteration_count v)) v)
             [jobj [(''finding'', JStr ''max_iterations reached''), (''severity'', JStr ''info'')]]
             ''max_iterations_reached'' []
         else (\<lambda>w. case run_quality_gate env repo t v w of
           (Some (blockers, reason), w') \<Rightarrow>
             transition_to_review_pending env t v blockers ''quality_gate_blocked'' [(''reason'', reason)] w'
         | (None, w') \<Rightarrow> complete_iteration env t v w'))))"

section \<open>Dispatch\<close>

definition goal_operation :: "json \<Rightarrow> string" where
  "goal_operation p = ascii_lower (trim (or_default ''status'' (jget_with as_str p ''operation'')))"

definition goal_repo :: "goal_env \<Rightarrow> json \<Rightarrow> string outcome_of" where
  "goal_repo env p =
     (case jget_with as_str p ''repo_root'' of
        None \<Rightarrow> invalid RepoRootRequired
      | Some r \<Rightarrow> if ge_is_dir env r then Inr r else Inl (NotFound, NotADirectory r))"

definition goal_request :: "goal_env \<Rightarrow> string \<Rightarrow> string \<Rightarrow> json \<Rightarrow> json goal_step" where
  "goal_request env repo op p =
     (if op = ''status'' then goal_status env repo p
      else if op = ''start'' \<or> op = ''upsert'' then goal_start env p
      else if op = ''checkpoint'' then goal_checkpoint env p
      else if op = ''fail'' then goal_fail env repo p
      else if op = ''pause'' then goal_pause env p
      else if op = ''resume'' then goal_resume env repo p
      else if op = ''complete'' then goal_complete env repo p
      else if op = ''retry'' then goal_retry env repo p
      else if op = ''block'' then goal_block env p
      else if op = ''unblock'' then goal_unblock env p
      else if op = ''clear'' then goal_clear env repo p
      else if op = ''amend'' then goal_amend env p
      else sfail Validation (UnknownOperation op))"

definition framework_goal_drive_impl :: "goal_env \<Rightarrow> json \<Rightarrow> json goal_step" where
  "framework_goal_drive_impl env p =
     sbind (sread (\<lambda>_. goal_repo env p)) (\<lambda>r. goal_request env (ge_canonical env r) (goal_operation p) p)"

definition framework_goal_drive :: "goal_env \<Rightarrow> json \<Rightarrow> json goal_step" where
  "framework_goal_drive env p =
     (if goal_operation p = ''status'' then framework_goal_drive_impl env p
      else sbind (sread (\<lambda>_. goal_repo env p)) (\<lambda>_.
        if ge_lock env then framework_goal_drive_impl env p else sfail Lock LockFails))"

end
