(* ===== verification/Goal_Logic.thy ===== *)
theory Goal_Logic
  imports Goal_Drive
begin

text \<open>
  Reasoning about steps: what holds after a step, by its answer and its error, computed backwards;
  and relations between the world before and after that every step of a request obeys. Then what
  the parts of a request may change: the ledger of its task, the pointers, the goal state of its
  task.
\<close>

section \<open>Outcomes\<close>

text \<open>What a step's answer and error have to satisfy, as a condition on the world before.\<close>

definition outcome_meets :: "'a goal_step \<Rightarrow> ('a \<Rightarrow> goal_world \<Rightarrow> bool) \<Rightarrow> (goal_error \<Rightarrow> goal_world \<Rightarrow> bool) \<Rightarrow> goal_world \<Rightarrow> bool" where
  "outcome_meets m S E w \<longleftrightarrow> (case m w of (Inr a, w') \<Rightarrow> S a w' | (Inl (k, e), w') \<Rightarrow> E e w')"

named_theorems outcome_simps \<open>outcomes of the basic steps\<close>

lemma outcome_read [outcome_simps]:
  "outcome_meets (sret a) S E w = S a w"
  "outcome_meets (sfail k e) S E w = E e w"
  "outcome_meets (sread f) S E w = (case f w of Inr a \<Rightarrow> S a w | Inl (k, e) \<Rightarrow> E e w)"
  by (auto simp: outcome_meets_def sret_def sfail_def sread_def split: sum.split)

lemma outcome_unit [outcome_simps]:
  "outcome_meets (srequire c e) S E w = (if c then S () w else E e w)"
  "outcome_meets (signore m) S E w = S () (snd (m w))"
  by (auto simp: outcome_meets_def srequire_def signore_def split: sum.split)

lemma outcome_bind [outcome_simps]:
  "outcome_meets (sbind m f) S E w = outcome_meets m (\<lambda>a w'. outcome_meets (f a) S E w') E w"
  by (auto simp: outcome_meets_def sbind_def split: prod.split sum.split)

lemma outcome_weaken:
  assumes "outcome_meets m S E w" and "\<And>a w'. m w = (Inr a, w') \<Longrightarrow> S a w' \<Longrightarrow> S' a w'" and "\<And>e w'. E e w' \<Longrightarrow> E' e w'"
  shows "outcome_meets m S' E' w"
  using assms unfolding outcome_meets_def by (auto split: prod.splits sum.splits)

lemma outcome_write:
  assumes "S () (snd (attempt f w))" and "E WriteFails (snd (attempt f w))"
  shows "outcome_meets (swrite k f) S E w"
  using assms by (auto simp: outcome_meets_def swrite_def case_prod_unfold)

lemma outcome_eval:
  "m w = (Inr a, w') \<Longrightarrow> outcome_meets m S E w = S a w'"
  "m w = (Inl (k, e), w') \<Longrightarrow> outcome_meets m S E w = E e w'"
  by (simp_all add: outcome_meets_def)

lemma outcomeD:
  "outcome_meets m S E w \<Longrightarrow> m w = (Inr a, w') \<Longrightarrow> S a w'"
  "outcome_meets m S E w \<Longrightarrow> m w = (Inl (k, e), w') \<Longrightarrow> E e w'"
  by (simp_all add: outcome_meets_def)

section \<open>Relations\<close>

text \<open>A relation every step obeys, whatever its answer.\<close>

definition world_moves :: "(goal_world \<Rightarrow> goal_world \<Rightarrow> bool) \<Rightarrow> 'a goal_step \<Rightarrow> bool" where
  "world_moves R m \<longleftrightarrow> (\<forall>w. R w (snd (m w)))"

lemma movesD: "world_moves R m \<Longrightarrow> R w (snd (m w))"
  by (simp add: world_moves_def)

lemma movesI: "(\<And>w. R w (snd (m w))) \<Longrightarrow> world_moves R m"
  by (simp add: world_moves_def)

locale world_relation =
  fixes R :: "goal_world \<Rightarrow> goal_world \<Rightarrow> bool"
  assumes refl: "R w w"
    and trans: "R w w' \<Longrightarrow> R w' w'' \<Longrightarrow> R w w''"
    and disk: "R w (w\<lparr>gw_disk := ds\<rparr>)"
begin

lemma moves_simple: "world_moves R (sret a)" "world_moves R (sfail k e)" "world_moves R (sread f)" "world_moves R (srequire c e)"
  by (simp_all add: world_moves_def sret_def sfail_def sread_def srequire_def refl)

lemma moves_bind_at:
  assumes "R w (snd (m w))" and "\<And>a. world_moves R (f a)"
  shows "R w (snd (sbind m f w))"
proof (cases "m w")
  case (Pair r w')
  with assms(1) have "R w w'" by simp
  with Pair show ?thesis
    by (cases r) (simp_all add: sbind_def trans [OF _ movesD [OF assms(2)]])
qed

lemma moves_bind:
  assumes "world_moves R m" and "\<And>a. world_moves R (f a)"
  shows "world_moves R (sbind m f)"
proof (rule movesI)
  fix w
  from assms show "R w (snd (sbind m f w))" by (simp add: moves_bind_at movesD)
qed

lemma moves_ignore: "world_moves R m \<Longrightarrow> world_moves R (signore m)"
  by (simp add: world_moves_def signore_def)

lemma moves_write: "(\<And>w. R w (f w)) \<Longrightarrow> world_moves R (swrite k f)"
  unfolding world_moves_def swrite_def attempt_def
  by (auto simp: Let_def disk intro: trans [OF disk] split: list.splits write_outcome.splits)

lemma moves_attempt: "(\<And>w. R w (f w)) \<Longrightarrow> R w (snd (attempt f w))"
  unfolding attempt_def by (auto simp: Let_def disk intro: trans [OF disk] split: list.splits write_outcome.splits)

lemma moves_if: "world_moves R m \<Longrightarrow> world_moves R n \<Longrightarrow> world_moves R (if c then m else n)"
  by simp

lemmas moves_intros = moves_simple moves_bind moves_ignore moves_write moves_if

end

section \<open>What the parts of a request change\<close>

text \<open>Only the ledger of the task; only the pointers; the documents of the task and the pointers.\<close>

definition ledger_moved :: "string \<Rightarrow> goal_world \<Rightarrow> goal_world \<Rightarrow> bool" where
  "ledger_moved t w w' \<longleftrightarrow>
     gw_goals w' = gw_goals w \<and> gw_evidence w' = gw_evidence w \<and> gw_gates w' = gw_gates w \<and> gw_pointers w' = gw_pointers w \<and>
     gw_active w' = gw_active w \<and> gw_focus w' = gw_focus w \<and> gw_chain w' = gw_chain w \<and>
     (\<forall>u. u \<noteq> t \<longrightarrow> hget (gw_ledgers w') u = hget (gw_ledgers w) u)"

definition pointers_moved :: "goal_world \<Rightarrow> goal_world \<Rightarrow> bool" where
  "pointers_moved w w' \<longleftrightarrow>
     gw_goals w' = gw_goals w \<and> gw_evidence w' = gw_evidence w \<and> gw_gates w' = gw_gates w \<and> gw_ledgers w' = gw_ledgers w \<and>
     gw_chain w' = gw_chain w"

definition task_moved :: "string \<Rightarrow> goal_world \<Rightarrow> goal_world \<Rightarrow> bool" where
  "task_moved t w w' \<longleftrightarrow>
     gw_evidence w' = gw_evidence w \<and> gw_gates w' = gw_gates w \<and> gw_chain w' = gw_chain w \<and>
     (\<forall>u. u \<noteq> t \<longrightarrow> hget (gw_ledgers w') u = hget (gw_ledgers w) u \<and> hget (gw_goals w') u = hget (gw_goals w) u)"

lemmas moved_defs = ledger_moved_def pointers_moved_def task_moved_def

interpretation ledger: world_relation "ledger_moved t" for t
  by unfold_locales (auto simp: moved_defs)

interpretation pointers: world_relation pointers_moved
  by unfold_locales (auto simp: moved_defs)

interpretation task: world_relation "task_moved t" for t
  by unfold_locales (auto simp: moved_defs)

lemma ledger_task: "ledger_moved t w w' \<Longrightarrow> task_moved t w w'"
  by (auto simp: moved_defs)

lemma pointers_task: "pointers_moved w w' \<Longrightarrow> task_moved t w w'"
  by (auto simp: moved_defs)

lemma moves_mono: "world_moves R m \<Longrightarrow> (\<And>w w'. R w w' \<Longrightarrow> S w w') \<Longrightarrow> world_moves S m"
  by (simp add: world_moves_def)

lemma put_ledger_moved: "ledger_moved t w (put_ledger t ls w)"
  by (simp add: ledger_moved_def put_ledger_def hmap_simps)

lemma write_ledger_moves: "world_moves (ledger_moved t) (write_ledger t ls)"
  unfolding write_ledger_def by (rule ledger.moves_write) (rule put_ledger_moved)

lemma write_at_moves: "world_moves (ledger_moved t) (\<lambda>w. write_ledger t (F w) w)"
  by (rule movesI) (rule movesD [OF write_ledger_moves])

lemma disk_only_moves: "world_moves (ledger_moved t) (swrite k (\<lambda>w. w))"
  by (rule ledger.moves_write) (rule ledger.refl)

lemma patch_moves: "world_moves (ledger_moved t) (patch_ledger_chain_hashes env t)"
  by (rule movesI) (auto simp: patch_ledger_chain_hashes_def ledger.refl split: ledger_file.splits option.splits
    intro: movesD [OF write_ledger_moves])

lemma safe_id_fixed: "validate_task_id_component t = Inr u \<longleftrightarrow> safe_task_id_component t = Some u"
  by (auto simp: validate_task_id_component_def split: option.splits)

text \<open>A step that starts by checking the id goes on with the id itself, when that is safe.\<close>

lemma bind_validated:
  "safe_task_id_component t = Some t \<Longrightarrow>
   sbind (sread (\<lambda>_. validate_task_id_component t)) f = f t"
  by (simp add: fun_eq_iff sbind_def sread_def validate_task_id_component_def)

lemma checkpoint_moves:
  assumes "safe_task_id_component t = Some t"
  shows "world_moves (ledger_moved t) (write_state_checkpoint env t n)"
proof (rule movesI)
  fix w
  have "world_moves (ledger_moved t) (sbind (swrite Io (\<lambda>w. w)) (\<lambda>_ w. write_ledger t (F w) w))" for F
    by (intro ledger.moves_bind disk_only_moves write_at_moves)
  from movesD [OF this] show "ledger_moved t w (snd (write_state_checkpoint env t n w))"
    unfolding write_state_checkpoint_def Let_def bind_validated [OF assms] case_prod_unfold .
qed

lemma upkeep_moves:
  "safe_task_id_component t = Some t \<Longrightarrow> world_moves (ledger_moved t) (ledger_upkeep env t n ls)"
  unfolding ledger_upkeep_def
  by (auto intro!: ledger.moves_intros checkpoint_moves write_ledger_moves patch_moves split: option.splits)

lemma append_line_moves:
  "safe_task_id_component t = Some t \<Longrightarrow> world_moves (ledger_moved t) (append_line env t tx ls)"
  unfolding append_line_def Let_def
  by (intro ledger.moves_if ledger.moves_simple ledger.moves_bind write_ledger_moves upkeep_moves)

lemma repair_moves: "world_moves (ledger_moved t) (repair_tail t ls)"
proof (rule movesI)
  fix w
  have "ledger_moved t w (snd (attempt (put_ledger t ls') w))" for ls'
    by (rule ledger.moves_attempt) (rule put_ledger_moved)
  then show "ledger_moved t w (snd (repair_tail t ls w))"
    by (auto simp: repair_tail_def ledger.refl case_prod_unfold split: option.splits)
qed

lemma append_moves:
  assumes "safe_task_id_component t = Some t"
  shows "world_moves (ledger_moved t) (append_transaction_assuming_l1_held env t tx)"
  unfolding append_transaction_assuming_l1_held_def bind_validated [OF assms]
proof (intro ledger.moves_bind disk_only_moves movesI)
  fix w
  show "ledger_moved t w (snd (case ledger_at w t of
      BadLedger \<Rightarrow> (Inl (Io, ReadFails), w)
    | NoLedger \<Rightarrow> write_ledger t [Row (tx_json (chained env ''genesis'' (tx\<lparr>tx_seq := Some 0\<rparr>)))] w
    | Lines ls \<Rightarrow> sbind (repair_tail t ls) (append_line env t tx) w))"
    by (auto split: ledger_file.splits intro!: ledger.refl movesD [OF write_ledger_moves]
      movesD [OF ledger.moves_bind] repair_moves append_line_moves [OF assms])
qed

lemma tries_move:
  assumes "safe_task_id_component t = Some t"
  shows "ledger_moved t w (snd (append_tries env t tx n w))"
proof (induction n arbitrary: w)
  case (Suc n)
  obtain r w' where r: "append_transaction_assuming_l1_held env t tx w = (r, w')" by force
  then have "ledger_moved t w w'" using movesD [OF append_moves [OF assms]] by (metis snd_conv)
  with r Suc show ?case by (cases r) (auto intro: ledger.trans)
qed (simp add: ledger.refl)

section \<open>Pointers\<close>

lemma write_pointers_moves: "world_moves pointers_moved (write_pointers v)"
  unfolding write_pointers_def by (rule pointers.moves_write) (simp add: pointers_moved_def)

lemma load_pointers_moves: "world_moves pointers_moved load_task_pointers_json"
  unfolding load_task_pointers_json_def
  by (intro pointers.moves_bind pointers.moves_simple pointers.moves_write pointers.refl)

lemma update_pointers_moves: "world_moves pointers_moved (update_pointers t f)"
  unfolding update_pointers_def
  by (intro pointers.moves_bind pointers.moves_simple load_pointers_moves write_pointers_moves)

lemma sync_moves: "world_moves pointers_moved (sync_task_pointers_after_goal_drive env t label p)"
  unfolding sync_task_pointers_after_goal_drive_def by (rule update_pointers_moves)

lemma remove_legacy_moves:
  "(\<And>w. pointers_moved w (del w)) \<Longrightarrow> world_moves pointers_moved (remove_legacy sel del t)"
  by (rule movesI) (auto simp: remove_legacy_def sret_def pointers.refl intro: movesD [OF pointers.moves_write])

lemma neutralize_moves: "world_moves pointers_moved (neutralize_task_pointers_for_task t)"
  unfolding neutralize_task_pointers_for_task_def neutralize_pointer_file_def
  by (auto intro!: pointers.moves_intros remove_legacy_moves write_pointers_moves
    simp: pointers_moved_def split: option.splits)

section \<open>Committing\<close>

text \<open>A state as it is written, or flagged as dirty; what a commit stores of a goal state.\<close>

definition dirtied :: "goal_env \<Rightarrow> json \<Rightarrow> json \<Rightarrow> bool" where
  "dirtied env v s \<longleftrightarrow> s = v \<or> (\<exists>ctx e. s = mark_dirty env ctx e v)"

lemma dirtied_intros: "dirtied env v v" "dirtied env v (mark_dirty env ctx e v)"
  unfolding dirtied_def by blast+

definition saved :: "goal_env \<Rightarrow> json \<Rightarrow> json \<Rightarrow> bool" where
  "saved env v = dirtied env (strip_stale_annotations v)"

definition holds_goal :: "(json \<Rightarrow> bool) \<Rightarrow> string \<Rightarrow> goal_world \<Rightarrow> bool" where
  "holds_goal P t w \<longleftrightarrow> (\<exists>s. P s \<and> hget (gw_goals w) t = Some (Holds s))"

lemma put_goal_moved: "task_moved t w (put_goal t v w)"
  by (simp add: task_moved_def put_goal_def hmap_simps)

lemma put_goal_attempt:
  "P v \<Longrightarrow> attempt (put_goal t v) w = (ok, w') \<Longrightarrow>
   task_moved t w w' \<and> (hget (gw_goals w') t = hget (gw_goals w) t \<or> holds_goal P t w') \<and> (ok \<longrightarrow> holds_goal P t w')"
  using task.moves_attempt [where f = "put_goal t v" and t = t and w = w, OF put_goal_moved]
  by (auto simp: attempt_def Let_def put_goal_def hmap_simps holds_goal_def split: list.splits write_outcome.splits)

lemma retry_result:
  assumes "safe_task_id_component t = Some t" "append_transaction_with_retry env t tx v ctx w = (r, w')"
  shows "\<exists>s. r = Inr s \<and> dirtied env v s" "task_moved t w w'"
    "hget (gw_goals w') t = hget (gw_goals w) t \<or> holds_goal (dirtied env v) t w'"
proof -
  obtain q w1 where q: "append_tries env t tx MAX_LEDGER_RETRIES w = (q, w1)" by force
  have l: "ledger_moved t w w1" using tries_move [OF assms(1)] q by (metis snd_conv)
  then have g: "hget (gw_goals w1) t = hget (gw_goals w) t" and t: "task_moved t w w1"
    by (simp_all add: ledger_moved_def ledger_task)
  have "(\<exists>s. r = Inr s \<and> dirtied env v s) \<and> task_moved t w w' \<and>
    (hget (gw_goals w') t = hget (gw_goals w) t \<or> holds_goal (dirtied env v) t w')"
  proof (cases q)
    case (Inl e)
    let ?d = "mark_dirty env ctx e v"
    obtain ok where w': "r = Inr ?d" "attempt (put_goal t ?d) w1 = (ok, w')"
      using assms(2) q Inl by (cases "attempt (put_goal t ?d) w1") (auto simp: append_transaction_with_retry_def Let_def)
    from put_goal_attempt [where P = "dirtied env v", OF _ w'(2)] g t w'(1)
    show ?thesis by (auto simp: dirtied_intros intro: task.trans)
  next
    case (Inr u)
    with assms(2) q have "r = Inr v" "w' = w1" by (auto simp: append_transaction_with_retry_def)
    with g t show ?thesis by (auto simp: dirtied_intros)
  qed
  then show "\<exists>s. r = Inr s \<and> dirtied env v s" "task_moved t w w'"
    "hget (gw_goals w') t = hget (gw_goals w) t \<or> holds_goal (dirtied env v) t w'" by blast+
qed

text \<open>Whether the commit succeeds or not, it stores nothing but such a state.\<close>

lemma commit_result:
  assumes safe: "safe_task_id_component t = Some t" and c: "commit_goal_mutation env t v label w = (r, w')"
  shows "task_moved t w w'"
    and "hget (gw_goals w') t = hget (gw_goals w) t \<or> holds_goal (saved env v) t w'"
    and "r = Inr s \<Longrightarrow> saved env v s \<and> holds_goal (saved env v) t w'"
proof -
  let ?v = "strip_stale_annotations v"
  let ?tx = "(transaction_new (ge_now env 2) label ?v)\<lparr>tx_schema_version := Some 1\<rparr>"
  obtain ok w1 where w1: "attempt (put_goal t ?v) w = (ok, w1)" by force
  note put = put_goal_attempt [where P = "saved env v", OF _ w1, unfolded saved_def, OF dirtied_intros(1), folded saved_def]
  have c': "sbind (swrite Validation (put_goal t ?v)) (\<lambda>_. append_transaction_with_retry env t ?tx ?v label) w = (r, w')"
    using c unfolding commit_goal_mutation_def Let_def bind_validated [OF safe] .
  have "task_moved t w w' \<and> (hget (gw_goals w') t = hget (gw_goals w) t \<or> holds_goal (saved env v) t w') \<and>
    (r = Inr s \<longrightarrow> saved env v s \<and> holds_goal (saved env v) t w')"
  proof (cases ok)
    case True
    with c' w1 have app: "append_transaction_with_retry env t ?tx ?v label w1 = (r, w')"
      by (simp add: sbind_def swrite_def)
    note res = retry_result [OF safe app, folded saved_def]
    from True put have "holds_goal (saved env v) t w1" by simp
    with res(3) have "holds_goal (saved env v) t w'" by (auto simp: holds_goal_def)
    with res(1) put show ?thesis by (auto intro: task.trans [OF _ res(2)])
  next
    case False
    with c' w1 have "w' = w1" "r = Inl (Validation, WriteFails)" by (auto simp: sbind_def swrite_def)
    with put show ?thesis by simp
  qed
  then show "task_moved t w w'"
    and "hget (gw_goals w') t = hget (gw_goals w) t \<or> holds_goal (saved env v) t w'"
    and "r = Inr s \<Longrightarrow> saved env v s \<and> holds_goal (saved env v) t w'" by blast+
qed

end
