(* ===== verification/Goal_Replay.thy ===== *)
theory Goal_Replay
  imports Goal_Logic
begin

text \<open>
  Facts about the ledger of a task: transactions are read back as they were written, what the
  replay makes of them and what compaction leaves of that, and the chain of fingerprints.
\<close>

section \<open>Transactions on lines\<close>

lemma tx_roundtrip [simp]: "tx_of_json (tx_json tx) = Some tx"
  by (simp add: tx_of_json_def tx_json_def tx_fields_def de_req_def de_dflt_def)

definition transactions :: "jsonl_line list \<Rightarrow> ledger_transaction list" where
  "transactions ls = List.map_filter tx_of_json (rows ls)"

lemma map_filter_append: "List.map_filter f (xs @ ys) = List.map_filter f xs @ List.map_filter f ys"
  by (simp add: map_filter_def)

lemma transactions_cut [simp]: "transactions (cut_tail ls) = transactions ls"
  by (simp add: transactions_def)

definition tx_lines :: "ledger_transaction list \<Rightarrow> jsonl_line list" where
  "tx_lines txs = map (\<lambda>tx. Row (tx_json tx)) txs"

lemma tx_lines_simps [simp]:
  "tx_lines [] = []" "tx_lines (tx # txs) = Row (tx_json tx) # tx_lines txs"
  "tx_lines (txs @ txs') = tx_lines txs @ tx_lines txs'" "tx_lines txs = [] \<longleftrightarrow> txs = []"
  by (simp_all add: tx_lines_def)

lemma tx_lines_map: "tx_lines txs = map Row (map tx_json txs)"
  by (simp add: tx_lines_def)

lemma rows_tx_lines [simp]: "rows (tx_lines txs) = map tx_json txs"
  unfolding tx_lines_map by (rule rows_simps(4))

lemma transactions_tx_lines [simp]: "transactions (tx_lines txs) = txs"
  by (induction txs) (simp_all add: transactions_def List.map_filter_simps)

lemma rows_add_line [simp]: "rows (add_line ls v) = rows ls @ [v]"
proof -
  let ?P = "\<lambda>l. l = Blank True"
  have s: "ls = rev (dropWhile ?P (rev ls)) @ rev (takeWhile ?P (rev ls))"
    by (metis rev_append rev_rev_ident takeWhile_dropWhile_id)
  have "rows (rev (takeWhile ?P (rev ls))) = []"
    by (auto simp: rows_def map_filter_def filter_empty_conv dest: set_takeWhileD)
  with s have r: "rows ls = rows (rev (dropWhile ?P (rev ls)))" by (metis append.right_neutral rows_simps(2))
  have "rows [Blank True, Row v] = [v]" by (simp add: rows_def List.map_filter_simps)
  moreover have "rows ls = []" if "rev (dropWhile ?P (rev ls)) = []" using r unfolding that by simp
  ultimately show ?thesis using r by (auto simp: add_line_def Let_def simp del: dropWhile_eq_Nil_conv rev_is_Nil_conv)
qed

lemma transactions_add_line [simp]: "transactions (add_line ls (tx_json tx)) = transactions ls @ [tx]"
  by (simp add: transactions_def map_filter_append List.map_filter_simps)

lemma add_line_lines [simp]: "add_line (tx_lines txs) (tx_json tx) = tx_lines (txs @ [tx])"
proof -
  have "dropWhile (\<lambda>l. l = Blank True) (rev (tx_lines txs)) = rev (tx_lines txs)"
    by (cases txs rule: rev_cases) simp_all
  then show ?thesis by (simp add: add_line_def Let_def)
qed

lemma cut_add_line: "cut_tail (add_line ls v) = add_line ls v"
  by (simp add: cut_tail_def add_line_def Let_def)

section \<open>Replay\<close>

definition goal_line :: "ledger_transaction \<Rightarrow> bool" where
  "goal_line tx \<longleftrightarrow> tx_type tx = ''goal_state''"

definition evidence_line :: "ledger_transaction \<Rightarrow> bool" where
  "evidence_line tx \<longleftrightarrow> tx_type tx = ''evidence''"

definition line_goal :: "ledger_transaction \<Rightarrow> json option" where
  "line_goal tx = (if tx_payload tx = JNull then None else Some (tx_payload tx))"

text \<open>The three parts of the replayed state, each by itself.\<close>

lemma fold_goal:
  "fst (foldl replay_step s txs) = (case find goal_line (rev txs) of Some tx \<Rightarrow> line_goal tx | None \<Rightarrow> fst s)"
proof (induction txs rule: rev_induct)
  case (snoc tx txs)
  obtain g r k where "foldl replay_step s txs = (g, r, k)" by (cases rule: prod_cases3)
  with snoc show ?case by (simp add: replay_step_def goal_line_def line_goal_def)
qed simp

lemma fold_rows: "fst (snd (foldl replay_step s txs)) \<longleftrightarrow> fst (snd s) \<or> (\<exists>tx \<in> set txs. evidence_line tx)"
proof (induction txs rule: rev_induct)
  case (snoc tx txs)
  obtain g r k where "foldl replay_step s txs = (g, r, k)" by (cases rule: prod_cases3)
  with snoc show ?case by (auto simp: replay_step_def evidence_line_def)
qed simp

lemma fold_ok:
  "snd (snd (foldl replay_step s txs)) \<longleftrightarrow>
   snd (snd s) \<or> (\<exists>tx \<in> set txs. evidence_line tx \<and> evidence_index_entry_implies_success (tx_payload tx))"
proof (induction txs rule: rev_induct)
  case (snoc tx txs)
  obtain g r k where "foldl replay_step s txs = (g, r, k)" by (cases rule: prod_cases3)
  with snoc show ?case by (auto simp: replay_step_def evidence_line_def)
qed simp

lemma replay_plain: "\<forall>tx \<in> set txs. \<not> is_checkpoint tx \<Longrightarrow> replay txs s = foldl replay_step s txs"
proof -
  assume a: "\<forall>tx \<in> set txs. \<not> is_checkpoint tx"
  then have "takeWhile (\<lambda>tx. \<not> is_checkpoint tx) (rev txs) = rev txs" "find is_checkpoint (rev txs) = None"
    by (simp_all add: find_None_iff)
  then show ?thesis unfolding replay_def by (simp only: Let_def option.case rev_rev_ident)
qed

lemma replay_based:
  assumes "is_checkpoint cp" "\<forall>tx \<in> set post. \<not> is_checkpoint tx"
  shows "replay (pre @ cp # post) s = foldl replay_step (apply_checkpoint (tx_payload cp) s) post"
proof -
  have "takeWhile (\<lambda>tx. \<not> is_checkpoint tx) (rev post @ cp # rev pre) = rev post"
    using assms by (subst takeWhile_append2) auto
  moreover have "find is_checkpoint (rev post @ cp # rev pre) = Some cp"
    using assms by (induction post rule: rev_induct) auto
  ultimately show ?thesis by (simp add: replay_def)
qed

lemma replay_cases:
  obtains (plain) "\<forall>tx \<in> set txs. \<not> is_checkpoint tx"
  | (based) pre cp post where "txs = pre @ cp # post" "is_checkpoint cp" "\<forall>tx \<in> set post. \<not> is_checkpoint tx"
  by (metis split_list_last_prop)

lemma replay_snoc:
  assumes "\<not> is_checkpoint tx"
  shows "replay (txs @ [tx]) s = replay_step (replay txs s) tx"
  using assms by (simp add: replay_def)

text \<open>A goal that the ledger alone determines is replayed whatever the goal document holds.\<close>

lemma recorded_goal:
  assumes "fst (replay txs (None, r, k)) = Some g"
  shows "fst (replay txs s) = Some g"
proof (cases txs rule: replay_cases)
  case plain
  with assms show ?thesis by (simp add: replay_plain fold_goal split: option.splits)
next
  case (based pre cp post)
  have "fst (apply_checkpoint p (None, r, k)) = Some g \<Longrightarrow> fst (apply_checkpoint p s) = Some g" for p
    by (cases s rule: prod_cases3) (auto simp: apply_checkpoint_def split: option.splits if_splits)
  with assms show ?thesis
    unfolding based(1) replay_based [OF based(2,3)] fold_goal by (simp split: option.splits)
qed

text \<open>A transaction that is neither a goal state, nor evidence, nor a checkpoint is not replayed.\<close>

lemma replay_ignores:
  "tx_type tx \<notin> {''goal_state'', ''evidence'', STATE_CHECKPOINT_TX_TYPE} \<Longrightarrow> replay (txs @ [tx]) s = replay txs s"
  by (subst replay_snoc) (auto simp: is_checkpoint_def replay_step_def split: prod.split)

section \<open>Compaction\<close>

text \<open>On transactions: a snapshot goes when a later one of its type follows.\<close>

definition snapshot :: "ledger_transaction \<Rightarrow> bool" where
  "snapshot tx \<longleftrightarrow> tx_type tx \<in> set STATE_SNAPSHOT_TX_TYPES"

fun latest :: "ledger_transaction list \<Rightarrow> ledger_transaction list" where
  "latest [] = []"
| "latest (tx # txs) = (if snapshot tx \<and> (\<exists>tx' \<in> set txs. tx_type tx' = tx_type tx) then latest txs else tx # latest txs)"

definition tx_members :: "ledger_transaction \<Rightarrow> (string \<times> json) list" where
  "tx_members tx = (case tx_json tx of JObj m \<Rightarrow> m | _ \<Rightarrow> [])"

lemma tx_json_members: "tx_json tx = JObj (tx_members tx)"
  by (simp add: tx_members_def tx_json_def)

lemma members_type: "extract_snapshot_type (tx_members tx) = (if snapshot tx then Some (tx_type tx) else None)"
  by (simp add: extract_snapshot_type_def tx_members_def tx_json_def snapshot_def)

lemma entries_transactions: "entries (map tx_json txs) = map (\<lambda>tx. (tx_members tx, extract_snapshot_type (tx_members tx))) txs"
proof -
  have "List.map_filter as_object (map tx_json txs) = map tx_members txs"
    by (induction txs) (simp_all add: List.map_filter_simps tx_json_members)
  then show ?thesis by (simp add: entries_def)
qed

lemma snapshot_types: "snapshot tx \<Longrightarrow> tx_type tx' = tx_type tx \<Longrightarrow> snapshot tx'"
  by (simp add: snapshot_def)

lemma newest_latest:
  "newest (map (\<lambda>tx. (tx_members tx, extract_snapshot_type (tx_members tx))) txs) =
   map (\<lambda>tx. (tx_members tx, extract_snapshot_type (tx_members tx))) (latest txs)"
proof (induction txs)
  case (Cons tx txs)
  have "Some (tx_type tx) \<in> snd ` set (map (\<lambda>tx. (tx_members tx, extract_snapshot_type (tx_members tx))) txs) \<longleftrightarrow>
      (\<exists>tx' \<in> set txs. tx_type tx' = tx_type tx)" if "snapshot tx"
  proof -
    have "Some (tx_type tx) \<in> snd ` set (map (\<lambda>tx. (tx_members tx, extract_snapshot_type (tx_members tx))) txs) \<longleftrightarrow>
        (\<exists>tx' \<in> set txs. extract_snapshot_type (tx_members tx') = Some (tx_type tx))" by force
    also have "\<dots> \<longleftrightarrow> (\<exists>tx' \<in> set txs. tx_type tx' = tx_type tx)"
      by (rule bex_cong) (use snapshot_types [OF that] in \<open>auto simp: members_type\<close>)
    finally show ?thesis .
  qed
  with Cons show ?case by (simp add: members_type)
qed simp

lemma renumbered: "k < 2 ^ 64 \<Longrightarrow> tx_of_json (JObj (jput ''seq'' (jnat k) (tx_members tx))) = Some (tx\<lparr>tx_seq := Some (of_nat k)\<rparr>)"
  by (simp add: tx_of_json_def tx_members_def tx_json_def tx_fields_def de_req_def de_dflt_def jnat_def)

lemma renumber_transactions:
  assumes "length txs + n \<le> 2 ^ 64"
  shows "List.map_filter tx_of_json (map (\<lambda>(k, m). JObj (jput ''seq'' (jnat k) m)) (List.enumerate n (map tx_members txs))) =
    map (\<lambda>(k, tx). tx\<lparr>tx_seq := Some (of_nat k)\<rparr>) (List.enumerate n txs)"
  using assms by (induction txs arbitrary: n) (simp_all add: List.map_filter_simps renumbered)

text \<open>The compacted ledger read back.\<close>

lemma compacted:
  assumes "compact_jsonl_core n (tx_lines txs) = Some out" "length txs \<le> 2 ^ 64"
  shows "transactions out = map (\<lambda>(k, tx). tx\<lparr>tx_seq := Some (of_nat k)\<rparr>) (List.enumerate 0 (latest txs))"
    "\<exists>vs. out = map Row vs \<and> vs = renumber (map tx_members (latest txs))"
proof -
  have k: "kept_entries (entries (map tx_json txs)) = map tx_members (latest txs)"
    by (simp add: kept_newest entries_transactions newest_latest comp_def)
  have "non_objects (map tx_json txs) = []"
    by (simp add: non_objects_def filter_empty_conv tx_json_members)
  with assms(1) k have o: "out = map Row (renumber (map tx_members (latest txs)))"
    by (auto simp: compact_jsonl_core_def Let_def split: if_splits)
  have "length (latest txs) \<le> length txs" by (induction txs) auto
  with assms(2) have "length (latest txs) + 0 \<le> 2 ^ 64" by simp
  from renumber_transactions [OF this] o show "transactions out = map (\<lambda>(k, tx). tx\<lparr>tx_seq := Some (of_nat k)\<rparr>) (List.enumerate 0 (latest txs))"
    unfolding transactions_def o rows_simps(4) renumber_def by simp
  from o show "\<exists>vs. out = map Row vs \<and> vs = renumber (map tx_members (latest txs))" by blast
qed

lemma latest_append:
  "(\<And>tx. tx \<in> set txs' \<Longrightarrow> \<not> snapshot tx) \<Longrightarrow> latest (txs @ txs') = latest txs @ txs'"
proof (induction txs)
  case Nil
  then show ?case by (induction txs') auto
next
  case (Cons tx txs)
  then have "tx_type tx' \<noteq> tx_type tx" if "snapshot tx" "tx' \<in> set txs'" for tx'
    using that snapshot_types by blast
  with Cons show ?case by (auto dest: snapshot_types)
qed

lemma latest_split: "\<not> snapshot cp \<Longrightarrow> \<exists>pre'. latest (pre @ cp # post) = pre' @ cp # latest post"
proof (induction pre)
  case (Cons tx pre)
  then obtain pre' where "latest (pre @ cp # post) = pre' @ cp # latest post" by blast
  then show ?case by (cases "snapshot tx \<and> (\<exists>tx' \<in> set (pre @ cp # post). tx_type tx' = tx_type tx)")
    (auto intro: exI [of _ "tx # pre'"])
qed simp

lemma latest_subset: "set (latest txs) \<subseteq> set txs"
  by (induction txs) auto

lemma latest_types: "tx \<in> set txs \<Longrightarrow> \<exists>tx' \<in> set (latest txs). tx_type tx' = tx_type tx"
proof (induction txs arbitrary: tx)
  case (Cons tx' txs)
  show ?case
  proof (cases "snapshot tx' \<and> (\<exists>tx'' \<in> set txs. tx_type tx'' = tx_type tx')")
    case True
    then obtain tx'' where "tx'' \<in> set txs" "tx_type tx'' = tx_type tx'" by blast
    with Cons.IH [of tx''] Cons.IH [of tx] Cons.prems True show ?thesis by auto
  next
    case False
    with Cons show ?thesis by (cases "tx = tx'") auto
  qed
qed simp

lemma latest_goal: "find goal_line (rev (latest txs)) = find goal_line (rev txs)"
proof (induction txs)
  case (Cons tx txs)
  have f: "find P (xs @ [x]) = (case find P xs of Some y \<Rightarrow> Some y | None \<Rightarrow> if P x then Some x else None)"
    for P :: "ledger_transaction \<Rightarrow> bool" and xs x by (induction xs) auto
  show ?case
  proof (cases "snapshot tx \<and> (\<exists>tx' \<in> set txs. tx_type tx' = tx_type tx)")
    case True
    then have "goal_line tx \<longrightarrow> find goal_line (rev txs) \<noteq> None" by (auto simp: find_None_iff goal_line_def)
    with True Cons show ?thesis by (auto simp: f split: option.split)
  next
    case False
    with Cons show ?thesis by (auto simp: f split: option.split)
  qed
qed simp

lemma replay_map:
  assumes "\<And>tx. tx_type (h tx) = tx_type tx" "\<And>tx. tx_payload (h tx) = tx_payload tx"
  shows "replay (map h txs) s = replay txs s"
proof -
  have c: "is_checkpoint (h tx) = is_checkpoint tx" "replay_step s (h tx) = replay_step s tx" for s tx
    by (simp_all add: is_checkpoint_def replay_step_def assms split: prod.split)
  have "find is_checkpoint (map h xs) = map_option h (find is_checkpoint xs)" for xs
    by (induction xs) (simp_all add: c)
  then show ?thesis
    by (simp add: replay_def c takeWhile_map comp_def foldl_map rev_map assms split: option.split)
qed

lemma replay_numbered:
  "replay (map (\<lambda>(k, tx). tx\<lparr>tx_seq := Some (of_nat k)\<rparr>) (List.enumerate n txs)) s = replay txs s"
proof -
  let ?h = "\<lambda>tx. tx\<lparr>tx_seq := None\<rparr>"
  have "map ?h (map (\<lambda>(k, tx). tx\<lparr>tx_seq := Some (of_nat k)\<rparr>) (List.enumerate n txs)) = map ?h txs"
    by (induction txs arbitrary: n) simp_all
  moreover have "replay (map ?h xs) s = replay xs s" for xs by (rule replay_map) simp_all
  ultimately show ?thesis by metis
qed

lemma checkpoint_no_snapshot: "is_checkpoint tx \<Longrightarrow> \<not> snapshot tx"
  by (simp add: is_checkpoint_def snapshot_def STATE_CHECKPOINT_TX_TYPE_def STATE_SNAPSHOT_TX_TYPES_def)

lemma fold_latest:
  "fst (foldl replay_step s (latest txs)) = fst (foldl replay_step s txs) \<and>
   fst (snd (foldl replay_step s (latest txs))) = fst (snd (foldl replay_step s txs)) \<and>
   (snd (snd (foldl replay_step s (latest txs))) \<longrightarrow> snd (snd (foldl replay_step s txs)))"
proof (intro conjI)
  show "fst (foldl replay_step s (latest txs)) = fst (foldl replay_step s txs)" by (simp add: fold_goal latest_goal)
  have "(\<exists>tx \<in> set (latest txs). evidence_line tx) = (\<exists>tx \<in> set txs. evidence_line tx)"
    unfolding evidence_line_def using latest_subset latest_types by (metis subset_iff)
  then show "fst (snd (foldl replay_step s (latest txs))) = fst (snd (foldl replay_step s txs))" by (simp add: fold_rows)
  show "snd (snd (foldl replay_step s (latest txs))) \<longrightarrow> snd (snd (foldl replay_step s txs))"
    using latest_subset [of txs] by (auto simp: fold_ok)
qed

text \<open>The replay of the latest lines: the same goal, the same rows, and no success that was not there.\<close>

lemma replay_latest:
  "fst (replay (latest txs) s) = fst (replay txs s) \<and> fst (snd (replay (latest txs) s)) = fst (snd (replay txs s)) \<and>
   (snd (snd (replay (latest txs) s)) \<longrightarrow> snd (snd (replay txs s)))"
proof (cases txs rule: replay_cases)
  case plain
  then have "\<forall>tx \<in> set (latest txs). \<not> is_checkpoint tx" using latest_subset by blast
  with plain fold_latest show ?thesis by (simp add: replay_plain)
next
  case (based pre cp post)
  obtain pre' where l: "latest txs = pre' @ cp # latest post"
    using latest_split [OF checkpoint_no_snapshot [OF based(2)]] based(1) by metis
  have "\<forall>tx \<in> set (latest post). \<not> is_checkpoint tx" using based(3) latest_subset by blast
  with fold_latest show ?thesis unfolding l unfolding based(1) by (simp add: replay_based based(2,3))
qed

text \<open>C15: Compacting a ledger changes neither the goal that is replayed from it nor whether it has evidence, and makes no
  success appear; a success that only an earlier evidence line tells of may be lost, as the latest evidence line
  replaces all others.\<close>
theorem compaction_keeps_goal:
  assumes "compact_jsonl_core n (tx_lines txs) = Some out" "length txs \<le> 2 ^ 64"
  shows "fst (replay (transactions out) s) = fst (replay txs s) \<and>
    fst (snd (replay (transactions out) s)) = fst (snd (replay txs s)) \<and>
    (snd (snd (replay (transactions out) s)) \<longrightarrow> snd (snd (replay txs s)))"
  unfolding compacted(1) [OF assms] replay_numbered by (rule replay_latest)

text \<open>Two evidence lines of which only the later stays, and with it the success is lost.\<close>

definition two_lines :: "ledger_transaction list" where
  "two_lines = [transaction_new ''now'' ''evidence'' (jobj [(''success'', JBool True)]), transaction_new ''now'' ''evidence'' JNull]"

lemma compaction_keeps_goal_witness:
  "\<exists>out. compact_jsonl_core 1 (tx_lines two_lines) = Some out \<and>
     fst (snd (replay (transactions out) (None, False, False))) = True \<and> snd (snd (replay two_lines (None, False, False))) = True \<and>
     (snd (snd (replay (transactions out) (None, False, False))) \<longrightarrow> snd (snd (replay two_lines (None, False, False))))"
proof -
  have "compact_jsonl_core 1 (tx_lines two_lines) \<noteq> None" by code_simp
  then obtain out where out: "compact_jsonl_core 1 (tx_lines two_lines) = Some out" by blast
  have "length two_lines \<le> 2 ^ 64" by (simp add: two_lines_def)
  from compaction_keeps_goal [OF out this, of "(None, False, False)"]
  have "fst (snd (replay (transactions out) (None, False, False))) = fst (snd (replay two_lines (None, False, False)))" by blast
  moreover have "replay two_lines (None, False, False) = (None, True, True)" by code_simp
  ultimately show ?thesis using out by simp
qed

end
