(* ===== verification/Goal_Edits.thy ===== *)
theory Goal_Edits
  imports Goal_Logic
begin

text \<open>
  What a request does to a goal, as an edit of its stored state: the edits of each operation, and
  the proof that every request changes the goal state of its own task by one edit at most and
  touches no other task. What holds of the edits then holds of the requests.
\<close>

section \<open>Edits\<close>

inductive goal_edit :: "goal_env \<Rightarrow> json \<Rightarrow> json_file \<Rightarrow> json option \<Rightarrow> bool" for env p where
  start: "goal_operation p = ''start'' \<or> goal_operation p = ''upsert'' \<Longrightarrow> started_goal env p g = Inr m \<Longrightarrow>
    goal_edit env p Missing (Some (JObj m))"
| checkpoint: "goal_operation p = ''checkpoint'' \<Longrightarrow> add_checkpoint env p note (annotate_goal_staleness env v) = Inr v' \<Longrightarrow>
    goal_edit env p (Holds v) (Some v')"
| fail: "goal_operation p = ''fail'' \<Longrightarrow> fail_goal env p (annotate_goal_staleness env v) = Inr v' \<Longrightarrow>
    goal_edit env p (Holds v) (Some v')"
| pause: "goal_operation p = ''pause'' \<Longrightarrow> flagged_goal env ''paused'' None None (annotate_goal_staleness env v) = Inr v' \<Longrightarrow>
    goal_edit env p (Holds v) (Some v')"
| resume: "goal_operation p = ''resume'' \<Longrightarrow> resume_goal env d (annotate_goal_staleness env v) = Inr v' \<Longrightarrow>
    goal_edit env p (Holds v) (Some v')"
| limit: "goal_operation p = ''complete'' \<Longrightarrow> status_text v = ''running'' \<or> status_text v = ''review_pending'' \<Longrightarrow>
    at_iteration_limit v \<Longrightarrow>
    goal_edit env p (Holds v) (Some (review_pending env (set_iterations (inc64 (iteration_count v)) (annotate_goal_staleness env v)) bs))"
| gate: "goal_operation p = ''complete'' \<Longrightarrow> status_text v = ''running'' \<or> status_text v = ''review_pending'' \<Longrightarrow>
    \<not> at_iteration_limit v \<Longrightarrow>
    goal_edit env p (Holds v) (Some (review_pending env (annotate_goal_staleness env v) bs))"
| iteration: "goal_operation p = ''complete'' \<Longrightarrow> status_text v = ''running'' \<or> status_text v = ''review_pending'' \<Longrightarrow>
    \<not> at_iteration_limit v \<Longrightarrow>
    goal_edit env p (Holds v) (Some (completed_iteration env (annotate_goal_staleness env v)))"
| retry: "goal_operation p = ''retry'' \<Longrightarrow> retry_goal env (annotate_goal_staleness env v) = Inr v' \<Longrightarrow>
    goal_edit env p (Holds v) (Some v')"
| block: "goal_operation p = ''block'' \<Longrightarrow>
    flagged_goal env ''blocked'' (Some False) (Some b) (annotate_goal_staleness env v) = Inr v' \<Longrightarrow>
    goal_edit env p (Holds v) (Some v')"
| unblock: "goal_operation p = ''unblock'' \<Longrightarrow> flagged_goal env ''running'' None None (annotate_goal_staleness env v) = Inr v' \<Longrightarrow>
    goal_edit env p (Holds v) (Some v')"
| clear: "goal_operation p = ''clear'' \<Longrightarrow> f \<noteq> Missing \<Longrightarrow> goal_edit env p f None"
| amend: "goal_operation p = ''amend'' \<Longrightarrow> amend_goal env p (annotate_goal_staleness env v) = Inr v' \<Longrightarrow>
    goal_edit env p (Holds v) (Some v')"

text \<open>The mark of staleness changes nothing that the operations look at besides the mark.\<close>

lemma map_of_stale_marks [simp]:
  "k \<noteq> ''stale'' \<Longrightarrow> k \<noteq> ''stale_reason'' \<Longrightarrow> jget (mark_goal_stale r v) k = jget v k"
  by (cases v) (auto simp: mark_goal_stale_def map_of_jput)

lemma jget_annotated:
  "k \<noteq> ''stale'' \<Longrightarrow> k \<noteq> ''stale_reason'' \<Longrightarrow> jget (annotate_goal_staleness env v) k = jget v k"
  by (auto simp: annotate_goal_staleness_def Let_def split: option.splits)

lemma annotated_reads [simp]:
  "status_text (annotate_goal_staleness env v) = status_text v"
  "iteration_count (annotate_goal_staleness env v) = iteration_count v"
  by (simp_all add: status_text_def iteration_count_def jget_with_def jget_annotated)

lemma annotated_limit [simp]: "at_iteration_limit (annotate_goal_staleness env v) = at_iteration_limit v"
  by (simp add: at_iteration_limit_def jget_with_def jget_annotated split: option.split)

section \<open>The task of a request\<close>

definition request_task :: "json \<Rightarrow> string" where
  "request_task p = or_default [] (text_of p ''task_id'')"

lemma text_of_trimmed: "text_of p k = Some t \<Longrightarrow> trim t = t \<and> t \<noteq> []"
  by (auto simp: text_of_def nonempty_trimmed_def split: option.splits if_splits)

lemma safe_of_text: "text_of p ''task_id'' = Some t \<Longrightarrow> safe_task_id_component t = Some u \<Longrightarrow> u = t"
  using text_of_trimmed safe_id_Some by metis

text \<open>The goal state of a task stays as it is, and so does everything of other tasks.\<close>

definition goal_kept :: "string \<Rightarrow> goal_world \<Rightarrow> goal_world \<Rightarrow> bool" where
  "goal_kept t w w' \<longleftrightarrow> task_moved t w w' \<and> hget (gw_goals w') t = hget (gw_goals w) t"

lemma ledger_quiet: "ledger_moved t w w' \<Longrightarrow> goal_kept t w w'"
  unfolding goal_kept_def by (simp add: ledger_task) (simp add: ledger_moved_def)

lemma pointers_quiet: "pointers_moved w w' \<Longrightarrow> goal_kept t w w'"
  unfolding goal_kept_def by (simp add: pointers_task) (simp add: pointers_moved_def)

text \<open>
  What the hooks may do during a completion: obey the relation, and the gate must leave the goal
  that is being completed as it is.
\<close>

definition hooks_move :: "(goal_world \<Rightarrow> goal_world \<Rightarrow> bool) \<Rightarrow> string \<Rightarrow> goal_env \<Rightarrow> bool" where
  "hooks_move R t env \<longleftrightarrow> (\<forall>h. ge_hooks env = Some h \<longrightarrow>
     (\<forall>p w. R w (snd (gh_gate h p w)) \<and> hget (gw_goals (snd (gh_gate h p w))) t = hget (gw_goals w) t) \<and>
     (\<forall>w. R w (snd (gh_after h t w))))"

lemma read_goal_state_safe:
  assumes "safe_task_id_component t = Some t"
  shows "read_goal_state env (Some t) w = read_goal_file env t w"
  using safe_id_Some [OF assms] assms
  by (simp add: read_goal_state_def Let_def validate_task_id_component_def)

lemma read_goal_file_Some:
  "read_goal_file env t w = Inr (Some v) \<longleftrightarrow>
   (\<exists>v0. hget (gw_goals w) t = Some (Holds v0) \<and> v = annotate_goal_staleness env v0)"
  by (auto simp: read_goal_file_def file_at_def or_default_def split: json_file.splits option.splits)

lemma read_goal_file_None: "read_goal_file env t w = Inr None \<longleftrightarrow> file_at (gw_goals w) t = Missing"
  by (auto simp: read_goal_file_def split: json_file.splits)

lemma existing_goalE:
  assumes "existing_goal env t w = (Inr v, w')" "safe_task_id_component t = Some t"
  obtains v0 where "w' = w" "hget (gw_goals w) t = Some (Holds v0)" "v = annotate_goal_staleness env v0"
proof -
  from assms(1) have "w' = w" "read_goal_state env (Some t) w = Inr (Some v)"
    by (auto simp: existing_goal_def sbind_Inr sread_def sret_def sfail_def split: option.splits)
  with that show thesis unfolding read_goal_state_safe [OF assms(2)] read_goal_file_Some by blast
qed

text \<open>The checks of the task id, evaluated.\<close>

lemma checked_bind:
  "sbind (checked_task_id p) f =
     (case text_of p ''task_id'' of None \<Rightarrow> sfail Validation TaskIdRequired
      | Some t \<Rightarrow> if safe_task_id_component t = None then sfail Validation UnsafeTaskId else f t)"
  by (rule ext) (auto simp: checked_task_id_def resolve_task_id_strict_def validate_task_id_component_def sbind_def
    sread_def sret_def sfail_def split: option.splits)

lemma validated_bind:
  "sbind (sread (\<lambda>_. resolve_task_id_strict p)) (\<lambda>t. sbind (sread (\<lambda>_. validate_task_id_component t)) (f t)) =
     (case text_of p ''task_id'' of None \<Rightarrow> sfail Validation TaskIdRequired
      | Some t \<Rightarrow> if safe_task_id_component t = None then sfail Validation UnsafeTaskId else f t t)"
  by (rule ext) (auto simp: resolve_task_id_strict_def validate_task_id_component_def sbind_def
    sread_def sfail_def dest: safe_of_text split: option.splits)

section \<open>Every request is an edit\<close>

text \<open>
  A relation on worlds that contains what leaves the goal state of the task alone, the edits of
  the request and what the hooks do, contains the whole request.
\<close>

locale goal_relation = world_relation R for R +
  fixes env :: goal_env and p :: json
  assumes goal_kept: "goal_kept (request_task p) w w' \<Longrightarrow> R w w'"
    and edited: "goal_edit env p (file_at (gw_goals w) (request_task p)) (Some v) \<Longrightarrow>
      task_moved (request_task p) w w' \<Longrightarrow> holds_goal (saved env v) (request_task p) w' \<Longrightarrow> R w w'"
    and cleared: "goal_edit env p (file_at (gw_goals w) (request_task p)) None \<Longrightarrow>
      task_moved (request_task p) w w' \<Longrightarrow> hget (gw_goals w') (request_task p) = None \<Longrightarrow> R w w'"
    and hooks: "goal_operation p = ''complete'' \<Longrightarrow> hooks_move R (request_task p) env"
begin

lemma moves_ledger: "world_moves (ledger_moved (request_task p)) m \<Longrightarrow> world_moves R m"
  by (auto intro: moves_mono goal_kept ledger_quiet)

lemma moves_pointers: "world_moves pointers_moved m \<Longrightarrow> world_moves R m"
  by (auto intro: moves_mono goal_kept pointers_quiet)

lemma commit_moves:
  assumes "safe_task_id_component t = Some t" "t = request_task p"
    and "goal_edit env p (file_at (gw_goals w) t) (Some v)"
  shows "R w (snd (commit_goal_mutation env t v label w))"
proof -
  obtain r w' where c: "commit_goal_mutation env t v label w = (r, w')" by force
  from commit_result(1,2) [OF assms(1) c] have "R w w'"
    using goal_kept [of w w'] edited [of w v w'] assms(2,3) by (auto simp: goal_kept_def)
  with c show ?thesis by simp
qed

lemma bind_at: "m w = (Inr a, w') \<Longrightarrow> R w' (snd (f a w')) \<Longrightarrow> R w w' \<Longrightarrow> R w (snd (sbind m f w))"
  by (auto simp: sbind_def intro: trans)

lemma commit_then_moves:
  assumes "safe_task_id_component t = Some t" "t = request_task p"
    and "goal_edit env p (file_at (gw_goals w) t) (Some v)" and "\<And>s. world_moves R (k s)"
  shows "R w (snd (sbind (commit_goal_mutation env t v label) k w))"
proof -
  obtain r w' where c: "commit_goal_mutation env t v label w = (r, w')" by force
  with commit_moves [OF assms(1-3)] have "R w w'" by (metis snd_conv)
  with c assms(4) show ?thesis by (cases r) (auto simp: sbind_def intro: trans movesD)
qed

text \<open>The common shape of the operations: read the goal, change it, commit, then the rest.\<close>

lemma change_moves:
  assumes "safe_task_id_component t = Some t" "t = request_task p"
    and "\<And>v v'. f (annotate_goal_staleness env v) = Inr v' \<Longrightarrow> goal_edit env p (Holds v) (Some v')"
    and "\<And>s. world_moves R (k s)"
  shows "world_moves R (sbind (existing_goal env t) (\<lambda>v. sbind (sread (\<lambda>_. f v)) (\<lambda>v'.
    sbind (commit_goal_mutation env t v' label) k)))"
proof (rule movesI)
  fix w
  obtain r w1 where e: "existing_goal env t w = (r, w1)" by force
  have "w1 = w" using e by (auto simp: existing_goal_def sbind_def sread_def sret_def sfail_def
    split: sum.splits option.splits)
  with e have e: "existing_goal env t w = (r, w)" by simp
  show "R w (snd (sbind (existing_goal env t) (\<lambda>v. sbind (sread (\<lambda>_. f v)) (\<lambda>v'.
    sbind (commit_goal_mutation env t v' label) k)) w))"
  proof (cases r)
    case (Inl e') with e show ?thesis by (simp add: sbind_def refl)
  next
    case (Inr v)
    then obtain v0 where v: "hget (gw_goals w) t = Some (Holds v0)" "v = annotate_goal_staleness env v0"
      using existing_goalE [OF e [unfolded Inr] assms(1)] by metis
    show ?thesis
    proof (cases "f v")
      case (Inl e') with e Inr show ?thesis by (simp add: sbind_def sread_def refl)
    next
      case (Inr v')
      with v assms(3) have "goal_edit env p (file_at (gw_goals w) t) (Some v')"
        by (simp add: file_at_def or_default_def)
      from commit_then_moves [OF assms(1,2) this assms(4)] e \<open>r = Inr v\<close> Inr show ?thesis
        by (simp add: sbind_def sread_def)
    qed
  qed
qed

lemma checked_moves:
  assumes "\<And>t. safe_task_id_component t = Some t \<Longrightarrow> t = request_task p \<Longrightarrow> world_moves R (f t)"
  shows "world_moves R (sbind (checked_task_id p) f)"
  unfolding checked_bind using assms safe_of_text
  by (auto simp: moves_simple request_task_def or_default_def split: option.split)

lemma validated_moves:
  assumes "\<And>t. safe_task_id_component t = Some t \<Longrightarrow> t = request_task p \<Longrightarrow> world_moves R (f t t)"
  shows "world_moves R (sbind (sread (\<lambda>_. resolve_task_id_strict p)) (\<lambda>t. sbind (sread (\<lambda>_. validate_task_id_component t)) (f t)))"
  unfolding validated_bind using assms safe_of_text
  by (auto simp: moves_simple request_task_def or_default_def split: option.split)

end

context goal_relation
begin

lemma checkpoint_op: "goal_operation p = ''checkpoint'' \<Longrightarrow> world_moves R (goal_checkpoint env p)"
  unfolding goal_checkpoint_def
  by (intro checked_moves moves_bind [OF moves_simple(3)] change_moves moves_simple) (simp_all add: goal_edit.checkpoint)

lemma fail_op: "goal_operation p = ''fail'' \<Longrightarrow> world_moves R (goal_fail env repo p)"
  unfolding goal_fail_def
  by (intro checked_moves change_moves moves_bind moves_simple moves_pointers neutralize_moves) (simp_all add: goal_edit.fail)

lemma retry_op: "goal_operation p = ''retry'' \<Longrightarrow> world_moves R (goal_retry env repo p)"
  unfolding goal_retry_def
  by (intro checked_moves change_moves moves_bind moves_simple moves_pointers pointers.moves_ignore sync_moves)
    (simp_all add: goal_edit.retry)

lemma resume_op: "goal_operation p = ''resume'' \<Longrightarrow> world_moves R (goal_resume env repo p)"
  unfolding goal_resume_def Let_def
  by (intro checked_moves moves_bind [OF moves_simple(3)] change_moves moves_bind moves_simple moves_pointers
    pointers.moves_ignore sync_moves) (simp_all add: goal_edit.resume)

lemma amend_op: "goal_operation p = ''amend'' \<Longrightarrow> world_moves R (goal_amend env p)"
  unfolding goal_amend_def
  by (intro checked_moves change_moves moves_simple) (simp_all add: goal_edit.amend)

lemma pause_op: "goal_operation p = ''pause'' \<Longrightarrow> world_moves R (goal_pause env p)"
  unfolding goal_pause_def set_terminal_flags_def
  by (intro validated_moves change_moves moves_simple) (simp_all add: goal_edit.pause)

lemma unblock_op: "goal_operation p = ''unblock'' \<Longrightarrow> world_moves R (goal_unblock env p)"
  unfolding goal_unblock_def set_terminal_flags_def
  by (intro validated_moves change_moves moves_simple) (simp_all add: goal_edit.unblock)

lemma block_op: "goal_operation p = ''block'' \<Longrightarrow> world_moves R (goal_block env p)"
  unfolding goal_block_def set_terminal_flags_def
  by (intro moves_bind [OF moves_simple(3)] validated_moves change_moves moves_simple) (simp_all add: goal_edit.block)

lemma start_op:
  assumes "goal_operation p = ''start'' \<or> goal_operation p = ''upsert''"
  shows "world_moves R (goal_start env p)"
  unfolding goal_start_def
proof (intro checked_moves movesI)
  fix t w assume safe: "safe_task_id_component t = Some t" and t: "t = request_task p"
  let ?k = "\<lambda>goal _. sbind (signore (sync_task_pointers_after_goal_drive env t goal p)) (\<lambda>_.
    sret (answer ''start'' t [(''status'', JStr ''running'')]))"
  have k: "world_moves R (?k goal s)" for goal s
    by (intro moves_bind moves_simple moves_pointers pointers.moves_ignore sync_moves)
  have body: "R w (snd (sbind (ensure_task_directory t) (\<lambda>_. sbind (commit_goal_mutation env t (JObj m) ''goal_state'') (?k goal)) w))"
    if "file_at (gw_goals w) t = Missing" "started_goal env p goal = Inr m" for goal m
  proof -
    have e: "ensure_task_directory t = swrite Io (\<lambda>w. w)"
      unfolding ensure_task_directory_def bind_validated [OF safe] ..
    obtain r w1 where r: "swrite Io (\<lambda>w. w) w = (r, w1)" by force
    then have l: "ledger_moved t w w1" using movesD [OF disk_only_moves] by (metis snd_conv)
    then have "gw_goals w1 = gw_goals w" by (simp add: ledger_moved_def)
    with that assms have "goal_edit env p (file_at (gw_goals w1) t) (Some (JObj m))" by (simp add: goal_edit.start)
    from commit_then_moves [OF safe t this k] have "R w1 (snd (sbind (commit_goal_mutation env t (JObj m) ''goal_state'') (?k goal) w1))" .
    moreover have "R w w1" using l t by (auto intro: goal_kept ledger_quiet)
    ultimately show ?thesis unfolding e using r by (cases r) (auto simp: sbind_def intro: trans)
  qed
  show "R w (snd (sbind (sread (read_goal_state env (Some t))) (\<lambda>old. sbind (srequire (old = None) (GoalExists t)) (\<lambda>_.
    sbind (sread (\<lambda>_. case text_of p ''goal'' of None \<Rightarrow> invalid GoalRequired | Some g \<Rightarrow> Inr g)) (\<lambda>goal.
    sbind (sread (\<lambda>_. started_goal env p goal)) (\<lambda>m. sbind (ensure_task_directory t) (\<lambda>_.
    sbind (commit_goal_mutation env t (JObj m) ''goal_state'') (?k goal)))))) w))"
  proof (cases "read_goal_file env t w = Inr None")
    case True
    then have f: "file_at (gw_goals w) t = Missing" unfolding read_goal_file_None .
    show ?thesis
    proof (cases "text_of p ''goal''")
      case None with True show ?thesis
        by (simp add: sbind_def sread_def srequire_def refl read_goal_state_safe [OF safe])
    next
      case (Some g)
      then show ?thesis using True body [OF f, of g]
        by (cases "started_goal env p g") (simp_all add: sbind_def sread_def srequire_def refl read_goal_state_safe [OF safe])
    qed
  next
    case False
    then show ?thesis
      by (auto simp: sbind_def sread_def srequire_def refl read_goal_state_safe [OF safe] split: sum.splits option.splits)
  qed
qed

end

section \<open>Clearing and completing\<close>

lemma transactions_move:
  "safe_task_id_component t = Some t \<Longrightarrow> ledger_moved t w (snd (read_task_ledger_transactions t w))"
  using movesD [OF repair_moves]
  by (auto simp: read_task_ledger_transactions_def ledger.refl case_prod_unfold split: ledger_file.splits)

lemma view_moves:
  assumes "safe_task_id_component t = Some t"
  shows "ledger_moved t w (snd (resolve_task_view env (Some t) w))"
proof -
  have "nonempty_trimmed (Some t) = Some t"
    using safe_id_Some [OF assms] by (simp add: nonempty_trimmed_def)
  then show ?thesis using transactions_move [OF assms, of w]
    by (simp add: resolve_task_view_def resolve_task_view_with_pointers_def hydrate_task_state_hybrid_def
      or_else_def Let_def case_prod_unfold)
qed

lemma completion_checks_moves:
  assumes "safe_task_id_component t = Some t"
  shows "world_moves (ledger_moved t) (completion_checks env t v)"
proof -
  have "world_moves (ledger_moved t) (\<lambda>w. case resolve_task_view env (Some t) w of (view, w') \<Rightarrow>
      (validate_goal_completion_gates view g, w'))" for g
    using view_moves [OF assms] by (intro movesI) (simp add: case_prod_unfold)
  then show ?thesis unfolding completion_checks_def Let_def
    by (intro ledger.moves_bind ledger.moves_simple) (simp split: option.split add: ledger.moves_simple)
qed

lemma completion_checks_ok:
  "completion_checks env t v w = (Inr u, w') \<Longrightarrow>
   (status_text v = ''running'' \<or> status_text v = ''review_pending'') \<and> \<not> is_stale v \<and>
   (goal_requires_completion_evidence v \<longrightarrow> vd_passed (validate_task_transition t CompleteTask w))"
  by (auto simp: completion_checks_def sbind_Inr srequire_def sread_def check_def Let_def split: if_splits)

lemma file_at_Holds: "hget m t = Some (Holds v) \<Longrightarrow> file_at m t = Holds v"
  by (simp add: file_at_def or_default_def)

context goal_relation
begin

lemma remove_moves:
  assumes safe: "safe_task_id_component t = Some t" and t: "t = request_task p"
    and "goal_operation p = ''clear''" "file_at (gw_goals w) t \<noteq> Missing"
  shows "R w (snd (remove_goal env t w))"
proof -
  let ?del = "\<lambda>w. w\<lparr>gw_goals := hdel t (gw_goals w)\<rparr>"
  obtain ok w1 where w1: "attempt ?del w = (ok, w1)" by force
  have "world_moves (task_moved t) (swrite Io ?del)"
    by (rule task.moves_write) (simp add: task_moved_def hmap_simps)
  from movesD [OF this, of w] w1 have "task_moved t w w1" by (simp add: swrite_def)
  moreover have "hget (gw_goals w1) t = hget (gw_goals w) t \<or> hget (gw_goals w1) t = None"
    using w1 by (auto simp: attempt_def Let_def hmap_simps split: list.splits write_outcome.splits)
  moreover have "goal_edit env p (file_at (gw_goals w) t) None" using assms(3,4) by (rule goal_edit.clear)
  ultimately have "R w w1" using cleared [of w w1] goal_kept [of w w1] t by (auto simp: goal_kept_def)
  moreover have "world_moves R (signore (append_transaction_assuming_l1_held env t tx))" for tx
    using append_moves [OF safe] t by (auto intro: moves_ledger ledger.moves_ignore)
  ultimately show ?thesis unfolding remove_goal_def
    using w1 by (cases ok) (auto simp: sbind_def swrite_def intro: trans movesD)
qed

lemma clear_op: "goal_operation p = ''clear'' \<Longrightarrow> world_moves R (goal_clear env repo p)"
  unfolding goal_clear_def
proof (intro validated_moves movesI)
  fix t w assume op: "goal_operation p = ''clear''" and safe: "safe_task_id_component t = Some t" and t: "t = request_task p"
  have rest: "world_moves R (sbind (signore (neutralize_task_pointers_for_task t)) (\<lambda>_. sret a))" for a
    by (intro moves_bind moves_simple moves_pointers pointers.moves_ignore neutralize_moves)
  have "R w (snd ((if e then remove_goal env t else sret ()) w))" if "e \<longrightarrow> file_at (gw_goals w) t \<noteq> Missing" for e
    using that remove_moves [OF safe t op] by (simp add: sret_def refl)
  then have step: "R w (snd (sbind (if e then remove_goal env t else sret ()) (\<lambda>_.
      sbind (signore (neutralize_task_pointers_for_task t)) (\<lambda>_. sret a)) w))"
    if "e \<longrightarrow> file_at (gw_goals w) t \<noteq> Missing" for e a
    using moves_bind_at [where f = "\<lambda>_. sbind (signore (neutralize_task_pointers_for_task t)) (\<lambda>_. sret a)", OF _ rest] that
    by blast
  show "R w (snd (let existed = file_at (gw_goals w) t \<noteq> Missing;
      stale = case read_goal_state env (Some t) w of Inr (Some v) \<Rightarrow> is_stale v | _ \<Rightarrow> False
      in sbind (srequire (\<not> (existed \<and> stale \<and> \<not> flag_of False p ''force'')) (StaleGoal ''clear''))
        (\<lambda>_. sbind (if existed then remove_goal env t else sret ()) (\<lambda>_.
          sbind (signore (neutralize_task_pointers_for_task t)) (\<lambda>_.
            sret (answer ''clear'' t [(''goal_state_path'', JStr (goal_state_path repo t)), (''removed'', JBool existed)])))) w))"
    by (simp add: Let_def sbind_def [of "srequire _ _"] srequire_def refl step [of True, simplified] step [of False, simplified])
qed

end

context goal_relation
begin

lemma review_op:
  assumes "safe_task_id_component t = Some t" "t = request_task p"
    and "goal_edit env p (file_at (gw_goals w) t) (Some (review_pending env v bs))"
  shows "R w (snd (transition_to_review_pending env t v bs label extra w))"
  unfolding transition_to_review_pending_def
  by (intro commit_then_moves assms moves_simple)

lemma after_moves:
  assumes "hooks_move R t env"
  shows "R w (snd (after_complete env t w))"
  using assms by (auto simp: after_complete_def hooks_move_def case_prod_unfold refl
    split: option.split prod.split)

lemma gate_moves:
  assumes "hooks_move R t env" "run_quality_gate env repo t v w = (r, w')"
  shows "R w w'" "hget (gw_goals w') t = hget (gw_goals w) t"
  using assms by (auto simp: run_quality_gate_def hooks_move_def refl split: option.splits prod.splits sum.splits)
    (metis snd_conv)+

lemma iteration_op:
  assumes "safe_task_id_component t = Some t" "t = request_task p" "hooks_move R t env"
    and "goal_edit env p (file_at (gw_goals w) t) (Some (completed_iteration env v))"
  shows "R w (snd (complete_iteration env t v w))"
  unfolding complete_iteration_def
  by (intro commit_then_moves assms(1,2,4) movesI) (simp add: case_prod_unfold after_moves [OF assms(3)])

text \<open>What follows the checks of a completion.\<close>

lemma counted_moves:
  assumes op: "goal_operation p = ''complete''" and safe: "safe_task_id_component t = Some t" and t: "t = request_task p"
    and v: "hget (gw_goals w) t = Some (Holds v0)" "v = annotate_goal_staleness env v0"
    and s: "status_text v = ''running'' \<or> status_text v = ''review_pending''"
  shows "R w (snd ((if at_iteration_limit v then
      transition_to_review_pending env t (set_iterations (inc64 (iteration_count v)) v) bs label extra
    else (\<lambda>w. case run_quality_gate env repo t v w of
      (Some (blockers, reason), w') \<Rightarrow> transition_to_review_pending env t v blockers label' [(''reason'', reason)] w'
    | (None, w') \<Rightarrow> complete_iteration env t v w')) w))"
proof (cases "at_iteration_limit v")
  case True
  with op v s have "goal_edit env p (file_at (gw_goals w) t)
      (Some (review_pending env (set_iterations (inc64 (iteration_count v)) v) bs))"
    by (simp add: file_at_Holds goal_edit.limit)
  with True show ?thesis by (simp add: review_op [OF safe t])
next
  case False
  have h: "hooks_move R t env" using hooks op t by simp
  obtain r w1 where r: "run_quality_gate env repo t v w = (r, w1)" by force
  note gate = gate_moves [OF h r]
  with v(1) have f: "file_at (gw_goals w1) t = Holds v0" by (simp add: file_at_Holds)
  have "goal_edit env p (file_at (gw_goals w1) t) (Some (review_pending env v bs'))" for bs'
    using op v s False f by (simp add: goal_edit.gate)
  moreover have "goal_edit env p (file_at (gw_goals w1) t) (Some (completed_iteration env v))"
    using op v s False f by (simp add: goal_edit.iteration)
  ultimately show ?thesis using False r trans [OF gate(1)]
    by (auto simp: review_op [OF safe t] iteration_op [OF safe t h] split: option.split)
qed

lemma complete_op:
  assumes op: "goal_operation p = ''complete''"
  shows "world_moves R (goal_complete env repo p)"
proof (rule movesI)
  fix w
  show "R w (snd (goal_complete env repo p w))"
  proof (cases "text_of p ''task_id''")
    case None then show ?thesis by (simp add: goal_complete_def sbind_def sread_def resolve_task_id_strict_def refl)
  next
    case (Some t)
    then have t: "t = request_task p" by (simp add: request_task_def or_default_def)
    show ?thesis
    proof (cases "\<exists>v. read_goal_state env (Some t) w = Inr (Some v)")
      case False
      then show ?thesis
        by (auto simp: goal_complete_def sbind_def sread_def sfail_def resolve_task_id_strict_def Some refl
          split: sum.splits option.splits)
    next
      case True
      then obtain v where v: "read_goal_state env (Some t) w = Inr (Some v)" by blast
      have safe: "safe_task_id_component t = Some t"
        using v safe_of_text [OF Some] text_of_trimmed [OF Some]
        by (auto simp: read_goal_state_def Let_def validate_task_id_component_def split: option.splits)
      from v obtain v0 where v0: "hget (gw_goals w) t = Some (Holds v0)" "v = annotate_goal_staleness env v0"
        unfolding read_goal_state_safe [OF safe] read_goal_file_Some by blast
      obtain r w1 where r: "completion_checks env t v w = (r, w1)" by force
      then have l: "ledger_moved t w w1" using movesD [OF completion_checks_moves [OF safe]] by (metis snd_conv)
      then have v1: "hget (gw_goals w1) t = Some (Holds v0)" and R: "R w w1"
        using v0 t by (simp_all add: ledger_moved_def goal_kept ledger_quiet)
      have "status_text v = ''running'' \<or> status_text v = ''review_pending''" if "r = Inr u" for u
        using completion_checks_ok r that by blast
      with R r show ?thesis using trans [OF R counted_moves [OF op safe t v1 v0(2)]]
        by (cases r) (simp_all add: goal_complete_def sbind_def sread_def resolve_task_id_strict_def Some v)
    qed
  qed
qed

text \<open>The whole request.\<close>

theorem request_moves: "R w (snd (framework_goal_drive env p w))"
proof -
  have status: "world_moves R (goal_status env repo p)" for repo
    by (rule movesI) (auto simp: goal_status_def sbind_def sread_def sret_def refl Let_def split: sum.split)
  have "world_moves R (goal_request env repo (goal_operation p) p)" for repo
    unfolding goal_request_def
    by (simp add: status start_op checkpoint_op fail_op pause_op resume_op complete_op retry_op block_op unblock_op
      clear_op amend_op moves_simple)
  then have impl: "world_moves R (framework_goal_drive_impl env p)"
    unfolding framework_goal_drive_impl_def by (intro moves_bind moves_simple)
  then have "world_moves R (framework_goal_drive env p)"
    unfolding framework_goal_drive_def by (auto intro!: moves_bind moves_simple)
  then show ?thesis by (rule movesD)
qed

end

end
