(* ===== verification/Goal_Answers.thy ===== *)
theory Goal_Answers
  imports Goal_Edits
begin

text \<open>
  What the answer of a request tells: an answered request has stored its edit (or removed the
  goal, or only reported on it), and a refused one, unless a file could not be read or written,
  has changed nothing but the ledger's damaged tail.
\<close>

section \<open>Applied and refused requests\<close>

definition applied :: "goal_env \<Rightarrow> json \<Rightarrow> goal_world \<Rightarrow> goal_world \<Rightarrow> bool" where
  "applied env p w w' \<longleftrightarrow>
     goal_operation p = ''status'' \<and> w' = w \<or>
     goal_operation p = ''clear'' \<and> file_at (gw_goals w') (request_task p) = Missing \<or>
     (\<exists>v. goal_edit env p (file_at (gw_goals w) (request_task p)) (Some v) \<and> holds_goal (saved env v) (request_task p) w')"

definition file_errors :: "goal_error set" where
  "file_errors = {ReadFails, ParseFails, WriteFails}"

definition refused :: "json \<Rightarrow> goal_world \<Rightarrow> goal_error \<Rightarrow> goal_world \<Rightarrow> bool" where
  "refused p w e w' \<longleftrightarrow> e \<in> file_errors \<or> ledger_moved (request_task p) w w'"

lemma refused_intros [intro, simp]:
  "refused p w e w" "e \<in> file_errors \<Longrightarrow> refused p w e w'" "ledger_moved (request_task p) w w' \<Longrightarrow> refused p w e w'"
  by (simp_all add: refused_def ledger.refl)

lemma file_errors_simps [simp]: "ReadFails \<in> file_errors" "ParseFails \<in> file_errors" "WriteFails \<in> file_errors"
  by (simp_all add: file_errors_def)

lemma applied_edit:
  "goal_edit env p (file_at (gw_goals w) (request_task p)) (Some v) \<Longrightarrow> holds_goal (saved env v) (request_task p) w' \<Longrightarrow>
   applied env p w w'"
  by (auto simp: applied_def)

text \<open>What is applied stays applied when only the ledger or the pointers change.\<close>

lemma applied_quiet:
  assumes "applied env p w w'" "goal_kept (request_task p) w' w''" "goal_operation p \<noteq> ''status''"
  shows "applied env p w w''"
  using assms by (auto simp: applied_def goal_kept_def holds_goal_def file_at_def)

section \<open>Outcomes of the parts\<close>

lemma retry_answers: "\<exists>s. fst (append_transaction_with_retry env t tx v ctx w) = Inr s"
  by (simp add: append_transaction_with_retry_def case_prod_unfold Let_def split: sum.split)

lemma commit_outcome:
  assumes "safe_task_id_component t = Some t"
    and "\<And>s w'. task_moved t w w' \<Longrightarrow> saved env v s \<Longrightarrow> holds_goal (saved env v) t w' \<Longrightarrow> S s w'"
    and "\<And>w'. E WriteFails w'"
  shows "outcome_meets (commit_goal_mutation env t v label) S E w"
proof -
  obtain r w' where c: "commit_goal_mutation env t v label w = (r, w')" by force
  show ?thesis
  proof (cases r)
    case (Inr s)
    with commit_result [OF assms(1) c] assms(2) c show ?thesis by (simp add: outcome_meets_def)
  next
    case (Inl e)
    let ?v = "strip_stale_annotations v"
    let ?tx = "(transaction_new (ge_now env 2) label ?v)\<lparr>tx_schema_version := Some 1\<rparr>"
    have "sbind (swrite Validation (put_goal t ?v)) (\<lambda>_. append_transaction_with_retry env t ?tx ?v label) w = (Inl e, w')"
      using c unfolding Inl commit_goal_mutation_def Let_def bind_validated [OF assms(1)] .
    then have "e = (Validation, WriteFails)"
      using retry_answers [of env t ?tx ?v label] by (auto simp: sbind_def swrite_def split: prod.splits if_splits) (metis fst_conv sum.distinct(1))
    with c Inl assms(3) show ?thesis by (simp add: outcome_meets_def)
  qed
qed

lemma existing_outcome:
  assumes "safe_task_id_component t = Some t" and "\<And>v. hget (gw_goals w) t = Some (Holds v) \<Longrightarrow> S (annotate_goal_staleness env v) w"
    and "\<And>e. E e w"
  shows "outcome_meets (existing_goal env t) S E w"
  unfolding existing_goal_def outcome_simps
  using assms(2,3) by (auto simp: read_goal_state_safe [OF assms(1)] outcome_simps split: sum.split option.split
    dest: read_goal_file_Some [THEN iffD1])

text \<open>The common shape of the operations.\<close>

lemma change_outcome:
  assumes "safe_task_id_component t = Some t" "t = request_task p"
    and "\<And>v v'. f (annotate_goal_staleness env v) = Inr v' \<Longrightarrow> goal_edit env p (Holds v) (Some v')"
    and "\<And>s w'. applied env p w w' \<Longrightarrow> outcome_meets (k s) (\<lambda>_. applied env p w) (refused p w) w'"
  shows "outcome_meets (sbind (existing_goal env t) (\<lambda>v. sbind (sread (\<lambda>_. f v)) (\<lambda>v'.
    sbind (commit_goal_mutation env t v' label) k))) (\<lambda>_. applied env p w) (refused p w) w"
  unfolding outcome_bind
proof (rule existing_outcome [OF assms(1)])
  fix v assume v: "hget (gw_goals w) t = Some (Holds v)"
  show "outcome_meets (sread (\<lambda>_. f (annotate_goal_staleness env v)))
    (\<lambda>v' w'. outcome_meets (commit_goal_mutation env t v' label) (\<lambda>s w'. outcome_meets (k s) (\<lambda>_. applied env p w) (refused p w) w')
      (refused p w) w') (refused p w) w"
  proof (cases "f (annotate_goal_staleness env v)")
    case (Inr v')
    with assms(2,3) v have "goal_edit env p (file_at (gw_goals w) (request_task p)) (Some v')" by (simp add: file_at_Holds)
    from applied_edit [OF this]
    have "outcome_meets (commit_goal_mutation env t v' label) (\<lambda>s w'. outcome_meets (k s) (\<lambda>_. applied env p w) (refused p w) w') (refused p w) w"
      by (intro commit_outcome [OF assms(1)] assms(4)) (simp_all add: assms(2))
    then show ?thesis unfolding outcome_simps Inr by simp
  qed (auto simp: outcome_simps split: prod.split)
qed simp

lemma checked_outcome:
  assumes "\<And>t. safe_task_id_component t = Some t \<Longrightarrow> t = request_task p \<Longrightarrow> outcome_meets (f t) S (refused p w) w"
  shows "outcome_meets (sbind (checked_task_id p) f) S (refused p w) w"
  unfolding checked_bind using assms safe_of_text
  by (auto simp: outcome_simps request_task_def or_default_def split: option.split)

lemma validated_outcome:
  assumes "\<And>t. safe_task_id_component t = Some t \<Longrightarrow> t = request_task p \<Longrightarrow> outcome_meets (f t t) S (refused p w) w"
  shows "outcome_meets (sbind (sread (\<lambda>_. resolve_task_id_strict p)) (\<lambda>t. sbind (sread (\<lambda>_. validate_task_id_component t)) (f t)))
    S (refused p w) w"
  unfolding validated_bind using assms safe_of_text
  by (auto simp: outcome_simps request_task_def or_default_def split: option.split)

section \<open>Every operation\<close>

lemma sync_outcome:
  assumes "applied env p w w'" "goal_operation p \<noteq> ''status''"
  shows "outcome_meets (sbind (signore (sync_task_pointers_after_goal_drive env' t label q)) (\<lambda>_. sret a)) (\<lambda>_. applied env p w) (refused p w) w'"
  unfolding outcome_simps by (rule applied_quiet [OF assms(1) pointers_quiet [OF movesD [OF sync_moves]] assms(2)])

lemma write_outcome:
  assumes "world_moves R (swrite k f)" "\<And>w'. R w w' \<Longrightarrow> S () w'" "\<And>w'. E WriteFails w'"
  shows "outcome_meets (swrite k f) S E w"
  using movesD [OF assms(1), of w] assms(2,3) by (auto simp: outcome_meets_def swrite_def case_prod_unfold)

lemma neutralize_outcome:
  assumes "\<And>w'. pointers_moved w w' \<Longrightarrow> S () w'" "\<And>e w'. e \<in> file_errors \<Longrightarrow> E e w'"
  shows "outcome_meets (neutralize_task_pointers_for_task t) S E w"
proof -
  have "e \<in> file_errors" if "neutralize_task_pointers_for_task t w = (Inl (k, e), w')" for k e w'
    using that by (auto simp: neutralize_task_pointers_for_task_def neutralize_pointer_file_def remove_legacy_def
      write_pointers_def sbind_def sread_def sret_def swrite_def case_prod_unfold
      split: sum.splits prod.splits option.splits json_file.splits if_splits)
  with assms movesD [OF neutralize_moves, of w t] show ?thesis
    by (auto simp: outcome_meets_def split: prod.split sum.split)
qed

text \<open>An operation answers with its edit, or refuses.\<close>

definition answers :: "goal_env \<Rightarrow> json \<Rightarrow> 'a goal_step \<Rightarrow> bool" where
  "answers env p m \<longleftrightarrow> (\<forall>w. outcome_meets m (\<lambda>_. applied env p w) (refused p w) w)"

lemma answersI: "(\<And>w. outcome_meets m (\<lambda>_. applied env p w) (refused p w) w) \<Longrightarrow> answers env p m"
  by (simp add: answers_def)

lemma answers_read:
  assumes "\<And>a. answers env p (f a)"
  shows "answers env p (sbind (sread (\<lambda>_. r)) f)"
  using assms by (auto simp: answers_def outcome_simps split: sum.split)

lemma answers_checked:
  assumes "\<And>t. safe_task_id_component t = Some t \<Longrightarrow> t = request_task p \<Longrightarrow> answers env p (f t)"
  shows "answers env p (sbind (checked_task_id p) f)"
  using assms unfolding answers_def by (blast intro: checked_outcome)

lemma answers_validated:
  assumes "\<And>t. safe_task_id_component t = Some t \<Longrightarrow> t = request_task p \<Longrightarrow> answers env p (f t t)"
  shows "answers env p (sbind (sread (\<lambda>_. resolve_task_id_strict p)) (\<lambda>t. sbind (sread (\<lambda>_. validate_task_id_component t)) (f t)))"
  using assms unfolding answers_def by (blast intro: validated_outcome)

lemma answers_change:
  assumes "safe_task_id_component t = Some t" "t = request_task p"
    and "\<And>v v'. f (annotate_goal_staleness env v) = Inr v' \<Longrightarrow> goal_edit env p (Holds v) (Some v')"
    and "\<And>s w w'. applied env p w w' \<Longrightarrow> outcome_meets (k s) (\<lambda>_. applied env p w) (refused p w) w'"
  shows "answers env p (sbind (existing_goal env t) (\<lambda>v. sbind (sread (\<lambda>_. f v)) (\<lambda>v'.
    sbind (commit_goal_mutation env t v' label) k)))"
  by (rule answersI) (rule change_outcome [OF assms])

lemma answers_ret: "applied env p w w' \<Longrightarrow> outcome_meets (sret a) (\<lambda>_. applied env p w) (refused p w) w'"
  by (simp add: outcome_simps)

lemma checkpoint_answers: "goal_operation p = ''checkpoint'' \<Longrightarrow> answers env p (goal_checkpoint env p)"
  unfolding goal_checkpoint_def
  by (intro answers_checked answers_read answers_change answers_ret) (simp_all add: goal_edit.checkpoint)

lemma amend_answers: "goal_operation p = ''amend'' \<Longrightarrow> answers env p (goal_amend env p)"
  unfolding goal_amend_def
  by (intro answers_checked answers_change answers_ret) (simp_all add: goal_edit.amend)

lemma pause_answers: "goal_operation p = ''pause'' \<Longrightarrow> answers env p (goal_pause env p)"
  unfolding goal_pause_def set_terminal_flags_def
  by (intro answers_validated answers_change answers_ret) (simp_all add: goal_edit.pause)

lemma unblock_answers: "goal_operation p = ''unblock'' \<Longrightarrow> answers env p (goal_unblock env p)"
  unfolding goal_unblock_def set_terminal_flags_def
  by (intro answers_validated answers_change answers_ret) (simp_all add: goal_edit.unblock)

lemma block_answers: "goal_operation p = ''block'' \<Longrightarrow> answers env p (goal_block env p)"
  unfolding goal_block_def set_terminal_flags_def
  by (intro answers_read answers_validated answers_change answers_ret) (simp_all add: goal_edit.block)

lemma retry_answers_op: "goal_operation p = ''retry'' \<Longrightarrow> answers env p (goal_retry env repo p)"
  unfolding goal_retry_def
  by (intro answers_checked answers_change sync_outcome) (simp_all add: goal_edit.retry)

lemma resume_answers: "goal_operation p = ''resume'' \<Longrightarrow> answers env p (goal_resume env repo p)"
  unfolding goal_resume_def Let_def
proof (intro answers_checked answersI)
  fix t w assume op: "goal_operation p = ''resume''" and t: "safe_task_id_component t = Some t" "t = request_task p"
  have "answers env p (sbind (existing_goal env t) (\<lambda>v. sbind (sread (\<lambda>_. resume_goal env d v)) (\<lambda>v'.
      sbind (commit_goal_mutation env t v' ''goal_state'') (\<lambda>s.
      sbind (signore (sync_task_pointers_after_goal_drive env t (goal_label s t) p)) (\<lambda>_.
      sret (answer ''resume'' t [(''goal_state_path'', JStr (goal_state_path repo t)), (''goal_state'', s)]))))))" for d
    using op by (intro answers_change t sync_outcome) (simp_all add: goal_edit.resume)
  then show "outcome_meets (sbind (sread (read_goal_state env (Some t))) (\<lambda>old.
      sbind (existing_goal env t) (\<lambda>v. sbind (sread (\<lambda>_. resume_goal env
        (flag_of (flag_of True (json_or_null old) ''drive_until_done'') p ''drive_until_done'') v)) (\<lambda>v'.
      sbind (commit_goal_mutation env t v' ''goal_state'') (\<lambda>s.
      sbind (signore (sync_task_pointers_after_goal_drive env t (goal_label s t) p)) (\<lambda>_.
      sret (answer ''resume'' t [(''goal_state_path'', JStr (goal_state_path repo t)), (''goal_state'', s)])))))))
    (\<lambda>_. applied env p w) (refused p w) w"
    unfolding answers_def outcome_bind [of "sread _"] outcome_read(3) by (auto split: sum.split)
qed

lemma fail_answers: "goal_operation p = ''fail'' \<Longrightarrow> answers env p (goal_fail env repo p)"
  unfolding goal_fail_def
proof (intro answers_checked answers_change)
  fix t s w w' assume op: "goal_operation p = ''fail''" and a: "applied env p w w'"
  have "applied env p w w''" if "pointers_moved w' w''" for w''
    using applied_quiet [OF a pointers_quiet [OF that]] op by simp
  then show "outcome_meets (sbind (neutralize_task_pointers_for_task t) (\<lambda>_. sret (answer ''fail'' t
      ((''goal_state_path'', JStr (goal_state_path repo t)) # max_iterations_warning s)))) (\<lambda>_. applied env p w) (refused p w) w'"
    unfolding outcome_bind outcome_read by (intro neutralize_outcome) simp_all
qed (simp_all add: goal_edit.fail)

section \<open>Starting, clearing and completing\<close>

lemma applied_moved:
  assumes "ledger_moved (request_task p) w w1" "applied env p w1 w'" "goal_operation p \<noteq> ''status''"
  shows "applied env p w w'"
  using assms by (simp add: applied_def ledger_moved_def)

lemma commit_answers:
  assumes "safe_task_id_component t = Some t" "t = request_task p"
    and "goal_edit env p (file_at (gw_goals w) t) (Some v)"
    and "\<And>s w'. applied env p w w' \<Longrightarrow> S s w'" and "\<And>w'. E WriteFails w'"
  shows "outcome_meets (commit_goal_mutation env t v label) S E w"
  using assms(3) unfolding assms(2)
  by (intro commit_outcome [OF assms(1), unfolded assms(2)] assms(4,5) applied_edit)

lemma start_answers:
  assumes op: "goal_operation p = ''start'' \<or> goal_operation p = ''upsert''"
  shows "answers env p (goal_start env p)"
  unfolding goal_start_def
proof (intro answers_checked answersI)
  fix t w assume safe: "safe_task_id_component t = Some t" and t: "t = request_task p"
  have dir: "ensure_task_directory t = swrite Io (\<lambda>w. w)"
    unfolding ensure_task_directory_def bind_validated [OF safe] ..
  have body: "outcome_meets (ensure_task_directory t) (\<lambda>_ w1. outcome_meets (commit_goal_mutation env t (JObj m) ''goal_state'')
      (\<lambda>_ w'. applied env p w (snd (sync_task_pointers_after_goal_drive env t g p w'))) (refused p w) w1) (refused p w) w"
    if f: "file_at (gw_goals w) t = Missing" and m: "started_goal env p g = Inr m" for g m
    unfolding dir
  proof (rule write_outcome [OF disk_only_moves [where t = t]])
    fix w1 assume l: "ledger_moved t w w1"
    with f op m have e: "goal_edit env p (file_at (gw_goals w1) t) (Some (JObj m))"
      by (simp add: ledger_moved_def goal_edit.start)
    show "outcome_meets (commit_goal_mutation env t (JObj m) ''goal_state'')
      (\<lambda>_ w'. applied env p w (snd (sync_task_pointers_after_goal_drive env t g p w'))) (refused p w) w1"
    proof (rule commit_answers [OF safe t e])
      fix w' assume "applied env p w1 w'"
      with l op t have "applied env p w w'" by (auto intro: applied_moved)
      then show "applied env p w (snd (sync_task_pointers_after_goal_drive env t g p w'))"
        by (rule applied_quiet [OF _ pointers_quiet [OF movesD [OF sync_moves]]]) (use op in auto)
    qed simp
  qed simp
  show "outcome_meets (sbind (sread (read_goal_state env (Some t))) (\<lambda>old. sbind (srequire (old = None) (GoalExists t)) (\<lambda>_.
    sbind (sread (\<lambda>_. case text_of p ''goal'' of None \<Rightarrow> invalid GoalRequired | Some g \<Rightarrow> Inr g)) (\<lambda>goal.
    sbind (sread (\<lambda>_. started_goal env p goal)) (\<lambda>m. sbind (ensure_task_directory t) (\<lambda>_.
    sbind (commit_goal_mutation env t (JObj m) ''goal_state'') (\<lambda>_.
    sbind (signore (sync_task_pointers_after_goal_drive env t goal p)) (\<lambda>_.
    sret (answer ''start'' t [(''status'', JStr ''running'')]))))))))) (\<lambda>_. applied env p w) (refused p w) w"
    unfolding outcome_simps read_goal_state_safe [OF safe]
    using body by (auto simp: read_goal_file_None split: sum.split option.split)
qed

lemma remove_outcome:
  assumes safe: "safe_task_id_component t = Some t" and t: "t = request_task p"
    and op: "goal_operation p = ''clear''"
    and S: "\<And>w'. applied env p w w' \<Longrightarrow> S () w'" and E: "\<And>w'. E WriteFails w'"
  shows "outcome_meets (remove_goal env t) S E w"
proof -
  have "S () (snd (append_transaction_assuming_l1_held env t tx w1))"
    if "attempt (\<lambda>w. w\<lparr>gw_goals := hdel t (gw_goals w)\<rparr>) w = (True, w1)" for w1 tx
  proof -
    from that have "gw_goals w1 = hdel t (gw_goals w)"
      by (auto simp: attempt_def Let_def split: list.splits write_outcome.splits)
    then have "applied env p w w1" using op t by (simp add: applied_def file_at_def or_default_def hmap_simps)
    from applied_quiet [OF this ledger_quiet] op movesD [OF append_moves [OF safe]] t
    show ?thesis by (intro S) auto
  qed
  then show ?thesis unfolding remove_goal_def outcome_bind outcome_unit
    using E by (auto simp: outcome_meets_def swrite_def split: prod.split)
qed

lemma clear_answers:
  assumes op: "goal_operation p = ''clear''"
  shows "answers env p (goal_clear env repo p)"
  unfolding goal_clear_def
proof (intro answers_validated answersI)
  fix t w assume safe: "safe_task_id_component t = Some t" and t: "t = request_task p"
  have rest: "outcome_meets (sbind (signore (neutralize_task_pointers_for_task t)) (\<lambda>_. sret a)) (\<lambda>_. applied env p w) (refused p w) w'"
    if "applied env p w w'" for a :: json and w'
    using applied_quiet [OF that pointers_quiet [OF movesD [OF neutralize_moves]]] op by (simp add: outcome_simps)
  have step: "outcome_meets (sbind (if e then remove_goal env t else sret ()) (\<lambda>_. sbind (signore (neutralize_task_pointers_for_task t)) (\<lambda>_. sret a)))
      (\<lambda>_. applied env p w) (refused p w) w" if "\<not> e \<longrightarrow> file_at (gw_goals w) t = Missing" for e and a :: json
  proof (cases e)
    case True
    then show ?thesis unfolding outcome_bind [of "if e then _ else _"]
      by (simp add: remove_outcome [OF safe t op] rest)
  next
    case False
    with that op t have "applied env p w w" by (simp add: applied_def)
    from rest [OF this] False show ?thesis unfolding outcome_bind [of "if e then _ else _"] by (simp add: outcome_read)
  qed
  show "outcome_meets (\<lambda>w. let existed = file_at (gw_goals w) t \<noteq> Missing;
      stale = case read_goal_state env (Some t) w of Inr (Some v) \<Rightarrow> is_stale v | _ \<Rightarrow> False
      in sbind (srequire (\<not> (existed \<and> stale \<and> \<not> flag_of False p ''force'')) (StaleGoal ''clear''))
        (\<lambda>_. sbind (if existed then remove_goal env t else sret ()) (\<lambda>_.
          sbind (signore (neutralize_task_pointers_for_task t)) (\<lambda>_.
            sret (answer ''clear'' t [(''goal_state_path'', JStr (goal_state_path repo t)), (''removed'', JBool existed)])))) w)
    (\<lambda>_. applied env p w) (refused p w) w"
    using step [of "file_at (gw_goals w) t \<noteq> Missing" "answer ''clear'' t [(''goal_state_path'', JStr (goal_state_path repo t)),
      (''removed'', JBool (file_at (gw_goals w) t \<noteq> Missing))]"]
    by (simp add: outcome_meets_def Let_def sbind_def [of "srequire _ _"] srequire_def)
qed

text \<open>The hooks leave the goals alone.\<close>

definition hooks_keep_goals :: "goal_env \<Rightarrow> bool" where
  "hooks_keep_goals env \<longleftrightarrow> (\<forall>h. ge_hooks env = Some h \<longrightarrow>
     (\<forall>p w. gw_goals (snd (gh_gate h p w)) = gw_goals w) \<and> (\<forall>t w. gw_goals (snd (gh_after h t w)) = gw_goals w))"

lemma gate_keeps_goals:
  "hooks_keep_goals env \<Longrightarrow> run_quality_gate env repo t v w = (r, w') \<Longrightarrow> gw_goals w' = gw_goals w"
  by (auto simp: run_quality_gate_def hooks_keep_goals_def split: option.splits prod.splits sum.splits) (metis snd_conv)+

lemma after_keeps_goals:
  "hooks_keep_goals env \<Longrightarrow> gw_goals (snd (after_complete env t w)) = gw_goals w"
  by (auto simp: after_complete_def hooks_keep_goals_def split: option.split prod.split) (metis snd_conv)+

lemma applied_same_goals:
  "applied env p w1 w' \<Longrightarrow> gw_goals w1 = gw_goals w \<Longrightarrow> goal_operation p \<noteq> ''status'' \<Longrightarrow> applied env p w w'"
  "applied env p w w' \<Longrightarrow> gw_goals w2 = gw_goals w' \<Longrightarrow> goal_operation p \<noteq> ''status'' \<Longrightarrow> applied env p w w2"
  by (simp_all add: applied_def holds_goal_def)

lemma review_outcome:
  assumes "safe_task_id_component t = Some t" "t = request_task p"
    and "goal_edit env p (file_at (gw_goals w) t) (Some (review_pending env v bs))"
  shows "outcome_meets (transition_to_review_pending env t v bs label extra) (\<lambda>_. applied env p w) (\<lambda>e _. e \<in> file_errors) w"
  unfolding transition_to_review_pending_def outcome_bind outcome_read
  by (rule commit_answers [OF assms]) simp_all

lemma iteration_outcome:
  assumes "safe_task_id_component t = Some t" "t = request_task p" "hooks_keep_goals env"
    and "goal_edit env p (file_at (gw_goals w) t) (Some (completed_iteration env v))" "goal_operation p \<noteq> ''status''"
  shows "outcome_meets (complete_iteration env t v) (\<lambda>_. applied env p w) (\<lambda>e _. e \<in> file_errors) w"
  unfolding complete_iteration_def outcome_bind
proof (rule commit_answers [OF assms(1,2,4)])
  fix s w' assume "applied env p w w'"
  from applied_same_goals(2) [OF this after_keeps_goals [OF assms(3)] assms(5)]
  show "outcome_meets (\<lambda>w. case after_complete env t w of (adv, w') \<Rightarrow>
      (Inr (answer ''iteration_completed'' t (iteration_answer t s @ adv)), w')) (\<lambda>_. applied env p w) (\<lambda>e _. e \<in> file_errors) w'"
    by (simp add: outcome_meets_def case_prod_unfold)
qed simp

lemma counted_outcome:
  assumes op: "goal_operation p = ''complete''" and safe: "safe_task_id_component t = Some t" and t: "t = request_task p"
    and hooks: "hooks_keep_goals env"
    and v: "hget (gw_goals w) t = Some (Holds v0)" "v = annotate_goal_staleness env v0"
    and s: "status_text v = ''running'' \<or> status_text v = ''review_pending''"
  shows "outcome_meets (if at_iteration_limit v then
      transition_to_review_pending env t (set_iterations (inc64 (iteration_count v)) v) bs label extra
    else (\<lambda>w. case run_quality_gate env repo t v w of
      (Some (blockers, reason), w') \<Rightarrow> transition_to_review_pending env t v blockers label' [(''reason'', reason)] w'
    | (None, w') \<Rightarrow> complete_iteration env t v w')) (\<lambda>_. applied env p w) (\<lambda>e _. e \<in> file_errors) w"
proof (cases "at_iteration_limit v")
  case True
  with op v s have "goal_edit env p (file_at (gw_goals w) t)
      (Some (review_pending env (set_iterations (inc64 (iteration_count v)) v) bs))"
    by (simp add: file_at_Holds goal_edit.limit)
  with True show ?thesis by (simp add: review_outcome [OF safe t])
next
  case False
  obtain r w1 where r: "run_quality_gate env repo t v w = (r, w1)" by force
  have g: "gw_goals w1 = gw_goals w" by (rule gate_keeps_goals [OF hooks r])
  with v(1) have f: "file_at (gw_goals w1) t = Holds v0" by (simp add: file_at_Holds)
  have "goal_edit env p (file_at (gw_goals w1) t) (Some (review_pending env v bs'))" for bs'
    using op v s False f by (simp add: goal_edit.gate)
  from review_outcome [OF safe t this]
  have review: "outcome_meets (transition_to_review_pending env t v bs' l x) (\<lambda>_. applied env p w1) (\<lambda>e _. e \<in> file_errors) w1" for bs' l x .
  have "goal_edit env p (file_at (gw_goals w1) t) (Some (completed_iteration env v))"
    using op v s False f by (simp add: goal_edit.iteration)
  from iteration_outcome [OF safe t hooks this]
  have iteration: "outcome_meets (complete_iteration env t v) (\<lambda>_. applied env p w1) (\<lambda>e _. e \<in> file_errors) w1" using op by simp
  have shift: "outcome_meets m (\<lambda>_. applied env p w) (\<lambda>e _. e \<in> file_errors) w1"
    if "outcome_meets m (\<lambda>_. applied env p w1) (\<lambda>e _. e \<in> file_errors) w1" for m :: "json goal_step"
    by (rule outcome_weaken [OF that]) (use g op in \<open>auto intro: applied_same_goals(1)\<close>)
  show ?thesis using False r shift [OF review] shift [OF iteration]
    by (simp add: outcome_meets_def split: option.split prod.split)
qed

lemma complete_answers:
  assumes op: "goal_operation p = ''complete''" and hooks: "hooks_keep_goals env"
  shows "answers env p (goal_complete env repo p)"
proof (rule answersI)
  fix w
  show "outcome_meets (goal_complete env repo p) (\<lambda>_. applied env p w) (refused p w) w"
  proof (cases "text_of p ''task_id''")
    case None then show ?thesis by (simp add: goal_complete_def outcome_simps resolve_task_id_strict_def)
  next
    case (Some t)
    then have t: "t = request_task p" by (simp add: request_task_def or_default_def)
    show ?thesis
    proof (cases "\<exists>v. read_goal_state env (Some t) w = Inr (Some v)")
      case False
      then show ?thesis
        by (auto simp: goal_complete_def outcome_simps resolve_task_id_strict_def Some split: sum.split option.split)
    next
      case True
      then obtain v where v: "read_goal_state env (Some t) w = Inr (Some v)" by blast
      have safe: "safe_task_id_component t = Some t"
        using v safe_of_text [OF Some] text_of_trimmed [OF Some]
        by (auto simp: read_goal_state_def Let_def validate_task_id_component_def split: option.splits)
      from v obtain v0 where v0: "hget (gw_goals w) t = Some (Holds v0)" "v = annotate_goal_staleness env v0"
        unfolding read_goal_state_safe [OF safe] read_goal_file_Some by blast
      obtain r w1 where r: "completion_checks env t v w = (r, w1)" by force
      then have l: "ledger_moved t w w1" using movesD [OF completion_checks_moves [OF safe]] by (metis snd_conv)
      then have v1: "hget (gw_goals w1) t = Some (Holds v0)" using v0 by (simp add: ledger_moved_def)
      show ?thesis
      proof (cases r)
        case (Inl e)
        with r l t v show ?thesis
          by (cases e) (simp add: goal_complete_def outcome_simps resolve_task_id_strict_def Some v outcome_eval)
      next
        case (Inr u)
        with r have "status_text v = ''running'' \<or> status_text v = ''review_pending''" using completion_checks_ok by blast
        note counted = counted_outcome [OF op safe t hooks v1 v0(2) this]
        have "outcome_meets m (\<lambda>_. applied env p w) (refused p w) w1"
          if "outcome_meets m (\<lambda>_. applied env p w1) (\<lambda>e _. e \<in> file_errors) w1" for m :: "json goal_step"
          by (rule outcome_weaken [OF that]) (use l op t in \<open>auto intro: applied_moved\<close>)
        from this [OF counted] r Inr show ?thesis
          by (simp add: goal_complete_def outcome_bind outcome_read resolve_task_id_strict_def Some v outcome_eval)
      qed
    qed
  qed
qed

section \<open>The answer of a request\<close>

lemma answers_drive:
  assumes "hooks_keep_goals env"
  shows "answers env p (framework_goal_drive env p)"
proof -
  have status: "goal_operation p = ''status'' \<Longrightarrow> answers env p (goal_status env repo p)" for repo
    by (rule answersI) (auto simp: goal_status_def outcome_meets_def sbind_def sread_def sret_def Let_def applied_def
      split: sum.split)
  have "answers env p (goal_request env repo (goal_operation p) p)" for repo
    unfolding goal_request_def
    using assms by (simp add: status start_answers checkpoint_answers fail_answers pause_answers resume_answers
      complete_answers retry_answers_op block_answers unblock_answers clear_answers amend_answers)
      (simp add: answers_def outcome_simps)
  then have impl: "answers env p (framework_goal_drive_impl env p)"
    unfolding framework_goal_drive_impl_def by (rule answers_read)
  then have "answers env p (sbind (sread (\<lambda>_. goal_repo env p)) (\<lambda>_.
      if ge_lock env then framework_goal_drive_impl env p else sfail Lock LockFails))"
    by (intro answers_read) (simp add: answers_def outcome_simps)
  with impl show ?thesis unfolding framework_goal_drive_def by simp
qed

end
