(* ===== verification/Goal_Life.thy ===== *)
theory Goal_Life
  imports Goal_Answers
begin

text \<open>
  What the requests on goals guarantee: the life of a goal as an abstract machine, the invariants
  of the stored goal states, the evidence behind an iteration, and what the answers and the
  refusals of requests mean.
\<close>

section \<open>The life of a goal\<close>

datatype goal_phase = Absent | Broken | In_status string

fun phase_of :: "json_file \<Rightarrow> goal_phase" where
  "phase_of Missing = Absent"
| "phase_of (Holds v) = In_status (status_text v)"
| "phase_of f = Broken"

definition goal_phase_at :: "goal_world \<Rightarrow> string \<Rightarrow> goal_phase" where
  "goal_phase_at w t = phase_of (file_at (gw_goals w) t)"

text \<open>By operation, the phases a request may lead from and to.\<close>

inductive goal_life :: "string \<Rightarrow> goal_phase \<Rightarrow> goal_phase \<Rightarrow> bool" where
  stays: "goal_life op a a"
| starts: "op \<in> {''start'', ''upsert''} \<Longrightarrow> goal_life op Absent (In_status s)"
| fails: "s \<notin> {''completed'', ''failed''} \<Longrightarrow> goal_life ''fail'' (In_status s) (In_status ''failed'')"
| pauses: "goal_life ''pause'' (In_status ''running'') (In_status ''paused'')"
| resumes: "s \<notin> {''running'', ''blocked'', ''review_pending''} \<Longrightarrow> goal_life ''resume'' (In_status s) (In_status ''running'')"
| reviews: "s \<in> {''running'', ''review_pending''} \<Longrightarrow> goal_life ''complete'' (In_status s) (In_status ''review_pending'')"
| retries: "goal_life ''retry'' (In_status ''review_pending'') (In_status ''running'')"
| blocks: "goal_life ''block'' (In_status ''running'') (In_status ''blocked'')"
| unblocks: "s \<in> {''paused'', ''blocked'', ''review_pending''} \<Longrightarrow> goal_life ''unblock'' (In_status s) (In_status ''running'')"
| clears: "goal_life ''clear'' a Absent"

lemma goal_life_trans: "goal_life op a b \<Longrightarrow> goal_life op b c \<Longrightarrow> goal_life op a c"
  by (induction rule: goal_life.induct; erule goal_life.cases) (auto intro: goal_life.intros)

section \<open>Members that survive\<close>

text \<open>Writing a state changes none of its members but the marks.\<close>

definition marks :: "string set" where
  "marks = {''stale'', ''stale_reason'', ''_dirty'', ''_dirty_reason''}"

lemma jget_on_object: "jget (on_object f v) k = (case v of JObj m \<Rightarrow> map_of (f m) k | _ \<Rightarrow> jget v k)"
  by (cases v) simp_all

lemma saved_get: "saved env v s \<Longrightarrow> k \<notin> marks \<Longrightarrow> jget s k = jget v k"
  unfolding saved_def dirtied_def
  by (cases v) (auto simp: mark_dirty_def strip_stale_annotations_def jget_on_object jdel_def map_of_jput delete_conv' marks_def)

lemma annotated_get: "k \<notin> marks \<Longrightarrow> jget (annotate_goal_staleness env v) k = jget v k"
  by (rule jget_annotated) (auto simp: marks_def)

text \<open>Merging a prediction touches the member \<^verbatim>\<open>extra\<close> only.\<close>

lemma on_extra_get: "k \<noteq> ''extra'' \<Longrightarrow> map_of (on_extra f m) k = map_of m k"
  by (auto simp: on_extra_def map_of_jput split: option.split json.split)

lemma prediction_get: "k \<noteq> ''extra'' \<Longrightarrow> map_of (merge_prediction_from_payload p m) k = map_of m k"
  by (auto simp: merge_prediction_from_payload_def on_extra_get Let_def split: option.split)

lemma put_some_get: "map_of (put_some k ov m) k' = (if k' = k then (case ov of Some v \<Rightarrow> Some v | None \<Rightarrow> map_of m k) else map_of m k')"
  by (auto simp: put_some_def map_of_jput split: option.split)

lemmas member_simps = map_of_jput prediction_get put_some_get jget_on_object

section \<open>Every request lives the life\<close>

lemma status_cong: "jget a ''status'' = jget b ''status'' \<Longrightarrow> status_text a = status_text b"
  by (simp add: status_text_def jget_with_def)

lemma checkpoint_members:
  "add_checkpoint env p note v = Inr v' \<Longrightarrow> k \<notin> {''extra'', ''updated_at'', ''checkpoints''} \<Longrightarrow> jget v' k = jget v k"
  by (auto simp: add_checkpoint_def member_simps split: if_splits json.splits option.splits)

lemma amend_array_get: "k \<noteq> a \<Longrightarrow> map_of (amend_array p a merge m) k = map_of m k"
  by (auto simp: amend_array_def merge_or_replace_array_def map_of_jput split: option.split)

lemma amend_drive_get:
  "k \<noteq> ''drive_until_done'' \<Longrightarrow> k \<noteq> ''requires_completion_evidence'' \<Longrightarrow> map_of (amend_drive p m) k = map_of m k"
  by (auto simp: amend_drive_def Let_def map_of_jput split: option.split)

definition amendable :: "string set" where
  "amendable = {''goal'', ''non_goals'', ''done_when'', ''validation_commands'', ''completion_gates'', ''metadata'',
     ''drive_until_done'', ''requires_completion_evidence'', ''checkpoints'', ''updated_at'', ''amended_at''}"

lemma amended_get: "k \<notin> amendable \<Longrightarrow> map_of (amended_members p m) k = map_of m k"
  by (simp add: amended_members_def amend_drive_get amend_array_get put_some_get Let_def amendable_def)

lemma amend_members: "amend_goal env p v = Inr v' \<Longrightarrow> k \<notin> amendable \<Longrightarrow> jget v' k = jget v k"
  by (auto simp: amend_goal_def Let_def map_of_jput amended_get bind_result_Inr_iff amendable_def split: if_splits json.splits)

text \<open>The members the other operations change, and the status they leave.\<close>

lemma status_object: "status_text v \<noteq> [] \<Longrightarrow> \<exists>m. v = JObj m"
  by (cases v) (auto simp: status_text_def jget_with_def or_default_def)

lemma status_put: "map_of m ''status'' = Some (JStr s) \<Longrightarrow> status_text (JObj m) = s"
  by (simp add: status_text_def jget_with_def or_default_def)

lemma fail_members:
  assumes "fail_goal env p v = Inr v'"
  shows "status_text v \<notin> {''completed'', ''failed''}" "status_text v' = ''failed''"
    "k \<notin> {''failure_reason'', ''updated_at'', ''failed_at'', ''status''} \<Longrightarrow> jget v' k = jget v k"
  using assms by (auto simp: fail_goal_def put_some_get map_of_jput intro!: status_put split: if_splits json.splits)

lemma retry_members:
  assumes "retry_goal env v = Inr v'"
  shows "status_text v = ''review_pending''" "status_text v' = ''running''"
    "k \<notin> {''updated_at'', ''blockers'', ''status''} \<Longrightarrow> jget v' k = jget v k"
  using assms by (auto simp: retry_goal_def map_of_jput intro!: status_put split: if_splits json.splits)

lemma resume_members:
  assumes "resume_goal env d v = Inr v'"
  shows "status_text v \<notin> {''running'', ''blocked'', ''review_pending''}" "status_text v' = ''running''"
    "jget v' ''drive_until_done'' = Some (JBool d)"
    "k \<notin> {''updated_at'', ''drive_until_done'', ''status''} \<Longrightarrow> jget v' k = jget v k"
    "contract_members d v' c = Inr ()"
  using assms by (auto simp: resume_goal_def map_of_jput bind_result_Inr_iff Let_def contract_members_def
    validate_drive_contract_def intro!: status_put split: if_splits json.splits)

lemma flagged_members:
  assumes "flagged_goal env status drive blocker v = Inr v'"
  shows "is_valid_goal_transition (status_text v) status" "status_text v' = status"
    "jget v' ''drive_until_done'' = (case drive of Some d \<Rightarrow> Some (JBool d) | None \<Rightarrow> jget v ''drive_until_done'')"
    "k \<notin> {''updated_at'', ''drive_until_done'', ''status'', ''blocker''} \<Longrightarrow> jget v' k = jget v k"
  using assms by (auto simp: flagged_goal_def map_of_jput put_some_get Let_def intro!: status_put
    split: if_splits json.splits option.splits)

lemma flagged_none:
  "flagged_goal env status None blocker v = Inr v' \<Longrightarrow> k \<notin> {''updated_at'', ''status'', ''blocker''} \<Longrightarrow> jget v' k = jget v k"
  using flagged_members(3) [of env status None blocker v v'] flagged_members(4) [of env status None blocker v v' k] by (cases "k = ''drive_until_done''") simp_all

lemma review_members:
  "status_text v \<noteq> [] \<Longrightarrow> status_text (review_pending env v bs) = ''review_pending''"
  "k \<notin> {''updated_at'', ''blockers'', ''status''} \<Longrightarrow> jget (review_pending env v bs) k = jget v k"
  by (auto simp: review_pending_def member_simps dest!: status_object intro!: status_put split: json.split)

lemma count_members:
  "k \<noteq> ''iteration_count'' \<Longrightarrow> jget (set_iterations n v) k = jget v k"
  "k \<notin> {''updated_at'', ''last_iteration_completed_at'', ''iteration_count''} \<Longrightarrow> jget (completed_iteration env v) k = jget v k"
  by (auto simp: set_iterations_def completed_iteration_def member_simps split: json.split)

lemma edit_life:
  assumes "goal_edit env p f ov"
  shows "goal_life (goal_operation p) (phase_of f) (case ov of Some v \<Rightarrow> In_status (status_text v) | None \<Rightarrow> Absent)"
  using assms
proof cases
  case (checkpoint n v v')
  then have "status_text v' = status_text (annotate_goal_staleness env v)" by (intro status_cong checkpoint_members) simp_all
  with checkpoint show ?thesis by (simp add: goal_life.stays)
next
  case (amend v v')
  then have "status_text v' = status_text (annotate_goal_staleness env v)"
    by (intro status_cong amend_members) (simp_all add: amendable_def)
  with amend show ?thesis by (simp add: goal_life.stays)
next
  case (limit v bs)
  let ?v = "set_iterations (inc64 (iteration_count v)) (annotate_goal_staleness env v)"
  have "status_text ?v = status_text v" by (subst status_cong [OF count_members(1)]) simp_all
  with limit show ?thesis using goal_life.reviews [of "status_text v"] review_members(1) [of ?v] by fastforce
next
  case (gate v bs)
  with goal_life.reviews [of "status_text v"] review_members(1) [of "annotate_goal_staleness env v"] show ?thesis by fastforce
next
  case (iteration v)
  have "status_text (completed_iteration env (annotate_goal_staleness env v)) = status_text (annotate_goal_staleness env v)"
    by (intro status_cong count_members) simp
  with iteration show ?thesis by (simp add: goal_life.stays)
next
  case (fail v v')
  with fail_members(1,2) [OF fail(4)] show ?thesis by (simp add: goal_life.fails)
next
  case (pause v v')
  with flagged_members(1,2) [OF pause(4)] show ?thesis by (simp add: is_valid_goal_transition_def goal_life.pauses)
next
  case (resume d v v')
  with resume_members(1,2) [OF resume(4)] show ?thesis by (simp add: goal_life.resumes)
next
  case (retry v v')
  with retry_members(1,2) [OF retry(4)] show ?thesis by (simp add: goal_life.retries)
next
  case (block b v v')
  with flagged_members(1,2) [OF block(4)] show ?thesis by (simp add: is_valid_goal_transition_def goal_life.blocks)
next
  case (unblock v v')
  with flagged_members(1,2) [OF unblock(4)] show ?thesis
    by (simp add: is_valid_goal_transition_def goal_life.unblocks)
qed (auto intro: goal_life.intros)

text \<open>A relation between the phases of every task, as the requests move them.\<close>

definition phases_move :: "json \<Rightarrow> goal_world \<Rightarrow> goal_world \<Rightarrow> bool" where
  "phases_move p w w' \<longleftrightarrow>
     (\<forall>t. goal_life (if t = request_task p then goal_operation p else ''status'') (goal_phase_at w t) (goal_phase_at w' t))"

lemma phases_intro:
  assumes "task_moved (request_task p) w w'"
    and "goal_life (goal_operation p) (goal_phase_at w (request_task p)) (goal_phase_at w' (request_task p))"
  shows "phases_move p w w'"
  unfolding phases_move_def
proof
  fix t
  show "goal_life (if t = request_task p then goal_operation p else ''status'') (goal_phase_at w t) (goal_phase_at w' t)"
    using assms by (cases "t = request_task p") (auto simp: task_moved_def goal_phase_at_def file_at_def intro: goal_life.stays)
qed

lemma phases_same: "gw_goals w' = gw_goals w \<Longrightarrow> phases_move p w w'"
  by (simp add: phases_move_def goal_phase_at_def goal_life.stays)

lemma keep_move:
  assumes "hooks_keep_goals env" "\<And>w w'. gw_goals w' = gw_goals w \<Longrightarrow> R w w'"
  shows "hooks_move R t env"
  using assms by (simp add: hooks_move_def hooks_keep_goals_def)

lemma saved_status: "saved env v s \<Longrightarrow> status_text s = status_text v"
  by (rule status_cong) (simp add: saved_get marks_def)

lemma life_relation:
  assumes "hooks_keep_goals env"
  shows "goal_relation (phases_move p) env p"
proof
  fix w w' w'' :: goal_world and ds v
  show "phases_move p w w" "phases_move p w (w\<lparr>gw_disk := ds\<rparr>)" by (simp_all add: phases_same)
  show "phases_move p w w''" if "phases_move p w w'" "phases_move p w' w''"
    using that unfolding phases_move_def by (blast intro: goal_life_trans)
  show "phases_move p w w'" if "goal_kept (request_task p) w w'"
    using that by (intro phases_intro) (auto simp: goal_kept_def goal_phase_at_def file_at_def intro: goal_life.stays)
  show "phases_move p w w'" if "goal_edit env p (file_at (gw_goals w) (request_task p)) (Some v)"
    "task_moved (request_task p) w w'" "holds_goal (saved env v) (request_task p) w'"
    using edit_life [OF that(1)] that(2,3)
    by (intro phases_intro) (auto simp: goal_phase_at_def holds_goal_def file_at_Holds saved_status)
  show "phases_move p w w'" if "goal_edit env p (file_at (gw_goals w) (request_task p)) None"
    "task_moved (request_task p) w w'" "hget (gw_goals w') (request_task p) = None"
    using edit_life [OF that(1)] that(2,3)
    by (intro phases_intro) (auto simp: goal_phase_at_def file_at_def or_default_def)
  show "hooks_move (phases_move p) (request_task p) env"
    by (rule keep_move [OF assms phases_same])
qed

text \<open>Surroundings whose hooks leave the goals alone; without hooks every one is.\<close>

locale tame_hooks =
  fixes env :: goal_env
  assumes tame: "hooks_keep_goals env"

sublocale tame_hooks \<subseteq> phases: goal_relation "phases_move p" env p for p
  by (rule life_relation [OF tame])

context tame_hooks
begin

lemma request_phases: "phases_move p w (snd (framework_goal_drive env p w))"
  by (rule phases.request_moves)

end

interpretation unhooked: tame_hooks "env\<lparr>ge_hooks := None\<rparr>" for env
  by unfold_locales (simp add: hooks_keep_goals_def)

section \<open>Invariants of the stored goals\<close>

text \<open>A sequence of requests, each in its own surroundings.\<close>

definition run_requests :: "(goal_env \<times> json) list \<Rightarrow> goal_world \<Rightarrow> goal_world" where
  "run_requests rs w = foldl (\<lambda>w (env, p). snd (framework_goal_drive env p w)) w rs"

lemma run_requests_simps [simp]:
  "run_requests [] w = w"
  "run_requests ((env, p) # rs) w = run_requests rs (snd (framework_goal_drive env p w))"
  by (simp_all add: run_requests_def)

definition stored_goals :: "(json \<Rightarrow> bool) \<Rightarrow> goal_world \<Rightarrow> bool" where
  "stored_goals I w \<longleftrightarrow> (\<forall>t v. hget (gw_goals w) t = Some (Holds v) \<longrightarrow> I v)"

text \<open>
  What holds of the goals that are made, is kept by every edit of an admitted request and does not
  depend on the marks holds of every stored goal, as long as no hook changes a goal.
\<close>

locale goal_invariant =
  fixes I :: "json \<Rightarrow> bool" and admitted :: "json \<Rightarrow> bool"
  assumes made: "admitted p \<Longrightarrow> goal_edit env p Missing (Some v) \<Longrightarrow> I v"
    and kept: "admitted p \<Longrightarrow> goal_edit env p (Holds v) (Some v') \<Longrightarrow> I v \<Longrightarrow> I v'"
    and unmarked: "saved env v s \<Longrightarrow> I v \<Longrightarrow> I s"
begin

lemma moved:
  assumes "task_moved t w w'" "stored_goals I w" "\<And>v. hget (gw_goals w') t = Some (Holds v) \<Longrightarrow> I v"
  shows "stored_goals I w'"
  unfolding stored_goals_def
proof (intro allI impI)
  fix u v assume "hget (gw_goals w') u = Some (Holds v)"
  with assms show "I v" by (cases "u = t") (auto simp: task_moved_def stored_goals_def)
qed

lemma relation:
  assumes "hooks_keep_goals env" "admitted p"
  shows "goal_relation (\<lambda>w w'. stored_goals I w \<longrightarrow> stored_goals I w') env p"
proof
  fix w w' w'' :: goal_world and ds v
  let ?t = "request_task p"
  show "stored_goals I w \<longrightarrow> stored_goals I w" "stored_goals I w \<longrightarrow> stored_goals I (w\<lparr>gw_disk := ds\<rparr>)" by (simp_all add: stored_goals_def)
  show "stored_goals I w \<longrightarrow> stored_goals I w''" if "stored_goals I w \<longrightarrow> stored_goals I w'" "stored_goals I w' \<longrightarrow> stored_goals I w''" using that by blast
  show "stored_goals I w \<longrightarrow> stored_goals I w'" if "goal_kept ?t w w'"
    using that by (intro impI moved [of ?t w w']) (auto simp: goal_kept_def stored_goals_def)
  show "stored_goals I w \<longrightarrow> stored_goals I w'" if "goal_edit env p (file_at (gw_goals w) ?t) None" "task_moved ?t w w'"
    "hget (gw_goals w') ?t = None"
    using that(2,3) by (intro impI moved [of ?t w w']) auto
  show "stored_goals I w \<longrightarrow> stored_goals I w'" if e: "goal_edit env p (file_at (gw_goals w) ?t) (Some v)" and m: "task_moved ?t w w'"
    and h: "holds_goal (saved env v) ?t w'"
  proof
    assume I: "stored_goals I w"
    have "I v"
    proof (cases "file_at (gw_goals w) ?t")
      case Missing with e made assms(2) show ?thesis by simp
    next
      case (Holds v0)
      then have "hget (gw_goals w) ?t = Some (Holds v0)" by (auto simp: file_at_def or_default_def split: option.splits)
      with I have "I v0" by (auto simp: stored_goals_def)
      with Holds e kept assms(2) show ?thesis by simp
    qed (use e in \<open>auto elim: goal_edit.cases\<close>)
    with h unmarked show "stored_goals I w'" by (intro moved [OF m I]) (auto simp: holds_goal_def)
  qed
  show "hooks_move (\<lambda>w w'. stored_goals I w \<longrightarrow> stored_goals I w') ?t env"
    by (rule keep_move [OF assms(1)]) (simp add: stored_goals_def)
qed

lemma request_keeps:
  "hooks_keep_goals env \<Longrightarrow> admitted p \<Longrightarrow> stored_goals I w \<Longrightarrow> stored_goals I (snd (framework_goal_drive env p w))"
  using goal_relation.request_moves [OF relation, where w = w] by blast

lemma requests_keep:
  "\<forall>(env, p) \<in> set rs. hooks_keep_goals env \<and> admitted p \<Longrightarrow> stored_goals I w \<Longrightarrow> stored_goals I (run_requests rs w)"
proof (induction rs arbitrary: w)
  case (Cons r rs)
  then show ?case by (cases r) (simp add: request_keeps)
qed simp

end

subsection \<open>The contract of a driving goal\<close>

definition drives :: "json \<Rightarrow> bool" where
  "drives v \<longleftrightarrow> flag_of False v ''drive_until_done''"

definition filled :: "json \<Rightarrow> string \<Rightarrow> nat" where
  "filled v k = count_nonempty_string_items (or_default [] (jget_with as_array v k))"

definition contract_met :: "json \<Rightarrow> bool" where
  "contract_met v \<longleftrightarrow> 1 \<le> filled v ''non_goals'' \<and> 2 \<le> filled v ''done_when'' \<and> 1 \<le> filled v ''validation_commands''"

lemma contract_members_iff: "contract_members d v c = Inr () \<longleftrightarrow> (d \<longrightarrow> contract_met v)"
  by (auto simp: contract_members_def validate_drive_contract_def contract_met_def filled_def)

lemma contract_cong:
  assumes "\<And>k. k \<in> {''drive_until_done'', ''non_goals'', ''done_when'', ''validation_commands''} \<Longrightarrow> jget a k = jget b k"
  shows "drives a = drives b" "contract_met a = contract_met b"
  using assms by (simp_all add: drives_def contract_met_def filled_def flag_of_def jget_with_def)

lemma started_members:
  assumes "started_goal env p g = Inr m"
  shows "jget (JObj m) ''drive_until_done'' = Some (JBool (flag_of True p ''drive_until_done''))"
    "jget (JObj m) ''requires_completion_evidence'' =
      Some (JBool (flag_of True p ''drive_until_done'' \<or> flag_of False p ''requires_completion_evidence''))"
    "jget (JObj m) ''checkpoints'' = Some (JArr [])"
    "k \<in> {''non_goals'', ''done_when'', ''validation_commands''} \<Longrightarrow> jget (JObj m) k = Some (JArr (value_string_list p k))"
    "jget (JObj m) ''max_iterations'' = None"
    "status_text (JObj m) = or_default ''running'' (text_of p ''status'')"
  using assms
  by (auto simp: started_goal_def Let_def bind_result_Inr_iff apply_optional_goal_fields_def base_goal_object_def
    member_simps or_default_def intro!: status_put split: option.split)

lemma started_contract:
  assumes "started_goal env p g = Inr m"
  shows "drives (JObj m) \<longrightarrow> contract_met (JObj m)"
  using assms started_members [OF assms]
  by (simp add: started_goal_def Let_def bind_result_Inr_iff validate_drive_contract_def drives_def flag_of_def [of False]
    contract_met_def filled_def jget_with_def or_default_def split: if_splits)

text \<open>The members the contract and the evidence requirement are read from.\<close>

definition contract_keys :: "string set" where
  "contract_keys = {''drive_until_done'', ''requires_completion_evidence'', ''non_goals'', ''done_when'', ''validation_commands''}"

lemma contract_keys_other:
  "k \<in> contract_keys \<Longrightarrow> k \<notin> {''extra'', ''updated_at'', ''amended_at'', ''checkpoints'', ''failure_reason'', ''failed_at'',
    ''status'', ''blockers'', ''blocker'', ''iteration_count'', ''last_iteration_completed_at''}"
  "k \<in> contract_keys \<Longrightarrow> k \<notin> marks"
  by (auto simp: contract_keys_def marks_def)

lemma contract_keys_in [simp]:
  "''drive_until_done'' \<in> contract_keys" "''requires_completion_evidence'' \<in> contract_keys" "''non_goals'' \<in> contract_keys"
  "''done_when'' \<in> contract_keys" "''validation_commands'' \<in> contract_keys"
  by (simp_all add: contract_keys_def)

lemma amended_contract:
  assumes "amend_goal env p v = Inr v'"
  shows "drives v' \<longrightarrow> contract_met v'" "drives v' \<longrightarrow> flag_of True v' ''requires_completion_evidence''"
proof -
  let ?k = "\<lambda>m. jput ''updated_at'' (JStr (ge_now env 0)) (jput ''amended_at'' (JStr (ge_now env 1)) m)"
  let ?a = "\<lambda>m. if flag_of True p ''keep_progress'' then amended_members p m else jput ''checkpoints'' (JArr []) (amended_members p m)"
  obtain m where v: "v = JObj m" and v': "v' = JObj (?k (?a m))"
    and c: "contract_members (flag_of False (JObj (amended_members p m)) ''drive_until_done'') (JObj (?a m)) ''amend'' = Inr ()"
    and e: "\<not> (flag_of False (JObj (amended_members p m)) ''drive_until_done'' \<and>
      \<not> flag_of True (JObj (amended_members p m)) ''requires_completion_evidence'')"
    using assms by (auto simp: amend_goal_def Let_def bind_result_Inr_iff split: json.splits if_splits)
  have g: "jget v' k = jget (JObj (amended_members p m)) k" "jget (JObj (?a m)) k = jget (JObj (amended_members p m)) k"
    if "k \<in> contract_keys" for k
    using contract_keys_other(1) [OF that] by (simp_all add: v' map_of_jput)
  have d: "flag_of x v' k = flag_of x (JObj (amended_members p m)) k" if "k \<in> contract_keys" for x k
    using g(1) [OF that] by (simp only: flag_of_def jget_with_def)
  have "contract_met v' = contract_met (JObj (?a m))"
    by (rule contract_cong) (metis g insert_iff empty_iff contract_keys_in)
  with c d show "drives v' \<longrightarrow> contract_met v'" unfolding contract_members_iff by (simp add: drives_def)
  from e d show "drives v' \<longrightarrow> flag_of True v' ''requires_completion_evidence''" by (simp add: drives_def)
qed

lemma same_members:
  assumes "\<And>k. k \<in> contract_keys \<Longrightarrow> k \<notin> {''extra'', ''updated_at'', ''amended_at'', ''checkpoints'', ''failure_reason'',
    ''failed_at'', ''status'', ''blockers'', ''blocker'', ''iteration_count'', ''last_iteration_completed_at''} \<Longrightarrow>
    jget v' k = jget (annotate_goal_staleness env v) k" and "k \<in> contract_keys"
  shows "jget v' k = jget v k"
  using assms contract_keys_other [OF assms(2)] by (simp add: annotated_get)

text \<open>What an edit does to these members: it keeps them, or it is a start, an amendment, a block or a resume.\<close>

lemma edit_contract:
  assumes "goal_edit env p (Holds v) (Some v')"
  obtains (same) "\<And>k. k \<in> contract_keys \<Longrightarrow> jget v' k = jget v k"
  | (amended) w where "goal_operation p = ''amend''" "amend_goal env p w = Inr v'"
  | (blocked) "\<not> drives v'"
  | (resumed) w d where "goal_operation p = ''resume''" "resume_goal env d w = Inr v'"
  using assms
proof cases
  case (checkpoint n)
  show ?thesis by (rule same, rule same_members) (simp_all add: checkpoint_members [OF checkpoint(2)])
next
  case fail
  show ?thesis by (rule same, rule same_members) (simp_all add: fail_members(3) [OF fail(2)])
next
  case pause
  show ?thesis by (rule same, rule same_members) (simp_all add: flagged_none [OF pause(2)])
next
  case unblock
  show ?thesis by (rule same, rule same_members) (simp_all add: flagged_none [OF unblock(2)])
next
  case (block b)
  show ?thesis by (rule blocked) (use flagged_members(3) [OF block(2)] in \<open>simp add: drives_def flag_of_def jget_with_def or_default_def\<close>)
next
  case retry
  show ?thesis by (rule same, rule same_members) (simp_all add: retry_members(3) [OF retry(2)])
next
  case limit
  show ?thesis unfolding limit(1) by (rule same, rule same_members) (simp_all add: limit(1) review_members(2) count_members)
next
  case gate
  show ?thesis by (rule same, rule same_members) (simp_all add: gate(1) review_members(2))
next
  case iteration
  show ?thesis by (rule same, rule same_members) (simp_all add: iteration(1) count_members)
next
  case resume then show ?thesis by (rule resumed)
next
  case amend then show ?thesis by (rule amended)
qed

inductive_cases edit_missing: "goal_edit env p Missing (Some v)"

lemma made_started: "goal_edit env p Missing (Some v) \<Longrightarrow> \<exists>g m. v = JObj m \<and> started_goal env p g = Inr m"
  by (erule edit_missing) auto

lemma saved_contract: "saved env v s \<Longrightarrow> k \<in> contract_keys \<Longrightarrow> jget s k = jget v k"
  by (simp add: saved_get contract_keys_other)

lemma same_contract:
  assumes "\<And>k. k \<in> contract_keys \<Longrightarrow> jget a k = jget b k"
  shows "drives a = drives b" "contract_met a = contract_met b"
    "goal_requires_completion_evidence a = goal_requires_completion_evidence b"
  using assms by (simp_all add: contract_cong goal_requires_completion_evidence_def drives_def flag_of_def jget_with_def
    contract_met_def filled_def split: option.split)

definition under_contract :: "json \<Rightarrow> bool" where
  "under_contract v \<longleftrightarrow> (drives v \<longrightarrow> contract_met v)"

lemma resumed_contract:
  assumes "resume_goal env d v = Inr v'"
  shows "drives v' = d" "under_contract v'"
proof -
  show "drives v' = d"
    using resume_members(3) [OF assms] by (simp add: drives_def flag_of_def jget_with_def or_default_def)
  then show "under_contract v'"
    using resume_members(5) [OF assms] by (simp add: under_contract_def contract_members_iff)
qed

interpretation contract: goal_invariant under_contract "\<lambda>_. True"
proof
  show "under_contract v" if "goal_edit env p Missing (Some v)" for env p v
    using made_started [OF that] started_contract by (auto simp: under_contract_def)
  show "under_contract v'" if "goal_edit env p (Holds v) (Some v')" "under_contract v" for env p v v'
    using that(1)
  proof (cases rule: edit_contract)
    case same with that(2) same_contract(1,2) [of v' v] show ?thesis by (simp add: under_contract_def)
  next
    case amended then show ?thesis using amended_contract(1) by (simp add: under_contract_def)
  next
    case blocked then show ?thesis by (simp add: under_contract_def)
  next
    case resumed then show ?thesis using resumed_contract(2) by simp
  qed
  show "under_contract s" if "saved env v s" "under_contract v" for env v s
    using that same_contract(1,2) [OF saved_contract [OF that(1)]] by (simp add: under_contract_def)
qed

definition backed :: "json \<Rightarrow> bool" where
  "backed v \<longleftrightarrow> (drives v \<longrightarrow> goal_requires_completion_evidence v)"

text \<open>The evidence requirement: a resume may set the drive without it.\<close>

interpretation evidence: goal_invariant backed "\<lambda>p. goal_operation p \<noteq> ''resume''"
proof
  show "backed v" if "goal_edit env p Missing (Some v)" for env p v
    using made_started [OF that] started_members(1,2)
    by (auto simp: backed_def drives_def flag_of_def goal_requires_completion_evidence_def jget_with_def or_default_def)
  show "backed v'" if "goal_operation p \<noteq> ''resume''" "goal_edit env p (Holds v) (Some v')" "backed v" for env p v v'
    using that(2)
  proof (cases rule: edit_contract)
    case same with that(3) same_contract(1,3) [of v' v] show ?thesis by (simp add: backed_def)
  next
    case (amended w)
    then show ?thesis using amended_contract(2) [OF amended(2)]
      by (auto simp: backed_def goal_requires_completion_evidence_def flag_of_def drives_def or_default_def split: option.splits)
  next
    case blocked then show ?thesis by (simp add: backed_def)
  next
    case resumed with that(1) show ?thesis by simp
  qed
  show "backed s" if "saved env v s" "backed v" for env v s
    using that same_contract(1,3) [OF saved_contract [OF that(1)]] by (simp add: backed_def)
qed

subsection \<open>Checkpoints and limits\<close>

definition checkpoint_total :: "json \<Rightarrow> nat" where
  "checkpoint_total v = length (or_default [] (jget_with as_array v ''checkpoints''))"

lemma checkpoint_cong: "jget a ''checkpoints'' = jget b ''checkpoints'' \<Longrightarrow> checkpoint_total a = checkpoint_total b"
  by (simp add: checkpoint_total_def jget_with_def)

lemma annotated_checkpoints: "checkpoint_total (annotate_goal_staleness env v) = checkpoint_total v"
  by (rule checkpoint_cong) (simp add: annotated_get marks_def)

lemma added_checkpoint:
  assumes "add_checkpoint env p n v = Inr v'"
  shows "checkpoint_total v' = Suc (checkpoint_total v)" "checkpoint_total v < 100"
  using assms by (auto simp: add_checkpoint_def checkpoint_total_def jget_with_def member_simps or_default_def
    split: if_splits json.splits option.splits)

lemma amended_checkpoints:
  assumes "amend_goal env p v = Inr v'"
  shows "checkpoint_total v' \<le> checkpoint_total v"
proof -
  obtain m where "v = JObj m" "jget v' ''checkpoints'' = map_of m ''checkpoints'' \<or> jget v' ''checkpoints'' = Some (JArr [])"
    using assms by (auto simp: amend_goal_def Let_def bind_result_Inr_iff map_of_jput amended_members_def amend_drive_get
      amend_array_get put_some_get split: json.splits if_splits)
  then show ?thesis by (auto simp: checkpoint_total_def jget_with_def or_default_def)
qed

text \<open>An edit that is no checkpoint and no amendment keeps the checkpoints; no edit touches the limit.\<close>

lemma edit_keeps:
  assumes "goal_edit env p (Holds v) (Some v')" and "k \<in> {''max_iterations'', ''checkpoints''}"
  shows "jget v' k = jget v k \<or> k = ''checkpoints'' \<and> checkpoint_total v' \<le> max 100 (checkpoint_total v)"
  using assms(1)
proof cases
  case (checkpoint n)
  have "checkpoint_total v' \<le> 100" using added_checkpoint [OF checkpoint(2)] by simp
  moreover have "jget v' ''max_iterations'' = jget v ''max_iterations''"
    using checkpoint_members [OF checkpoint(2), of "''max_iterations''"] by (simp add: annotated_get marks_def)
  ultimately show ?thesis using assms(2) by auto
next
  case amend
  have "checkpoint_total v' \<le> checkpoint_total v"
    using amended_checkpoints [OF amend(2)] by (simp add: annotated_checkpoints)
  moreover have "jget v' ''max_iterations'' = jget v ''max_iterations''"
    using amend_members [OF amend(2), of "''max_iterations''"] by (simp add: annotated_get marks_def amendable_def)
  ultimately show ?thesis using assms(2) by auto
next
  case fail then show ?thesis using assms(2) fail_members(3) [OF fail(2), of k] by (auto simp: annotated_get marks_def)
next
  case pause then show ?thesis using assms(2) flagged_none [OF pause(2), of k] by (auto simp: annotated_get marks_def)
next
  case unblock then show ?thesis using assms(2) flagged_none [OF unblock(2), of k] by (auto simp: annotated_get marks_def)
next
  case (block b)
  then show ?thesis using assms(2) flagged_members(4) [OF block(2), of k] by (auto simp: annotated_get marks_def)
next
  case retry then show ?thesis using assms(2) retry_members(3) [OF retry(2), of k] by (auto simp: annotated_get marks_def)
next
  case resume then show ?thesis using assms(2) resume_members(4) [OF resume(2), of k] by (auto simp: annotated_get marks_def)
qed (use assms(2) in \<open>auto simp: annotated_get marks_def review_members count_members\<close>)

interpretation checkpoints: goal_invariant "\<lambda>v. checkpoint_total v \<le> 100" "\<lambda>_. True"
proof
  show "checkpoint_total v \<le> 100" if "goal_edit env p Missing (Some v)" for env p v
    using made_started [OF that] started_members(3) by (auto simp: checkpoint_total_def jget_with_def or_default_def)
  show "checkpoint_total v' \<le> 100" if "goal_edit env p (Holds v) (Some v')" "checkpoint_total v \<le> 100" for env p v v'
    using edit_keeps [OF that(1), of "''checkpoints''"] that(2) checkpoint_cong [of v' v] by auto
  show "checkpoint_total s \<le> 100" if "saved env v s" "checkpoint_total v \<le> 100" for env v s
    using that by (simp add: checkpoint_cong [of s v] saved_get marks_def)
qed

interpretation limits: goal_invariant "\<lambda>v. jget v ''max_iterations'' = None" "\<lambda>_. True"
proof
  show "jget v ''max_iterations'' = None" if "goal_edit env p Missing (Some v)" for env p v
    using made_started [OF that] started_members(5) by auto
  show "jget v' ''max_iterations'' = None" if "goal_edit env p (Holds v) (Some v')" "jget v ''max_iterations'' = None" for env p v v'
    using edit_keeps [OF that(1), of "''max_iterations''"] that(2) by auto
  show "jget s ''max_iterations'' = None" if "saved env v s" "jget v ''max_iterations'' = None" for env v s
    using that by (simp add: saved_get marks_def)
qed

end
