(* ===== verification/Goal_Properties.thy ===== *)
theory Goal_Properties
  imports Goal_Life
begin

text \<open>
  The properties of the goal requests: what their answers and refusals mean, the evidence behind
  an iteration, and the invariants over sequences of requests.
\<close>

section \<open>Answers and refusals\<close>

definition quiet_env :: goal_env where
  "quiet_env = \<lparr>ge_is_dir = \<lambda>_. True, ge_canonical = \<lambda>r. r, ge_vars = [], ge_now = \<lambda>_. ''now'', ge_lock = True, ge_hooks = None,
     ge_mtime = \<lambda>_. 0, ge_hash = \<lambda>_ _. ''hash'', ge_mentions = \<lambda>_ _. False, ge_wording = \<lambda>_. ''error''\<rparr>"

definition empty_world :: goal_world where
  "empty_world = \<lparr>gw_goals = [], gw_evidence = [], gw_gates = [], gw_ledgers = [], gw_pointers = Missing, gw_active = Missing,
     gw_focus = Missing, gw_chain = Missing, gw_disk = []\<rparr>"

definition ask :: "string \<Rightarrow> (string \<times> json) list \<Rightarrow> json" where
  "ask op members = jobj ([(''repo_root'', JStr ''r''), (''task_id'', JStr ''t''), (''operation'', JStr op)] @ members)"

lemma quiet_env_tame [simp]: "hooks_keep_goals quiet_env"
  by (simp add: hooks_keep_goals_def quiet_env_def)

lemma drive_outcome:
  "hooks_keep_goals env \<Longrightarrow> outcome_meets (framework_goal_drive env p) (\<lambda>_. applied env p w) (refused p w) w"
  using answers_drive by (simp add: answers_def)

text \<open>C11: When a request that changes goals is answered, the goal state of its task has been replaced by an edit its
  operation allows of the state that was stored, written without the marks of staleness, or marked as dirty when the
  ledger could not be written.\<close>
theorem answered_is_applied:
  assumes "hooks_keep_goals env" "framework_goal_drive env p w = (Inr a, w')"
    and "goal_operation p \<notin> {''status'', ''clear''}"
  shows "\<exists>v s. goal_edit env p (file_at (gw_goals w) (request_task p)) (Some v) \<and>
    hget (gw_goals w') (request_task p) = Some (Holds s) \<and>
    (s = strip_stale_annotations v \<or> (\<exists>ctx e. s = mark_dirty env ctx e (strip_stale_annotations v)))"
  using outcomeD(1) [OF drive_outcome [OF assms(1)] assms(2)] assms(3)
  unfolding applied_def holds_goal_def saved_def dirtied_def by blast

lemma answered_is_applied_witness:
  "\<exists>a w' v s. framework_goal_drive quiet_env (ask ''start'' [(''goal'', JStr ''g''), (''drive_until_done'', JBool False)]) empty_world = (Inr a, w') \<and>
    goal_edit quiet_env (ask ''start'' [(''goal'', JStr ''g''), (''drive_until_done'', JBool False)]) Missing (Some v) \<and>
    hget (gw_goals w') ''t'' = Some (Holds s)"
proof -
  let ?p = "ask ''start'' [(''goal'', JStr ''g''), (''drive_until_done'', JBool False)]"
  have "case framework_goal_drive quiet_env ?p empty_world of (Inr a, w') \<Rightarrow> True | _ \<Rightarrow> False" by code_simp
  then obtain a w' where e: "framework_goal_drive quiet_env ?p empty_world = (Inr a, w')"
    by (auto split: prod.splits sum.splits)
  have "request_task ?p = ''t''" "goal_operation ?p = ''start''" by code_simp+
  with answered_is_applied [OF quiet_env_tame e] e show ?thesis
    by (auto simp: file_at_def or_default_def empty_world_def)
qed

text \<open>
  One edit of a request on the file of its goal: the file then holds the edited goal as it is saved, or is gone when
  the edit removes it.
\<close>

definition file_edit :: "goal_env \<Rightarrow> json \<Rightarrow> json_file \<Rightarrow> json_file \<Rightarrow> bool" where
  "file_edit env p f f' \<longleftrightarrow> (\<exists>v s. goal_edit env p f (Some v) \<and> saved env v s \<and> f' = Holds s) \<or> goal_edit env p f None \<and> f' = Missing"

definition edits_only :: "goal_env \<Rightarrow> json \<Rightarrow> goal_world \<Rightarrow> goal_world \<Rightarrow> bool" where
  "edits_only env p w w' \<longleftrightarrow> (\<forall>u. u \<noteq> request_task p \<longrightarrow> hget (gw_goals w') u = hget (gw_goals w) u) \<and>
     (file_edit env p)\<^sup>*\<^sup>* (file_at (gw_goals w) (request_task p)) (file_at (gw_goals w') (request_task p))"

lemma edits_relation:
  assumes "hooks_keep_goals env"
  shows "goal_relation (edits_only env p) env p"
proof
  fix w w' w'' :: goal_world and ds v
  let ?t = "request_task p"
  show "edits_only env p w w" "edits_only env p w (w\<lparr>gw_disk := ds\<rparr>)" by (simp_all add: edits_only_def)
  show "edits_only env p w w''" if "edits_only env p w w'" "edits_only env p w' w''"
    using that unfolding edits_only_def by auto
  show "edits_only env p w w'" if "goal_kept ?t w w'"
    using that by (simp add: edits_only_def goal_kept_def task_moved_def file_at_def)
  show "edits_only env p w w'" if e: "goal_edit env p (file_at (gw_goals w) ?t) (Some v)" and m: "task_moved ?t w w'"
    and h: "holds_goal (saved env v) ?t w'"
  proof -
    have "file_edit env p (file_at (gw_goals w) ?t) (file_at (gw_goals w') ?t)"
      using e h by (auto simp: file_edit_def holds_goal_def file_at_Holds)
    with m show ?thesis by (auto simp: edits_only_def task_moved_def)
  qed
  show "edits_only env p w w'" if e: "goal_edit env p (file_at (gw_goals w) ?t) None" and m: "task_moved ?t w w'"
    and h: "hget (gw_goals w') ?t = None"
  proof -
    have "file_edit env p (file_at (gw_goals w) ?t) (file_at (gw_goals w') ?t)"
      using e h by (simp add: file_edit_def file_at_def or_default_def)
    with m show ?thesis by (auto simp: edits_only_def task_moved_def)
  qed
  show "hooks_move (edits_only env p) ?t env"
    by (rule keep_move [OF assms]) (simp add: edits_only_def)
qed

text \<open>C12: A request that is refused for any reason but a file that could not be read, parsed or written leaves all goals,
  evidence, gates and pointers and the ledgers of all other tasks as they were. A request refused because of a file,
  which may happen after it has already written another, still leaves the goals of all other tasks as they were, and
  the goal of its own task is as it was or has gone through edits its operation allows.\<close>
theorem refused_changes_nothing:
  assumes "hooks_keep_goals env" "framework_goal_drive env p w = (Inl (k, e), w')"
  shows "(e \<notin> {ReadFails, ParseFails, WriteFails} \<longrightarrow> ledger_moved (request_task p) w w') \<and>
    (\<forall>u. u \<noteq> request_task p \<longrightarrow> hget (gw_goals w') u = hget (gw_goals w) u) \<and>
    (file_edit env p)\<^sup>*\<^sup>* (file_at (gw_goals w) (request_task p)) (file_at (gw_goals w') (request_task p))"
proof -
  have "edits_only env p w w'"
    using goal_relation.request_moves [OF edits_relation [OF assms(1)], of p w] assms(2) by simp
  then show ?thesis
    using outcomeD(2) [OF drive_outcome [OF assms(1)] assms(2)] by (auto simp: refused_def file_errors_def edits_only_def)
qed

lemma refused_changes_nothing_witness:
  "\<exists>w'. framework_goal_drive quiet_env (ask ''fail'' []) empty_world = (Inl (NotFound, GoalMissing), w') \<and>
    ledger_moved ''t'' empty_world w'"
proof -
  let ?p = "ask ''fail'' []"
  have "fst (framework_goal_drive quiet_env ?p empty_world) = Inl (NotFound, GoalMissing)" by code_simp
  then obtain w' where e: "framework_goal_drive quiet_env ?p empty_world = (Inl (NotFound, GoalMissing), w')"
    by (metis prod.collapse)
  have "request_task ?p = ''t''" by code_simp
  with refused_changes_nothing [OF quiet_env_tame e] e show ?thesis by simp
qed

section \<open>The life of goals\<close>

text \<open>C4: A request moves the goal of its own task along the life of goals, by the operation it names, and the goals
  of all other tasks stay in the phase they are in: only a start makes a goal, only a clear removes one, no operation
  but the start leads to completed, a failed goal can be resumed, and a goal state that cannot be read or parsed stays
  as it is until it is cleared.\<close>
theorem goal_requests_follow_life:
  assumes "hooks_keep_goals env"
  shows "goal_life (if t = request_task p then goal_operation p else ''status'')
    (goal_phase_at w t) (goal_phase_at (snd (framework_goal_drive env p w)) t)"
  using tame_hooks.request_phases [OF tame_hooks.intro [OF assms]]
  unfolding phases_move_def by blast

lemma goal_requests_follow_life_witness:
  "goal_phase_at (snd (framework_goal_drive quiet_env (ask ''start'' [(''goal'', JStr ''g''), (''drive_until_done'', JBool False)]) empty_world)) ''t'' =
     In_status ''running'' \<and> goal_life ''start'' Absent (In_status ''running'')"
proof -
  let ?p = "ask ''start'' [(''goal'', JStr ''g''), (''drive_until_done'', JBool False)]"
  have "goal_phase_at (snd (framework_goal_drive quiet_env ?p empty_world)) ''t'' = In_status ''running''"
    "goal_phase_at empty_world ''t'' = Absent" "request_task ?p = ''t''" "goal_operation ?p = ''start''" by code_simp+
  with goal_requests_follow_life [OF quiet_env_tame, of "''t''" ?p empty_world] show ?thesis by simp
qed

section \<open>Evidence\<close>

lemma summary_ok:
  assumes "safe_task_id_component t = Some t" "task_evidence_artifacts_summary t w = (True, True)"
  shows "list_ex evidence_index_entry_implies_success (task_evidence_artifacts t w)"
  using assms by (auto simp: task_evidence_artifacts_summary_def task_evidence_artifacts_def or_default_def
    split: json_file.splits option.splits if_splits)

lemma confirmed_transition:
  assumes "safe_task_id_component t = Some t" "goal_file_readable (file_at (gw_goals w) t)"
    and "vd_passed (validate_task_transition t CompleteTask w)"
  shows "task_evidence_artifacts_summary t w = (True, True)"
  using assms safe_id_Some [OF assms(1)]
  by (auto simp: validate_task_transition_def validate_complete_transition_def verdict_def Let_def
    split: prod.splits if_splits)

lemma requirement_annotated:
  "goal_requires_completion_evidence (annotate_goal_staleness env v) = goal_requires_completion_evidence v"
  by (simp add: goal_requires_completion_evidence_def flag_of_def jget_with_def jget_annotated split: option.split)

text \<open>C5: A completion is answered, whether it counts an iteration or sends the goal to review, only if the goal was running or
  under review and, when the goal requires evidence, the evidence index of its task tells of a success.\<close>
theorem completion_needs_evidence:
  assumes "framework_goal_drive env p w = (Inr a, w')" "goal_operation p = ''complete''"
    and "hget (gw_goals w) (request_task p) = Some (Holds v)"
  shows "status_text v \<in> {''running'', ''review_pending''} \<and>
    (goal_requires_completion_evidence v \<longrightarrow>
      list_ex evidence_index_entry_implies_success (task_evidence_artifacts (request_task p) w))"
proof -
  let ?t = "request_task p" and ?v = "annotate_goal_staleness env v"
  obtain repo where g: "goal_complete env repo p w = (Inr a, w')"
    using assms(1,2) by (auto simp: framework_goal_drive_def framework_goal_drive_impl_def goal_request_def sbind_Inr
      sread_def sfail_def split: if_splits)
  then obtain t where t: "text_of p ''task_id'' = Some t"
    by (auto simp: goal_complete_def sbind_Inr sread_def resolve_task_id_strict_def split: option.splits)
  then have tt: "?t = t" by (simp add: request_task_def or_default_def)
  from g t obtain v' where read: "read_goal_state env (Some t) w = Inr (Some v')"
    and c: "\<exists>w1. completion_checks env t v' w = (Inr (), w1)"
    by (auto simp: goal_complete_def sbind_Inr sread_def sfail_def resolve_task_id_strict_def split: option.splits)
  have safe: "safe_task_id_component t = Some t"
    using read safe_of_text [OF t] text_of_trimmed [OF t]
    by (auto simp: read_goal_state_def Let_def validate_task_id_component_def split: option.splits)
  have v': "v' = ?v"
    using read assms(3) tt unfolding read_goal_state_safe [OF safe] read_goal_file_Some by auto
  from c have checks: "status_text v' = ''running'' \<or> status_text v' = ''review_pending''"
    "goal_requires_completion_evidence v' \<longrightarrow> vd_passed (validate_task_transition t CompleteTask w)"
    using completion_checks_ok by blast+
  have "goal_file_readable (file_at (gw_goals w) t)"
    using assms(3) tt by (simp add: file_at_Holds goal_file_readable_def)
  with checks v' tt show ?thesis
    using summary_ok [OF safe confirmed_transition [OF safe]] by (simp add: requirement_annotated)
qed

text \<open>A world in which the task has a running goal that requires evidence, and evidence of a success.\<close>

definition evidenced_world :: goal_world where
  "evidenced_world = empty_world\<lparr>
     gw_goals := [(''t'', Holds (jobj [(''status'', JStr ''running''), (''requires_completion_evidence'', JBool True)]))],
     gw_evidence := [(''t'', Holds (jobj [(''artifacts'', JArr [jobj [(''exit_code'', jnat 0)]])]))]\<rparr>"

lemma commit_succeeds:
  assumes "safe_task_id_component t = Some t" "gw_disk w = []"
  shows "\<exists>s w'. commit_goal_mutation env t v label w = (Inr s, w')"
proof -
  let ?v = "strip_stale_annotations v"
  let ?tx = "(transaction_new (ge_now env 2) label ?v)\<lparr>tx_schema_version := Some 1\<rparr>"
  obtain s where "fst (append_transaction_with_retry env t ?tx ?v label (put_goal t ?v w)) = Inr s" using retry_answers by blast
  then show ?thesis unfolding commit_goal_mutation_def Let_def bind_validated [OF assms(1)]
    using assms(2) by (cases "append_transaction_with_retry env t ?tx ?v label (put_goal t ?v w)")
      (simp add: sbind_def swrite_def attempt_def)
qed

lemma evidenced_completion:
  assumes "text_of p ''task_id'' = Some t" "read_goal_state env (Some t) w = Inr (Some v)"
    and "completion_checks env t v w = (Inr (), w)" "\<not> at_iteration_limit v" "ge_hooks env = None"
    and "commit_goal_mutation env t (completed_iteration env v) ''goal_iteration_completed'' w = (Inr s, w')"
  shows "\<exists>a. goal_complete env repo p w = (Inr a, w')"
  using assms by (simp add: goal_complete_def complete_iteration_def sbind_def sread_def resolve_task_id_strict_def
    run_quality_gate_def after_complete_def)

lemma drive_complete:
  "ge_lock env \<Longrightarrow> goal_operation p = ''complete'' \<Longrightarrow> goal_repo env p = Inr r \<Longrightarrow>
   framework_goal_drive env p w = goal_complete env (ge_canonical env r) p w"
  by (simp add: framework_goal_drive_def framework_goal_drive_impl_def goal_request_def sbind_def sread_def)

lemma completion_needs_evidence_witness:
  "list_ex evidence_index_entry_implies_success (task_evidence_artifacts ''t'' evidenced_world)"
proof -
  let ?p = "ask ''complete'' []" and ?v = "jobj [(''status'', JStr ''running''), (''requires_completion_evidence'', JBool True)]"
  have t: "request_task ?p = ''t''" "goal_operation ?p = ''complete''" "text_of ?p ''task_id'' = Some ''t''"
    "goal_repo quiet_env ?p = Inr ''r''" by code_simp+
  have r: "read_goal_state quiet_env (Some ''t'') evidenced_world = Inr (Some ?v)" by code_simp
  have "status_text ?v = ''running''" "\<not> is_stale ?v" "parse_goal_completion_gates ?v = None" "\<not> at_iteration_limit ?v"
    "vd_passed (validate_task_transition ''t'' CompleteTask evidenced_world)" by code_simp+
  then have c: "completion_checks quiet_env ''t'' ?v evidenced_world = (Inr (), evidenced_world)" "\<not> at_iteration_limit ?v"
    by (simp_all add: completion_checks_def sbind_def srequire_def sread_def sret_def check_def Let_def)
  have "safe_task_id_component ''t'' = Some ''t''" by code_simp
  from commit_succeeds [OF this, of evidenced_world] obtain s w' where
    "commit_goal_mutation quiet_env ''t'' (completed_iteration quiet_env ?v) ''goal_iteration_completed'' evidenced_world = (Inr s, w')"
    by (fastforce simp: evidenced_world_def empty_world_def)
  from evidenced_completion [OF t(3) r c _ this, of "''r''"] obtain a where
    "framework_goal_drive quiet_env ?p evidenced_world = (Inr a, w')"
    using drive_complete [OF _ t(2,4)] by (auto simp: quiet_env_def)
  note e = completion_needs_evidence [OF this t(2)]
  have "hget (gw_goals evidenced_world) (request_task ?p) = Some (Holds ?v)"
    unfolding t by (simp add: evidenced_world_def)
  from e [OF this] t(1) show ?thesis
    by (simp add: goal_requires_completion_evidence_def jobj_def jget_with_def)
qed

section \<open>Invariants\<close>

text \<open>The start of a driving goal.\<close>

definition sample_requests :: "(goal_env \<times> json) list" where
  "sample_requests =
     [(quiet_env, ask ''start'' [(''goal'', JStr ''g''), (''non_goals'', JArr [JStr ''a'']), (''done_when'', JArr [JStr ''b'', JStr ''c'']),
        (''validation_commands'', JStr ''d''), (''max_iterations'', jnat 3)])]"

lemma sample_run:
  "\<exists>v. hget (gw_goals (run_requests sample_requests empty_world)) ''t'' = Some (Holds v) \<and> drives v"
proof -
  have "case hget (gw_goals (run_requests sample_requests empty_world)) ''t'' of
      Some (Holds v) \<Rightarrow> drives v | _ \<Rightarrow> False" by code_simp
  then show ?thesis by (auto split: option.splits json_file.splits)
qed

lemma sample_requests_admitted:
  "\<forall>(env, p) \<in> set sample_requests. hooks_keep_goals env"
  "\<forall>(env, p) \<in> set sample_requests. hooks_keep_goals env \<and> goal_operation p \<noteq> ''resume''"
proof -
  have "list_all (\<lambda>(env, p). goal_operation p \<noteq> ''resume'') sample_requests" by code_simp
  then show "\<forall>(env, p) \<in> set sample_requests. hooks_keep_goals env \<and> goal_operation p \<noteq> ''resume''"
    by (simp add: sample_requests_def)
qed (simp add: sample_requests_def)

lemma stored_empty: "stored_goals I empty_world"
  by (simp add: stored_goals_def empty_world_def)

lemma storedD: "stored_goals I w \<Longrightarrow> hget (gw_goals w) t = Some (Holds v) \<Longrightarrow> I v"
  by (simp add: stored_goals_def)

text \<open>C7: Whatever requests are made, a stored goal that drives until it is done keeps its contract: at least one thing it is
  not about, two conditions for being done and one command that validates it. Starts, amendments and resumes that would
  break it are refused.\<close>
theorem driving_goals_keep_contract:
  assumes "stored_goals under_contract w" "\<forall>(env, p) \<in> set rs. hooks_keep_goals env"
    and "hget (gw_goals (run_requests rs w)) t = Some (Holds v)" "drives v"
  shows "1 \<le> filled v ''non_goals'' \<and> 2 \<le> filled v ''done_when'' \<and> 1 \<le> filled v ''validation_commands''"
proof -
  have "stored_goals under_contract (run_requests rs w)" using assms(1,2) by (intro contract.requests_keep) simp_all
  from storedD [OF this assms(3)] assms(4) show ?thesis by (simp add: under_contract_def contract_met_def)
qed

lemma driving_goals_keep_contract_witness:
  "\<exists>v. hget (gw_goals (run_requests sample_requests empty_world)) ''t'' = Some (Holds v) \<and> 1 \<le> filled v ''non_goals'' \<and> 2 \<le> filled v ''done_when'' \<and> 1 \<le> filled v ''validation_commands''"
proof -
  obtain v where v: "hget (gw_goals (run_requests sample_requests empty_world)) ''t'' = Some (Holds v)" "drives v"
    using sample_run by blast
  from driving_goals_keep_contract [OF stored_empty sample_requests_admitted(1) v] v(1) show ?thesis by blast
qed

text \<open>C21: No sequence of requests stores more than a hundred checkpoints with a goal.\<close>
theorem at_most_hundred_checkpoints:
  assumes "stored_goals (\<lambda>v. checkpoint_total v \<le> 100) w" "\<forall>(env, p) \<in> set rs. hooks_keep_goals env"
    and "hget (gw_goals (run_requests rs w)) t = Some (Holds v)"
  shows "checkpoint_total v \<le> 100"
  by (rule storedD [OF checkpoints.requests_keep assms(3)]) (use assms(1,2) in simp_all)

lemma at_most_hundred_checkpoints_witness:
  "\<exists>v. hget (gw_goals (run_requests sample_requests empty_world)) ''t'' = Some (Holds v) \<and> checkpoint_total v \<le> 100"
proof -
  obtain v where v: "hget (gw_goals (run_requests sample_requests empty_world)) ''t'' = Some (Holds v)" "drives v"
    using sample_run by blast
  from at_most_hundred_checkpoints [OF stored_empty sample_requests_admitted(1) v(1)] v(1) show ?thesis by blast
qed

text \<open>C23: As long as no goal is resumed, every stored goal that drives until it is done requires evidence of its completion.
  A resume is left out, because it sets the drive but not the requirement.\<close>
theorem driving_goals_need_evidence:
  assumes "stored_goals backed w" "\<forall>(env, p) \<in> set rs. hooks_keep_goals env \<and> goal_operation p \<noteq> ''resume''"
    and "hget (gw_goals (run_requests rs w)) t = Some (Holds v)" "drives v"
  shows "goal_requires_completion_evidence v"
  using storedD [OF evidence.requests_keep [OF assms(2,1)] assms(3)] assms(4) by (simp add: backed_def)

lemma driving_goals_need_evidence_witness:
  "\<exists>v. hget (gw_goals (run_requests sample_requests empty_world)) ''t'' = Some (Holds v) \<and> goal_requires_completion_evidence v"
proof -
  obtain v where v: "hget (gw_goals (run_requests sample_requests empty_world)) ''t'' = Some (Holds v)" "drives v"
    using sample_run by blast
  from driving_goals_need_evidence [OF stored_empty sample_requests_admitted(2) v] v(1) show ?thesis by blast
qed

text \<open>C27: No request sets a limit on the iterations of a goal, whatever its payload says: goals that have none never get
  one, so the limit never stops them.\<close>
theorem requests_set_no_limit:
  assumes "stored_goals (\<lambda>v. jget v ''max_iterations'' = None) w" "\<forall>(env, p) \<in> set rs. hooks_keep_goals env"
    and "hget (gw_goals (run_requests rs w)) t = Some (Holds v)"
  shows "jget v ''max_iterations'' = None \<and> \<not> at_iteration_limit v"
proof -
  have "stored_goals (\<lambda>v. jget v ''max_iterations'' = None) (run_requests rs w)"
    using assms(1,2) by (intro limits.requests_keep) simp_all
  from storedD [OF this assms(3)] show ?thesis by (simp add: at_iteration_limit_def jget_with_def)
qed

lemma requests_set_no_limit_witness:
  "\<exists>v. hget (gw_goals (run_requests sample_requests empty_world)) ''t'' = Some (Holds v) \<and> jget v ''max_iterations'' = None \<and> \<not> at_iteration_limit v"
proof -
  obtain v where v: "hget (gw_goals (run_requests sample_requests empty_world)) ''t'' = Some (Holds v)" "drives v"
    using sample_run by blast
  from requests_set_no_limit [OF stored_empty sample_requests_admitted(1) v(1)] v(1) show ?thesis by blast
qed

end
