(* ===== verification/Goal_Append.thy ===== *)
theory Goal_Append
  imports Goal_Replay Goal_Properties
begin

text \<open>
  What an append leaves in the ledger when every write succeeds: the line is read back, the chain
  of fingerprints stays intact through checkpoints and compaction, and what the view of a task
  shows after its goal has failed or was cleared.
\<close>

section \<open>Writes that succeed\<close>

lemma attempt_ok [simp]: "gw_disk w = [] \<Longrightarrow> attempt f w = (True, f w)"
  by (simp add: attempt_def)

lemma swrite_ok [simp]: "gw_disk w = [] \<Longrightarrow> swrite k f w = (Inr (), f w)"
  by (simp add: swrite_def)

lemma put_ledger_reads [simp]:
  "gw_disk (put_ledger t ls w) = gw_disk w" "ledger_at (put_ledger t ls w) t = Lines ls"
  by (simp_all add: put_ledger_def ledger_at_def or_default_def hmap_simps)

lemma write_ledger_ok [simp]: "gw_disk w = [] \<Longrightarrow> write_ledger t ls w = (Inr (), put_ledger t ls w)"
  by (simp add: write_ledger_def)

lemma repair_ok:
  assumes "gw_disk w = []" "ledger_at w t = Lines ls"
  shows "\<exists>w'. repair_tail t ls w = (Inr (cut_tail ls), w') \<and> gw_disk w' = [] \<and> ledger_at w' t = Lines (cut_tail ls)"
  using assms by (auto simp: repair_tail_def truncate_corrupt_tail_def)

section \<open>Reading back\<close>

text \<open>Neither a checkpoint nor a compaction is due.\<close>

definition roomy :: "jsonl_line list \<Rightarrow> bool" where
  "roomy ls \<longleftrightarrow> (line_count (cut_tail ls) = 0 \<or> line_count (cut_tail ls) mod CHECKPOINT_INTERVAL \<noteq> 0) \<and> length (rows ls) < 300"

definition linked_tx :: "goal_env \<Rightarrow> ledger_transaction \<Rightarrow> jsonl_line list \<Rightarrow> ledger_transaction" where
  "linked_tx env tx ls = chained env (last_chain_hash_from_content ls) (tx\<lparr>tx_seq := Some (of_nat (line_count ls))\<rparr>)"

lemma upkeep_idle:
  assumes "n = 0 \<or> n mod CHECKPOINT_INTERVAL \<noteq> 0" "length (rows ls) \<le> 300"
  shows "ledger_upkeep env t n ls w = (Inr (), w)"
  using assms by (auto simp: ledger_upkeep_def sbind_def sret_def compact_jsonl_core_def Let_def)

lemma append_reads:
  assumes "gw_disk w = []" "safe_task_id_component t = Some t" "ledger_at w t = Lines ls" "roomy ls" "tx_idempotency_key tx = None"
  shows "\<exists>w'. append_transaction_assuming_l1_held env t tx w = (Inr (), w') \<and> gw_disk w' = [] \<and>
    ledger_at w' t = Lines (add_line (cut_tail ls) (tx_json (linked_tx env tx (cut_tail ls))))"
proof -
  obtain w1 where w1: "repair_tail t ls w = (Inr (cut_tail ls), w1)" "gw_disk w1 = []" "ledger_at w1 t = Lines (cut_tail ls)"
    using repair_ok [OF assms(1,3)] by blast
  have up: "ledger_upkeep env t (line_count (cut_tail ls)) (add_line (cut_tail ls) v) w' = (Inr (), w')" for v w'
    using assms(4) by (intro upkeep_idle) (auto simp: roomy_def)
  have "append_line env t tx (cut_tail ls) w1 =
      (Inr (), put_ledger t (add_line (cut_tail ls) (tx_json (linked_tx env tx (cut_tail ls)))) w1)"
    using w1(2) assms(5) by (simp add: append_line_def already_recorded_def linked_tx_def Let_def sbind_def up)
  with w1 assms(1,3) show ?thesis
    unfolding append_transaction_assuming_l1_held_def bind_validated [OF assms(2)] by (simp add: sbind_def)
qed

lemma linked_tx_reads [simp]:
  "tx_type (linked_tx env tx ls) = tx_type tx" "tx_payload (linked_tx env tx ls) = tx_payload tx"
  by (simp_all add: linked_tx_def chained_def)

section \<open>The chain of fingerprints\<close>

fun linked :: "goal_env \<Rightarrow> string \<Rightarrow> ledger_transaction list \<Rightarrow> bool" where
  "linked env prev [] = True"
| "linked env prev (tx # txs) =
     (tx_chain_hash tx = Some (ge_hash env prev (tx_json (tx\<lparr>tx_chain_hash := None\<rparr>))) \<and>
      linked env (the (tx_chain_hash tx)) txs)"

definition chain_end :: "string \<Rightarrow> ledger_transaction list \<Rightarrow> string" where
  "chain_end prev txs = (if txs = [] then prev else the (tx_chain_hash (last txs)))"

lemma linked_append: "linked env prev (txs @ txs') \<longleftrightarrow> linked env prev txs \<and> linked env (chain_end prev txs) txs'"
  by (induction txs arbitrary: prev) (auto simp: chain_end_def)

definition intact :: "goal_env \<Rightarrow> jsonl_line list \<Rightarrow> bool" where
  "intact env ls \<longleftrightarrow> (\<exists>txs. ls = tx_lines txs \<and> linked env ''genesis'' txs)"

lemma intact_Nil: "intact env []"
  unfolding intact_def by (rule exI [of _ "[]"]) simp

lemma same_hash: "tx_chain_hash tx = h \<Longrightarrow> tx\<lparr>tx_chain_hash := h\<rparr> = tx"
  by (cases tx) simp

lemma rechain_linked: "linked env prev txs \<Longrightarrow> rechain env prev (tx_lines txs) = Some (tx_lines txs)"
  by (induction txs arbitrary: prev) (auto simp: chained_def Let_def same_hash)

text \<open>An intact chain is what its recomputation gives, and every recomputed chain is intact.\<close>

lemma intact_recompute: "intact env ls \<Longrightarrow> recompute_chain_hashes env ls = Some ls"
  by (auto simp: intact_def recompute_chain_hashes_def rechain_linked)

lemma rechained:
  "rechain env prev ls = Some out \<Longrightarrow> \<exists>txs. out = tx_lines txs \<and> linked env prev txs"
proof (induction env prev ls arbitrary: out rule: rechain.induct)
  case (4 env prev v ls)
  then obtain tx out' where tx: "tx_of_json v = Some tx"
    and r: "rechain env (the (tx_chain_hash (chained env prev (tx\<lparr>tx_chain_hash := None\<rparr>)))) ls = Some out'"
      "out = Row (tx_json (chained env prev (tx\<lparr>tx_chain_hash := None\<rparr>))) # out'"
    by (auto simp: Let_def split: option.splits)
  from "4.IH" [OF tx refl r(1)] obtain txs where txs: "out' = tx_lines txs"
    "linked env (the (tx_chain_hash (chained env prev (tx\<lparr>tx_chain_hash := None\<rparr>)))) txs" by blast
  let ?tx = "chained env prev (tx\<lparr>tx_chain_hash := None\<rparr>)"
  have "out = tx_lines (?tx # txs)" using r(2) txs(1) by simp
  moreover have "linked env prev (?tx # txs)" using txs(2) by (simp add: chained_def)
  ultimately show ?case by blast
qed (auto intro: exI [of _ "[]"])

lemma rechain_rows: "(\<And>v. v \<in> set vs \<Longrightarrow> tx_of_json v \<noteq> None) \<Longrightarrow> rechain env prev (map Row vs) \<noteq> None"
proof (induction vs arbitrary: prev)
  case (Cons v vs)
  obtain tx where tx: "tx_of_json v = Some tx" using Cons.prems [of v] by auto
  have "rechain env p (map Row vs) \<noteq> None" for p using Cons by simp
  with tx show ?case by (simp add: Let_def)
qed simp

lemma rechain_length: "rechain env prev (map Row vs) = Some out \<Longrightarrow> length out = length vs"
  by (induction vs arbitrary: prev out) (auto simp: Let_def split: option.splits)

lemma recomputed_rows:
  assumes "\<And>v. v \<in> set vs \<Longrightarrow> tx_of_json v \<noteq> None"
  shows "\<exists>out. recompute_chain_hashes env (map Row vs) = Some out \<and> intact env out"
proof -
  obtain out where out: "rechain env ''genesis'' (map Row vs) = Some out" using rechain_rows [OF assms] by blast
  have "out = [] \<Longrightarrow> vs = []" using rechain_length [OF out] by simp
  with out rechained [OF out] show ?thesis
    by (auto simp: recompute_chain_hashes_def intact_def intro: exI [of _ "[]"])
qed

text \<open>The fingerprint the next line goes on from.\<close>

lemma line_hash:
  "line_chain_hash (Row (tx_json tx)) = (case tx_chain_hash tx of Some h \<Rightarrow> if h \<noteq> [] then Some h else None | None \<Rightarrow> None)"
proof -
  have "tx_of_json (JObj (tx_members tx)) = Some tx" using tx_roundtrip [of tx] by (simp only: tx_json_members)
  then show ?thesis unfolding tx_json_members line_chain_hash_def by simp
qed

lemma last_hash_lines:
  assumes "linked env ''genesis'' txs" "\<And>prev v. ge_hash env prev v \<noteq> []"
  shows "last_chain_hash_from_content (tx_lines txs) = chain_end ''genesis'' txs"
proof (cases txs rule: rev_cases)
  case (snoc txs' tx)
  with assms(1) have "linked env (chain_end ''genesis'' txs') [tx]" by (simp add: linked_append)
  then have "tx_chain_hash tx = Some (ge_hash env (chain_end ''genesis'' txs') (tx_json (tx\<lparr>tx_chain_hash := None\<rparr>)))" by simp
  then show ?thesis using assms(2) snoc
    by (simp add: line_hash last_chain_hash_from_content_def chain_end_def or_default_def)
qed (simp add: last_chain_hash_from_content_def chain_end_def or_default_def)

lemma intact_add:
  assumes "intact env ls" "\<And>prev v. ge_hash env prev v \<noteq> []" "tx_chain_hash tx = None"
  shows "intact env (add_line ls (tx_json (chained env (last_chain_hash_from_content ls) tx)))"
proof -
  obtain txs where l: "ls = tx_lines txs" "linked env ''genesis'' txs" using assms(1) by (auto simp: intact_def)
  have "tx\<lparr>tx_chain_hash := None\<rparr> = tx" using assms(3) by (cases tx) simp
  then have "linked env ''genesis'' (txs @ [chained env (chain_end ''genesis'' txs) tx])"
    using l(2) by (simp add: linked_append chained_def)
  then show ?thesis unfolding l(1) last_hash_lines [OF l(2) assms(2)] add_line_lines intact_def by blast
qed

text \<open>The ledger of the task is intact, and writes succeed.\<close>

definition sound_ledger :: "goal_env \<Rightarrow> string \<Rightarrow> goal_world \<Rightarrow> bool" where
  "sound_ledger env t w \<longleftrightarrow> gw_disk w = [] \<and> (\<exists>ls. ledger_at w t = Lines ls \<and> intact env ls)"

lemma put_sound: "gw_disk w = [] \<Longrightarrow> intact env ls \<Longrightarrow> sound_ledger env t (put_ledger t ls w)"
  by (simp add: sound_ledger_def)

lemma checkpoint_sound:
  assumes "safe_task_id_component t = Some t" "\<And>prev v. ge_hash env prev v \<noteq> []" "sound_ledger env t w"
  shows "sound_ledger env t (snd (write_state_checkpoint env t n w))"
proof -
  obtain ls where ls: "gw_disk w = []" "ledger_at w t = Lines ls" "intact env ls" using assms(3) by (auto simp: sound_ledger_def)
  have "sound_ledger env t (put_ledger t (add_line ls (tx_json (chained env (last_chain_hash_from_content ls)
      ((transaction_new a b c)\<lparr>tx_schema_version := d, tx_seq := e\<rparr>)))) w)" for a b c d e
    using ls(1) by (intro put_sound intact_add ls assms(2)) (simp_all add: transaction_new_def)
  then show ?thesis
    unfolding write_state_checkpoint_def Let_def bind_validated [OF assms(1)] case_prod_unfold
    using ls by (simp add: sbind_def)
qed

lemma compaction_sound:
  assumes "compact_jsonl_core k ls = Some out" "intact env ls" "length ls \<le> 2 ^ 64" "gw_disk w = []"
  shows "sound_ledger env t (snd (sbind (write_ledger t out) (\<lambda>_. patch_ledger_chain_hashes env t) w))"
proof -
  obtain txs where txs: "ls = tx_lines txs" using assms(2) by (auto simp: intact_def)
  have l: "length txs \<le> 2 ^ 64" using assms(3) by (simp add: txs tx_lines_def)
  from compacted(2) [OF assms(1) [unfolded txs] l]
  have out: "out = map Row (renumber (map tx_members (latest txs)))" by blast
  have "length (latest txs) \<le> length txs" by (induction txs) auto
  then have "tx_of_json v \<noteq> None" if "v \<in> set (renumber (map tx_members (latest txs)))" for v
    using that l renumbered by (fastforce simp: renumber_def in_set_enumerate_eq)
  from recomputed_rows [OF this, of _ env] obtain ls' where "recompute_chain_hashes env out = Some ls'" "intact env ls'"
    unfolding out by blast
  with assms(4) show ?thesis
    by (auto simp: sbind_def patch_ledger_chain_hashes_def intro: put_sound)
qed

lemma upkeep_sound:
  assumes "safe_task_id_component t = Some t" "\<And>prev v. ge_hash env prev v \<noteq> []" "sound_ledger env t w"
    and "intact env ls" "length ls \<le> 2 ^ 64"
  shows "sound_ledger env t (snd (ledger_upkeep env t n ls w))"
proof -
  let ?c = "if 0 < n \<and> n mod CHECKPOINT_INTERVAL = 0 then signore (write_state_checkpoint env t n) else sret ()"
  have "\<exists>w1. ?c w = (Inr (), w1) \<and> sound_ledger env t w1"
    using checkpoint_sound [OF assms(1-3), of n] assms(3) by (simp add: signore_def sret_def)
  then obtain w1 where w1: "?c w = (Inr (), w1)" "sound_ledger env t w1" by blast
  have "gw_disk w1 = []" using w1(2) by (simp add: sound_ledger_def)
  with compaction_sound [OF _ assms(4,5) this] w1 show ?thesis
    unfolding ledger_upkeep_def sbind_eval(2) [where m = ?c, OF w1(1)]
    by (auto simp: sret_def signore_def split: option.split)
qed

lemma cut_lines [simp]: "cut_tail (tx_lines txs) = tx_lines txs"
proof -
  have "dropWhile (\<lambda>l. row_of l = None) (rev (tx_lines txs)) = rev (tx_lines txs)"
    by (cases txs rule: rev_cases) simp_all
  then show ?thesis by (simp add: cut_tail_def)
qed

text \<open>C9: Appending keeps the chain of fingerprints intact: from an intact ledger, or from none, every append gives an intact
  ledger again, through the checkpoint of every hundredth line and through a compaction, when the writes succeed and
  fingerprints are not empty.\<close>
theorem appends_keep_chain:
  assumes "\<forall>prev v. ge_hash env prev v \<noteq> []" "gw_disk w = []" "safe_task_id_component t = Some t" "tx_chain_hash tx = None"
    and "ledger_at w t = NoLedger \<or> (\<exists>ls. ledger_at w t = Lines ls \<and> intact env ls \<and> length ls < 2 ^ 64)"
  shows "\<exists>ls. ledger_at (snd (append_transaction_assuming_l1_held env t tx w)) t = Lines ls \<and> intact env ls"
  using assms(5)
proof
  assume "ledger_at w t = NoLedger"
  have "intact env (add_line [] (tx_json (chained env (last_chain_hash_from_content []) (tx\<lparr>tx_seq := Some 0\<rparr>))))"
    using assms(1,4) by (intro intact_add intact_Nil) simp_all
  with assms(2) \<open>ledger_at w t = NoLedger\<close> show ?thesis
    unfolding append_transaction_assuming_l1_held_def bind_validated [OF assms(3)]
    by (simp add: sbind_def add_line_def last_chain_hash_from_content_def or_default_def)
next
  assume "\<exists>ls. ledger_at w t = Lines ls \<and> intact env ls \<and> length ls < 2 ^ 64"
  then obtain ls where ls: "ledger_at w t = Lines ls" "intact env ls" "length ls < 2 ^ 64" by blast
  then obtain txs where txs: "ls = tx_lines txs" by (auto simp: intact_def)
  let ?new = "add_line ls (tx_json (linked_tx env tx ls))"
  have new: "intact env ?new"
    unfolding linked_tx_def using assms(1,4) by (intro intact_add ls) simp_all
  have "length ?new \<le> 2 ^ 64" using ls(3) by (simp add: txs)
  with upkeep_sound [OF assms(3) _ put_sound new] assms(1,2) new
  have up: "sound_ledger env t (snd (ledger_upkeep env t (line_count ls) ?new (put_ledger t ?new w)))" by blast
  have "repair_tail t ls w = (Inr ls, w)" by (simp add: txs repair_tail_def truncate_corrupt_tail_def)
  then have "append_transaction_assuming_l1_held env t tx w = append_line env t tx ls w"
    unfolding append_transaction_assuming_l1_held_def bind_validated [OF assms(3)] using assms(2) ls(1) by (simp add: sbind_def)
  moreover have "\<exists>ls'. ledger_at (snd (append_line env t tx ls w)) t = Lines ls' \<and> intact env ls'"
    using up ls assms(2) by (auto simp: append_line_def sret_def sbind_def Let_def sound_ledger_def linked_tx_def)
  ultimately show ?thesis by simp
qed

section \<open>What the view shows after the end of a goal\<close>

text \<open>The ledger alone determines the goal that is replayed.\<close>

definition records :: "json \<Rightarrow> string \<Rightarrow> goal_world \<Rightarrow> bool" where
  "records g t w \<longleftrightarrow> (\<exists>ls. ledger_at w t = Lines ls \<and> fst (replay (transactions ls) (None, False, False)) = Some g)"

lemma records_same: "gw_ledgers w' = gw_ledgers w \<Longrightarrow> records g t w \<Longrightarrow> records g t w'"
  by (simp add: records_def ledger_at_def)

lemma records_pointers: "pointers_moved w w' \<Longrightarrow> records g t w \<Longrightarrow> records g t w'"
  by (rule records_same) (simp_all add: pointers_moved_def)

lemma view_records:
  assumes "safe_task_id_component t = Some t" "records g t w"
  shows "tv_goal_state (fst (resolve_task_view env (Some t) w)) = Some g"
proof -
  obtain ls where ls: "ledger_at w t = Lines ls" "fst (replay (transactions ls) (None, False, False)) = Some g"
    using assms(2) by (auto simp: records_def)
  have "nonempty_trimmed (Some t) = Some t" using safe_id_Some [OF assms(1)] by (simp add: nonempty_trimmed_def)
  moreover have "fst (read_task_ledger_transactions t w) = transactions ls"
    using assms(1) ls(1) by (simp add: read_task_ledger_transactions_def transactions_def case_prod_unfold)
  ultimately show ?thesis
    using recorded_goal [OF ls(2)]
    by (simp add: resolve_task_view_def resolve_task_view_with_pointers_def hydrate_task_state_hybrid_def or_else_def
      Let_def case_prod_unfold)
qed

text \<open>A ledger with room, in a world in which writes succeed.\<close>

definition ready :: "string \<Rightarrow> goal_world \<Rightarrow> bool" where
  "ready t w \<longleftrightarrow> gw_disk w = [] \<and> (\<exists>ls. ledger_at w t = Lines ls \<and> roomy ls)"

lemma append_records:
  assumes "safe_task_id_component t = Some t" "ready t w" "records g t w" "tx_idempotency_key tx = None"
    and "tx_type tx \<notin> {''goal_state'', ''evidence'', STATE_CHECKPOINT_TX_TYPE}"
  shows "\<exists>w'. append_transaction_assuming_l1_held env t tx w = (Inr (), w') \<and> records g t w'"
proof -
  obtain ls where ls: "gw_disk w = []" "ledger_at w t = Lines ls" "roomy ls" using assms(2) by (auto simp: ready_def)
  obtain w' where w': "append_transaction_assuming_l1_held env t tx w = (Inr (), w')"
    "ledger_at w' t = Lines (add_line (cut_tail ls) (tx_json (linked_tx env tx (cut_tail ls))))"
    using append_reads [OF ls(1) assms(1) ls(2,3) assms(4)] by blast
  have "replay (transactions ls @ [linked_tx env tx (cut_tail ls)]) s = replay (transactions ls) s" for s
    by (rule replay_ignores) (use assms(5) in simp)
  with w' ls(2) assms(3) show ?thesis by (simp add: records_def)
qed

lemma commit_records:
  assumes "safe_task_id_component t = Some t" "ready t w" "records g t w"
    and "label \<notin> {''goal_state'', ''evidence'', STATE_CHECKPOINT_TX_TYPE}"
  shows "outcome_meets (commit_goal_mutation env t v label) (\<lambda>_ w'. records g t w') (\<lambda>_ _. True) w"
proof -
  let ?v = "strip_stale_annotations v"
  let ?tx = "(transaction_new (ge_now env 2) label ?v)\<lparr>tx_schema_version := Some 1\<rparr>" and ?w = "put_goal t ?v w"
  have put: "gw_ledgers ?w = gw_ledgers w" "gw_disk ?w = gw_disk w" by (simp_all add: put_goal_def)
  have w: "ready t ?w" "records g t ?w"
    using assms(2,3) put by (simp_all add: ready_def records_def ledger_at_def)
  have "tx_idempotency_key ?tx = None" "tx_type ?tx \<notin> {''goal_state'', ''evidence'', STATE_CHECKPOINT_TX_TYPE}"
    using assms(4) by (simp_all add: transaction_new_def)
  from append_records [OF assms(1) w this] obtain w' where
    "append_transaction_assuming_l1_held env t ?tx ?w = (Inr (), w')" "records g t w'" by blast
  moreover have "gw_disk w = []" using assms(2) by (simp add: ready_def)
  ultimately show ?thesis
    unfolding commit_goal_mutation_def Let_def bind_validated [OF assms(1)]
    by (simp add: outcome_meets_def sbind_def append_transaction_with_retry_def MAX_LEDGER_RETRIES_def numeral_3_eq_3)
qed

lemma checked_outcome_any:
  assumes "\<And>t. safe_task_id_component t = Some t \<Longrightarrow> t = request_task p \<Longrightarrow> outcome_meets (f t) S (\<lambda>_ _. True) w"
  shows "outcome_meets (sbind (checked_task_id p) f) S (\<lambda>_ _. True) w"
  unfolding checked_bind using assms safe_of_text
  by (auto simp: outcome_simps request_task_def or_default_def split: option.split)

lemma fail_records:
  assumes "ready (request_task p) w" "records g (request_task p) w"
  shows "outcome_meets (goal_fail env repo p) (\<lambda>_ w'. records g (request_task p) w') (\<lambda>_ _. True) w"
  unfolding goal_fail_def
proof (rule checked_outcome_any)
  fix t assume safe: "safe_task_id_component t = Some t" and t: "t = request_task p"
  have rest: "outcome_meets (sbind (neutralize_task_pointers_for_task t) (\<lambda>_. sret (a s))) (\<lambda>_ w'. records g (request_task p) w') (\<lambda>_ _. True) w'"
    if "records g (request_task p) w'" for s :: json and a :: "json \<Rightarrow> json" and w'
    unfolding outcome_bind outcome_read using that by (auto intro: neutralize_outcome records_pointers)
  have commit: "outcome_meets (sbind (commit_goal_mutation env t v' ''goal_failed'') (\<lambda>s. sbind (neutralize_task_pointers_for_task t) (\<lambda>_. sret (a s))))
      (\<lambda>_ w'. records g (request_task p) w') (\<lambda>_ _. True) w" for v' and a :: "json \<Rightarrow> json"
    unfolding outcome_bind [of "commit_goal_mutation _ _ _ _"]
    by (rule outcome_weaken [OF commit_records [OF safe]]) (use assms rest t in \<open>simp_all add: STATE_CHECKPOINT_TX_TYPE_def\<close>)
  show "outcome_meets (sbind (existing_goal env t) (\<lambda>v. sbind (sread (\<lambda>_. fail_goal env p v)) (\<lambda>v'.
      sbind (commit_goal_mutation env t v' ''goal_failed'') (\<lambda>s. sbind (neutralize_task_pointers_for_task t) (\<lambda>_.
      sret (answer ''fail'' t ((''goal_state_path'', JStr (goal_state_path repo t)) # max_iterations_warning s)))))))
    (\<lambda>_ w'. records g (request_task p) w') (\<lambda>_ _. True) w"
    unfolding outcome_bind [of "existing_goal _ _"] outcome_bind [of "sread _"] outcome_read
    by (rule existing_outcome [OF safe]) (auto simp: commit split: sum.split)
qed

lemma clear_records:
  assumes ready: "ready (request_task p) w" and rec: "records g (request_task p) w"
  shows "outcome_meets (goal_clear env repo p) (\<lambda>_ w'. records g (request_task p) w') (\<lambda>_ _. True) w"
  unfolding goal_clear_def validated_bind
proof (split option.split, intro conjI impI allI)
  fix t assume x: "text_of p ''task_id'' = Some t"
  then have t: "t = request_task p" by (simp add: request_task_def or_default_def)
  have rest: "outcome_meets (sbind (signore (neutralize_task_pointers_for_task t)) (\<lambda>_. sret a)) (\<lambda>_ w'. records g t w') (\<lambda>_ _. True) w'"
    if "records g t w'" for a :: json and w'
    using that records_pointers [OF movesD [OF neutralize_moves]] by (simp add: outcome_simps)
  have remove: "outcome_meets (remove_goal env t) (\<lambda>_ w'. records g t w') (\<lambda>_ _. True) w" if safe: "safe_task_id_component t = Some t"
  proof -
    let ?w = "w\<lparr>gw_goals := hdel t (gw_goals w)\<rparr>"
    let ?tx = "(transaction_new (ge_now env 2) ''goal_cleared''
      (jobj [(''task_id'', JStr t), (''cleared_at'', JStr (ge_now env 5))]))\<lparr>tx_schema_version := Some 1\<rparr>"
    have w: "ready t ?w" "records g t ?w" using ready rec t by (simp_all add: ready_def records_def ledger_at_def)
    have "tx_idempotency_key ?tx = None" "tx_type ?tx \<notin> {''goal_state'', ''evidence'', STATE_CHECKPOINT_TX_TYPE}"
      by (simp_all add: transaction_new_def STATE_CHECKPOINT_TX_TYPE_def)
    from append_records [OF safe w this, of env] have "records g t (snd (append_transaction_assuming_l1_held env t ?tx ?w))" by force
    moreover have "gw_disk w = []" using ready t by (simp add: ready_def)
    ultimately show ?thesis unfolding remove_goal_def by (simp add: outcome_meets_def sbind_def signore_def)
  qed
  have step: "outcome_meets (sbind (if e then remove_goal env t else sret ()) (\<lambda>_. sbind (signore (neutralize_task_pointers_for_task t)) (\<lambda>_. sret a)))
      (\<lambda>_ w'. records g t w') (\<lambda>_ _. True) w" if "safe_task_id_component t = Some t" for e and a :: json
    unfolding outcome_bind [of "if e then _ else _"]
    by (rule outcome_weaken [where S = "\<lambda>_ w'. records g t w'" and E = "\<lambda>_ _. True"])
      (use remove [OF that] rec [folded t] in \<open>auto simp: rest outcome_read\<close>)
  show "outcome_meets (if safe_task_id_component t = None then sfail Validation UnsafeTaskId else
    (\<lambda>w. let existed = file_at (gw_goals w) t \<noteq> Missing;
      stale = case read_goal_state env (Some t) w of Inr (Some v) \<Rightarrow> is_stale v | _ \<Rightarrow> False
      in sbind (srequire (\<not> (existed \<and> stale \<and> \<not> flag_of False p ''force'')) (StaleGoal ''clear''))
        (\<lambda>_. sbind (if existed then remove_goal env t else sret ()) (\<lambda>_.
          sbind (signore (neutralize_task_pointers_for_task t)) (\<lambda>_.
            sret (answer ''clear'' t [(''goal_state_path'', JStr (goal_state_path repo t)), (''removed'', JBool existed)])))) w))
    (\<lambda>_ w'. records g (request_task p) w') (\<lambda>_ _. True) w"
  proof (cases "safe_task_id_component t")
    case (Some u)
    then have safe: "safe_task_id_component t = Some t" using safe_of_text [OF x] by simp
    from step [OF safe, of "file_at (gw_goals w) t \<noteq> Missing" "answer ''clear'' t [(''goal_state_path'', JStr (goal_state_path repo t)),
      (''removed'', JBool (file_at (gw_goals w) t \<noteq> Missing))]"] t safe
    show ?thesis by (simp add: outcome_meets_def Let_def sbind_def [of "srequire _ _"] srequire_def)
  qed (simp add: outcome_simps)
qed (simp add: outcome_simps)

text \<open>C18: The view of a task does not notice that its goal has ended, as long as no checkpoint or compaction of the ledger is
  due: when all files can be written, the ledger records a goal, has fewer than three hundred rows and the line added is
  not at a multiple of the checkpoint interval, a fail or a clear that is answered leaves the view showing the goal as
  the ledger recorded it last, with the status it had then, because neither line is replayed, and the replay overrides
  the document that was changed or removed.\<close>
theorem view_misses_end:
  assumes "framework_goal_drive env p w = (Inr a, w')" "goal_operation p \<in> {''fail'', ''clear''}"
    and "gw_disk w = []" "ledger_at w (request_task p) = Lines ls" "roomy ls"
    and "fst (replay (transactions ls) (None, False, False)) = Some g"
  shows "tv_goal_state (fst (resolve_task_view env (Some (request_task p)) w')) = Some g"
proof -
  have ready: "ready (request_task p) w" and rec: "records g (request_task p) w"
    using assms(3-6) by (auto simp: ready_def records_def)
  obtain repo where "goal_fail env repo p w = (Inr a, w') \<or> goal_clear env repo p w = (Inr a, w')"
    using assms(1,2) by (auto simp: framework_goal_drive_def framework_goal_drive_impl_def goal_request_def sbind_Inr
      sread_def sfail_def split: if_splits)
  then have r: "records g (request_task p) w'" and s: "safe_task_id_component (request_task p) = Some (request_task p)"
  proof (safe)
    assume f: "goal_fail env repo p w = (Inr a, w')"
    show "records g (request_task p) w'" by (rule outcomeD(1) [OF fail_records [OF ready rec] f])
    show "safe_task_id_component (request_task p) = Some (request_task p)"
      using f safe_of_text unfolding goal_fail_def checked_bind
      by (auto simp: sfail_def request_task_def or_default_def split: option.splits if_splits)
  next
    assume c: "goal_clear env repo p w = (Inr a, w')"
    show "records g (request_task p) w'" by (rule outcomeD(1) [OF clear_records [OF ready rec] c])
    show "safe_task_id_component (request_task p) = Some (request_task p)"
      using c safe_of_text unfolding goal_clear_def validated_bind
      by (auto simp: sfail_def request_task_def or_default_def split: option.splits if_splits)
  qed
  from view_records [OF s r] show ?thesis .
qed

definition recorded_world :: goal_world where
  "recorded_world = empty_world\<lparr>gw_ledgers := [(''t'', Lines (tx_lines [transaction_new ''now'' ''goal_state'' (JStr ''g'')]))]\<rparr>"

lemma recorded_world_ledger:
  "gw_disk recorded_world = []" "ledger_at recorded_world ''t'' = Lines (tx_lines [transaction_new ''now'' ''goal_state'' (JStr ''g'')])"
  by (simp_all add: recorded_world_def empty_world_def ledger_at_def or_default_def)

lemma recorded_replay:
  "fst (replay (transactions (tx_lines [transaction_new ''now'' ''goal_state'' (JStr ''g'')])) (None, False, False)) = Some (JStr ''g'')"
  "roomy (tx_lines [transaction_new ''now'' ''goal_state'' (JStr ''g'')])"
  by code_simp+

lemma view_misses_end_witness:
  "\<exists>a w'. framework_goal_drive quiet_env (ask ''clear'' []) recorded_world = (Inr a, w') \<and>
     tv_goal_state (fst (resolve_task_view quiet_env (Some ''t'') w')) = Some (JStr ''g'')"
proof -
  let ?p = "ask ''clear'' []"
  have "case framework_goal_drive quiet_env ?p recorded_world of (Inr a, w') \<Rightarrow> True | _ \<Rightarrow> False" by code_simp
  then obtain a w' where e: "framework_goal_drive quiet_env ?p recorded_world = (Inr a, w')"
    by (auto split: prod.splits sum.splits)
  have t: "request_task ?p = ''t''" "goal_operation ?p \<in> {''fail'', ''clear''}" by code_simp+
  from view_misses_end [OF e t(2) recorded_world_ledger(1) _ recorded_replay(2,1)] recorded_world_ledger(2) e t(1)
  show ?thesis by auto
qed

lemma appends_keep_chain_witness:
  "\<exists>ls. ledger_at (snd (append_transaction_assuming_l1_held quiet_env ''t'' (transaction_new ''now'' ''note'' JNull) empty_world)) ''t'' =
     Lines ls \<and> intact quiet_env ls"
proof (rule appends_keep_chain)
  show "\<forall>prev v. ge_hash quiet_env prev v \<noteq> []" by (simp add: quiet_env_def)
  show "gw_disk empty_world = []" by (simp add: empty_world_def)
  show "safe_task_id_component ''t'' = Some ''t''" by code_simp
  show "tx_chain_hash (transaction_new ''now'' ''note'' JNull) = None" by (simp add: transaction_new_def)
  show "ledger_at empty_world ''t'' = NoLedger \<or>
    (\<exists>ls. ledger_at empty_world ''t'' = Lines ls \<and> intact quiet_env ls \<and> length ls < 2 ^ 64)"
    by (simp add: empty_world_def ledger_at_def or_default_def)
qed

end
