(* ===== verification/Goal_Hooks.thy ===== *)
theory Goal_Hooks
  imports Goal_Properties Chain_Lifecycle
begin

text \<open>
  The hook that follows a completed iteration
  (\<^verbatim>\<open>after_goal_complete\<close> in \<^verbatim>\<open>core/runtime-core/src/lib.rs\<close>, which calls
  \<^verbatim>\<open>auto_advance_chain_after_complete\<close> in
  \<^verbatim>\<open>core/host-projection/src/hosts/mcp_stdio_harness/tools.rs\<close>): it records the task as completed in
  the chain, runs the scheduler and asks for the start of a goal for every task that became ready.
  It is the hook the requests on goals are given in the running program, so what is proved of them
  for hooks that leave the goals alone holds there once this hook is shown to do so.
\<close>

section \<open>The hook\<close>

text \<open>The chain file as the chain tools see it, and what they leave in its place.\<close>

fun chain_content :: "json_file \<Rightarrow> file_content" where
  "chain_content Missing = Absent"
| "chain_content (Holds v) = Doc v"
| "chain_content _ = Garbage"

definition chain_back :: "json_file \<Rightarrow> file_content \<Rightarrow> json_file" where
  "chain_back old f = (case f of Doc v \<Rightarrow> Holds v | _ \<Rightarrow> old)"

definition seen_chain :: "goal_world \<Rightarrow> chain_world" where
  "seen_chain w = \<lparr>chain_file = chain_content (gw_chain w), aggregate_file = None\<rparr>"

definition start_payload :: "string \<Rightarrow> string \<Rightarrow> string \<Rightarrow> json" where
  "start_payload repo n goal = jobj
     [(''repo_root'', JStr repo), (''operation'', JStr ''start''), (''task_id'', JStr n), (''goal'', JStr goal),
      (''drive_until_done'', JBool True)]"

text \<open>
  The tasks that became ready are started one after the other, each with the title it has in the
  chain that is read again; a start that is refused, and a chain that cannot be read, is passed
  over, and the first task that was started is the answer.
\<close>

fun start_ready :: "goal_env \<Rightarrow> string \<Rightarrow> string list \<Rightarrow> goal_world \<Rightarrow> string option \<times> goal_world" where
  "start_ready env repo [] w = (None, w)"
| "start_ready env repo (n # rest) w =
     (case load_for_tool (seen_chain w) of
        Inl _ \<Rightarrow> start_ready env repo rest w
      | Inr r \<Rightarrow>
          (case framework_goal_drive env (start_payload repo n (or_default n (Option.bind (task_by_id r n) title))) w of
             (Inl _, w') \<Rightarrow> start_ready env repo rest w'
           | (Inr _, w') \<Rightarrow> (case start_ready env repo rest w' of (_, w2) \<Rightarrow> (Some n, w2))))"

text \<open>An advance that fails is logged and counts as one without a next task.\<close>

definition after_goal_complete_hook :: "chain_env \<Rightarrow> goal_env \<Rightarrow> string \<Rightarrow> string \<Rightarrow> goal_world \<Rightarrow> string option \<times> goal_world" where
  "after_goal_complete_hook cenv env repo t w =
     (case auto_advance_chain cenv t (seen_chain w) of
        (cw, r) \<Rightarrow> (let w' = w\<lparr>gw_chain := chain_back (gw_chain w) (chain_file cw)\<rparr> in
          case r of
            Inl _ \<Rightarrow> (None, w')
          | Inr ready \<Rightarrow> if ready = [] then (None, w') else start_ready env repo ready w'))"

text \<open>
  The surroundings with the hooks of the runtime: the quality gate is a parameter, and the starts
  run in surroundings of their own, which are arbitrary, since a start consults no hook.
\<close>

definition with_runtime_hooks ::
  "(json \<Rightarrow> goal_world \<Rightarrow> (string + json) \<times> goal_world) \<Rightarrow> chain_env \<Rightarrow> goal_env \<Rightarrow> string \<Rightarrow> goal_env \<Rightarrow> goal_env" where
  "with_runtime_hooks gate cenv nested repo env =
     env\<lparr>ge_hooks := Some \<lparr>gh_gate = gate, gh_after = after_goal_complete_hook cenv nested repo\<rparr>\<rparr>"

section \<open>What it does\<close>

lemma start_payload_get:
  "jget_with f (start_payload repo n goal) k = Option.bind (((map_of [])(''repo_root'' \<mapsto> JStr repo, ''operation'' \<mapsto> JStr ''start'',
     ''task_id'' \<mapsto> JStr n, ''goal'' \<mapsto> JStr goal, ''drive_until_done'' \<mapsto> JBool True)) k) f"
  "jget (start_payload repo n goal) k = ((map_of [])(''repo_root'' \<mapsto> JStr repo, ''operation'' \<mapsto> JStr ''start'',
     ''task_id'' \<mapsto> JStr n, ''goal'' \<mapsto> JStr goal, ''drive_until_done'' \<mapsto> JBool True)) k"
  by (simp_all only: start_payload_def jobj_def foldl.simps prod.case jget_with_simps jget.simps map_of_jput)

lemma start_payload_fields:
  "flag_of True (start_payload repo n goal) ''drive_until_done''"
  "value_string_list (start_payload repo n goal) ''non_goals'' = []"
  "goal_operation (start_payload repo n goal) = ''start''"
proof -
  show "goal_operation (start_payload repo n goal) = ''start''"
    unfolding goal_operation_def start_payload_get by code_simp
qed (simp_all add: flag_of_def or_default_def value_string_list_def start_payload_get)

definition refuses :: "'a goal_step \<Rightarrow> goal_world \<Rightarrow> bool" where
  "refuses m w \<longleftrightarrow> (\<exists>e. m w = (Inl e, w))"

lemma refuses_bind:
  "snd (m w) = w \<Longrightarrow> (\<And>a. m w = (Inr a, w) \<Longrightarrow> refuses (f a) w) \<Longrightarrow> refuses (sbind m f) w"
  by (cases "m w"; cases "fst (m w)") (auto simp: refuses_def sbind_def)

lemma refuses_fail [simp]: "refuses (sfail k e) w"
  by (simp add: refuses_def sfail_def)

lemma reads_only [simp]:
  "snd (sread f w) = w" "snd (srequire c e w) = w" "snd (checked_task_id p w) = w"
  by (auto simp: sread_def srequire_def checked_task_id_def sbind_def sret_def split: sum.split)

lemma start_refused: "\<exists>e. framework_goal_drive env (start_payload repo n goal) w = (Inl e, w)"
proof -
  let ?p = "start_payload repo n goal"
  have "\<exists>e. started_goal env ?p g = Inl e" for g
    by (simp add: started_goal_def start_payload_fields validate_drive_contract_def
      count_nonempty_string_items_def count_where_def Let_def)
  then have no_start: "started_goal env ?p g \<noteq> Inr m" for g m by (metis sum.distinct(1))
  have "refuses (goal_start env ?p) w"
    unfolding goal_start_def
    by (rule refuses_bind, rule reads_only)+ (simp add: sread_def no_start)
  then have "refuses (framework_goal_drive_impl env ?p) w"
    unfolding framework_goal_drive_impl_def goal_request_def
    by (intro refuses_bind reads_only) (simp add: start_payload_fields)
  then have "refuses (framework_goal_drive env ?p) w"
    unfolding framework_goal_drive_def
    by (auto simp: start_payload_fields intro: refuses_bind)
  then show ?thesis by (simp add: refuses_def)
qed

lemma start_ready_none: "start_ready env repo ns w = (None, w)"
proof (induction ns)
  case (Cons n ns)
  show ?case
  proof (cases "load_for_tool (seen_chain w)")
    case (Inr r)
    obtain e where "framework_goal_drive env (start_payload repo n (or_default n (Option.bind (task_by_id r n) title))) w = (Inl e, w)"
      using start_refused by blast
    then show ?thesis using Cons Inr by simp
  qed (use Cons in simp)
qed simp

text \<open>
  The hook starts nothing: it advances the chain, which may then list tasks as running, but every
  start it asks for is refused, as it asks for a driven goal and names no contract; so it answers no
  next task, and changes nothing but the chain.
\<close>

theorem hook_starts_no_goal:
  "after_goal_complete_hook cenv env repo t w =
     (None, w\<lparr>gw_chain := chain_back (gw_chain w) (chain_file (fst (auto_advance_chain cenv t (seen_chain w))))\<rparr>)"
  by (simp add: after_goal_complete_hook_def start_ready_none Let_def split: prod.split sum.split)

text \<open>For one, the tasks it lists as running in the chain of the samples have no goal.\<close>

lemma running_without_goal:
  "\<exists>r. after_goal_complete_hook demo_env quiet_env ''r'' ''a'' (empty_world\<lparr>gw_chain := Holds (chain_json demo_chain)\<rparr>) =
     (None, empty_world\<lparr>gw_chain := Holds (chain_json r)\<rparr>) \<and> list_ex (\<lambda>t. status t = Running) (tasks r)"
proof -
  let ?a = "advance_dag demo_parse 3 id id [] demo_chain"
  have loaded: "load_for_tool \<lparr>chain_file = Doc (chain_json demo_chain), aggregate_file = None\<rparr> = Inr demo_chain"
    using load_written [OF demo_storable] by (simp add: load_for_tool_def write_chain_file_def)
  have marked: "mark_chain_completed ''3'' ''a'' demo_chain = demo_chain" by code_simp
  have outputs: "load_condition_task_outputs (\<lambda>tid. Inr None :: (unit, task_output option) result) demo_chain = []" by code_simp
  have "fst (auto_advance_chain demo_env ''a'' \<lparr>chain_file = Doc (chain_json demo_chain), aggregate_file = None\<rparr>) =
      \<lparr>chain_file = Doc (chain_json (fst ?a)), aggregate_file = None\<rparr>"
    by (simp add: auto_advance_chain_def loaded demo_env_def marked outputs store_chain_def write_chain_file_def
      Let_def case_prod_unfold)
  moreover have "list_ex (\<lambda>t. status t = Running) (tasks (fst ?a))" by code_simp
  ultimately show ?thesis by (auto simp: hook_starts_no_goal seen_chain_def chain_back_def)
qed

lemma runtime_hooks_keep_goals:
  "(\<forall>p w. gw_goals (snd (gate p w)) = gw_goals w) \<Longrightarrow> hooks_keep_goals (with_runtime_hooks gate cenv nested repo env)"
  by (simp add: hooks_keep_goals_def with_runtime_hooks_def hook_starts_no_goal)

text \<open>
  So the requests of the running program keep to the life of goals, and no request changes the goal of another task,
  whatever tasks the chain has ready, when the quality gate leaves the goals alone.
\<close>

interpretation runtime: tame_hooks "with_runtime_hooks (\<lambda>p w. (verdict p w, w)) cenv nested repo env"
  for verdict cenv nested repo env
  by unfold_locales (simp add: runtime_hooks_keep_goals)

lemma other_goals_stay:
  assumes "\<forall>p w. gw_goals (snd (gate p w)) = gw_goals w" "u \<noteq> request_task p"
  shows "hget (gw_goals (snd (framework_goal_drive (with_runtime_hooks gate cenv nested repo env) p w))) u = hget (gw_goals w) u"
  using goal_relation.request_moves [OF edits_relation [where p = p, OF runtime_hooks_keep_goals [OF assms(1)]], where w = w] assms(2)
  by (simp add: edits_only_def)

end
