(* ===== verification/Spec2Isabelle.thy ===== *)
theory Spec2Isabelle
  imports Chain_Operations Job_Life Job_Requests Proof_Dag_Editing Loop_Outcomes Goal_Append Goal_Hooks
begin

text \<open>
  A verification library for the coordination layer of a toolbox that lets coding agents work on
  long tasks: a scheduler for chains of dependent tasks, a store of background jobs and of the
  sessions they own, a loop engine that runs subagents under supervision, a blueprint of proofs, and
  the goals these serve. They are Rust crates under \<^verbatim>\<open>src/core\<close>; each is translated definition by definition,
  with the names of the source, and the theorems say what it keeps and decides.

  \<^bold>\<open>How the parts of the program interact.\<close> A goal is worked on by tasks. The state
  manager (\<^verbatim>\<open>core-state\<close>) keeps one goal document per task, two pointers to the tasks at work and, for every
  task, a ledger of transactions from which the view of a task is replayed. A chain
  (\<^verbatim>\<open>chain-engine\<close>) orders tasks by their dependencies; the tools of the MCP server
  (\<^verbatim>\<open>host-projection\<close>, \<^verbatim>\<open>chain_tools.rs\<close>) create it, advance it and record completions in a chain
  file, and roll up the documents the tasks leave behind (\<^verbatim>\<open>core-state\<close>, \<^verbatim>\<open>task_output.rs\<close> and
  \<^verbatim>\<open>chain_output.rs\<close>). Long-running work is registered as background jobs (\<^verbatim>\<open>runtime-storage\<close>,
  \<^verbatim>\<open>background_state\<close>), each of which may own a session that another job can ask to take over. The
  loop engine (\<^verbatim>\<open>goal-engine\<close>) runs the actions of a registered loop as subprocesses, polls them
  for their end and for signals, checks what they changed against their scope and their safety
  level, and judges the closeout record an action left by the rules R1 to R8
  (\<^verbatim>\<open>core-state\<close>, \<^verbatim>\<open>closeout_validation.rs\<close>). The research harness keeps an AND-OR graph of proof
  obligations (\<^verbatim>\<open>research-harness\<close>, \<^verbatim>\<open>proof_dag.rs\<close>) whose leaves are decided by engines.

  \<^bold>\<open>Shared ground.\<close>
  \<^item> \<^verbatim>\<open>Prelude\<close>: machine integers, the variants of \<^verbatim>\<open>FrameworkError\<close> (\<^verbatim>\<open>core-errors\<close>), hash maps as
    association lists with the locale \<^verbatim>\<open>map_interface\<close> and its interpretation \<^verbatim>\<open>hm\<close>, updates of the
    first matching element, decimal printing, and the locales \<^verbatim>\<open>invariant_machine\<close> and
    \<^verbatim>\<open>absorbing_machine\<close> on step relations.
  \<^item> \<^verbatim>\<open>Text\<close>: trimming, splitting and replacing in UTF-8 text. Strings are lists of bytes, so length,
    equality and order are those of Rust.
  \<^item> \<^verbatim>\<open>Float64\<close>: \<^verbatim>\<open>f64\<close> with its rounding written out. \<^verbatim>\<open>Json\<close>: serde_json's \<^verbatim>\<open>Value\<close>. \<^verbatim>\<open>Serde\<close>: the
    readers and printers that serde derives.

  \<^bold>\<open>Chains\<close> (crate \<^verbatim>\<open>chain-engine\<close>, \<^verbatim>\<open>chain_tools.rs\<close>, two files of \<^verbatim>\<open>core-state\<close>).
  \<^item> \<^verbatim>\<open>Chain_Types\<close> (\<^verbatim>\<open>types.rs\<close>), \<^verbatim>\<open>Chain_Validate\<close> (\<^verbatim>\<open>validate_dag\<close> and the cycle search of
    \<^verbatim>\<open>scheduler.rs\<close>), \<^verbatim>\<open>Chain_Scheduler\<close> (the rest of \<^verbatim>\<open>scheduler.rs\<close>), \<^verbatim>\<open>Chain_Tracker\<close>
    (\<^verbatim>\<open>tracker.rs\<close>), \<^verbatim>\<open>Chain_Json\<close> (the serialised form, \<^verbatim>\<open>lib.rs\<close>), \<^verbatim>\<open>Task_Output\<close> and \<^verbatim>\<open>Chain_Output\<close>
    (the documents of tasks and chains), \<^verbatim>\<open>Chain_Tools\<close> (the tools and the automatic advance, on a
    world of two files).
  \<^item> \<^verbatim>\<open>Chain_Validate\<close> proves that validation accepts exactly the acyclic chains with distinct ids and
    known references, and that a validated chain with work left has a task that can be started.
  \<^item> \<^verbatim>\<open>Chain_Scheduling\<close> shows what one step starts: never more than the caps allow, never a task
    with an open gate, and never less than the capacity allows, for every iteration order of the map of
    groups. \<^verbatim>\<open>Chain_Tracking\<close> shows the effect of timeouts and of each failure strategy.
  \<^item> \<^verbatim>\<open>Chain_Lifecycle\<close> has the abstract life of a task (\<^verbatim>\<open>task_step\<close>), proves that every tool moves
    every task along it, and derives through the locale \<^verbatim>\<open>chain_invariant\<close> what every sequence of
    operations (\<^verbatim>\<open>chain_op\<close>) keeps: the plan, completed tasks, the bound on attempts.
    \<^verbatim>\<open>Chain_Machine\<close> states this for runs, \<^verbatim>\<open>Chain_Operations\<close> shows single operations.

  \<^bold>\<open>Background jobs\<close> (crate \<^verbatim>\<open>runtime-storage\<close>).
  \<^item> \<^verbatim>\<open>Job_Types\<close> (\<^verbatim>\<open>types.rs\<close>), \<^verbatim>\<open>Job_Status\<close> (\<^verbatim>\<open>status.rs\<close>), \<^verbatim>\<open>Job_Backend\<close> (\<^verbatim>\<open>backend.rs\<close>,
    \<^verbatim>\<open>control_plane.rs\<close>), \<^verbatim>\<open>Job_Store\<close> (the operations of \<^verbatim>\<open>store.rs\<close> on its maps), \<^verbatim>\<open>Job_Service\<close> (load
    and persist for the three back ends, \<^verbatim>\<open>persist.rs\<close>, and the request handler).
  \<^item> \<^verbatim>\<open>Job_Status\<close> proves the transition table to be that of a machine with absorbing terminal states.
    \<^verbatim>\<open>Job_Life\<close> has the abstract life of one job and proves that every operation of the store
    refines it and that no step hands a session from one owner to another. \<^verbatim>\<open>Job_Sessions\<close> shows who owns a session after an operation, \<^verbatim>\<open>Job_Loading\<close> the effect of
    reaping, merging and compaction, \<^verbatim>\<open>Job_Requests\<close> that a persisted store is loaded again, for every back end, and what
    a request may write.

  \<^bold>\<open>Loops\<close> (crate \<^verbatim>\<open>goal-engine\<close>, with \<^verbatim>\<open>closeout_validation.rs\<close> and \<^verbatim>\<open>goal_prediction.rs\<close> of \<^verbatim>\<open>core-state\<close>).
  \<^item> \<^verbatim>\<open>Loop_Types\<close> (\<^verbatim>\<open>types.rs\<close>), \<^verbatim>\<open>Loop_State\<close> (phases and runs, \<^verbatim>\<open>state.rs\<close>), \<^verbatim>\<open>Loop_Safety\<close>
    (\<^verbatim>\<open>safety.rs\<close>), \<^verbatim>\<open>Loop_Drift\<close> (\<^verbatim>\<open>drift.rs\<close>), \<^verbatim>\<open>Loop_Signals\<close> (signals, pause states and the lock,
    \<^verbatim>\<open>kill_switch.rs\<close>), \<^verbatim>\<open>Closeout_Rules\<close> (the rules), \<^verbatim>\<open>Loop_Closeout\<close> (\<^verbatim>\<open>closeout.rs\<close>), \<^verbatim>\<open>Loop_World\<close>
    (the files of a loop as one record), \<^verbatim>\<open>Loop_Dispatch\<close> (\<^verbatim>\<open>dispatcher.rs\<close>), \<^verbatim>\<open>Loop_Report\<close>
    (\<^verbatim>\<open>report.rs\<close>), \<^verbatim>\<open>Loop_Actions\<close> and \<^verbatim>\<open>Loop_Runner\<close> (\<^verbatim>\<open>runner.rs\<close>).
  \<^item> A loop run is a function of the world, the environment and a list of turns: between two looks
    at the world, at a poll of a subprocess or of a pause, the next turn is applied to it, and it
    may be any function, so that other processes write signals, the subprocess ends and the
    clocks advance as they like. When the turns are used up the process has died: the outcome is
    \<^verbatim>\<open>Died\<close> with the world as it then is. A panic has the same outcome, since the release profile
    aborts. So a theorem about all turns covers crashes at every poll.
  \<^item> \<^verbatim>\<open>Loop_Invariants\<close> has the locale \<^verbatim>\<open>run_invariant\<close>: a predicate on worlds that the turns and the few
    changes of the runner keep is kept by a whole run; \<^verbatim>\<open>state_invariant\<close> extends it to predicates on
    the run state. \<^verbatim>\<open>Loop_Properties\<close> interprets them and shows that the lock is kept against rivals that try
    to acquire it, what the verdict of a run is, the quality gate included, that the
    circuit breaker never fires, what a run leaves on disk, and the type of the stored state.
    \<^verbatim>\<open>Loop_Outcomes\<close> shows when an action counts as committed, what a checkpoint saves and what a kill signal ends.
    \<^verbatim>\<open>Closeout_Rules\<close> proves the evaluator equal to a reference that states the rules directly.

  \<^bold>\<open>Proof blueprints\<close> (crate \<^verbatim>\<open>research-harness\<close>).
  \<^item> \<^verbatim>\<open>Proof_Dag\<close> (\<^verbatim>\<open>proof_dag.rs\<close>) and \<^verbatim>\<open>Proof_Dag_Json\<close> (\<^verbatim>\<open>proof_dag_serialize.rs\<close> and the tools of
    \<^verbatim>\<open>mcp_tools/proof_dag.rs\<close>).
  \<^item> \<^verbatim>\<open>Proof_Dag_Facts\<close> and \<^verbatim>\<open>Proof_Dag_Properties\<close> show that verification decides derivability in the
    graph (\<^verbatim>\<open>proved\<close>), and what it records; \<^verbatim>\<open>Proof_Dag_Editing\<close> treats decomposition and backtracking
    (\<^verbatim>\<open>descends\<close>, \<^verbatim>\<open>grown\<close>), when the walks over the leaves return, and the round trip.

  \<^bold>\<open>Goals\<close> (crate \<^verbatim>\<open>core-state\<close>: \<^verbatim>\<open>goal_ops.rs\<close>, \<^verbatim>\<open>pointer_ops.rs\<close>, \<^verbatim>\<open>validation.rs\<close> and \<^verbatim>\<open>mod.rs\<close> of \<^verbatim>\<open>state_manager\<close>,
  \<^verbatim>\<open>task_ledger.rs\<close>, \<^verbatim>\<open>task_state.rs\<close>, \<^verbatim>\<open>transition_validation.rs\<close>; \<^verbatim>\<open>jsonl_maintenance.rs\<close> of \<^verbatim>\<open>core-state-utils\<close>).
  \<^item> \<^verbatim>\<open>Files\<close> and \<^verbatim>\<open>Jsonl\<close>: files that hold a JSON value, and files of JSON lines with the repair of
    their tail and their compaction. A line is a value or does not parse.
  \<^item> \<^verbatim>\<open>Goal_World\<close> has the documents of all tasks as one record and the steps over it: a step ends in an
    error or a value, and every write consults a list that says whether it takes place and is
    reported. \<^verbatim>\<open>Goal_Pointers\<close> (\<^verbatim>\<open>pointer_ops.rs\<close>), \<^verbatim>\<open>Goal_Ledger\<close> (\<^verbatim>\<open>task_ledger.rs\<close>), \<^verbatim>\<open>Goal_Research\<close>
    (\<^verbatim>\<open>validation.rs\<close>), \<^verbatim>\<open>Goal_View\<close> (\<^verbatim>\<open>task_state.rs\<close>), \<^verbatim>\<open>Goal_State\<close> (what an operation makes of a goal, and
    \<^verbatim>\<open>transition_validation.rs\<close>), \<^verbatim>\<open>Goal_Drive\<close> (\<^verbatim>\<open>framework_goal_drive\<close> with all its operations).
  \<^item> \<^verbatim>\<open>Goal_Logic\<close> has the rules for steps: \<^verbatim>\<open>world_moves\<close>, a relation every step of an operation obeys, with
    the locale \<^verbatim>\<open>world_relation\<close>, and \<^verbatim>\<open>outcome_meets\<close> for what an answer or an error tells.
    \<^verbatim>\<open>Goal_Edits\<close> states each operation as an edit of the stored goal (\<^verbatim>\<open>goal_edit\<close>) and proves in the
    locale \<^verbatim>\<open>goal_relation\<close> that a request is an edit; \<^verbatim>\<open>Goal_Answers\<close> that an answered request is
    applied and a refused one is not.
  \<^item> \<^verbatim>\<open>Goal_Life\<close> has the abstract life of a goal (\<^verbatim>\<open>goal_life\<close>), which the edits refine, and the
    locale \<^verbatim>\<open>goal_invariant\<close> for predicates on goals that every sequence of requests keeps.
    \<^verbatim>\<open>Goal_Properties\<close> states what follows for requests. \<^verbatim>\<open>Goal_Replay\<close> shows that compaction keeps what is
    replayed; \<^verbatim>\<open>Goal_Append\<close> that an append keeps the chain of fingerprints, and what the view of a task does not notice.
  \<^item> \<^verbatim>\<open>Goal_Hooks\<close> has the hook the runtime calls after a completed iteration (\<^verbatim>\<open>lib.rs\<close> of \<^verbatim>\<open>runtime-core\<close> and \<^verbatim>\<open>tools.rs\<close> of the MCP
    server): it advances the chain and requests the start of the tasks that became ready. The requests on
    goals take their hooks as parameters, and what is proved of them asks that the hooks leave the
    goals alone; \<^verbatim>\<open>hook_starts_no_goal\<close> shows that this hook does, as every start it requests is refused.

  \<^bold>\<open>Termination.\<close> No definition takes fuel; the append of a ledger line counts its tries, three as in
  the source. The cycle search of the chain validation, the sweep of the scheduler, the verification of a node and the execution of an action have measures; the polls recurse on
  the turns (and return within their deadline, \<^verbatim>\<open>poll_ends\<close>). Compaction of
  the job store is a \<^verbatim>\<open>partial_function (option)\<close> that \<^verbatim>\<open>compaction_effect\<close> shows to return. The walks over
  the leaves of a blueprint do not return on a cyclic graph; they are \<^verbatim>\<open>partial_function (option)\<close> and \<^verbatim>\<open>None\<close> there, which
  \<^verbatim>\<open>leaf_counts_terminates\<close> and \<^verbatim>\<open>grown_verifies\<close> rule out for graphs without a cycle.

  \<^bold>\<open>Parameters.\<close> What is not under \<^verbatim>\<open>src\<close> or is not determined by the source is an argument:
  chrono's parsers and printers, readings of clocks, iteration orders of hash maps, \<^verbatim>\<open>powi\<close>,
  whether a write, a lock or a database call succeeds, canonical paths, the text of a JSON value, the proof
  engines and two regular expressions, Unicode's alphanumeric code points, repair of invalid
  UTF-8, the wording of error messages and of scores, the quality gate hook, the fingerprint of a ledger line, the times of goal files and what
  \<^verbatim>\<open>git checkout\<close> does. Theorems hold for all of them unless they name what they need.

  \<^bold>\<open>Granularity.\<close> A file of JSON holds the value that was written, so floats are read back exactly where
  the tools and the ledger load what they wrote, the rehashing and compaction of a ledger included; \<^verbatim>\<open>chain_file_roundtrip\<close> makes the
  floats a parser reads a parameter. The acquisition of the lock of a loop is one step, up to a rival that creates the file at the
  same moment: two processes that remove the same stale lock at once are not expressed. The
  output of a subprocess that has ended is collected without a further wait. The operations of a chain
  (\<^verbatim>\<open>chain_op\<close>) are whole tool calls one after the other on one chain; the initialisation, which replaces the
  chain, is defined but is not one of them, and the advance of the task tools (\<^verbatim>\<open>task_tools.rs\<close>) is not modelled.

  \<^bold>\<open>Not modelled.\<close> Log messages and the wording of errors; serialised forms where no code looks
  into them; the limit on concurrent subprocesses and their resource limits, which act through the
  operating system; the signalling of all loops at once. Of \<^verbatim>\<open>core-state\<close> the step
  ledger, the scrubbing of task directories, the capture of evidence and the integrity checks that only log; concurrent goal
  requests, which the task lock keeps apart; the routing crates; the session supervisor; the
  command line; the remaining host projections, which generate configuration files; the research
  engines; the code graph and the document tools, which rest on third-party parsers; the skill
  layer, evaluation, tracing and networking.
\<close>

end
